(* ===== verification/Go_Prelude.thy ===== *)
theory Go_Prelude
  imports Main "HOL-Library.AList" "HOL-Library.Word" "HOL-Library.Char_ord"
    "HOL-Library.List_Lexorder"
begin

unbundle bit_operations_syntax

text \<open>
  The part of Go and of its standard library that the modelled code uses, and the generic lemmas
  the components share.

  \<^item> A Go \<^verbatim>\<open>map[K]V\<close> is an association list with distinct keys (\<open>wf_map\<close>); a read is
    \<open>map_of\<close>, a write \<open>AList.update\<close>, a \<^verbatim>\<open>delete\<close> \<open>AList.delete\<close>. Two lists stand for the same
    map when their \<open>map_of\<close> agree. The runtime ranges over a map in an unspecified order:
    code whose result depends on it takes the order as an argument, and theorems quantify over
    every order (\<open>map_order\<close>).
  \<^item> An \<^verbatim>\<open>interface{}\<close> holding decoded JSON or a CEL result is a \<open>val\<close>. A float64 is its
    IEEE-754 bit pattern: no modelled code computes with one.
  \<^item> A byte slice holding a JSON document (\<^verbatim>\<open>apiextensionsv1.JSON.Raw\<close>) is a \<open>raw_json\<close>: empty,
    malformed, or the value it decodes to, so that encoding/json is \<open>marshal\<close> and \<open>unmarshal\<close>.
    Strings are taken to be valid UTF-8, and a nil map is an empty one unless the code tells them apart.
  \<^item> An \<^verbatim>\<open>error\<close> is its message and the sentinels and API status reasons its chain wraps
    (\<^verbatim>\<open>errors.Is\<close>, \<^verbatim>\<open>errors.As\<close>, \<^verbatim>\<open>apierrors.IsNotFound\<close>); a fallible call returns \<open>'a result\<close>.
  \<^item> A Go string is a byte string, HOL's \<open>string\<close>.
\<close>

named_theorems go_defs "definitions of the standard library model, for unfolding"

subsection \<open>Values\<close>

datatype val =
    VNil
  | VBool bool
  | VInt int
  | VFloat "64 word"
  | VString string
  | VStrings "string list"
  | VList "val list"
  | VMap "(string \<times> val) list"

type_synonym gomap = "(string \<times> val) list"

text \<open>Type assertions \<^verbatim>\<open>v.(T)\<close> in their two-result form.\<close>

fun as_map :: "val option \<Rightarrow> gomap option" where
  "as_map (Some (VMap m)) = Some m"
| "as_map _ = None"

fun as_bool :: "val \<Rightarrow> bool option" where
  "as_bool (VBool b) = Some b"
| "as_bool _ = None"

fun as_string :: "val \<Rightarrow> string option" where
  "as_string (VString s) = Some s"
| "as_string _ = None"

fun as_list :: "val option \<Rightarrow> val list option" where
  "as_list (Some (VList l)) = Some l"
| "as_list _ = None"

datatype raw_json = RawEmpty | RawBad | RawDoc val

text \<open>
  What encoding/json does to a value: a NaN or an infinity is an error (\<open>json_ok\<close>), and what a
  document decodes to has float64 numbers and generic slices only (\<open>json_norm\<close>). The conversion of
  an integer is IEEE-754 rounding to nearest, ties to even.
\<close>

fun bit_len :: "nat \<Rightarrow> nat" where
  "bit_len n = (if n = 0 then 0 else Suc (bit_len (n div 2)))"

declare bit_len.simps [simp del]

definition float64_of_nat :: "nat \<Rightarrow> nat" where
  "float64_of_nat m =
     (if m = 0 then 0
      else let e = bit_len m - 1 in
        if e \<le> 52 then (e + 1023) * 2 ^ 52 + (m * 2 ^ (52 - e) - 2 ^ 52)
        else let shift = e - 52; q = m div 2 ^ shift; r = m mod 2 ^ shift;
                 q' = (if 2 ^ shift < 2 * r \<or> 2 * r = 2 ^ shift \<and> odd q then q + 1 else q)
             in (e + 1023) * 2 ^ 52 + (q' - 2 ^ 52))"

definition float64_of_int :: "int \<Rightarrow> 64 word" where
  "float64_of_int i =
     (if i < 0 then of_nat (2 ^ 63 + float64_of_nat (nat (- i))) else of_nat (float64_of_nat (nat i)))"

definition float_finite :: "64 word \<Rightarrow> bool" where
  "float_finite w \<longleftrightarrow> drop_bit 52 w AND 0x7FF \<noteq> 0x7FF"

fun json_ok :: "val \<Rightarrow> bool" and json_ok_entries :: "(string \<times> val) list \<Rightarrow> bool"
  and json_ok_items :: "val list \<Rightarrow> bool" where
  "json_ok (VFloat w) = float_finite w"
| "json_ok (VList l) = json_ok_items l"
| "json_ok (VMap m) = json_ok_entries m"
| "json_ok _ = True"
| "json_ok_entries [] = True"
| "json_ok_entries ((k, v) # m) = (json_ok v \<and> json_ok_entries m)"
| "json_ok_items [] = True"
| "json_ok_items (v # l) = (json_ok v \<and> json_ok_items l)"

fun json_norm :: "val \<Rightarrow> val" and json_norm_entries :: "(string \<times> val) list \<Rightarrow> (string \<times> val) list"
  and json_norm_items :: "val list \<Rightarrow> val list" where
  "json_norm (VInt i) = VFloat (float64_of_int i)"
| "json_norm (VStrings l) = VList (map VString l)"
| "json_norm (VList l) = VList (json_norm_items l)"
| "json_norm (VMap m) = VMap (json_norm_entries m)"
| "json_norm v = v"
| "json_norm_entries [] = []"
| "json_norm_entries ((k, v) # m) = (k, json_norm v) # json_norm_entries m"
| "json_norm_items [] = []"
| "json_norm_items (v # l) = json_norm v # json_norm_items l"

definition marshal :: "val \<Rightarrow> raw_json option" where
  [go_defs]: "marshal v = (if json_ok v then Some (RawDoc (json_norm v)) else None)"

fun unmarshal :: "raw_json \<Rightarrow> val option" where
  "unmarshal (RawDoc v) = Some v"
| "unmarshal _ = None"

text \<open>\<^verbatim>\<open>json.Unmarshal\<close> into a \<^verbatim>\<open>map[string]interface{}\<close>: an object, or JSON null (a nil map).\<close>

fun unmarshal_map :: "raw_json \<Rightarrow> gomap option" where
  "unmarshal_map (RawDoc (VMap m)) = Some m"
| "unmarshal_map (RawDoc VNil) = Some []"
| "unmarshal_map _ = None"

lemma json_norm_items_map [simp]: "json_norm_items l = map json_norm l"
  by (induction l) auto

lemma json_norm_idem:
  "json_norm (json_norm v) = json_norm v"
  "json_norm_entries (json_norm_entries m) = json_norm_entries m"
  "map json_norm (map json_norm l) = map json_norm l"
proof (induction v and m and l rule: json_norm_json_norm_entries_json_norm_items.induct)
  case (2 l)
  then show ?case by (induction l) auto
qed simp_all

lemma unmarshal_marshal: "marshal v = Some r \<Longrightarrow> unmarshal r = Some (json_norm v)"
  by (auto simp: marshal_def split: if_splits)

lemma map_of_json_norm: "map_of (json_norm_entries m) k = map_option json_norm (map_of m k)"
  by (induction m) auto

subsection \<open>Maps\<close>

definition wf_map :: "('k \<times> 'v) list \<Rightarrow> bool" where
  "wf_map m \<longleftrightarrow> distinct (map fst m)"

definition has_key :: "('k \<times> 'v) list \<Rightarrow> 'k \<Rightarrow> bool" where
  [go_defs]: "has_key m k \<longleftrightarrow> map_of m k \<noteq> None"

text \<open>A read of an absent key gives the zero value of the element type.\<close>

definition get_or :: "'v \<Rightarrow> ('k \<times> 'v) list \<Rightarrow> 'k \<Rightarrow> 'v" where
  [go_defs]: "get_or z m k = (case map_of m k of None \<Rightarrow> z | Some v \<Rightarrow> v)"

text \<open>Writing every entry of a second map, one by one.\<close>

fun put_all :: "('k \<times> 'v) list \<Rightarrow> ('k \<times> 'v) list \<Rightarrow> ('k \<times> 'v) list" where
  "put_all m [] = m"
| "put_all m ((k, v) # r) = put_all (AList.update k v m) r"

text \<open>The orders in which a \<^verbatim>\<open>range\<close> over a map may visit its keys.\<close>

definition map_order :: "('k \<times> 'v) list \<Rightarrow> 'k list \<Rightarrow> bool" where
  "map_order m ks \<longleftrightarrow> distinct ks \<and> set ks = set (map fst m)"

lemma wf_map_Nil [simp]: "wf_map []"
  by (simp add: wf_map_def)

lemma wf_map_update [simp]: "wf_map m \<Longrightarrow> wf_map (AList.update k v m)"
  unfolding wf_map_def by (rule distinct_update)

lemma wf_map_delete [simp]: "wf_map m \<Longrightarrow> wf_map (AList.delete k m)"
  unfolding wf_map_def by (rule distinct_delete)

lemma map_of_update [simp]: "map_of (AList.update k v m) = (map_of m)(k \<mapsto> v)"
  by (rule update_conv')

lemma map_of_delete [simp]: "map_of (AList.delete k m) = (map_of m)(k := None)"
  by (rule delete_conv')

lemma keys_update [simp]: "fst ` set (AList.update k v m) = insert k (fst ` set m)"
  by (induction m) auto

lemma get_or_update [simp]:
  "get_or z (AList.update k v m) j = (if j = k then v else get_or z m j)"
  by (simp add: get_or_def)

lemma wf_map_put_all: "wf_map m \<Longrightarrow> wf_map (put_all m r)"
  by (induction m r rule: put_all.induct) simp_all

lemma map_of_put_all: "wf_map r \<Longrightarrow> map_of (put_all m r) = map_of m ++ map_of r"
proof (induction m r rule: put_all.induct)
  case (2 m k v r)
  then have "wf_map r" and fresh: "map_of r k = None"
    by (auto simp: wf_map_def map_of_eq_None_iff)
  with 2 have "map_of (put_all m ((k, v) # r)) = map_of (AList.update k v m) ++ map_of r"
    by (simp add: fun_upd_def)
  with fresh show ?case by (auto simp: map_add_def fun_eq_iff split: option.splits)
qed simp

lemma keys_put_all: "fst ` set (put_all m r) = fst ` set m \<union> fst ` set r"
  by (induction m r rule: put_all.induct) auto

lemma map_of_filter_keys: "map_of (filter (\<lambda>(k, v). P k) m) k = (if P k then map_of m k else None)"
  by (induction m) auto

lemma map_orderD: "map_order m ks \<Longrightarrow> k \<in> set ks \<longleftrightarrow> map_of m k \<noteq> None"
  by (auto simp: map_order_def map_of_eq_None_iff)

lemma map_order_keys: "wf_map m \<Longrightarrow> map_order m (map fst m)"
  by (simp add: map_order_def wf_map_def)

subsection \<open>Errors\<close>

datatype err_tag =
    ErrAwaitingCallback
  | ErrTransientBuild
  | ErrRequeueRunnerAccess
  | ErrSecretAccessDenied
  | ErrWorkflowRunCreateFailed
  | ErrCronInputValuesFrom
  | ErrCronInputKeyMissing
  | ErrRunnerRefUnresolved
  | ErrSecretValueNotFound
  | OsNotExist
  | NetworkError
  | ApiNotFound
  | ApiConflict
  | ApiAlreadyExists
  | ApiForbidden
  | ApiInvalid
  | ApiBadRequest
  | ApiServerTimeout
  | ApiOther nat
  | GoPanic
  | GoStackOverflow

datatype goerror = GoError (err_tags: "err_tag list") (err_msg: string)

type_synonym 'a result = "goerror + 'a"

text \<open>\<^verbatim>\<open>fmt.Errorf("...")\<close> and \<^verbatim>\<open>fmt.Errorf("...: %w", err)\<close>.\<close>

definition errorf :: "string \<Rightarrow> goerror" where
  [go_defs]: "errorf s = GoError [] s"

definition wrapf :: "string \<Rightarrow> goerror \<Rightarrow> goerror" where
  [go_defs]: "wrapf s e = GoError (err_tags e) (s @ err_msg e)"

definition errors_is :: "goerror \<Rightarrow> err_tag \<Rightarrow> bool" where
  [go_defs]: "errors_is e t \<longleftrightarrow> t \<in> set (err_tags e)"

text \<open>The idiom \<^verbatim>\<open>if err != nil { return ..., fmt.Errorf("...: %w", err) }\<close> and its use in a loop.\<close>

definition bindr :: "'a result \<Rightarrow> ('a \<Rightarrow> 'b result) \<Rightarrow> 'b result" where
  "bindr r f = (case r of Inl e \<Rightarrow> Inl e | Inr x \<Rightarrow> f x)"

definition wrap_err :: "string \<Rightarrow> 'a result \<Rightarrow> 'a result" where
  "wrap_err s r = (case r of Inl e \<Rightarrow> Inl (wrapf s e) | Inr x \<Rightarrow> Inr x)"

fun map_result :: "('a \<Rightarrow> 'b result) \<Rightarrow> 'a list \<Rightarrow> 'b list result" where
  "map_result f [] = Inr []"
| "map_result f (x # xs) = bindr (f x) (\<lambda>y. bindr (map_result f xs) (\<lambda>ys. Inr (y # ys)))"

lemma bindr_simps [simp]: "bindr (Inl e) f = Inl e" "bindr (Inr x) f = f x"
  by (simp_all add: bindr_def)

lemma bindr_Inr: "bindr r f = Inr y \<longleftrightarrow> (\<exists>x. r = Inr x \<and> f x = Inr y)"
  by (cases r) auto

lemma wrap_err_Inr [simp]: "wrap_err s r = Inr x \<longleftrightarrow> r = Inr x"
  by (cases r) (simp_all add: wrap_err_def)

lemma map_result_Inr:
  "map_result f xs = Inr ys \<Longrightarrow> list_all2 (\<lambda>x y. f x = Inr y) xs ys"
  by (induction xs arbitrary: ys) (auto simp: bindr_Inr)

lemma errors_is_wrapf [simp]: "errors_is (wrapf s e) t = errors_is e t"
  by (simp add: errors_is_def wrapf_def)

lemma errors_is_errorf [simp]: "\<not> errors_is (errorf s) t"
  by (simp add: errors_is_def errorf_def)

subsection \<open>Strings\<close>

text \<open>
  \<^verbatim>\<open>strings.ToLower\<close> on ASCII bytes (Kubernetes names are ASCII), \<^verbatim>\<open>ReplaceAll\<close> of one byte by
  another, \<^verbatim>\<open>TrimSuffix\<close>, \<^verbatim>\<open>HasPrefix\<close>, \<^verbatim>\<open>CutPrefix\<close>, \<^verbatim>\<open>Contains\<close>, \<^verbatim>\<open>Split\<close> on one byte.
\<close>

definition lower_byte :: "char \<Rightarrow> char" where
  [go_defs]: "lower_byte c =
     (if 65 \<le> (of_char c :: nat) \<and> (of_char c :: nat) \<le> 90 then char_of ((of_char c :: nat) + 32)
      else c)"

definition to_lower :: "string \<Rightarrow> string" where
  [go_defs]: "to_lower s = map lower_byte s"

definition replace_byte :: "char \<Rightarrow> char \<Rightarrow> string \<Rightarrow> string" where
  [go_defs]: "replace_byte a b s = map (\<lambda>c. if c = a then b else c) s"

definition has_prefix :: "string \<Rightarrow> string \<Rightarrow> bool" where
  [go_defs]: "has_prefix s p \<longleftrightarrow> take (length p) s = p"

definition cut_prefix :: "string \<Rightarrow> string \<Rightarrow> string option" where
  [go_defs]: "cut_prefix s p = (if has_prefix s p then Some (drop (length p) s) else None)"

definition trim_suffix :: "string \<Rightarrow> string \<Rightarrow> string" where
  [go_defs]: "trim_suffix s x =
     (if length x \<le> length s \<and> drop (length s - length x) s = x
      then take (length s - length x) s else s)"

fun contains :: "string \<Rightarrow> string \<Rightarrow> bool" where
  "contains [] p = (p = [])"
| "contains (c # s) p = (has_prefix (c # s) p \<or> contains s p)"

text \<open>\<^verbatim>\<open>strings.Split(s, sep)\<close> for a one-byte separator: always at least one part.\<close>

fun split_on :: "char \<Rightarrow> string \<Rightarrow> string list" where
  "split_on d [] = [[]]"
| "split_on d (c # s) =
     (if c = d then [] # split_on d s
      else (case split_on d s of [] \<Rightarrow> [[c]] | p # ps \<Rightarrow> (c # p) # ps))"

fun join_with :: "string \<Rightarrow> string list \<Rightarrow> string" where
  "join_with d [] = []"
| "join_with d [p] = p"
| "join_with d (p # ps) = p @ d @ join_with d ps"

lemma split_on_nonempty [simp]: "split_on d s \<noteq> []"
  by (induction s) (auto split: list.splits)

lemma join_split: "join_with [d] (split_on d s) = s"
proof (induction s)
  case (Cons c s)
  obtain p ps where p: "split_on d s = p # ps"
    by (cases "split_on d s") auto
  show ?case
    using Cons p by (cases ps) auto
qed simp

lemma split_on_parts: "p \<in> set (split_on d s) \<Longrightarrow> d \<notin> set p"
proof (induction s arbitrary: p)
  case (Cons c s)
  then show ?case by (auto split: if_splits list.splits)
qed simp

text \<open>Decimal and hexadecimal printing (\<^verbatim>\<open>%d\<close>, \<^verbatim>\<open>%x\<close>, \<^verbatim>\<open>%08x\<close>) and \<^verbatim>\<open>%q\<close> on strings that need no escape.\<close>

definition digit_char :: "nat \<Rightarrow> char" where
  "digit_char n = (if n < 10 then char_of (48 + n) else char_of (87 + n))"

fun digits_base :: "nat \<Rightarrow> nat \<Rightarrow> string" where
  "digits_base b n =
     (if b < 2 \<or> n < b then [digit_char n] else digits_base b (n div b) @ [digit_char (n mod b)])"

declare digits_base.simps [simp del]

definition utoa :: "nat \<Rightarrow> string" where
  "utoa n = digits_base 10 n"

definition itoa :: "int \<Rightarrow> string" where
  "itoa i = (if i < 0 then ''-'' @ utoa (nat (- i)) else utoa (nat i))"

definition hex_pad :: "nat \<Rightarrow> nat \<Rightarrow> string" where
  "hex_pad w n = (let s = digits_base 16 n in replicate (w - length s) (CHR ''0'') @ s)"

definition quote :: "string \<Rightarrow> string" where
  "quote s = [CHR 0x22] @ s @ [CHR 0x22]"

text \<open>\<^verbatim>\<open>hash/fnv\<close>: the 64-bit FNV-1a hash.\<close>

definition fnv64a :: "string \<Rightarrow> 64 word" where
  "fnv64a s = fold (\<lambda>c h. (h XOR of_nat (of_char c)) * 1099511628211) s 14695981039346656037"

lemma length_to_lower [simp]: "length (to_lower s) = length s"
  by (simp add: to_lower_def)

lemma length_replace_byte [simp]: "length (replace_byte a b s) = length s"
  by (simp add: replace_byte_def)

lemma replace_byte_notin: "a \<noteq> b \<Longrightarrow> a \<notin> set (replace_byte a b s)"
  by (auto simp: replace_byte_def)

lemma length_trim_suffix_le: "length (trim_suffix s x) \<le> length s"
  by (simp add: trim_suffix_def)

lemma trim_suffix_nth: "i + length x < length s \<Longrightarrow> trim_suffix s x ! i = s ! i"
  by (simp add: trim_suffix_def)

lemma length_trim_suffix_ge: "length s - length x \<le> length (trim_suffix s x)"
  by (simp add: trim_suffix_def)

lemma set_trim_suffix: "set (trim_suffix s x) \<subseteq> set s"
  by (auto simp: trim_suffix_def dest: in_set_takeD)

lemma has_prefix_append [simp]: "has_prefix (p @ s) p"
  by (simp add: has_prefix_def)

lemma has_prefix_iff: "has_prefix s p \<longleftrightarrow> (\<exists>r. s = p @ r)"
  by (metis append_eq_conv_conj append_take_drop_id has_prefix_def)

lemma cut_prefix_append [simp]: "cut_prefix (p @ s) p = Some s"
  by (simp add: cut_prefix_def)

lemma cut_prefix_Some: "cut_prefix s p = Some r \<longleftrightarrow> s = p @ r"
  by (auto simp: cut_prefix_def has_prefix_iff)

lemma digits_base_length:
  assumes "2 \<le> b" "n < b ^ k" "0 < k"
  shows "length (digits_base b n) \<le> k"
  using assms
proof (induction b n arbitrary: k rule: digits_base.induct)
  case (1 b n)
  show ?case
  proof (cases "n < b")
    case True
    with "1.prems" show ?thesis by (simp add: digits_base.simps [of b n])
  next
    case False
    with "1.prems" have k: "k \<noteq> 1" by (metis power_one_right)
    with "1.prems"(3) obtain k' where k': "k = Suc k'" "0 < k'" by (cases k) auto
    with "1.prems" have "n div b < b ^ k'"
      by (simp add: div_less_iff_less_mult mult.commute)
    with "1.IH" False "1.prems" k' have "length (digits_base b (n div b)) \<le> k'" by simp
    with False "1.prems" k' show ?thesis by (simp add: digits_base.simps [of b n])
  qed
qed

lemma digits_base_nonempty [simp]: "digits_base b n \<noteq> []"
  by (subst digits_base.simps) simp

lemma hex_pad_bounds:
  assumes "n < 16 ^ k" "0 < k" "w \<le> k"
  shows "w \<le> length (hex_pad w n) \<and> length (hex_pad w n) \<le> k"
  using digits_base_length [of 16 n k] assms by (auto simp: hex_pad_def Let_def)

subsection \<open>Lists\<close>

text \<open>A \<^verbatim>\<open>for\<close> loop that returns at the first error.\<close>

fun first_error :: "('a \<Rightarrow> goerror option) \<Rightarrow> 'a list \<Rightarrow> goerror option" where
  "first_error f [] = None"
| "first_error f (x # xs) = (case f x of Some e \<Rightarrow> Some e | None \<Rightarrow> first_error f xs)"

lemma first_error_None: "first_error f xs = None \<longleftrightarrow> (\<forall>x\<in>set xs. f x = None)"
  by (induction xs) (auto split: option.splits)

lemma first_error_Some: "first_error f xs = Some e \<Longrightarrow> \<exists>x\<in>set xs. f x = Some e"
  by (induction xs) (auto split: option.splits)

end
