(* ===== verification/Api_Types.thy ===== *)
theory Api_Types
  imports Go_Prelude
begin

text \<open>
  The custom resources of package \<^verbatim>\<open>api/v1alpha1\<close>: a record per struct, with the fields of the
  source in its order (field \<^verbatim>\<open>F\<close> of struct \<^verbatim>\<open>T\<close> is \<open>T_F\<close>), and the methods of those types.
  A pointer field is an \<open>option\<close>, a map an association list. Values of Kubernetes types the code
  only passes through (resource requirements, node selectors, tolerations, affinity, label
  selectors) are \<open>val\<close>; times are Unix times and durations, in nanoseconds. Enumerated strings that the
  code compares are datatypes with a constructor for the empty string, the zero value.
\<close>

subsection \<open>Kubernetes types the code reads\<close>

record SecretKeySelector =
  SecretKeySelector_Name :: string
  SecretKeySelector_Key :: string
  SecretKeySelector_Optional :: "bool option"

record EnvVarSource =
  EnvVarSource_FieldRef :: "string option"
  EnvVarSource_ResourceFieldRef :: "val option"
  EnvVarSource_ConfigMapKeyRef :: "val option"
  EnvVarSource_SecretKeyRef :: "SecretKeySelector option"

record EnvVar =
  EnvVar_Name :: string
  EnvVar_Value :: string
  EnvVar_ValueFrom :: "EnvVarSource option"

record KeyToPath =
  KeyToPath_Key :: string
  KeyToPath_Path :: string

record SecretVolumeSource =
  SecretVolumeSource_SecretName :: string
  SecretVolumeSource_Items :: "KeyToPath list"
  SecretVolumeSource_Optional :: "bool option"

record ConfigMapVolumeSource =
  ConfigMapVolumeSource_Name :: string
  ConfigMapVolumeSource_Items :: "KeyToPath list"

record Volume =
  Volume_Name :: string
  Volume_Secret :: "SecretVolumeSource option"
  Volume_ConfigMap :: "ConfigMapVolumeSource option"

record VolumeMount =
  VolumeMount_Name :: string
  VolumeMount_MountPath :: string
  VolumeMount_ReadOnly :: bool

record OwnerReference =
  OwnerReference_APIVersion :: string
  OwnerReference_Kind :: string
  OwnerReference_Name :: string
  OwnerReference_UID :: string
  OwnerReference_Controller :: bool
  OwnerReference_BlockOwnerDeletion :: bool

record ObjectMeta =
  ObjectMeta_Name :: string
  ObjectMeta_Namespace :: string
  ObjectMeta_UID :: string
  ObjectMeta_Labels :: "(string \<times> string) list"
  ObjectMeta_OwnerReferences :: "OwnerReference list"
  ObjectMeta_Annotations :: "(string \<times> string) list"
  ObjectMeta_CreationTimestamp :: int
  ObjectMeta_DeletionTimestamp :: "int option"

definition zero_ObjectMeta :: ObjectMeta where
  "zero_ObjectMeta = \<lparr>ObjectMeta_Name = [], ObjectMeta_Namespace = [], ObjectMeta_UID = [],
     ObjectMeta_Labels = [], ObjectMeta_OwnerReferences = [], ObjectMeta_Annotations = [],
     ObjectMeta_CreationTimestamp = 0, ObjectMeta_DeletionTimestamp = None\<rparr>"

subsection \<open>Workflow: policies and limits\<close>

definition FailurePolicyFail :: string where
  "FailurePolicyFail = ''Fail''"

definition FailurePolicyContinue :: string where
  "FailurePolicyContinue = ''Continue''"

record KagentExposeSpec =
  KagentExposeSpec_DisplayName :: string
  KagentExposeSpec_Description :: string
  KagentExposeSpec_Examples :: "string list"
  KagentExposeSpec_Tags :: "string list"

record ExposeSpec =
  ExposeSpec_Kagent :: "KagentExposeSpec option"

definition GetKagent :: "ExposeSpec option \<Rightarrow> KagentExposeSpec option" where
  "GetKagent e = (case e of None \<Rightarrow> None | Some x \<Rightarrow> ExposeSpec_Kagent x)"

definition IsKagentEnabled :: "ExposeSpec option \<Rightarrow> bool" where
  "IsKagentEnabled e \<longleftrightarrow> GetKagent e \<noteq> None"

record ExecutionLimits =
  ExecutionLimits_MaxConcurrentSteps :: "int option"
  ExecutionLimits_OutboundRequestsPerMinute :: "int option"

record RunPolicy =
  RunPolicy_RetentionMinutes :: "int option"
  RunPolicy_MaxAllowed :: "int option"
  RunPolicy_MaxConcurrentRuns :: "int option"

definition DefaultMaxConcurrentRuns :: int where
  "DefaultMaxConcurrentRuns = 10"

definition EffectiveMaxConcurrentRuns :: "RunPolicy option \<Rightarrow> int" where
  "EffectiveMaxConcurrentRuns r =
     (case r of None \<Rightarrow> DefaultMaxConcurrentRuns
      | Some p \<Rightarrow> (case RunPolicy_MaxConcurrentRuns p of
                     None \<Rightarrow> DefaultMaxConcurrentRuns | Some n \<Rightarrow> n))"

record EventConfig =
  EventConfig_Enabled :: "bool option"
  EventConfig_Level :: string

record MCPTool =
  MCPTool_Enabled :: bool
  MCPTool_Description :: string

definition MCPTool_IsEnabled :: "MCPTool option \<Rightarrow> bool" where
  "MCPTool_IsEnabled m = (case m of None \<Rightarrow> False | Some t \<Rightarrow> MCPTool_Enabled t)"

definition MCPTool_GetDescription :: "MCPTool option \<Rightarrow> string" where
  "MCPTool_GetDescription m = (case m of None \<Rightarrow> [] | Some t \<Rightarrow> MCPTool_Description t)"

subsection \<open>Workflow: inputs, expressions and outputs\<close>

record Input =
  Input_Name :: string
  Input_Description :: string
  Input_Default :: string
  Input_Required :: bool

record Variable =
  Variable_Name :: string
  Variable_Expression :: string

record Expression =
  Expression_Name :: string
  Expression_Expression :: string

record MetricLabel =
  MetricLabel_Name :: string
  MetricLabel_Value :: string

record OutputMetric =
  OutputMetric_Name :: string
  OutputMetric_Type :: string
  OutputMetric_Help :: string
  OutputMetric_Labels :: "MetricLabel list"
  OutputMetric_Buckets :: "64 word list"

record Output =
  Output_Name :: string
  Output_Expression :: string
  Output_Value :: "raw_json option"
  Output_Metric :: "OutputMetric option"
  Output_Sensitive :: bool

record MatchCondition =
  MatchCondition_Name :: string
  MatchCondition_Expression :: string

record BackoffConfig =
  BackoffConfig_Strategy :: string
  BackoffConfig_InitialInterval :: string
  BackoffConfig_MaxInterval :: string
  BackoffConfig_Multiplier :: "64 word"

record RetryCondition =
  RetryCondition_ErrorType :: string
  RetryCondition_HTTPStatus :: "int list"
  RetryCondition_ErrorMessage :: string

record RetryPolicy =
  RetryPolicy_Attempts :: int
  RetryPolicy_Backoff :: "BackoffConfig option"
  RetryPolicy_RetryOn :: "RetryCondition list"

subsection \<open>Workflow: the actions of a step\<close>

record StepWorkflowRef =
  StepWorkflowRef_Name :: string
  StepWorkflowRef_Namespace :: string
  StepWorkflowRef_Inputs :: "(string \<times> string) list"

record StepAgentRef =
  StepAgentRef_Name :: string
  StepAgentRef_Namespace :: string
  StepAgentRef_AdditionalPrompts :: "string list"
  StepAgentRef_MaxAdditionalPromptTokens :: "int option"
  StepAgentRef_ContextBudgetMode :: string
  StepAgentRef_ContextBudgetLastN :: "int option"

record NamespacedSecretRef =
  NamespacedSecretRef_Name :: string
  NamespacedSecretRef_Namespace :: string

record SecretReference =
  SecretReference_Name :: string
  SecretReference_Namespace :: string
  SecretReference_Key :: string

record ExternalAgentAuth =
  ExternalAgentAuth_SecretRef :: "SecretReference option"

record StepExternalAgentRef =
  StepExternalAgentRef_URL :: string
  StepExternalAgentRef_Protocol :: string
  StepExternalAgentRef_Prompt :: string
  StepExternalAgentRef_Auth :: "ExternalAgentAuth option"
  StepExternalAgentRef_CASecretRef :: "NamespacedSecretRef option"
  StepExternalAgentRef_Timeout :: string
  StepExternalAgentRef_AllowInsecureHTTP :: bool

record StepMCPToolCall =
  StepMCPToolCall_Server :: string
  StepMCPToolCall_Tool :: string
  StepMCPToolCall_Arguments :: "(string \<times> string) list"

record StepResourceQuery =
  StepResourceQuery_APIVersion :: string
  StepResourceQuery_Resource :: string
  StepResourceQuery_Namespace :: string
  StepResourceQuery_Name :: string
  StepResourceQuery_LabelSelector :: "(string \<times> string) list"
  StepResourceQuery_FieldSelector :: string
  StepResourceQuery_Limit :: int
  StepResourceQuery_PageSize :: int
  StepResourceQuery_Outputs :: "(string \<times> string) list"

record StepPrometheusQuery =
  StepPrometheusQuery_Query :: string
  StepPrometheusQuery_TimeRange :: string
  StepPrometheusQuery_Step :: string
  StepPrometheusQuery_Variables :: "(string \<times> string) list"
  StepPrometheusQuery_Outputs :: "(string \<times> string) list"

record StepMutateTarget =
  StepMutateTarget_APIVersion :: string
  StepMutateTarget_Resource :: string
  StepMutateTarget_Namespace :: string
  StepMutateTarget_Name :: string

record MutateApplyConfiguration =
  MutateApplyConfiguration_Expression :: string

record MutateJSONPatchOp =
  MutateJSONPatchOp_Op :: string
  MutateJSONPatchOp_Path :: string
  MutateJSONPatchOp_Value :: "raw_json option"
  MutateJSONPatchOp_From :: string

record MutateJSONPatch =
  MutateJSONPatch_Expression :: string
  MutateJSONPatch_Operations :: "MutateJSONPatchOp list"

record StepMutate =
  StepMutate_Target :: StepMutateTarget
  StepMutate_PatchType :: string
  StepMutate_ApplyConfiguration :: "MutateApplyConfiguration option"
  StepMutate_JSONPatch :: "MutateJSONPatch option"
  StepMutate_Outputs :: "(string \<times> string) list"

record StepOpenReport =
  StepOpenReport_ReportName :: string
  StepOpenReport_Namespace :: string
  StepOpenReport_Source :: string
  StepOpenReport_ScopeExpression :: string
  StepOpenReport_ResultsExpression :: string
  StepOpenReport_SummaryExpression :: string

record WaitForCallbackStep =
  WaitForCallbackStep_Timeout :: string
  WaitForCallbackStep_CallbackRef :: string
  WaitForCallbackStep_OutputSchema :: "raw_json option"
  WaitForCallbackStep_Message :: string
  WaitForCallbackStep_FailurePolicy :: string

record StepTemplateRef =
  StepTemplateRef_Name :: string
  StepTemplateRef_Namespace :: string
  StepTemplateRef_Arguments :: "(string \<times> string) list"

record StepForEachTemplateRef =
  StepForEachTemplateRef_Name :: string
  StepForEachTemplateRef_Namespace :: string
  StepForEachTemplateRef_Arguments :: "(string \<times> string) list"

record StepForEachStep =
  StepForEachStep_Expressions :: "Expression list"
  StepForEachStep_Outputs :: "Output list"
  StepForEachStep_MatchConditions :: "MatchCondition list"
  StepForEachStep_Retry :: "RetryPolicy option"
  StepForEachStep_Timeout :: string
  StepForEachStep_FailurePolicy :: string
  StepForEachStep_ResourceQuery :: "StepResourceQuery option"
  StepForEachStep_PrometheusQuery :: "StepPrometheusQuery option"
  StepForEachStep_Mutate :: "StepMutate option"
  StepForEachStep_AgentRef :: "StepAgentRef option"
  StepForEachStep_MCPToolCall :: "StepMCPToolCall option"
  StepForEachStep_WorkflowRef :: "StepWorkflowRef option"
  StepForEachStep_ExternalAgentRef :: "StepExternalAgentRef option"
  StepForEachStep_OpenReport :: "StepOpenReport option"

record StepForEach =
  StepForEach_Items :: string
  StepForEach_ItemVariable :: string
  StepForEach_Step :: "StepForEachStep option"
  StepForEach_StepTemplateRef :: "StepForEachTemplateRef option"
  StepForEach_MaxConcurrency :: int
  StepForEach_ItemFailurePolicy :: string

record Step =
  Step_Name :: string
  Step_Message :: string
  Step_Expressions :: "Expression list"
  Step_Outputs :: "Output list"
  Step_DependsOn :: "string list"
  Step_MatchConditions :: "MatchCondition list"
  Step_Retry :: "RetryPolicy option"
  Step_Timeout :: string
  Step_FailurePolicy :: string
  Step_WorkflowRef :: "StepWorkflowRef option"
  Step_AgentRef :: "StepAgentRef option"
  Step_MCPToolCall :: "StepMCPToolCall option"
  Step_ResourceQuery :: "StepResourceQuery option"
  Step_PrometheusQuery :: "StepPrometheusQuery option"
  Step_Mutate :: "StepMutate option"
  Step_StepTemplateRef :: "StepTemplateRef option"
  Step_ForEach :: "StepForEach option"
  Step_ExternalAgentRef :: "StepExternalAgentRef option"
  Step_OpenReport :: "StepOpenReport option"
  Step_WaitForCallback :: "WaitForCallbackStep option"

text \<open>The zero value \<^verbatim>\<open>Step{}\<close>, from which the code builds steps field by field.\<close>

definition zero_Step :: Step where
  "zero_Step = \<lparr>Step_Name = [], Step_Message = [], Step_Expressions = [], Step_Outputs = [],
     Step_DependsOn = [], Step_MatchConditions = [], Step_Retry = None, Step_Timeout = [],
     Step_FailurePolicy = [], Step_WorkflowRef = None, Step_AgentRef = None,
     Step_MCPToolCall = None, Step_ResourceQuery = None, Step_PrometheusQuery = None,
     Step_Mutate = None, Step_StepTemplateRef = None, Step_ForEach = None,
     Step_ExternalAgentRef = None, Step_OpenReport = None, Step_WaitForCallback = None\<rparr>"

subsection \<open>Step templates\<close>

record StepTemplateStep =
  StepTemplateStep_Message :: string
  StepTemplateStep_Expressions :: "Expression list"
  StepTemplateStep_Outputs :: "Output list"
  StepTemplateStep_DependsOn :: "string list"
  StepTemplateStep_MatchConditions :: "MatchCondition list"
  StepTemplateStep_Retry :: "RetryPolicy option"
  StepTemplateStep_Timeout :: string
  StepTemplateStep_FailurePolicy :: string
  StepTemplateStep_ResourceQuery :: "StepResourceQuery option"
  StepTemplateStep_PrometheusQuery :: "StepPrometheusQuery option"
  StepTemplateStep_AgentRef :: "StepAgentRef option"
  StepTemplateStep_MCPToolCall :: "StepMCPToolCall option"
  StepTemplateStep_WorkflowRef :: "StepWorkflowRef option"
  StepTemplateStep_ExternalAgentRef :: "StepExternalAgentRef option"

record StepTemplateParameter =
  StepTemplateParameter_Name :: string
  StepTemplateParameter_Description :: string
  StepTemplateParameter_Default :: string
  StepTemplateParameter_Required :: bool

record StepTemplateSpec =
  StepTemplateSpec_Step :: StepTemplateStep
  StepTemplateSpec_Parameters :: "StepTemplateParameter list"
  StepTemplateSpec_Description :: string

subsection \<open>Triggers\<close>

record WebhookSecretRef =
  WebhookSecretRef_Name :: string
  WebhookSecretRef_Namespace :: string
  WebhookSecretRef_Key :: string

record WebhookRateLimit =
  WebhookRateLimit_RequestsPerMinute :: int
  WebhookRateLimit_Burst :: int

record WebhookTrigger =
  WebhookTrigger_SecretRef :: WebhookSecretRef
  WebhookTrigger_CELFilter :: string
  WebhookTrigger_InputMapping :: "(string \<times> string) list"
  WebhookTrigger_DedupKey :: string
  WebhookTrigger_DedupWindow :: "int option"
  WebhookTrigger_RateLimit :: "WebhookRateLimit option"

record CronSecretKeyRef =
  CronSecretKeyRef_Name :: string
  CronSecretKeyRef_Namespace :: string
  CronSecretKeyRef_Key :: string

record CronInputFromSecret =
  CronInputFromSecret_InputName :: string
  CronInputFromSecret_SecretRef :: CronSecretKeyRef

record CronTrigger =
  CronTrigger_Schedule :: string
  CronTrigger_Timezone :: string
  CronTrigger_ConcurrencyPolicy :: string
  CronTrigger_StartingDeadlineSeconds :: "int option"
  CronTrigger_InputValuesFrom :: "CronInputFromSecret list"

record EventResource =
  EventResource_APIVersion :: string
  EventResource_Kind :: string
  EventResource_Namespace :: string

record EventTrigger =
  EventTrigger_Resources :: "EventResource list"
  EventTrigger_Operations :: "string list"
  EventTrigger_LabelSelector :: "val option"
  EventTrigger_FieldSelector :: string
  EventTrigger_InputMapping :: "(string \<times> string) list"
  EventTrigger_CELFilter :: string
  EventTrigger_DedupKey :: string
  EventTrigger_DedupWindow :: "int option"

record Trigger =
  Trigger_Cron :: "CronTrigger option"
  Trigger_Event :: "EventTrigger option"
  Trigger_Webhook :: "WebhookTrigger option"

subsection \<open>Execution of a run\<close>

record LLMCredentialsSecretRef =
  LLMCredentialsSecretRef_Name :: string
  LLMCredentialsSecretRef_Namespace :: string

record CheckpointingConfig =
  CheckpointingConfig_Enabled :: bool
  CheckpointingConfig_MaxRestartAttempts :: "int option"

record WorkflowRunJobSpec =
  WorkflowRunJobSpec_Image :: string
  WorkflowRunJobSpec_ServiceAccountName :: string
  WorkflowRunJobSpec_Env :: "EnvVar list"
  WorkflowRunJobSpec_Resources :: val
  WorkflowRunJobSpec_Volumes :: "Volume list"
  WorkflowRunJobSpec_VolumeMounts :: "VolumeMount list"
  WorkflowRunJobSpec_NodeSelector :: val
  WorkflowRunJobSpec_Tolerations :: val
  WorkflowRunJobSpec_Affinity :: val
  WorkflowRunJobSpec_BackoffLimit :: "int option"
  WorkflowRunJobSpec_TTLSecondsAfterFinished :: "int option"
  WorkflowRunJobSpec_ActiveDeadlineSeconds :: "int option"

record WorkflowRunExecutionSpec =
  WorkflowRunExecutionSpec_Job :: "WorkflowRunJobSpec option"
  WorkflowRunExecutionSpec_Checkpointing :: "CheckpointingConfig option"
  WorkflowRunExecutionSpec_LLMCredentialsSecret :: "LLMCredentialsSecretRef option"

record KubeConfigSecretRef =
  KubeConfigSecretRef_Name :: string
  KubeConfigSecretRef_Namespace :: string
  KubeConfigSecretRef_Key :: string

record ClusterRef =
  ClusterRef_Local :: "bool option"
  ClusterRef_KubeConfigSecretRef :: "KubeConfigSecretRef option"
  ClusterRef_KubeConfigFilePath :: string

subsection \<open>Workflow\<close>

record WorkflowSpec =
  WorkflowSpec_Inputs :: "Input list"
  WorkflowSpec_MCPTool :: "MCPTool option"
  WorkflowSpec_Variables :: "Variable list"
  WorkflowSpec_Steps :: "Step list"
  WorkflowSpec_Outputs :: "Output list"
  WorkflowSpec_Triggers :: "Trigger list"
  WorkflowSpec_Events :: "EventConfig option"
  WorkflowSpec_Run :: "RunPolicy option"
  WorkflowSpec_CELCostLimit :: "int option"
  WorkflowSpec_Execution :: "WorkflowRunExecutionSpec option"
  WorkflowSpec_ExecutionLimits :: "ExecutionLimits option"
  WorkflowSpec_Expose :: "ExposeSpec option"

record Workflow =
  Workflow_Meta :: ObjectMeta
  Workflow_Spec :: WorkflowSpec

abbreviation Workflow_Name :: "Workflow \<Rightarrow> string" where
  "Workflow_Name w \<equiv> ObjectMeta_Name (Workflow_Meta w)"

abbreviation Workflow_Namespace :: "Workflow \<Rightarrow> string" where
  "Workflow_Namespace w \<equiv> ObjectMeta_Namespace (Workflow_Meta w)"

abbreviation Workflow_Steps :: "Workflow \<Rightarrow> Step list" where
  "Workflow_Steps w \<equiv> WorkflowSpec_Steps (Workflow_Spec w)"

definition zero_WorkflowSpec :: WorkflowSpec where
  "zero_WorkflowSpec = \<lparr>WorkflowSpec_Inputs = [], WorkflowSpec_MCPTool = None, WorkflowSpec_Variables = [],
     WorkflowSpec_Steps = [], WorkflowSpec_Outputs = [], WorkflowSpec_Triggers = [],
     WorkflowSpec_Events = None, WorkflowSpec_Run = None, WorkflowSpec_CELCostLimit = None,
     WorkflowSpec_Execution = None, WorkflowSpec_ExecutionLimits = None, WorkflowSpec_Expose = None\<rparr>"

definition zero_Workflow :: Workflow where
  "zero_Workflow = \<lparr>Workflow_Meta = zero_ObjectMeta, Workflow_Spec = zero_WorkflowSpec\<rparr>"

subsection \<open>Agents and MCP servers\<close>

record OutputExtraction =
  OutputExtraction_Type :: string
  OutputExtraction_Pattern :: string
  OutputExtraction_Schema :: string

record AgentSpec =
  AgentSpec_Prompt :: string
  AgentSpec_ModelProvider :: string
  AgentSpec_ModelName :: string
  AgentSpec_MCPTools :: "string list"
  AgentSpec_OutputExtraction :: "OutputExtraction option"
  AgentSpec_ServiceAccount :: string
  AgentSpec_ExecutorImage :: string
  AgentSpec_ServiceName :: string
  AgentSpec_ServiceNamespace :: string
  AgentSpec_Resources :: "val option"
  AgentSpec_Config :: "(string \<times> string) list"

record Agent =
  Agent_Meta :: ObjectMeta
  Agent_Spec :: AgentSpec

record TransportConfig =
  TransportConfig_Type :: string
  TransportConfig_Address :: string
  TransportConfig_Command :: "string list"
  TransportConfig_Headers :: "(string \<times> string) list"

record OAuth2Config =
  OAuth2Config_TokenURL :: string
  OAuth2Config_ClientID :: string
  OAuth2Config_ClientSecretRef :: "SecretReference option"
  OAuth2Config_ClientCredentialsRef :: "NamespacedSecretRef option"
  OAuth2Config_Scopes :: "string list"

record AuthConfig =
  AuthConfig_Type :: string
  AuthConfig_SecretRef :: "SecretReference option"
  AuthConfig_OAuth2 :: "OAuth2Config option"

record MCPServerSpec =
  MCPServerSpec_Transport :: TransportConfig
  MCPServerSpec_Timeout :: string
  MCPServerSpec_Env :: "EnvVar list"
  MCPServerSpec_Auth :: "AuthConfig option"

record MCPServer =
  MCPServer_Meta :: ObjectMeta
  MCPServer_Spec :: MCPServerSpec

abbreviation MCPServer_Name :: "MCPServer \<Rightarrow> string" where
  "MCPServer_Name s \<equiv> ObjectMeta_Name (MCPServer_Meta s)"

abbreviation MCPServer_Namespace :: "MCPServer \<Rightarrow> string" where
  "MCPServer_Namespace s \<equiv> ObjectMeta_Namespace (MCPServer_Meta s)"

definition zero_AgentSpec :: AgentSpec where
  "zero_AgentSpec = \<lparr>AgentSpec_Prompt = [], AgentSpec_ModelProvider = [], AgentSpec_ModelName = [],
     AgentSpec_MCPTools = [], AgentSpec_OutputExtraction = None, AgentSpec_ServiceAccount = [],
     AgentSpec_ExecutorImage = [], AgentSpec_ServiceName = [], AgentSpec_ServiceNamespace = [],
     AgentSpec_Resources = None, AgentSpec_Config = []\<rparr>"

subsection \<open>WorkflowRun\<close>

record WorkflowRef =
  WorkflowRef_Name :: string
  WorkflowRef_Namespace :: string

record WorkflowRunSpec =
  WorkflowRunSpec_WorkflowRef :: WorkflowRef
  WorkflowRunSpec_InputValues :: "(string \<times> string) list"
  WorkflowRunSpec_ClusterRef :: "ClusterRef option"
  WorkflowRunSpec_Events :: "EventConfig option"
  WorkflowRunSpec_Execution :: "WorkflowRunExecutionSpec option"

datatype WorkflowRunPhase =
    WorkflowRunPhaseNone
  | WorkflowRunPhasePending
  | WorkflowRunPhaseRunning
  | WorkflowRunPhaseSucceeded
  | WorkflowRunPhaseFailed

definition IsTerminal :: "WorkflowRunPhase \<Rightarrow> bool" where
  "IsTerminal p \<longleftrightarrow> p = WorkflowRunPhaseSucceeded \<or> p = WorkflowRunPhaseFailed"

definition IsActive :: "WorkflowRunPhase \<Rightarrow> bool" where
  "IsActive p \<longleftrightarrow> p = WorkflowRunPhaseNone \<or> p = WorkflowRunPhasePending \<or> p = WorkflowRunPhaseRunning"

datatype WorkflowRunFailureReason =
    FailureReasonNone
  | SecretAccessDenied
  | RunnerRefUnresolved

datatype StepPhase =
    StepPhaseNone
  | StepPhasePending
  | StepPhaseRunning
  | StepPhaseSucceeded
  | StepPhaseFailed
  | StepPhaseSkipped
  | StepPhaseWaiting

record StepStatus =
  StepStatus_Phase :: StepPhase
  StepStatus_StartTime :: "int option"
  StepStatus_CompletionTime :: "int option"
  StepStatus_Message :: string
  StepStatus_Error :: string
  StepStatus_RetryCount :: int
  StepStatus_LastRetryTime :: "int option"
  StepStatus_NextRetryTime :: "int option"

definition zero_StepStatus :: StepStatus where
  "zero_StepStatus = \<lparr>StepStatus_Phase = StepPhaseNone, StepStatus_StartTime = None,
     StepStatus_CompletionTime = None, StepStatus_Message = [], StepStatus_Error = [],
     StepStatus_RetryCount = 0, StepStatus_LastRetryTime = None, StepStatus_NextRetryTime = None\<rparr>"

type_synonym step_statuses = "(string \<times> StepStatus) list"

record CallbackState =
  CallbackState_TokenHash :: string
  CallbackState_StepName :: string
  CallbackState_ExpiresAt :: int
  CallbackState_Outputs :: raw_json
  CallbackState_CreatedAt :: int

record WebhookRequestInfo =
  WebhookRequestInfo_RemoteAddr :: string
  WebhookRequestInfo_RequestID :: string

record EventResourceInfo =
  EventResourceInfo_APIVersion :: string
  EventResourceInfo_Kind :: string
  EventResourceInfo_Name :: string
  EventResourceInfo_Namespace :: string

record TriggerInfo =
  TriggerInfo_Type :: string
  TriggerInfo_CronSchedule :: string
  TriggerInfo_TriggeredAt :: int
  TriggerInfo_EventResource :: "EventResourceInfo option"
  TriggerInfo_WebhookRequest :: "WebhookRequestInfo option"

record WorkflowRunExecutionStatus =
  ExecutionStatus_Phase :: WorkflowRunPhase
  ExecutionStatus_JobName :: string
  ExecutionStatus_PodName :: string
  ExecutionStatus_Message :: string
  ExecutionStatus_StartTime :: "int option"
  ExecutionStatus_CompletionTime :: "int option"
  ExecutionStatus_Attempts :: int
  ExecutionStatus_LastTerminationReason :: string

definition zero_ExecutionStatus :: WorkflowRunExecutionStatus where
  "zero_ExecutionStatus = \<lparr>ExecutionStatus_Phase = WorkflowRunPhaseNone, ExecutionStatus_JobName = [],
     ExecutionStatus_PodName = [], ExecutionStatus_Message = [], ExecutionStatus_StartTime = None,
     ExecutionStatus_CompletionTime = None, ExecutionStatus_Attempts = 0,
     ExecutionStatus_LastTerminationReason = []\<rparr>"

record WorkflowRunStatus =
  Status_Phase :: WorkflowRunPhase
  Status_StepStatuses :: step_statuses
  Status_Outputs :: "(string \<times> raw_json) list"
  Status_StartTime :: "int option"
  Status_CompletionTime :: "int option"
  Status_Message :: string
  Status_FailureReason :: WorkflowRunFailureReason
  Status_RestartRequired :: bool
  Status_Trigger :: "TriggerInfo option"
  Status_Execution :: "WorkflowRunExecutionStatus option"
  Status_PendingCallback :: "CallbackState option"
  Status_AuditSnapshotConfigMap :: string
  Status_AuditSnapshotError :: string

definition zero_Status :: WorkflowRunStatus where
  "zero_Status = \<lparr>Status_Phase = WorkflowRunPhaseNone, Status_StepStatuses = [], Status_Outputs = [],
     Status_StartTime = None, Status_CompletionTime = None, Status_Message = [],
     Status_FailureReason = FailureReasonNone, Status_RestartRequired = False,
     Status_Trigger = None, Status_Execution = None, Status_PendingCallback = None,
     Status_AuditSnapshotConfigMap = [], Status_AuditSnapshotError = []\<rparr>"

record WorkflowRun =
  WorkflowRun_Meta :: ObjectMeta
  WorkflowRun_Spec :: WorkflowRunSpec
  WorkflowRun_Status :: WorkflowRunStatus

abbreviation WorkflowRun_Name :: "WorkflowRun \<Rightarrow> string" where
  "WorkflowRun_Name r \<equiv> ObjectMeta_Name (WorkflowRun_Meta r)"

abbreviation WorkflowRun_Namespace :: "WorkflowRun \<Rightarrow> string" where
  "WorkflowRun_Namespace r \<equiv> ObjectMeta_Namespace (WorkflowRun_Meta r)"

abbreviation WorkflowRun_UID :: "WorkflowRun \<Rightarrow> string" where
  "WorkflowRun_UID r \<equiv> ObjectMeta_UID (WorkflowRun_Meta r)"

definition zero_WorkflowRun :: WorkflowRun where
  "zero_WorkflowRun = \<lparr>WorkflowRun_Meta = zero_ObjectMeta,
     WorkflowRun_Spec = \<lparr>WorkflowRunSpec_WorkflowRef = \<lparr>WorkflowRef_Name = [], WorkflowRef_Namespace = []\<rparr>,
       WorkflowRunSpec_InputValues = [], WorkflowRunSpec_ClusterRef = None,
       WorkflowRunSpec_Events = None, WorkflowRunSpec_Execution = None\<rparr>,
     WorkflowRun_Status = zero_Status\<rparr>"

text \<open>Assignments to fields of \<^verbatim>\<open>workflowRun.Status\<close>.\<close>

definition upd_status :: "(WorkflowRunStatus \<Rightarrow> WorkflowRunStatus) \<Rightarrow> WorkflowRun \<Rightarrow> WorkflowRun" where
  "upd_status f r = r\<lparr>WorkflowRun_Status := f (WorkflowRun_Status r)\<rparr>"

definition CheckpointingEnabled :: "WorkflowRun \<Rightarrow> bool" where
  "CheckpointingEnabled r =
     (case WorkflowRunSpec_Execution (WorkflowRun_Spec r) of
        None \<Rightarrow> False
      | Some x \<Rightarrow> (case WorkflowRunExecutionSpec_Checkpointing x of
                     None \<Rightarrow> False | Some c \<Rightarrow> CheckpointingConfig_Enabled c))"

lemma upd_status_simps [simp]:
  "WorkflowRun_Status (upd_status f r) = f (WorkflowRun_Status r)"
  "WorkflowRun_Meta (upd_status f r) = WorkflowRun_Meta r"
  "WorkflowRun_Spec (upd_status f r) = WorkflowRun_Spec r"
  by (simp_all add: upd_status_def)

lemma IsTerminal_iff_not_IsActive: "IsTerminal p \<longleftrightarrow> \<not> IsActive p"
  by (cases p) (simp_all add: IsTerminal_def IsActive_def)

end
