(* ===== verification/Run_Context.thy ===== *)
theory Run_Context
  imports Api_Types "HOL-Library.Product_Lexorder"
begin

text \<open>
  The execution context of a run (\<^verbatim>\<open>internal/workflow/executor/context.go\<close>), the pruning of it for
  agent prompts (\<^verbatim>\<open>context_budget.go\<close>) and the redaction of the copy that is persisted for audit
  (\<^verbatim>\<open>audit_redaction.go\<close>).

  A scoped context, which a forEach item carries in its \<^verbatim>\<open>ctx\<close>, is an argument of type
  \<open>gomap option\<close> and is returned updated, because the code mutates the map it finds there. The
  manager's pointer to the WorkflowRun is the argument \<open>statuses\<close> (its step statuses), \<open>None\<close> for nil.
\<close>

subsection \<open>The context manager\<close>

record ContextManager =
  cm_inMemoryContext :: "gomap option"
  cm_contextInitialized :: bool
  cm_completionOrder :: "string list"

definition NewContextManager :: ContextManager where
  "NewContextManager = \<lparr>cm_inMemoryContext = None, cm_contextInitialized = False, cm_completionOrder = []\<rparr>"

definition IsInitialized :: "ContextManager \<Rightarrow> bool" where
  "IsInitialized cm \<longleftrightarrow> cm_contextInitialized cm \<and> cm_inMemoryContext cm \<noteq> None"

fun default_inputs :: "Input list \<Rightarrow> gomap \<Rightarrow> gomap result" where
  "default_inputs [] params = Inr params"
| "default_inputs (i # rest) params =
     (if has_key params (Input_Name i) then default_inputs rest params
      else if Input_Required i \<and> Input_Default i = []
      then Inl (errorf (''required input '' @ Input_Name i @ '' not provided''))
      else default_inputs rest (AList.update (Input_Name i) (VString (Input_Default i)) params))"

definition InitializeContext :: "Workflow \<Rightarrow> (string \<times> string) list \<Rightarrow> ContextManager \<Rightarrow> ContextManager result" where
  "InitializeContext workflow inputValues cm =
     (if IsInitialized cm then Inr cm
      else (case default_inputs (WorkflowSpec_Inputs (Workflow_Spec workflow))
                   (put_all [] (map (\<lambda>(name, value). (name, VString value)) inputValues)) of
              Inl e \<Rightarrow> Inl e
            | Inr params \<Rightarrow> Inr (cm\<lparr>cm_inMemoryContext :=
                  Some [(''inputs'', VMap params), (''expressions'', VMap []), (''variables'', VMap []),
                        (''steps'', VMap [])],
                cm_contextInitialized := True\<rparr>)))"

fun string_of_StepPhase :: "StepPhase \<Rightarrow> string" where
  "string_of_StepPhase StepPhaseNone = ''''"
| "string_of_StepPhase StepPhasePending = ''Pending''"
| "string_of_StepPhase StepPhaseRunning = ''Running''"
| "string_of_StepPhase StepPhaseSucceeded = ''Succeeded''"
| "string_of_StepPhase StepPhaseFailed = ''Failed''"
| "string_of_StepPhase StepPhaseSkipped = ''Skipped''"
| "string_of_StepPhase StepPhaseWaiting = ''Waiting''"

definition projected_status :: "StepStatus \<Rightarrow> val" where
  "projected_status st = VMap
     [(''phase'', VString (string_of_StepPhase (StepStatus_Phase st))),
      (''succeeded'', VBool (StepStatus_Phase st = StepPhaseSucceeded)),
      (''failed'', VBool (StepStatus_Phase st = StepPhaseFailed)),
      (''error'', VString (StepStatus_Error st))]"

definition stepStatusProjection :: "step_statuses option \<Rightarrow> gomap" where
  "stepStatusProjection statuses =
     (case statuses of None \<Rightarrow> []
      | Some sts \<Rightarrow> map (\<lambda>(name, st). (name, projected_status st))
          (filter (\<lambda>(name, st). StepStatus_Phase st \<in>
             {StepPhaseSucceeded, StepPhaseFailed, StepPhaseSkipped}) sts))"

definition not_initialized :: goerror where
  "not_initialized = errorf ''context not initialized - workflow needs restart''"

definition ReadContext :: "gomap option \<Rightarrow> step_statuses option \<Rightarrow> ContextManager \<Rightarrow> gomap result" where
  "ReadContext scoped statuses cm =
     (case scoped of Some m \<Rightarrow> Inr m
      | None \<Rightarrow>
          (case cm_inMemoryContext cm of
             None \<Rightarrow> Inl not_initialized
           | Some m \<Rightarrow> if \<not> cm_contextInitialized cm then Inl not_initialized
                       else Inr (AList.update ''stepStatus'' (VMap (stepStatusProjection statuses)) m)))"

text \<open>\<^verbatim>\<open>variablesMap, ok := m["variables"].(map...)\<close>, created when absent, then written.\<close>

definition write_variables :: "gomap \<Rightarrow> gomap \<Rightarrow> gomap" where
  "write_variables outputs m =
     (case as_map (map_of m ''variables'') of
        Some vs \<Rightarrow> AList.update ''variables'' (VMap (put_all vs outputs)) m
      | None \<Rightarrow> AList.update ''variables'' (VMap (put_all [] outputs)) m)"

definition WriteStepOutputs ::
  "gomap \<Rightarrow> gomap option \<Rightarrow> ContextManager \<Rightarrow> (gomap option \<times> ContextManager) result" where
  "WriteStepOutputs outputs scoped cm =
     (case scoped of Some m \<Rightarrow> Inr (Some (write_variables outputs m), cm)
      | None \<Rightarrow>
          (case cm_inMemoryContext cm of
             None \<Rightarrow> Inl not_initialized
           | Some m \<Rightarrow> if \<not> cm_contextInitialized cm then Inl not_initialized
                       else Inr (None, cm\<lparr>cm_inMemoryContext := Some (write_variables outputs m)\<rparr>)))"

definition GetContext :: "ContextManager \<Rightarrow> gomap option" where
  "GetContext cm = cm_inMemoryContext cm"

definition GetContextFrom :: "gomap option \<Rightarrow> ContextManager \<Rightarrow> gomap option" where
  "GetContextFrom scoped cm = (case scoped of Some m \<Rightarrow> Some m | None \<Rightarrow> cm_inMemoryContext cm)"

definition RestoreContext :: "gomap option \<Rightarrow> ContextManager \<Rightarrow> ContextManager" where
  "RestoreContext snapshot cm = cm\<lparr>cm_inMemoryContext := snapshot, cm_contextInitialized := True\<rparr>"

definition RecordStepCompletion :: "string \<Rightarrow> ContextManager \<Rightarrow> ContextManager" where
  "RecordStepCompletion stepName cm = cm\<lparr>cm_completionOrder := cm_completionOrder cm @ [stepName]\<rparr>"

definition CompletionOrder :: "ContextManager \<Rightarrow> string list" where
  "CompletionOrder cm = cm_completionOrder cm"

definition SetCompletionOrder :: "string list \<Rightarrow> ContextManager \<Rightarrow> ContextManager" where
  "SetCompletionOrder order cm = cm\<lparr>cm_completionOrder := order\<rparr>"

definition completed_entries :: "step_statuses \<Rightarrow> (int \<times> string) list" where
  "completed_entries statuses =
     map (\<lambda>(name, s). (case StepStatus_CompletionTime s of None \<Rightarrow> 0 | Some t \<Rightarrow> t, name))
       (filter (\<lambda>(name, s). StepStatus_Phase s = StepPhaseSucceeded) statuses)"

definition RestoreCompletionOrder :: "step_statuses \<Rightarrow> ContextManager \<Rightarrow> ContextManager" where
  "RestoreCompletionOrder statuses cm =
     cm\<lparr>cm_completionOrder := map snd (sort (completed_entries statuses))\<rparr>"

subsection \<open>Context budget\<close>

definition copyContextWithSteps :: "gomap \<Rightarrow> gomap \<Rightarrow> gomap" where
  "copyContextWithSteps contextData filteredSteps = AList.update ''steps'' (VMap filteredSteps) contextData"

definition last_n :: "int \<Rightarrow> 'a list \<Rightarrow> 'a list" where
  "last_n n xs = (let start = int (length xs) - n in drop (nat (if start < 0 then 0 else start)) xs)"

definition applyLastNBudget :: "gomap \<Rightarrow> int \<Rightarrow> string list \<Rightarrow> gomap" where
  "applyLastNBudget contextData n completionOrder =
     (case as_map (map_of contextData ''steps'') of
        None \<Rightarrow> copyContextWithSteps contextData []
      | Some stepsMap \<Rightarrow>
          if stepsMap = [] then copyContextWithSteps contextData stepsMap
          else (let retained = last_n n (filter (has_key stepsMap) completionOrder)
                in copyContextWithSteps contextData (filter (\<lambda>(k, v). k \<in> set retained) stepsMap)))"

definition applyOmitBudget :: "gomap \<Rightarrow> gomap" where
  "applyOmitBudget contextData = copyContextWithSteps contextData []"

definition applyContextBudget :: "gomap \<Rightarrow> StepAgentRef \<Rightarrow> string list \<Rightarrow> gomap" where
  "applyContextBudget contextData agentRef completionOrder =
     (if StepAgentRef_ContextBudgetMode agentRef = ''lastN'' then
        (let n = (case StepAgentRef_ContextBudgetLastN agentRef of
                    Some k \<Rightarrow> if 0 < k then k else 5 | None \<Rightarrow> 5)
         in applyLastNBudget contextData n completionOrder)
      else if StepAgentRef_ContextBudgetMode agentRef = ''omit'' then applyOmitBudget contextData
      else contextData)"

subsection \<open>Audit redaction\<close>

definition sensitiveRedactedPlaceholder :: string where
  "sensitiveRedactedPlaceholder = ''<redacted:sensitive>''"

definition collect_sensitive :: "Output list \<Rightarrow> string list" where
  "collect_sensitive outputs = map Output_Name (filter Output_Sensitive outputs)"

definition sensitiveOutputNames :: "Workflow \<Rightarrow> string list" where
  "sensitiveOutputNames workflow =
     collect_sensitive (WorkflowSpec_Outputs (Workflow_Spec workflow)) @
     concat (map (\<lambda>step. collect_sensitive (Step_Outputs step) @
         (case Step_ForEach step of None \<Rightarrow> []
          | Some fe \<Rightarrow> (case StepForEach_Step fe of None \<Rightarrow> []
                        | Some s \<Rightarrow> collect_sensitive (StepForEachStep_Outputs s))))
       (Workflow_Steps workflow))"

definition named_key :: "string \<Rightarrow> bool" where
  "named_key k \<longleftrightarrow> k = ''outputs'' \<or> k = ''variables''"

text \<open>The last two equations of \<open>redactNamedMap\<close> are its call of \<open>redactValue\<close> on a value that is no map.\<close>

fun redactValue :: "string list \<Rightarrow> val \<Rightarrow> val"
  and redactNamedMap :: "string list \<Rightarrow> val \<Rightarrow> val"
  and redact_entries :: "string list \<Rightarrow> (string \<times> val) list \<Rightarrow> (string \<times> val) list"
  and redact_named_entries :: "string list \<Rightarrow> (string \<times> val) list \<Rightarrow> (string \<times> val) list"
  and redact_items :: "string list \<Rightarrow> val list \<Rightarrow> val list" where
  "redactValue S (VMap m) = VMap (redact_entries S m)"
| "redactValue S (VList l) = VList (redact_items S l)"
| "redactValue S v = v"
| "redactNamedMap S (VMap m) = VMap (redact_named_entries S m)"
| "redactNamedMap S (VList l) = VList (redact_items S l)"
| "redactNamedMap S v = v"
| "redact_entries S [] = []"
| "redact_entries S ((k, nv) # m) =
     (k, if named_key k then redactNamedMap S nv else redactValue S nv) # redact_entries S m"
| "redact_named_entries S [] = []"
| "redact_named_entries S ((k, nv) # m) =
     (k, if k \<in> set S then VString sensitiveRedactedPlaceholder else redactValue S nv)
       # redact_named_entries S m"
| "redact_items S [] = []"
| "redact_items S (nv # l) = redactValue S nv # redact_items S l"

definition redactSensitiveContext :: "gomap \<Rightarrow> string list \<Rightarrow> gomap" where
  "redactSensitiveContext ctxData sensitiveNames =
     (case as_map (Some (redactValue sensitiveNames (VMap ctxData))) of Some out \<Rightarrow> out | None \<Rightarrow> [])"

subsection \<open>Initialisation\<close>

lemma default_inputs_Inr:
  assumes "default_inputs is params = Inr params'"
  shows "map_of params' k =
    (if has_key params k then map_of params k
     else map_option (\<lambda>i. VString (Input_Default i)) (List.find (\<lambda>i. Input_Name i = k) is))"
  using assms
proof (induction "is" params rule: default_inputs.induct)
  case (2 i rest params)
  show ?case
  proof (cases "has_key params (Input_Name i)")
    case True
    with 2 show ?thesis by (auto simp: has_key_def)
  next
    case False
    with "2.prems" have "\<not> (Input_Required i \<and> Input_Default i = [])"
      and "default_inputs rest (AList.update (Input_Name i) (VString (Input_Default i)) params) = Inr params'"
      by (auto split: if_splits)
    from "2.IH"(2) [OF False this] False show ?thesis
      by (cases "k = Input_Name i") (auto simp: has_key_def)
  qed
qed (auto simp: has_key_def)

lemma default_inputs_Inl:
  assumes "default_inputs is params = Inl e"
  shows "\<exists>i\<in>set is. Input_Required i \<and> Input_Default i = [] \<and> \<not> has_key params (Input_Name i) \<and>
     e = errorf (''required input '' @ Input_Name i @ '' not provided'')"
  using assms
proof (induction "is" params rule: default_inputs.induct)
  case (2 i rest params)
  then show ?case by (auto simp: has_key_def split: if_splits)
qed simp

subsection \<open>Completion order\<close>

definition succeeded_time :: "step_statuses \<Rightarrow> string \<Rightarrow> int option" where
  "succeeded_time statuses name =
     (case map_of statuses name of None \<Rightarrow> None
      | Some s \<Rightarrow> if StepStatus_Phase s = StepPhaseSucceeded
                  then Some (case StepStatus_CompletionTime s of None \<Rightarrow> 0 | Some t \<Rightarrow> t) else None)"

lemma set_completed_entries:
  assumes "wf_map statuses"
  shows "(t, n) \<in> set (completed_entries statuses) \<longleftrightarrow> succeeded_time statuses n = Some t"
proof -
  have "map_of statuses n = Some s \<longleftrightarrow> (n, s) \<in> set statuses" for s
    using assms by (simp add: wf_map_def)
  then show ?thesis
    unfolding completed_entries_def succeeded_time_def
    by (cases "map_of statuses n") (auto simp: image_iff split: if_splits, (metis option.inject)+)
qed

lemma distinct_completed_entries:
  "wf_map statuses \<Longrightarrow> distinct (map snd (completed_entries statuses))"
proof (induction statuses)
  case (Cons x xs)
  then show ?case by (cases x) (auto simp: wf_map_def completed_entries_def rev_image_eqI)
qed (simp add: completed_entries_def)

subsection \<open>Paths and redaction\<close>

datatype seg = Key string | Idx nat

fun lookup_path :: "val \<Rightarrow> seg list \<Rightarrow> val option" where
  "lookup_path v [] = Some v"
| "lookup_path (VMap m) (Key k # p) = (case map_of m k of None \<Rightarrow> None | Some v \<Rightarrow> lookup_path v p)"
| "lookup_path (VList l) (Idx i # p) = (if i < length l then lookup_path (l ! i) p else None)"
| "lookup_path _ _ = None"

fun named_seg :: "seg \<Rightarrow> bool" where
  "named_seg (Key k) = named_key k"
| "named_seg (Idx i) = False"

definition is_scalar :: "val \<Rightarrow> bool" where
  "is_scalar v \<longleftrightarrow> (case v of VMap _ \<Rightarrow> False | VList _ \<Rightarrow> False | _ \<Rightarrow> True)"

lemma map_of_redact_entries:
  "map_of (redact_entries S m) k =
     map_option (if named_key k then redactNamedMap S else redactValue S) (map_of m k)"
  by (induction m) auto

lemma map_of_redact_named_entries:
  "map_of (redact_named_entries S m) k =
     map_option (if k \<in> set S then (\<lambda>_. VString sensitiveRedactedPlaceholder) else redactValue S) (map_of m k)"
  by (induction m) auto

lemma redact_items_map [simp]: "redact_items S l = map (redactValue S) l"
  by (induction l) auto

lemmas redact_lookup = map_of_redact_entries map_of_redact_named_entries

lemma redactNamedMap_other: "(\<And>m. v \<noteq> VMap m) \<Longrightarrow> redactNamedMap S v = redactValue S v"
  by (cases v) auto

lemma lookup_scalar: "is_scalar v \<Longrightarrow> lookup_path v p = (if p = [] then Some v else None)"
  by (cases p; cases v) (auto simp: is_scalar_def)

lemma scalar_placeholder [simp]: "is_scalar (VString s)"
  by (simp add: is_scalar_def)

lemma redact_scalar [simp]: "is_scalar v \<Longrightarrow> redactValue S v = v" "is_scalar v \<Longrightarrow> redactNamedMap S v = v"
  by (cases v; simp add: is_scalar_def)+

lemma val_cases [case_names map list scalar]:
  obtains m where "v = VMap m" | l where "v = VList l" | "is_scalar v"
  by (cases v) (auto simp: is_scalar_def)

lemma redact_hides_aux:
  assumes "named_key c" "k \<in> set S"
  shows "(p = [] \<or> \<not> named_seg (last p) \<longrightarrow> lookup_path (redactValue S v) (p @ [Key c, Key k])
            \<in> {None, Some (VString sensitiveRedactedPlaceholder)}) \<and>
         (p \<noteq> [] \<and> \<not> named_seg (last p) \<longrightarrow> lookup_path (redactNamedMap S v) (p @ [Key c, Key k])
            \<in> {None, Some (VString sensitiveRedactedPlaceholder)})"
proof (induction p arbitrary: v)
  case Nil
  have "lookup_path (redactNamedMap S w) [Key k] \<in> {None, Some (VString sensitiveRedactedPlaceholder)}" for w
    using assms by (cases w) (auto simp: redact_lookup split: option.splits)
  with assms show ?case by (cases v) (auto simp: redact_lookup split: option.splits)
next
  case (Cons sg p)
  show ?case
  proof (cases v rule: val_cases)
    case (map m)
    show ?thesis
    proof (cases sg)
      case (Key k0)
      show ?thesis
        using Cons.IH [of "the (map_of m k0)"] map Key
        by (cases "map_of m k0"; cases "named_key k0"; cases "k0 \<in> set S")
          (auto simp: redact_lookup lookup_scalar)
    qed (simp add: map)
  next
    case (list l)
    then show ?thesis
    proof (cases sg)
      case (Idx i)
      then show ?thesis
        using Cons.IH [of "l ! i"] list by (cases "p = []") auto
    qed simp
  qed (simp add: lookup_scalar)
qed

text \<open>Redaction loses nothing but the values of sensitive names.\<close>

lemma redact_keeps:
  assumes "lookup_path v p = Some x" "is_scalar x" "\<forall>k\<in>set S. Key k \<notin> set p"
  shows "lookup_path (redactValue S v) p = Some x \<and> lookup_path (redactNamedMap S v) p = Some x"
  using assms(1,3)
proof (induction p arbitrary: v)
  case (Cons sg p)
  show ?case
  proof (cases v rule: val_cases)
    case (map m)
    with Cons.prems obtain k0 w where k0: "sg = Key k0" "map_of m k0 = Some w" "lookup_path w p = Some x"
      by (cases sg) (auto split: option.splits)
    with Cons.prems(2) have "k0 \<notin> set S" by auto
    with Cons.IH [OF k0(3)] Cons.prems(2) k0 map show ?thesis by (simp add: redact_lookup)
  next
    case (list l)
    with Cons.prems Cons.IH show ?thesis by (cases sg) (auto split: if_splits)
  next
    case scalar
    with Cons.prems show ?thesis by (simp add: lookup_scalar)
  qed
qed (use assms(2) in simp)

subsection \<open>Properties\<close>


definition input_workflow :: Workflow where
  "input_workflow = zero_Workflow\<lparr>Workflow_Spec := zero_WorkflowSpec\<lparr>WorkflowSpec_Inputs :=
     [\<lparr>Input_Name = ''env'', Input_Description = [], Input_Default = [], Input_Required = True\<rparr>]\<rparr>\<rparr>"


text \<open>
  The completion order rebuilt from persisted step statuses lists exactly the succeeded steps,
  each once, by completion time (a missing one sorts oldest) and then name, and it does not depend
  on the order in which the status map is enumerated.
\<close>

theorem RestoreCompletionOrder_deterministic:
  assumes "wf_map statuses" "wf_map statuses'" "map_of statuses = map_of statuses'"
  shows "RestoreCompletionOrder statuses cm = RestoreCompletionOrder statuses' cm \<and>
    (let order = CompletionOrder (RestoreCompletionOrder statuses cm) in
       distinct order \<and>
       (\<forall>n. n \<in> set order \<longleftrightarrow> (\<exists>s. map_of statuses n = Some s \<and> StepStatus_Phase s = StepPhaseSucceeded)) \<and>
       sorted_wrt (\<lambda>a b. (the (succeeded_time statuses a), a) < (the (succeeded_time statuses b), b)) order)"
proof -
  let ?es = "sort (completed_entries statuses)"
  note dist = distinct_completed_entries [unfolded distinct_map]
  have "set (completed_entries statuses) = set (completed_entries statuses')"
    using assms by (auto simp: set_completed_entries succeeded_time_def)
  then have same: "?es = sort (completed_entries statuses')"
    using dist [OF assms(1)] dist [OF assms(2)] by (intro sorted_distinct_set_unique) simp_all
  have names: "distinct (map snd ?es)" using dist [OF assms(1)] by (simp add: distinct_map)
  have entry: "succeeded_time statuses (snd e) = Some (fst e)" if "e \<in> set ?es" for e
    using that set_completed_entries [OF assms(1), of "fst e" "snd e"] by simp
  have "sorted_wrt (<) ?es" using dist [OF assms(1)] by (simp add: strict_sorted_iff)
  then have sorted: "sorted_wrt (\<lambda>a b. (the (succeeded_time statuses a), a) < (the (succeeded_time statuses b), b))
      (map snd ?es)"
    unfolding sorted_wrt_map by (rule sorted_wrt_mono_rel [rotated]) (simp add: entry)
  have "n \<in> set (map snd ?es) \<longleftrightarrow> succeeded_time statuses n \<noteq> None" for n
    using set_completed_entries [OF assms(1), of _ n] by (auto simp: image_iff) (metis snd_conv)
  with names sorted same show ?thesis
    by (auto simp: RestoreCompletionOrder_def CompletionOrder_def Let_def succeeded_time_def
        split: option.splits if_splits)
qed

theorem RestoreCompletionOrder_deterministic_witness:
  "RestoreCompletionOrder [(''a'', zero_StepStatus\<lparr>StepStatus_Phase := StepPhaseSucceeded\<rparr>),
       (''b'', zero_StepStatus\<lparr>StepStatus_Phase := StepPhaseSucceeded\<rparr>)] NewContextManager =
   RestoreCompletionOrder [(''b'', zero_StepStatus\<lparr>StepStatus_Phase := StepPhaseSucceeded\<rparr>),
       (''a'', zero_StepStatus\<lparr>StepStatus_Phase := StepPhaseSucceeded\<rparr>)] NewContextManager"
  by (rule RestoreCompletionOrder_deterministic [THEN conjunct1]) (auto simp: wf_map_def)


definition sensitive_workflow :: Workflow where
  "sensitive_workflow = zero_Workflow\<lparr>Workflow_Spec := zero_WorkflowSpec\<lparr>WorkflowSpec_Outputs :=
     [\<lparr>Output_Name = ''token'', Output_Expression = [], Output_Value = None, Output_Metric = None,
       Output_Sensitive = True\<rparr>]\<rparr>\<rparr>"

lemma sensitive_workflow_names [simp]: "sensitiveOutputNames sensitive_workflow = [''token'']"
  by (simp add: sensitiveOutputNames_def sensitive_workflow_def collect_sensitive_def
      zero_Workflow_def zero_WorkflowSpec_def)


text \<open>
  Redaction loses nothing else: a scalar reached along keys none of which is a sensitive name is
  in the audit copy unchanged.
\<close>

theorem redact_keeps_rest:
  assumes "lookup_path (VMap ctxData) p = Some x" "is_scalar x"
    "\<forall>name\<in>set (sensitiveOutputNames workflow). Key name \<notin> set p"
  shows "lookup_path (VMap (redactSensitiveContext ctxData (sensitiveOutputNames workflow))) p = Some x"
  using redact_keeps [OF assms] by (simp add: redactSensitiveContext_def)

theorem redact_keeps_rest_witness:
  "lookup_path (VMap (redactSensitiveContext [(''outputs'', VMap [(''count'', VInt 3)])]
       (sensitiveOutputNames sensitive_workflow))) [Key ''outputs'', Key ''count''] = Some (VInt 3)"
  by (rule redact_keeps_rest) (simp_all add: is_scalar_def)

text \<open>
  A map named \<^verbatim>\<open>outputs\<close> directly inside a \<^verbatim>\<open>variables\<close> map, such as a step output of that name, is
  not covered: its entries are copied as they are.
\<close>

lemma redact_nested_outputs:
  "redactSensitiveContext [(''variables'', VMap [(''outputs'', VMap [(''token'', VString ''s3cret'')])])] [''token'']
   = [(''variables'', VMap [(''outputs'', VMap [(''token'', VString ''s3cret'')])])]"
  by (simp add: redactSensitiveContext_def named_key_def)

text \<open>
  The lastN budget keeps every part of the context but the steps map, in which it keeps, with
  their values, exactly the last n of the completed steps that have an entry there: never more than n.
\<close>

theorem applyLastNBudget_keeps_last:
  assumes "map_of contextData ''steps'' = Some (VMap stepsMap)" "wf_map stepsMap" "0 < n"
  shows "\<exists>kept. map_of (applyLastNBudget contextData n order) =
      (map_of contextData)(''steps'' \<mapsto> VMap kept) \<and>
    (\<forall>k. map_of kept k =
       (if k \<in> set (last_n n (filter (has_key stepsMap) order)) then map_of stepsMap k else None)) \<and>
    int (length kept) \<le> n"
proof -
  let ?r = "last_n n (filter (has_key stepsMap) order)"
  let ?kept = "filter (\<lambda>(k, v). k \<in> set ?r) stepsMap"
  have m: "map_of ?kept k = (if k \<in> set ?r then map_of stepsMap k else None)" for k
    by (rule map_of_filter_keys)
  have "distinct (map fst ?kept)"
    using assms(2) by (simp add: wf_map_def distinct_map_filter)
  then have "length ?kept = card (fst ` set ?kept)"
    by (metis distinct_card length_map set_map)
  also have "\<dots> \<le> card (set ?r)" by (rule card_mono) auto
  also have "\<dots> \<le> length ?r" by (rule card_length)
  finally have "int (length ?kept) \<le> n" using assms(3) by (simp add: last_n_def Let_def split: if_splits)
  moreover have "applyLastNBudget contextData n order = copyContextWithSteps contextData ?kept"
    using assms(1) by (simp add: applyLastNBudget_def Let_def)
  ultimately show ?thesis using m by (intro exI [of _ ?kept]) (simp add: copyContextWithSteps_def)
qed

theorem applyLastNBudget_keeps_last_witness:
  "\<exists>kept. map_of (applyLastNBudget [(''steps'', VMap [(''a'', VInt 1), (''b'', VInt 2)])] 1 [''a'', ''b'']) =
      (map_of [(''steps'', VMap [(''a'', VInt 1), (''b'', VInt 2)])])(''steps'' \<mapsto> VMap kept) \<and>
      int (length kept) \<le> 1"
  using applyLastNBudget_keeps_last [of "[(''steps'', VMap [(''a'', VInt 1), (''b'', VInt 2)])]"
      "[(''a'', VInt 1), (''b'', VInt 2)]" 1 "[''a'', ''b'']"]
  by (auto simp: wf_map_def)

end
