(* ===== verification/Checkpoint.thy ===== *)
theory Checkpoint
  imports Run_Context
begin

text \<open>
  Crash-recovery checkpoints and audit snapshots (\<^verbatim>\<open>internal/workflow/executor/checkpoint.go\<close>).

  The text stored in a ConfigMap is the snapshot it decodes to (\<open>cm_text\<close>): encoding/json gives
  float64 numbers (\<open>json_norm\<close>) and \<^verbatim>\<open>metav1.Time\<close> keeps whole seconds. The Kubernetes client is the
  parameter \<open>cl\<close>, functions on a server state \<open>'s\<close>; \<open>api_server\<close> states the documented behaviour the
  code relies on, namely optimistic concurrency on the resource version. The length of an encoded
  snapshot is the parameter \<open>json_size\<close>, and client-go's \<^verbatim>\<open>retry.RetryOnConflict\<close> the parameter
  \<open>retry\<close>, of which \<open>retries_conflicts\<close> says that it runs the function again only after a conflict.
\<close>

subsection \<open>Snapshots\<close>

record CheckpointSnapshot =
  Snapshot_Version :: int
  Snapshot_WorkflowRunUID :: string
  Snapshot_LastCompletedStep :: string
  Snapshot_StepStatuses :: step_statuses
  Snapshot_Context :: "gomap option"
  Snapshot_CompletionOrder :: "string list"

datatype cm_text = TextEmpty | TextBad | TextDoc CheckpointSnapshot

definition whole_seconds :: "int option \<Rightarrow> int option" where
  "whole_seconds = map_option (\<lambda>t. t div 1000000000 * 1000000000)"

definition encode_status :: "StepStatus \<Rightarrow> StepStatus" where
  "encode_status s = s\<lparr>StepStatus_StartTime := whole_seconds (StepStatus_StartTime s),
     StepStatus_CompletionTime := whole_seconds (StepStatus_CompletionTime s),
     StepStatus_LastRetryTime := whole_seconds (StepStatus_LastRetryTime s),
     StepStatus_NextRetryTime := whole_seconds (StepStatus_NextRetryTime s)\<rparr>"

definition encode_snapshot :: "CheckpointSnapshot \<Rightarrow> CheckpointSnapshot" where
  "encode_snapshot s = s\<lparr>Snapshot_StepStatuses := map (\<lambda>(n, st). (n, encode_status st)) (Snapshot_StepStatuses s),
     Snapshot_Context := map_option json_norm_entries (Snapshot_Context s)\<rparr>"

definition marshal_snapshot :: "CheckpointSnapshot \<Rightarrow> cm_text option" where
  "marshal_snapshot s =
     (if (case Snapshot_Context s of None \<Rightarrow> True | Some m \<Rightarrow> json_ok_entries m)
      then Some (TextDoc (encode_snapshot s)) else None)"

fun unmarshal_snapshot :: "cm_text \<Rightarrow> CheckpointSnapshot option" where
  "unmarshal_snapshot (TextDoc s) = Some s"
| "unmarshal_snapshot _ = None"

definition terminal_step_phase :: "StepPhase \<Rightarrow> bool" where
  "terminal_step_phase p \<longleftrightarrow> p \<in> {StepPhaseSucceeded, StepPhaseFailed, StepPhaseSkipped}"

definition terminalStepCount :: "step_statuses \<Rightarrow> nat" where
  "terminalStepCount statuses = length (filter (\<lambda>(n, s). terminal_step_phase (StepStatus_Phase s)) statuses)"

subsection \<open>ConfigMaps and their names\<close>

type_synonym object_key = "string \<times> string"

record ConfigMap =
  ConfigMap_Namespace :: string
  ConfigMap_Name :: string
  ConfigMap_Labels :: "(string \<times> string) list"
  ConfigMap_OwnerReferences :: "OwnerReference list"
  ConfigMap_Data :: "(string \<times> cm_text) list"
  ConfigMap_ResourceVersion :: nat

abbreviation ConfigMap_Key :: "ConfigMap \<Rightarrow> object_key" where
  "ConfigMap_Key cm \<equiv> (ConfigMap_Namespace cm, ConfigMap_Name cm)"

record 's client =
  Client_Get :: "object_key \<Rightarrow> 's \<Rightarrow> ConfigMap result \<times> 's"
  Client_Create :: "ConfigMap \<Rightarrow> 's \<Rightarrow> goerror option \<times> 's"
  Client_Update :: "ConfigMap \<Rightarrow> 's \<Rightarrow> goerror option \<times> 's"
  Client_Delete :: "object_key \<Rightarrow> 's \<Rightarrow> goerror option \<times> 's"

definition truncatedConfigMapName :: "string \<Rightarrow> string \<Rightarrow> string" where
  "truncatedConfigMapName prefix runName =
     (let base = replace_byte (CHR ''_'') (CHR ''-'') (prefix @ to_lower runName) in
      if length base \<le> 63 then trim_suffix base ''-''
      else let suffix = hex_pad 8 (unat (fnv64a runName));
               prefix' = trim_suffix (take (63 - length suffix - 1) base) ''-''
           in prefix' @ ''-'' @ suffix)"

definition checkpointConfigMapName :: "string \<Rightarrow> string" where
  "checkpointConfigMapName runName = truncatedConfigMapName ''ottoflow-cp-'' runName"

definition auditConfigMapName :: "string \<Rightarrow> string" where
  "auditConfigMapName runName = truncatedConfigMapName ''ottoflow-audit-'' runName"

record CheckpointManager =
  cpm_cmKey :: object_key
  cpm_auditCmKey :: object_key
  cpm_runUID :: string
  cpm_ownerRefs :: "OwnerReference list"
  cpm_enabled :: bool

definition NewCheckpointManager :: "WorkflowRun \<Rightarrow> CheckpointManager" where
  "NewCheckpointManager run =
     \<lparr>cpm_cmKey = (WorkflowRun_Namespace run, checkpointConfigMapName (WorkflowRun_Name run)),
      cpm_auditCmKey = (WorkflowRun_Namespace run, auditConfigMapName (WorkflowRun_Name run)),
      cpm_runUID = WorkflowRun_UID run,
      cpm_ownerRefs = [\<lparr>OwnerReference_APIVersion = ''ottoflow.nirmata.io/v1alpha1'',
        OwnerReference_Kind = ''WorkflowRun'', OwnerReference_Name = WorkflowRun_Name run,
        OwnerReference_UID = WorkflowRun_UID run, OwnerReference_Controller = True,
        OwnerReference_BlockOwnerDeletion = True\<rparr>],
      cpm_enabled = CheckpointingEnabled run\<rparr>"

subsection \<open>Saving a checkpoint\<close>

text \<open>
  One try of the goroutine that \<^verbatim>\<open>SaveAsync\<close> starts is a read of the ConfigMap and then at most one
  write; other goroutines may run in between. The states of such a goroutine:
\<close>

datatype save_state =
    SaveStart
  | SaveCreate ConfigMap
  | SaveUpdate ConfigMap
  | SaveDone
  | SaveFailed goerror

definition part_of_labels :: "(string \<times> string) list" where
  "part_of_labels = [(''app.kubernetes.io/part-of'', ''ottoflow''),
                     (''app.kubernetes.io/managed-by'', ''ottoflow-runner'')]"

definition checkpoint_cm :: "CheckpointManager \<Rightarrow> object_key \<Rightarrow> string \<Rightarrow> cm_text \<Rightarrow> ConfigMap" where
  "checkpoint_cm cpm key field raw =
     \<lparr>ConfigMap_Namespace = fst key, ConfigMap_Name = snd key, ConfigMap_Labels = part_of_labels,
      ConfigMap_OwnerReferences = cpm_ownerRefs cpm, ConfigMap_Data = [(field, raw)],
      ConfigMap_ResourceVersion = 0\<rparr>"

text \<open>The guard: the stored snapshot is of the same run and at least as advanced.\<close>

definition already_advanced :: "CheckpointManager \<Rightarrow> CheckpointSnapshot \<Rightarrow> ConfigMap \<Rightarrow> bool" where
  "already_advanced cpm snapshot existing =
     (case unmarshal_snapshot (get_or TextEmpty (ConfigMap_Data existing) ''checkpoint'') of
        None \<Rightarrow> False
      | Some es \<Rightarrow> Snapshot_WorkflowRunUID es = cpm_runUID cpm \<and>
          terminalStepCount (Snapshot_StepStatuses snapshot) \<le> terminalStepCount (Snapshot_StepStatuses es))"

definition save_get ::
  "'s client \<Rightarrow> CheckpointManager \<Rightarrow> CheckpointSnapshot \<Rightarrow> cm_text \<Rightarrow> 's \<Rightarrow> save_state \<times> 's" where
  "save_get cl cpm snapshot raw s =
     (case Client_Get cl (cpm_cmKey cpm) s of
        (Inl getErr, s') \<Rightarrow>
          (if errors_is getErr ApiNotFound
           then SaveCreate (checkpoint_cm cpm (cpm_cmKey cpm) ''checkpoint'' raw)
           else SaveFailed getErr, s')
      | (Inr existing, s') \<Rightarrow>
          (if already_advanced cpm snapshot existing then SaveDone
           else SaveUpdate (existing\<lparr>ConfigMap_Data :=
                  AList.update ''checkpoint'' raw (ConfigMap_Data existing)\<rparr>), s'))"

definition conflict_of :: "goerror \<Rightarrow> goerror" where
  "conflict_of e = GoError [ApiConflict] (err_msg e)"

definition save_create :: "'s client \<Rightarrow> ConfigMap \<Rightarrow> 's \<Rightarrow> save_state \<times> 's" where
  "save_create cl newCM s =
     (case Client_Create cl newCM s of
        (None, s') \<Rightarrow> (SaveDone, s')
      | (Some createErr, s') \<Rightarrow>
          (if errors_is createErr ApiAlreadyExists then SaveFailed (conflict_of createErr)
           else SaveFailed createErr, s'))"

definition save_update :: "'s client \<Rightarrow> ConfigMap \<Rightarrow> 's \<Rightarrow> save_state \<times> 's" where
  "save_update cl cm s =
     (case Client_Update cl cm s of (None, s') \<Rightarrow> (SaveDone, s') | (Some e, s') \<Rightarrow> (SaveFailed e, s'))"

fun save_write :: "'s client \<Rightarrow> save_state \<times> 's \<Rightarrow> save_state \<times> 's" where
  "save_write cl (SaveCreate newCM, s) = save_create cl newCM s"
| "save_write cl (SaveUpdate cm, s) = save_update cl cm s"
| "save_write cl (st, s) = (st, s)"

text \<open>\<^verbatim>\<open>SaveAsync\<close> run to completion with nothing in between; its error is only logged.\<close>

type_synonym 's retrier = "('s \<Rightarrow> save_state \<times> 's) \<Rightarrow> 's \<Rightarrow> save_state \<times> 's"

definition SaveAsync ::
  "'s client \<Rightarrow> 's retrier \<Rightarrow> CheckpointManager \<Rightarrow> CheckpointSnapshot \<Rightarrow> 's \<Rightarrow> 's" where
  "SaveAsync cl retry cpm snapshot s =
     (if \<not> cpm_enabled cpm then s
      else (case marshal_snapshot snapshot of None \<Rightarrow> s
            | Some raw \<Rightarrow> snd (retry (\<lambda>s. save_write cl (save_get cl cpm snapshot raw s)) s)))"

definition Load :: "'s client \<Rightarrow> CheckpointManager \<Rightarrow> 's \<Rightarrow> CheckpointSnapshot option result \<times> 's" where
  "Load cl cpm s =
     (if \<not> cpm_enabled cpm then (Inr None, s)
      else (case Client_Get cl (cpm_cmKey cpm) s of
              (Inl e, s') \<Rightarrow> (if errors_is e ApiNotFound then Inr None else Inl e, s')
            | (Inr existing, s') \<Rightarrow>
                ((case map_of (ConfigMap_Data existing) ''checkpoint'' of
                    None \<Rightarrow> Inr None
                  | Some TextEmpty \<Rightarrow> Inr None
                  | Some TextBad \<Rightarrow> Inl (errorf ''checkpoint: failed to unmarshal checkpoint data: invalid JSON'')
                  | Some (TextDoc snapshot) \<Rightarrow>
                      if Snapshot_WorkflowRunUID snapshot \<noteq> cpm_runUID cpm then Inr None
                      else Inr (Some snapshot)), s')))"

definition Delete :: "'s client \<Rightarrow> CheckpointManager \<Rightarrow> 's \<Rightarrow> goerror option \<times> 's" where
  "Delete cl cpm s =
     (if \<not> cpm_enabled cpm then (None, s)
      else (case Client_Delete cl (cpm_cmKey cpm) s of
              (Some e, s') \<Rightarrow> (if errors_is e ApiNotFound then None else Some e, s')
            | (None, s') \<Rightarrow> (None, s')))"

definition DeleteCheckpointForRun :: "'s client \<Rightarrow> WorkflowRun \<Rightarrow> 's \<Rightarrow> 's" where
  "DeleteCheckpointForRun cl run s =
     (if \<not> CheckpointingEnabled run then s
      else snd (Client_Delete cl (WorkflowRun_Namespace run, checkpointConfigMapName (WorkflowRun_Name run)) s))"

subsection \<open>The audit snapshot\<close>

definition auditSnapshotSizeThreshold :: nat where
  "auditSnapshotSizeThreshold = 900 * 1024"

definition auditSnapshotMaxArrayEntries :: nat where
  "auditSnapshotMaxArrayEntries = 50"

definition child_path :: "string \<Rightarrow> string \<Rightarrow> string" where
  "child_path path k = (if path = [] then k else path @ ''.'' @ k)"

text \<open>The pointer to the list of truncated keys is threaded through the walk.\<close>

fun truncateArraysRecursive :: "val \<Rightarrow> string \<Rightarrow> string list \<Rightarrow> val \<times> string list"
  and truncate_entries :: "(string \<times> val) list \<Rightarrow> string \<Rightarrow> string list \<Rightarrow> (string \<times> val) list \<times> string list"
  and truncate_items :: "nat \<Rightarrow> val list \<Rightarrow> string \<Rightarrow> string list \<Rightarrow> val list \<times> string list" where
  "truncateArraysRecursive (VMap m) path ks =
     (let (out, ks') = truncate_entries m path ks in (VMap out, ks'))"
| "truncateArraysRecursive (VList l) path ks =
     (if length l \<le> auditSnapshotMaxArrayEntries
      then (let (out, ks') = truncate_items (length l) l path ks in (VList out, ks'))
      else (let (kept, ks') = truncate_items auditSnapshotMaxArrayEntries l path (ks @ [path])
            in (VMap [(''truncated'', VBool True), (''originalCount'', VInt (int (length l))),
                      (''keptCount'', VInt (int auditSnapshotMaxArrayEntries)), (''items'', VList kept)], ks')))"
| "truncateArraysRecursive v path ks = (v, ks)"
| "truncate_entries [] path ks = ([], ks)"
| "truncate_entries ((k, nv) # m) path ks =
     (let (v', ks1) = truncateArraysRecursive nv (child_path path k) ks;
          (m', ks2) = truncate_entries m path ks1
      in ((k, v') # m', ks2))"
| "truncate_items (Suc n) (nv # l) path ks =
     (let (v', ks1) = truncateArraysRecursive nv path ks;
          (l', ks2) = truncate_items n l path ks1
      in (v' # l', ks2))"
| "truncate_items _ _ path ks = ([], ks)"

definition truncateAuditSnapshot :: "CheckpointSnapshot \<Rightarrow> CheckpointSnapshot" where
  "truncateAuditSnapshot snapshot =
     (let (truncated, truncatedKeys) =
            truncate_entries (case Snapshot_Context snapshot of None \<Rightarrow> [] | Some m \<Rightarrow> m) [] [];
          ctx = (if truncatedKeys \<noteq> []
                 then AList.update ''_auditSnapshotTruncatedKeys'' (VStrings truncatedKeys) truncated
                 else truncated)
      in snapshot\<lparr>Snapshot_Context := Some ctx\<rparr>)"

definition minimalAuditSnapshot :: "CheckpointSnapshot \<Rightarrow> CheckpointSnapshot" where
  "minimalAuditSnapshot snapshot = snapshot\<lparr>Snapshot_Context := Some
     [(''_auditSnapshotDropped'', VBool True),
      (''_auditSnapshotReason'', VString ''context exceeded size threshold even after array truncation'')]\<rparr>"

text \<open>The choice of what is written: the snapshot, its truncated form, or the minimal one.\<close>

definition audit_payload ::
  "(CheckpointSnapshot \<Rightarrow> nat) \<Rightarrow> CheckpointSnapshot \<Rightarrow> CheckpointSnapshot result" where
  "audit_payload json_size snapshot =
     (if marshal_snapshot snapshot = None
      then Inl (errorf ''audit snapshot: failed to marshal snapshot: json: unsupported value'')
      else if json_size snapshot \<le> auditSnapshotSizeThreshold then Inr snapshot
      else let t = truncateAuditSnapshot snapshot in
        if marshal_snapshot t = None
        then Inl (errorf ''audit snapshot: failed to marshal truncated snapshot: json: unsupported value'')
        else if json_size t \<le> auditSnapshotSizeThreshold then Inr t
        else let m = minimalAuditSnapshot snapshot in
          if marshal_snapshot m = None
          then Inl (errorf ''audit snapshot: failed to marshal minimal snapshot: json: unsupported value'')
          else if json_size m \<le> auditSnapshotSizeThreshold then Inr m
          else Inl (errorf (''audit snapshot: minimal snapshot still exceeds '' @
                 utoa auditSnapshotSizeThreshold @ '' byte threshold ('' @ utoa (json_size m) @ '' bytes)'')))"

definition audit_get :: "'s client \<Rightarrow> CheckpointManager \<Rightarrow> cm_text \<Rightarrow> 's \<Rightarrow> save_state \<times> 's" where
  "audit_get cl cpm raw s =
     (case Client_Get cl (cpm_auditCmKey cpm) s of
        (Inl getErr, s') \<Rightarrow>
          (if errors_is getErr ApiNotFound
           then SaveCreate (checkpoint_cm cpm (cpm_auditCmKey cpm) ''snapshot'' raw)
           else SaveFailed getErr, s')
      | (Inr existing, s') \<Rightarrow>
          (SaveUpdate (existing\<lparr>ConfigMap_OwnerReferences := cpm_ownerRefs cpm,
             ConfigMap_Labels := put_all (ConfigMap_Labels existing) part_of_labels,
             ConfigMap_Data := AList.update ''snapshot'' raw (ConfigMap_Data existing)\<rparr>), s'))"

definition SaveAuditSnapshot ::
  "'s client \<Rightarrow> 's retrier \<Rightarrow> (CheckpointSnapshot \<Rightarrow> nat) \<Rightarrow> CheckpointManager \<Rightarrow> CheckpointSnapshot \<Rightarrow> 's
     \<Rightarrow> string result \<times> 's" where
  "SaveAuditSnapshot cl retry json_size cpm snapshot s =
     (case audit_payload json_size snapshot of
        Inl e \<Rightarrow> (Inl e, s)
      | Inr payload \<Rightarrow>
          (case marshal_snapshot payload of
             None \<Rightarrow> (Inl (errorf ''audit snapshot: failed to marshal snapshot: json: unsupported value''), s)
           | Some raw \<Rightarrow>
               (case retry (\<lambda>s. save_write cl (audit_get cl cpm raw s)) s of
                  (SaveFailed e, s') \<Rightarrow> (Inl (wrapf ''audit snapshot: failed to save ConfigMap: '' e), s')
                | (_, s') \<Rightarrow> (Inr (snd (cpm_auditCmKey cpm)), s'))))"

subsection \<open>The environment\<close>

text \<open>
  What the API server promises about ConfigMaps: \<open>stored\<close> is its content. A read returns what is
  stored; a create needs the key to be free; an update needs the resource version to be the stored
  one and makes it grow. A write that is refused as a conflict, as existing or as not found changes
  nothing; any other error, a timeout for instance, leaves open whether the write happened.
\<close>

definition refused :: "goerror \<Rightarrow> bool" where
  "refused e \<longleftrightarrow> errors_is e ApiConflict \<or> errors_is e ApiAlreadyExists \<or> errors_is e ApiNotFound"

definition created_by :: "ConfigMap \<Rightarrow> (object_key \<Rightarrow> ConfigMap option) \<Rightarrow> (object_key \<Rightarrow> ConfigMap option) \<Rightarrow> bool" where
  "created_by cm m m' \<longleftrightarrow> m (ConfigMap_Key cm) = None \<and>
     (\<exists>rv. m' = m(ConfigMap_Key cm \<mapsto> cm\<lparr>ConfigMap_ResourceVersion := rv\<rparr>))"

definition updated_by :: "ConfigMap \<Rightarrow> (object_key \<Rightarrow> ConfigMap option) \<Rightarrow> (object_key \<Rightarrow> ConfigMap option) \<Rightarrow> bool" where
  "updated_by cm m m' \<longleftrightarrow> (\<exists>old rv. m (ConfigMap_Key cm) = Some old \<and>
     ConfigMap_ResourceVersion old = ConfigMap_ResourceVersion cm \<and> ConfigMap_ResourceVersion cm < rv \<and>
     m' = m(ConfigMap_Key cm \<mapsto> cm\<lparr>ConfigMap_ResourceVersion := rv\<rparr>))"

definition write_outcome :: "goerror option \<Rightarrow> 'a \<Rightarrow> 'a \<Rightarrow> bool \<Rightarrow> bool" where
  "write_outcome r m m' applied \<longleftrightarrow>
     (case r of None \<Rightarrow> applied | Some e \<Rightarrow> m' = m \<or> (applied \<and> \<not> refused e))"

definition get_law :: "'s client \<Rightarrow> ('s \<Rightarrow> object_key \<Rightarrow> ConfigMap option) \<Rightarrow> bool" where
  "get_law cl stored \<longleftrightarrow>
     (\<forall>k s r s'. Client_Get cl k s = (r, s') \<longrightarrow> stored s' = stored s \<and>
        (case r of Inr cm \<Rightarrow> stored s k = Some cm \<and> ConfigMap_Key cm = k
         | Inl e \<Rightarrow> errors_is e ApiNotFound \<longrightarrow> stored s k = None))"

definition create_law :: "'s client \<Rightarrow> ('s \<Rightarrow> object_key \<Rightarrow> ConfigMap option) \<Rightarrow> bool" where
  "create_law cl stored \<longleftrightarrow>
     (\<forall>cm s r s'. Client_Create cl cm s = (r, s') \<longrightarrow>
        write_outcome r (stored s) (stored s') (created_by cm (stored s) (stored s')))"

definition update_law :: "'s client \<Rightarrow> ('s \<Rightarrow> object_key \<Rightarrow> ConfigMap option) \<Rightarrow> bool" where
  "update_law cl stored \<longleftrightarrow>
     (\<forall>cm s r s'. Client_Update cl cm s = (r, s') \<longrightarrow>
        write_outcome r (stored s) (stored s') (updated_by cm (stored s) (stored s')))"

definition delete_law :: "'s client \<Rightarrow> ('s \<Rightarrow> object_key \<Rightarrow> ConfigMap option) \<Rightarrow> bool" where
  "delete_law cl stored \<longleftrightarrow>
     (\<forall>k s r s'. Client_Delete cl k s = (r, s') \<longrightarrow>
        write_outcome r (stored s) (stored s') (stored s' = (stored s)(k := None)) \<and>
        (\<forall>e. r = Some e \<and> errors_is e ApiNotFound \<longrightarrow> stored s k = None))"

definition api_server :: "'s client \<Rightarrow> ('s \<Rightarrow> object_key \<Rightarrow> ConfigMap option) \<Rightarrow> bool" where
  "api_server cl stored \<longleftrightarrow>
     get_law cl stored \<and> create_law cl stored \<and> update_law cl stored \<and> delete_law cl stored"

inductive retry_run :: "('s \<Rightarrow> save_state \<times> 's) \<Rightarrow> 's \<Rightarrow> save_state \<times> 's \<Rightarrow> bool" for f where
  last_try: "f s = r \<Longrightarrow> retry_run f s r"
| next_try: "f s = (SaveFailed e, s1) \<Longrightarrow> errors_is e ApiConflict \<Longrightarrow> retry_run f s1 r \<Longrightarrow> retry_run f s r"

definition retries_conflicts :: "'s retrier \<Rightarrow> bool" where
  "retries_conflicts retry \<longleftrightarrow> (\<forall>f s. retry_run f s (retry f s))"

text \<open>
  The goroutines of one run: each holds the snapshot it saves and its state. A goroutine that failed
  with a conflict may try again.
\<close>

inductive save_system ::
  "'s client \<Rightarrow> CheckpointManager \<Rightarrow> 's \<times> (CheckpointSnapshot \<times> save_state) list
     \<Rightarrow> 's \<times> (CheckpointSnapshot \<times> save_state) list \<Rightarrow> bool" for cl cpm where
  spawn: "marshal_snapshot snap \<noteq> None \<Longrightarrow> Snapshot_WorkflowRunUID snap = cpm_runUID cpm \<Longrightarrow>
     save_system cl cpm (s, ps) (s, ps @ [(snap, SaveStart)])"
| get: "i < length ps \<Longrightarrow> ps ! i = (snap, SaveStart) \<Longrightarrow> marshal_snapshot snap = Some raw \<Longrightarrow>
     save_get cl cpm snap raw s = (st, s') \<Longrightarrow> save_system cl cpm (s, ps) (s', ps[i := (snap, st)])"
| create: "i < length ps \<Longrightarrow> ps ! i = (snap, SaveCreate cm) \<Longrightarrow> save_create cl cm s = (st, s') \<Longrightarrow>
     save_system cl cpm (s, ps) (s', ps[i := (snap, st)])"
| update: "i < length ps \<Longrightarrow> ps ! i = (snap, SaveUpdate cm) \<Longrightarrow> save_update cl cm s = (st, s') \<Longrightarrow>
     save_system cl cpm (s, ps) (s', ps[i := (snap, st)])"
| retry: "i < length ps \<Longrightarrow> ps ! i = (snap, SaveFailed e) \<Longrightarrow> errors_is e ApiConflict \<Longrightarrow>
     save_system cl cpm (s, ps) (s, ps[i := (snap, SaveStart)])"

text \<open>How far the stored checkpoint of this run is.\<close>

definition cm_progress :: "CheckpointManager \<Rightarrow> ConfigMap option \<Rightarrow> nat" where
  "cm_progress cpm c =
     (case c of None \<Rightarrow> 0
      | Some cm \<Rightarrow> (case unmarshal_snapshot (get_or TextEmpty (ConfigMap_Data cm) ''checkpoint'') of
                      None \<Rightarrow> 0
                    | Some es \<Rightarrow> if Snapshot_WorkflowRunUID es = cpm_runUID cpm
                                 then terminalStepCount (Snapshot_StepStatuses es) else 0))"

subsection \<open>Concurrent saves\<close>

lemma count_encode [simp]:
  "terminalStepCount (Snapshot_StepStatuses (encode_snapshot snap)) = terminalStepCount (Snapshot_StepStatuses snap)"
  by (simp add: terminalStepCount_def encode_snapshot_def encode_status_def filter_map o_def split_def)

lemma uid_encode [simp]: "Snapshot_WorkflowRunUID (encode_snapshot snap) = Snapshot_WorkflowRunUID snap"
  by (simp add: encode_snapshot_def)

lemma marshal_snapshot_Some: "marshal_snapshot snap = Some raw \<Longrightarrow> raw = TextDoc (encode_snapshot snap)"
  by (auto simp: marshal_snapshot_def split: if_splits)

abbreviation snap_count :: "CheckpointSnapshot \<Rightarrow> nat" where
  "snap_count snap \<equiv> terminalStepCount (Snapshot_StepStatuses snap)"

lemma not_advanced_progress:
  "\<not> already_advanced cpm snap old \<Longrightarrow> cm_progress cpm (Some old) \<le> snap_count snap"
  by (auto simp: already_advanced_def cm_progress_def split: option.splits)

lemma advanced_progress:
  "already_advanced cpm snap old \<Longrightarrow> snap_count snap \<le> cm_progress cpm (Some old)"
  by (auto simp: already_advanced_def cm_progress_def split: option.splits)

text \<open>What writing a snapshot makes of the stored ConfigMap.\<close>

lemma progress_written:
  assumes "marshal_snapshot snap = Some raw" "Snapshot_WorkflowRunUID snap = cpm_runUID cpm"
    "map_of (ConfigMap_Data cm) ''checkpoint'' = Some raw"
  shows "cm_progress cpm (Some cm) = snap_count snap"
  using assms marshal_snapshot_Some [OF assms(1)] by (simp add: cm_progress_def get_or_def)

text \<open>The stored ConfigMap only moves forward: in progress and, once it exists, in its version.\<close>

definition advances :: "CheckpointManager \<Rightarrow> ConfigMap option \<Rightarrow> ConfigMap option \<Rightarrow> bool" where
  "advances cpm cur cur' \<longleftrightarrow> cur' = cur \<or>
     (cm_progress cpm cur \<le> cm_progress cpm cur' \<and>
      (\<forall>now. cur = Some now \<longrightarrow>
         (\<exists>new. cur' = Some new \<and> ConfigMap_ResourceVersion now < ConfigMap_ResourceVersion new)))"

fun proc_ok :: "CheckpointManager \<Rightarrow> ConfigMap option \<Rightarrow> CheckpointSnapshot \<Rightarrow> save_state \<Rightarrow> bool" where
  "proc_ok cpm cur snap (SaveCreate cm) =
     (\<exists>raw. marshal_snapshot snap = Some raw \<and> cm = checkpoint_cm cpm (cpm_cmKey cpm) ''checkpoint'' raw)"
| "proc_ok cpm cur snap (SaveUpdate cm) =
     (\<exists>old raw now. marshal_snapshot snap = Some raw \<and> ConfigMap_Key old = cpm_cmKey cpm \<and>
        cm = old\<lparr>ConfigMap_Data := AList.update ''checkpoint'' raw (ConfigMap_Data old)\<rparr> \<and>
        cm_progress cpm (Some old) \<le> snap_count snap \<and> cur = Some now \<and>
        ConfigMap_ResourceVersion old \<le> ConfigMap_ResourceVersion now \<and>
        (ConfigMap_ResourceVersion now = ConfigMap_ResourceVersion old \<longrightarrow> now = old))"
| "proc_ok cpm cur snap SaveDone = (snap_count snap \<le> cm_progress cpm cur)"
| "proc_ok cpm cur snap _ = True"

definition procs_ok :: "CheckpointManager \<Rightarrow> ConfigMap option \<Rightarrow> (CheckpointSnapshot \<times> save_state) list \<Rightarrow> bool" where
  "procs_ok cpm cur ps \<longleftrightarrow>
     (\<forall>(snap, st) \<in> set ps. Snapshot_WorkflowRunUID snap = cpm_runUID cpm \<and> proc_ok cpm cur snap st)"

lemma proc_ok_advances:
  assumes "proc_ok cpm cur snap st" "advances cpm cur cur'"
  shows "proc_ok cpm cur' snap st"
proof (cases st)
  case (SaveUpdate cm)
  with assms show ?thesis by (fastforce simp: advances_def)
next
  case SaveDone
  with assms show ?thesis by (auto simp: advances_def)
qed (use assms in auto)

lemma procs_ok_step:
  assumes "procs_ok cpm cur ps" "i < length ps" "ps ! i = (snap, st)" "advances cpm cur cur'"
    "proc_ok cpm cur' snap st'"
  shows "procs_ok cpm cur' (ps[i := (snap, st')])"
proof -
  from assms(1-3) have "Snapshot_WorkflowRunUID snap = cpm_runUID cpm"
    unfolding procs_ok_def by (metis (mono_tags, lifting) case_prodD nth_mem)
  moreover have "Snapshot_WorkflowRunUID sn = cpm_runUID cpm \<and> proc_ok cpm cur' sn t"
    if "(sn, t) \<in> set ps" for sn t
    using that assms(1,4) proc_ok_advances unfolding procs_ok_def by blast
  ultimately show ?thesis
    using assms(5) set_update_subset_insert [of ps i "(snap, st')"] unfolding procs_ok_def by blast
qed

lemma procs_okD:
  assumes "procs_ok cpm cur ps" "i < length ps" "ps ! i = (snap, st)"
  shows "Snapshot_WorkflowRunUID snap = cpm_runUID cpm" "proc_ok cpm cur snap st"
  using assms nth_mem [of i ps] unfolding procs_ok_def by force+

lemma api_server_get:
  assumes "api_server cl stored" "Client_Get cl k s = (r, s')"
  shows "stored s' = stored s"
    "r = Inr cm \<Longrightarrow> stored s k = Some cm \<and> ConfigMap_Key cm = k"
    "r = Inl e \<Longrightarrow> errors_is e ApiNotFound \<Longrightarrow> stored s k = None"
  using assms unfolding api_server_def get_law_def by fastforce+

lemma api_server_create:
  assumes "api_server cl stored" "Client_Create cl cm s = (r, s')"
  shows "write_outcome r (stored s) (stored s') (created_by cm (stored s) (stored s'))"
  using assms unfolding api_server_def create_law_def by blast

lemma api_server_update:
  assumes "api_server cl stored" "Client_Update cl cm s = (r, s')"
  shows "write_outcome r (stored s) (stored s') (updated_by cm (stored s) (stored s'))"
  using assms unfolding api_server_def update_law_def by blast

lemma api_server_delete:
  assumes "api_server cl stored" "Client_Delete cl k s = (r, s')"
  shows "write_outcome r (stored s) (stored s') (stored s' = (stored s)(k := None))"
    "r = Some e \<Longrightarrow> errors_is e ApiNotFound \<Longrightarrow> stored s k = None"
  using assms unfolding api_server_def delete_law_def by blast+

lemma save_get_ok:
  assumes "api_server cl stored" "save_get cl cpm snap raw s = (st, s')" "marshal_snapshot snap = Some raw"
  shows "stored s' = stored s \<and> proc_ok cpm (stored s (cpm_cmKey cpm)) snap st"
proof -
  obtain r s1 where g: "Client_Get cl (cpm_cmKey cpm) s = (r, s1)" by force
  note law = api_server_get [OF assms(1) g]
  show ?thesis
  proof (cases r)
    case (Inl e)
    with assms g law(1) show ?thesis by (auto simp: save_get_def split: if_splits)
  next
    case (Inr old)
    note cur = law(1) law(2) [OF Inr, THEN conjunct1] law(2) [OF Inr, THEN conjunct2]
    show ?thesis
    proof (cases "already_advanced cpm snap old")
      case True
      with assms(2) g Inr cur advanced_progress [OF True] show ?thesis by (auto simp: save_get_def)
    next
      case False
      with assms(2) g Inr cur(1) have st: "s' = s1" "st = SaveUpdate (old\<lparr>ConfigMap_Data :=
          AList.update ''checkpoint'' raw (ConfigMap_Data old)\<rparr>)" by (auto simp: save_get_def)
      have "proc_ok cpm (Some old) snap st"
        unfolding st(2) proc_ok.simps using assms(3) cur(3) not_advanced_progress [OF False] by blast
      then show ?thesis by (simp add: st(1) cur)
    qed
  qed
qed

lemma created_advances:
  assumes "created_by (checkpoint_cm cpm (cpm_cmKey cpm) ''checkpoint'' raw) m m'"
    "marshal_snapshot snap = Some raw" "Snapshot_WorkflowRunUID snap = cpm_runUID cpm"
  shows "advances cpm (m (cpm_cmKey cpm)) (m' (cpm_cmKey cpm)) \<and>
    snap_count snap \<le> cm_progress cpm (m' (cpm_cmKey cpm))"
proof -
  from assms(1) obtain rv where m: "m (cpm_cmKey cpm) = None" "m' (cpm_cmKey cpm) =
      Some ((checkpoint_cm cpm (cpm_cmKey cpm) ''checkpoint'' raw)\<lparr>ConfigMap_ResourceVersion := rv\<rparr>)"
    by (auto simp: created_by_def checkpoint_cm_def)
  have "cm_progress cpm (m' (cpm_cmKey cpm)) = snap_count snap"
    unfolding m(2) by (rule progress_written [OF assms(2,3)]) (simp add: checkpoint_cm_def)
  with m(1) show ?thesis by (simp add: advances_def cm_progress_def)
qed

lemma updated_advances:
  assumes upd: "updated_by cm m m'" and ok: "proc_ok cpm (m (cpm_cmKey cpm)) snap (SaveUpdate cm)"
    and uid: "Snapshot_WorkflowRunUID snap = cpm_runUID cpm"
  shows "advances cpm (m (cpm_cmKey cpm)) (m' (cpm_cmKey cpm)) \<and>
    snap_count snap \<le> cm_progress cpm (m' (cpm_cmKey cpm))"
proof -
  from ok obtain old raw now where o: "marshal_snapshot snap = Some raw" "ConfigMap_Key old = cpm_cmKey cpm"
    "cm = old\<lparr>ConfigMap_Data := AList.update ''checkpoint'' raw (ConfigMap_Data old)\<rparr>"
    "cm_progress cpm (Some old) \<le> snap_count snap" "m (cpm_cmKey cpm) = Some now"
    "ConfigMap_ResourceVersion now = ConfigMap_ResourceVersion old \<longrightarrow> now = old" by auto
  then have key: "ConfigMap_Key cm = cpm_cmKey cpm" by simp
  with upd o obtain rv where m: "ConfigMap_ResourceVersion old < rv" "now = old"
    "m' (cpm_cmKey cpm) = Some (cm\<lparr>ConfigMap_ResourceVersion := rv\<rparr>)"
    by (auto simp: updated_by_def)
  have "cm_progress cpm (m' (cpm_cmKey cpm)) = snap_count snap"
    unfolding m(3) by (rule progress_written [OF o(1) uid]) (simp add: o(3))
  with m o show ?thesis by (simp add: advances_def)
qed

lemma write_outcome_ok:
  assumes "write_outcome r m m' applied" "applied \<Longrightarrow> advances cpm (m k) (m' k) \<and> c \<le> cm_progress cpm (m' k)"
  shows "advances cpm (m k) (m' k) \<and> (r = None \<longrightarrow> c \<le> cm_progress cpm (m' k))"
  using assms by (auto simp: write_outcome_def advances_def split: option.splits)

text \<open>Every step keeps the invariant and moves the stored checkpoint only forward.\<close>

lemma save_system_step:
  assumes srv: "api_server cl stored" and step: "save_system cl cpm (s, ps) (s', ps')"
    and ok: "procs_ok cpm (stored s (cpm_cmKey cpm)) ps"
  shows "advances cpm (stored s (cpm_cmKey cpm)) (stored s' (cpm_cmKey cpm)) \<and>
    procs_ok cpm (stored s' (cpm_cmKey cpm)) ps'"
  using step
proof cases
  case (spawn snap)
  with ok show ?thesis by (auto simp: advances_def procs_ok_def)
next
  case (get i snap raw st)
  with save_get_ok [OF srv] have "stored s' = stored s" "proc_ok cpm (stored s (cpm_cmKey cpm)) snap st"
    by blast+
  with get procs_ok_step [OF ok] show ?thesis by (simp add: advances_def)
next
  case (create i snap cm st)
  note pok = procs_okD [OF ok create(2,3)]
  then obtain raw where raw: "marshal_snapshot snap = Some raw"
    "cm = checkpoint_cm cpm (cpm_cmKey cpm) ''checkpoint'' raw" by auto
  obtain r s1 where c: "Client_Create cl cm s = (r, s1)" by force
  then have s1: "s1 = s'" and st: "st = SaveDone \<and> r = None \<or> (\<exists>e. st = SaveFailed e)"
    using create(4) by (auto simp: save_create_def split: option.splits)
  have adv: "advances cpm (stored s (cpm_cmKey cpm)) (stored s' (cpm_cmKey cpm)) \<and>
      (r = None \<longrightarrow> snap_count snap \<le> cm_progress cpm (stored s' (cpm_cmKey cpm)))"
    by (rule write_outcome_ok [OF api_server_create [OF srv c, unfolded s1]])
      (use created_advances raw pok(1) in blast)
  then have "proc_ok cpm (stored s' (cpm_cmKey cpm)) snap st" using st by auto
  with procs_ok_step [OF ok create(2,3)] adv create(1) show ?thesis by blast
next
  case (update i snap cm st)
  note pok = procs_okD [OF ok update(2,3)]
  obtain r s1 where c: "Client_Update cl cm s = (r, s1)" by force
  then have s1: "s1 = s'" and st: "st = SaveDone \<and> r = None \<or> (\<exists>e. st = SaveFailed e)"
    using update(4) by (auto simp: save_update_def split: option.splits)
  have adv: "advances cpm (stored s (cpm_cmKey cpm)) (stored s' (cpm_cmKey cpm)) \<and>
      (r = None \<longrightarrow> snap_count snap \<le> cm_progress cpm (stored s' (cpm_cmKey cpm)))"
    by (rule write_outcome_ok [OF api_server_update [OF srv c, unfolded s1]])
      (use updated_advances pok in blast)
  then have "proc_ok cpm (stored s' (cpm_cmKey cpm)) snap st" using st by auto
  with procs_ok_step [OF ok update(2,3)] adv update(1) show ?thesis by blast
next
  case (retry i snap e)
  with procs_ok_step [OF ok, of i snap "SaveFailed e" _ SaveStart] show ?thesis
    by (simp add: advances_def)
qed

lemma save_system_run:
  assumes srv: "api_server cl stored" and run: "(save_system cl cpm)\<^sup>*\<^sup>* (s0, []) (s, ps)"
  shows "cm_progress cpm (stored s0 (cpm_cmKey cpm)) \<le> cm_progress cpm (stored s (cpm_cmKey cpm)) \<and>
    procs_ok cpm (stored s (cpm_cmKey cpm)) ps"
  using run
proof (induction rule: rtranclp_induct2)
  case refl
  show ?case by (simp add: procs_ok_def)
next
  case (step s1 ps1 s2 ps2)
  from save_system_step [OF srv step(2) conjunct2 [OF step(3)]] step(3) show ?case
    by (auto simp: advances_def)
qed

text \<open>
  C7: Whatever the interleaving of the save goroutines of a run, with an API server that refuses an
  update of an outdated resource version, the stored checkpoint never loses progress, and once a
  goroutine has finished, what \<^verbatim>\<open>Load\<close> reads is at least as advanced as its snapshot.
\<close>

theorem concurrent_saves_monotone:
  assumes srv: "api_server cl stored" and run: "(save_system cl cpm)\<^sup>*\<^sup>* (s0, []) (s, ps)"
    and fin: "(snap, SaveDone) \<in> set ps" and enabled: "cpm_enabled cpm"
    and load: "Load cl cpm s = (Inr r, s')"
  shows "cm_progress cpm (stored s0 (cpm_cmKey cpm)) \<le> cm_progress cpm (stored s (cpm_cmKey cpm)) \<and>
    (0 < terminalStepCount (Snapshot_StepStatuses snap) \<longrightarrow>
       (\<exists>loaded. r = Some loaded \<and> Snapshot_WorkflowRunUID loaded = cpm_runUID cpm \<and>
          terminalStepCount (Snapshot_StepStatuses snap) \<le> terminalStepCount (Snapshot_StepStatuses loaded)))"
proof -
  note inv = save_system_run [OF srv run]
  with fin have prog: "snap_count snap \<le> cm_progress cpm (stored s (cpm_cmKey cpm))"
    unfolding procs_ok_def by fastforce
  obtain g s1 where g: "Client_Get cl (cpm_cmKey cpm) s = (g, s1)" by force
  note law = api_server_get [OF srv g]
  have "\<exists>loaded. r = Some loaded \<and> Snapshot_WorkflowRunUID loaded = cpm_runUID cpm \<and>
      snap_count snap \<le> snap_count loaded" if pos: "0 < snap_count snap"
  proof (cases g)
    case (Inl e)
    with load enabled g have "errors_is e ApiNotFound" by (auto simp: Load_def split: if_splits)
    with law(3) [OF Inl] prog pos show ?thesis by (simp add: cm_progress_def)
  next
    case (Inr cm)
    with law(2) have "cm_progress cpm (Some cm) = cm_progress cpm (stored s (cpm_cmKey cpm))" by metis
    with prog pos have "snap_count snap \<le> cm_progress cpm (Some cm)" "0 < cm_progress cpm (Some cm)" by simp_all
    with load enabled g Inr show ?thesis
      by (auto simp: Load_def cm_progress_def get_or_def split: option.splits if_splits cm_text.splits)
  qed
  with inv show ?thesis by blast
qed

text \<open>A server that keeps a map and counts versions, to show that the promises can be kept.\<close>

definition mem_client :: "(object_key \<Rightarrow> ConfigMap option) client" where
  "mem_client =
     \<lparr>Client_Get = (\<lambda>k m. (case m k of None \<Rightarrow> Inl (GoError [ApiNotFound] ''not found'')
                            | Some cm \<Rightarrow> if ConfigMap_Key cm = k then Inr cm
                                         else Inl (errorf ''internal error''), m)),
      Client_Create = (\<lambda>cm m. case m (ConfigMap_Key cm) of
          None \<Rightarrow> (None, m(ConfigMap_Key cm \<mapsto> cm\<lparr>ConfigMap_ResourceVersion := 1\<rparr>))
        | Some _ \<Rightarrow> (Some (GoError [ApiAlreadyExists] ''already exists''), m)),
      Client_Update = (\<lambda>cm m. case m (ConfigMap_Key cm) of
          None \<Rightarrow> (Some (GoError [ApiNotFound] ''not found''), m)
        | Some old \<Rightarrow> if ConfigMap_ResourceVersion old = ConfigMap_ResourceVersion cm
            then (None, m(ConfigMap_Key cm \<mapsto> cm\<lparr>ConfigMap_ResourceVersion := Suc (ConfigMap_ResourceVersion cm)\<rparr>))
            else (Some (GoError [ApiConflict] ''conflict''), m)),
      Client_Delete = (\<lambda>k m. case m k of None \<Rightarrow> (Some (GoError [ApiNotFound] ''not found''), m)
        | Some _ \<Rightarrow> (None, m(k := None)))\<rparr>"

lemma mem_client_server: "api_server mem_client (\<lambda>m. m)"
proof -
  have "get_law mem_client (\<lambda>m. m)"
    by (auto simp: get_law_def mem_client_def errors_is_def errorf_def split: option.splits if_splits)
  moreover have "create_law mem_client (\<lambda>m. m)"
    by (auto simp: create_law_def mem_client_def write_outcome_def created_by_def split: option.splits)
  moreover have "update_law mem_client (\<lambda>m. m)"
    unfolding update_law_def write_outcome_def updated_by_def
    by (auto simp: mem_client_def split: option.splits if_splits)
  moreover have "delete_law mem_client (\<lambda>m. m)"
    by (auto simp: delete_law_def mem_client_def write_outcome_def split: option.splits)
  ultimately show ?thesis by (simp add: api_server_def)
qed

definition example_snapshot :: CheckpointSnapshot where
  "example_snapshot = \<lparr>Snapshot_Version = 1, Snapshot_WorkflowRunUID = ''u1'', Snapshot_LastCompletedStep = ''a'',
     Snapshot_StepStatuses = [(''a'', zero_StepStatus\<lparr>StepStatus_Phase := StepPhaseSucceeded\<rparr>)],
     Snapshot_Context = Some [(''variables'', VMap [(''n'', VInt 3)])], Snapshot_CompletionOrder = [''a'']\<rparr>"

definition example_manager :: CheckpointManager where
  "example_manager = \<lparr>cpm_cmKey = (''ns'', ''ottoflow-cp-run''), cpm_auditCmKey = (''ns'', ''ottoflow-audit-run''),
     cpm_runUID = ''u1'', cpm_ownerRefs = [], cpm_enabled = True\<rparr>"

definition example_cm :: ConfigMap where
  "example_cm = checkpoint_cm example_manager (''ns'', ''ottoflow-cp-run'') ''checkpoint'' (TextDoc (encode_snapshot example_snapshot))"

abbreviation example_stored :: "object_key \<Rightarrow> ConfigMap option" where
  "example_stored \<equiv> Map.empty((''ns'', ''ottoflow-cp-run'') \<mapsto> example_cm\<lparr>ConfigMap_ResourceVersion := 1\<rparr>)"

lemmas example_defs = example_snapshot_def example_manager_def example_cm_def checkpoint_cm_def

lemma example_marshal: "marshal_snapshot example_snapshot = Some (TextDoc (encode_snapshot example_snapshot))"
  by (simp add: marshal_snapshot_def example_snapshot_def)

lemma example_get:
  "save_get mem_client example_manager example_snapshot (TextDoc (encode_snapshot example_snapshot)) Map.empty
     = (SaveCreate example_cm, Map.empty)"
  by (simp add: save_get_def mem_client_def errors_is_def example_cm_def) (simp add: example_manager_def)

lemma example_create: "save_create mem_client example_cm Map.empty = (SaveDone, example_stored)"
  by (simp add: save_create_def mem_client_def example_cm_def checkpoint_cm_def)

lemma example_run:
  "(save_system mem_client example_manager)\<^sup>*\<^sup>* (Map.empty, []) (example_stored, [(example_snapshot, SaveDone)])"
proof -
  let ?p1 = "[] @ [(example_snapshot, SaveStart)]"
  let ?p2 = "?p1[0 := (example_snapshot, SaveCreate example_cm)]"
  let ?p3 = "?p2[0 := (example_snapshot, SaveDone)]"
  have 1: "save_system mem_client example_manager (Map.empty, []) (Map.empty, ?p1)"
    by (rule save_system.spawn) (simp_all add: example_marshal, simp add: example_defs)
  have 2: "save_system mem_client example_manager (Map.empty, ?p1) (Map.empty, ?p2)"
    by (rule save_system.get [OF _ _ example_marshal example_get]) simp_all
  have 3: "save_system mem_client example_manager (Map.empty, ?p2) (example_stored, ?p3)"
    by (rule save_system.create [OF _ _ example_create]) simp_all
  have "(save_system mem_client example_manager)\<^sup>*\<^sup>* (Map.empty, []) (example_stored, ?p3)"
    using 1 2 3 by (meson rtranclp.rtrancl_into_rtrancl rtranclp.rtrancl_refl)
  then show ?thesis by simp
qed

lemma example_load: "Load mem_client example_manager example_stored =
    (Inr (Some (encode_snapshot example_snapshot)), example_stored)"
  by (simp add: Load_def mem_client_def example_defs encode_snapshot_def)

theorem concurrent_saves_monotone_witness:
  "cm_progress example_manager None \<le> cm_progress example_manager (example_stored (cpm_cmKey example_manager)) \<and>
   (\<exists>loaded. Load mem_client example_manager example_stored = (Inr (Some loaded), example_stored) \<and>
      terminalStepCount (Snapshot_StepStatuses example_snapshot) \<le> terminalStepCount (Snapshot_StepStatuses loaded))"
proof -
  have "0 < snap_count example_snapshot"
    by (simp add: terminalStepCount_def example_snapshot_def terminal_step_phase_def)
  with concurrent_saves_monotone [OF mem_client_server example_run _ _ example_load, of example_snapshot]
  show ?thesis unfolding example_load by (auto simp: example_manager_def)
qed

subsection \<open>Names\<close>

lemma suffix_length:
  "8 \<le> length (hex_pad 8 (unat (fnv64a n))) \<and> length (hex_pad 8 (unat (fnv64a n))) \<le> 16"
proof (rule hex_pad_bounds)
  have "unat (fnv64a n) < 2 ^ LENGTH(64)" by (rule unsigned_less)
  then show "unat (fnv64a n) < 16 ^ 16" by simp
qed simp_all

lemma truncated_length: "length (truncatedConfigMapName p r) \<le> 63"
proof -
  let ?base = "replace_byte (CHR ''_'') (CHR ''-'') (p @ to_lower r)"
  let ?suf = "hex_pad 8 (unat (fnv64a r))"
  have "length (trim_suffix ?base ''-'') \<le> length ?base" by (rule length_trim_suffix_le)
  moreover have "length (trim_suffix (take (63 - length ?suf - 1) ?base) ''-'') \<le> 63 - length ?suf - 1"
    using length_trim_suffix_le [of "take (63 - length ?suf - 1) ?base" "''-''"] by simp
  ultimately show ?thesis
    using suffix_length [of r] by (auto simp: truncatedConfigMapName_def Let_def simp del: length_replace_byte)
qed

text \<open>A character of the prefix that is neither replaced nor cut off stays where it is.\<close>

lemma truncated_nth:
  assumes "Suc i < length p" "i < 40" "p ! i \<noteq> CHR ''_''"
  shows "truncatedConfigMapName p r ! i = p ! i"
proof -
  let ?base = "replace_byte (CHR ''_'') (CHR ''-'') (p @ to_lower r)"
  let ?suf = "hex_pad 8 (unat (fnv64a r))"
  have base: "?base ! i = p ! i" "Suc i < length ?base"
    using assms by (simp_all add: replace_byte_def nth_append)
  then have short: "trim_suffix ?base ''-'' ! i = p ! i" by (simp add: trim_suffix_nth)
  let ?pre = "trim_suffix (take (63 - length ?suf - 1) ?base) ''-''"
  have "length ?pre > i" if "63 < length ?base"
    using length_trim_suffix_ge [of "take (63 - length ?suf - 1) ?base" "''-''"] that assms(2) suffix_length [of r]
    by simp linarith
  moreover have "?pre ! i = p ! i" if "63 < length ?base"
    using that assms(2) suffix_length [of r] base by (subst trim_suffix_nth) auto
  ultimately show ?thesis
    using short by (auto simp: truncatedConfigMapName_def Let_def nth_append)
qed

text \<open>
  The names of the checkpoint and the audit ConfigMap of any run fit the 63 characters of a
  Kubernetes label value, and no checkpoint name equals an audit name, of the same run or another.
\<close>

theorem config_map_names:
  "length (checkpointConfigMapName r) \<le> 63 \<and> length (auditConfigMapName r) \<le> 63 \<and>
   checkpointConfigMapName r \<noteq> auditConfigMapName r'"
proof -
  have "checkpointConfigMapName r ! 9 = CHR ''c''"
    unfolding checkpointConfigMapName_def by (subst truncated_nth) simp_all
  moreover have "auditConfigMapName r' ! 9 = CHR ''a''"
    unfolding auditConfigMapName_def by (subst truncated_nth) simp_all
  ultimately show ?thesis
    using truncated_length by (auto simp: checkpointConfigMapName_def auditConfigMapName_def)
qed

subsection \<open>Size of the audit snapshot\<close>

fun arrays_bounded :: "val \<Rightarrow> bool" and arrays_bounded_entries :: "(string \<times> val) list \<Rightarrow> bool"
  and arrays_bounded_items :: "val list \<Rightarrow> bool" where
  "arrays_bounded (VList l) = (length l \<le> 50 \<and> arrays_bounded_items l)"
| "arrays_bounded (VMap m) = arrays_bounded_entries m"
| "arrays_bounded _ = True"
| "arrays_bounded_entries [] = True"
| "arrays_bounded_entries ((k, v) # m) = (arrays_bounded v \<and> arrays_bounded_entries m)"
| "arrays_bounded_items [] = True"
| "arrays_bounded_items (v # l) = (arrays_bounded v \<and> arrays_bounded_items l)"

lemma truncate_items_length: "length (fst (truncate_items n l path ks)) = min n (length l)"
proof (induction n arbitrary: l ks)
  case (Suc n)
  then show ?case by (cases l) (simp_all add: split_def Let_def)
qed simp

lemma truncate_bounded:
  "arrays_bounded (fst (truncateArraysRecursive v path ks))"
  "arrays_bounded_entries (fst (truncate_entries m path ks))"
  "arrays_bounded_items (fst (truncate_items n l path ks))"
proof (induction v path ks and m path ks and n l path ks
    rule: truncateArraysRecursive_truncate_entries_truncate_items.induct)
  case (2 l path ks)
  then show ?case
    using truncate_items_length [of "length l" l path ks]
      truncate_items_length [of auditSnapshotMaxArrayEntries l path "ks @ [path]"]
    by (auto simp: split_def Let_def auditSnapshotMaxArrayEntries_def)
qed (auto simp: Let_def split: prod.splits)

lemma truncate_unchanged:
  "arrays_bounded v \<Longrightarrow> truncateArraysRecursive v path ks = (v, ks)"
  "arrays_bounded_entries m \<Longrightarrow> truncate_entries m path ks = (m, ks)"
  "arrays_bounded_items l \<Longrightarrow> length l \<le> n \<Longrightarrow> truncate_items n l path ks = (l, ks)"
  by (induction v path ks and m path ks and n l path ks
    rule: truncateArraysRecursive_truncate_entries_truncate_items.induct)
    (auto simp: split_def Let_def auditSnapshotMaxArrayEntries_def)

lemma bounded_entries_update:
  "arrays_bounded_entries m \<Longrightarrow> arrays_bounded v \<Longrightarrow> arrays_bounded_entries (AList.update k v m)"
  by (induction m) auto

text \<open>
  In a truncated audit snapshot no generic array has more than 50 elements at any depth, the
  run's identity, step statuses and completion order are kept, and a context that was within the
  bound already is left as it is.
\<close>

theorem truncateAuditSnapshot_bounded:
  assumes "Snapshot_Context snap = Some m"
  shows "\<exists>ctx. truncateAuditSnapshot snap = snap\<lparr>Snapshot_Context := Some ctx\<rparr> \<and>
    arrays_bounded (VMap ctx) \<and> (arrays_bounded (VMap m) \<longrightarrow> ctx = m)"
proof -
  obtain out ks where t: "truncate_entries m [] [] = (out, ks)" by force
  with truncate_bounded(2) [of m "[]" "[]"] have "arrays_bounded_entries out" by simp
  moreover have "out = m \<and> ks = []" if "arrays_bounded_entries m"
    using truncate_unchanged(2) [OF that, of "[]" "[]"] t by simp
  ultimately show ?thesis
    using t assms by (auto simp: truncateAuditSnapshot_def bounded_entries_update)
qed

theorem truncateAuditSnapshot_bounded_witness:
  "\<exists>ctx. truncateAuditSnapshot example_snapshot = example_snapshot\<lparr>Snapshot_Context := Some ctx\<rparr> \<and>
     arrays_bounded (VMap ctx)"
  using truncateAuditSnapshot_bounded [of example_snapshot "[(''variables'', VMap [(''n'', VInt 3)])]"]
  by (auto simp: example_snapshot_def)

subsection \<open>One save to completion\<close>

lemma save_try_fresh:
  assumes srv: "api_server cl stored" and t: "save_write cl (save_get cl cpm snap raw s) = (st, s')"
    and free: "stored s (cpm_cmKey cpm) = None"
  shows "st = SaveDone \<longrightarrow> (\<exists>rv. stored s' (cpm_cmKey cpm) =
      Some ((checkpoint_cm cpm (cpm_cmKey cpm) ''checkpoint'' raw)\<lparr>ConfigMap_ResourceVersion := rv\<rparr>))"
    and "st = SaveFailed e \<Longrightarrow> errors_is e ApiConflict \<Longrightarrow> stored s' (cpm_cmKey cpm) = None"
proof -
  let ?cm = "checkpoint_cm cpm (cpm_cmKey cpm) ''checkpoint'' raw"
  have key: "ConfigMap_Key ?cm = cpm_cmKey cpm" by (simp add: checkpoint_cm_def)
  obtain r s1 where g: "Client_Get cl (cpm_cmKey cpm) s = (r, s1)" by force
  note law = api_server_get [OF srv g]
  from law(2) free obtain e1 where e1: "r = Inl e1" by (cases r) auto
  obtain q s2 where c: "Client_Create cl ?cm s1 = (q, s2)" by force
  note w = api_server_create [OF srv c, unfolded law(1)]
  have free1: "stored s1 (cpm_cmKey cpm) = None" using law(1) free by simp
  show "st = SaveDone \<longrightarrow> (\<exists>rv. stored s' (cpm_cmKey cpm) = Some (?cm\<lparr>ConfigMap_ResourceVersion := rv\<rparr>))"
    using t w free1 by (auto simp: save_get_def save_create_def g e1 c write_outcome_def created_by_def key
        split: if_splits option.splits)
  show "stored s' (cpm_cmKey cpm) = None" if "st = SaveFailed e" "errors_is e ApiConflict"
    using t w free1 free that
    by (auto simp: save_get_def save_create_def g e1 c write_outcome_def refused_def split: if_splits option.splits)
qed

lemma save_run_fresh:
  assumes srv: "api_server cl stored"
    and run: "retry_run (\<lambda>s. save_write cl (save_get cl cpm snap raw s)) s (SaveDone, s')"
    and free: "stored s (cpm_cmKey cpm) = None"
  shows "\<exists>rv. stored s' (cpm_cmKey cpm) =
      Some ((checkpoint_cm cpm (cpm_cmKey cpm) ''checkpoint'' raw)\<lparr>ConfigMap_ResourceVersion := rv\<rparr>)"
  using run free
proof (induction s "(SaveDone, s')" rule: retry_run.induct)
  case (last_try s)
  with save_try_fresh(1) [OF srv last_try(1)] show ?case by blast
next
  case (next_try s e s1)
  with save_try_fresh(2) [OF srv next_try(1) next_try(5) refl] show ?case by blast
qed


text \<open>Trying five times, as the default backoff does, is a way to retry.\<close>

fun retry_on_conflict :: "nat \<Rightarrow> 's retrier" where
  "retry_on_conflict 0 f s = f s"
| "retry_on_conflict (Suc steps) f s =
     (case f s of
        (SaveFailed e, s') \<Rightarrow>
          (if errors_is e ApiConflict then retry_on_conflict steps f s' else (SaveFailed e, s'))
      | (st, s') \<Rightarrow> (st, s'))"

lemma retry_on_conflict_retries: "retries_conflicts (retry_on_conflict n :: 's retrier)"
proof -
  have "retry_run f s (retry_on_conflict n f s)" for f :: "'s \<Rightarrow> save_state \<times> 's" and s
  proof (induction n f s rule: retry_on_conflict.induct)
    case (2 steps f s)
    obtain st s1 where f: "f s = (st, s1)" by force
    show ?case
    proof (cases "\<exists>e. st = SaveFailed e \<and> errors_is e ApiConflict")
      case True
      then obtain e where "st = SaveFailed e" "errors_is e ApiConflict" by blast
      with 2 f show ?thesis by (auto intro: retry_run.next_try)
    next
      case False
      with f have "retry_on_conflict (Suc steps) f s = f s" by (auto split: save_state.splits)
      then show ?thesis by (simp add: retry_run.last_try)
    qed
  qed (simp add: retry_run.last_try)
  then show ?thesis by (simp add: retries_conflicts_def)
qed

lemma example_retry:
  "retry_on_conflict 4 (\<lambda>s. save_write mem_client (save_get mem_client example_manager example_snapshot
       (TextDoc (encode_snapshot example_snapshot)) s)) Map.empty = (SaveDone, example_stored)"
  by (simp add: example_get example_create numeral_eq_Suc)


lemma audit_try:
  assumes srv: "api_server cl stored" and t: "save_write cl (audit_get cl cpm raw s) = (SaveDone, s')"
  shows "\<exists>cm. stored s' (cpm_auditCmKey cpm) = Some cm \<and> map_of (ConfigMap_Data cm) ''snapshot'' = Some raw \<and>
    ConfigMap_OwnerReferences cm = cpm_ownerRefs cpm"
proof -
  obtain r s1 where g: "Client_Get cl (cpm_auditCmKey cpm) s = (r, s1)" by force
  note law = api_server_get [OF srv g]
  show ?thesis
  proof (cases r)
    case (Inl e)
    let ?cm = "checkpoint_cm cpm (cpm_auditCmKey cpm) ''snapshot'' raw"
    obtain q s2 where c: "Client_Create cl ?cm s1 = (q, s2)" by force
    have "s2 = s' \<and> q = None"
      using t Inl g c by (auto simp: audit_get_def save_create_def split: if_splits option.splits)
    with api_server_create [OF srv c] show ?thesis
      by (auto simp: write_outcome_def created_by_def checkpoint_cm_def)
  next
    case (Inr old)
    let ?cm = "old\<lparr>ConfigMap_OwnerReferences := cpm_ownerRefs cpm,
             ConfigMap_Labels := put_all (ConfigMap_Labels old) part_of_labels,
             ConfigMap_Data := AList.update ''snapshot'' raw (ConfigMap_Data old)\<rparr>"
    obtain q s2 where c: "Client_Update cl ?cm s1 = (q, s2)" by force
    have "s2 = s' \<and> q = None"
      using t Inr g c by (auto simp: audit_get_def save_update_def split: option.splits)
    moreover have "ConfigMap_Key ?cm = cpm_auditCmKey cpm" using law(2) [OF Inr] by simp
    ultimately show ?thesis
      using api_server_update [OF srv c] unfolding write_outcome_def updated_by_def by auto
  qed
qed

lemma audit_run:
  assumes srv: "api_server cl stored"
    and run: "retry_run (\<lambda>s. save_write cl (audit_get cl cpm raw s)) s (SaveDone, s')"
  shows "\<exists>cm. stored s' (cpm_auditCmKey cpm) = Some cm \<and> map_of (ConfigMap_Data cm) ''snapshot'' = Some raw \<and>
    ConfigMap_OwnerReferences cm = cpm_ownerRefs cpm"
  using run
proof (induction s "(SaveDone, s')" rule: retry_run.induct)
  case (last_try s)
  then show ?case by (rule audit_try [OF srv])
qed

lemma audit_payload_Inr:
  assumes "audit_payload json_size snap = Inr payload"
  shows "json_size payload \<le> auditSnapshotSizeThreshold \<and> marshal_snapshot payload \<noteq> None \<and>
    payload \<in> {snap, truncateAuditSnapshot snap, minimalAuditSnapshot snap}"
  using assms by (auto simp: audit_payload_def Let_def split: if_splits)

lemma write_states: "fst (save_write cl (audit_get cl cpm raw s)) \<in> {SaveDone} \<union> range SaveFailed"
  by (auto simp: audit_get_def save_create_def save_update_def split: prod.splits sum.splits option.splits)

lemma retry_run_states:
  "retry_run f s r \<Longrightarrow> (\<And>s. fst (f s) \<in> {SaveDone} \<union> range SaveFailed) \<Longrightarrow> fst r \<in> {SaveDone} \<union> range SaveFailed"
  by (induction rule: retry_run.induct) auto

text \<open>
  When \<^verbatim>\<open>SaveAuditSnapshot\<close> returns a name, the ConfigMap of that name holds the snapshot, its
  truncated form or the minimal one, within the size threshold, and is owned by this run, whatever
  was stored there before.
\<close>

theorem audit_snapshot_stored:
  assumes srv: "api_server cl stored" and retry: "retries_conflicts retry"
    and saved: "SaveAuditSnapshot cl retry json_size cpm snap s = (Inr name, s')"
  shows "\<exists>cm payload. stored s' (cpm_auditCmKey cpm) = Some cm \<and> name = snd (cpm_auditCmKey cpm) \<and>
    map_of (ConfigMap_Data cm) ''snapshot'' = Some (TextDoc (encode_snapshot payload)) \<and>
    payload \<in> {snap, truncateAuditSnapshot snap, minimalAuditSnapshot snap} \<and>
    json_size payload \<le> 921600 \<and> ConfigMap_OwnerReferences cm = cpm_ownerRefs cpm"
proof -
  from saved obtain payload where p: "audit_payload json_size snap = Inr payload"
    by (cases "audit_payload json_size snap") (auto simp: SaveAuditSnapshot_def)
  note pay = audit_payload_Inr [OF p]
  then obtain raw where raw: "marshal_snapshot payload = Some raw" by auto
  let ?f = "\<lambda>s. save_write cl (audit_get cl cpm raw s)"
  have run: "retry_run ?f s (retry ?f s)" using retry by (simp add: retries_conflicts_def)
  have "fst (retry ?f s) \<in> {SaveDone} \<union> range SaveFailed"
    by (rule retry_run_states [OF run write_states])
  with saved p raw have "retry ?f s = (SaveDone, s')" and name: "name = snd (cpm_auditCmKey cpm)"
    by (cases "retry ?f s"; auto simp: SaveAuditSnapshot_def)+
  with run have "retry_run ?f s (SaveDone, s')" by simp
  from audit_run [OF srv this] pay name marshal_snapshot_Some [OF raw] show ?thesis
    by (auto simp: auditSnapshotSizeThreshold_def)
qed

lemma example_audit:
  "\<exists>s'. SaveAuditSnapshot mem_client (retry_on_conflict 0) (\<lambda>_. 100) example_manager example_snapshot Map.empty
     = (Inr ''ottoflow-audit-run'', s')"
proof -
  have "audit_payload (\<lambda>_. 100) example_snapshot = Inr example_snapshot"
    by (simp add: audit_payload_def example_marshal auditSnapshotSizeThreshold_def)
  then show ?thesis
    by (simp add: SaveAuditSnapshot_def example_marshal)
      (simp add: audit_get_def mem_client_def errors_is_def example_manager_def checkpoint_cm_def save_create_def)
qed

theorem audit_snapshot_stored_witness:
  "\<exists>s' cm. SaveAuditSnapshot mem_client (retry_on_conflict 0) (\<lambda>_. 100) example_manager example_snapshot Map.empty
     = (Inr ''ottoflow-audit-run'', s') \<and> s' (cpm_auditCmKey example_manager) = Some cm"
proof -
  obtain s' where s': "SaveAuditSnapshot mem_client (retry_on_conflict 0) (\<lambda>_. 100) example_manager example_snapshot
      Map.empty = (Inr ''ottoflow-audit-run'', s')" using example_audit by blast
  from audit_snapshot_stored [OF mem_client_server retry_on_conflict_retries [of 0] s']
  obtain cm where "s' (cpm_auditCmKey example_manager) = Some cm" by auto
  with s' show ?thesis by blast
qed

end
