(* ===== verification/Cel_Eval.thy ===== *)
theory Cel_Eval
  imports Api_Types
begin

text \<open>
  The use of CEL by the executor (\<^verbatim>\<open>internal/workflow/executor/cel.go\<close>): the variables an expression
  sees, and the evaluation of a step's expressions and outputs. The evaluation of one expression
  (\<^verbatim>\<open>EvaluateExpression\<close>, a wrapper around cel-go and the Kyverno libraries) is the parameter \<open>ev\<close>, a
  function of the expression, the variables and the world it may query.

  A \<^verbatim>\<open>range\<close> over a map is in the order of the association list.
\<close>

type_synonym 'w evaluator = "string \<Rightarrow> gomap \<Rightarrow> 'w \<Rightarrow> val result \<times> 'w"

definition DefaultCELCostLimit :: nat where
  "DefaultCELCostLimit = 2097152"

definition ResolveCELCostLimit :: "WorkflowSpec option \<Rightarrow> nat" where
  "ResolveCELCostLimit spec =
     (case spec of None \<Rightarrow> DefaultCELCostLimit
      | Some sp \<Rightarrow> (case WorkflowSpec_CELCostLimit sp of None \<Rightarrow> DefaultCELCostLimit
                    | Some l \<Rightarrow> if l \<le> 0 then DefaultCELCostLimit else nat l))"

definition map_var :: "gomap \<Rightarrow> string \<Rightarrow> string \<times> val" where
  "map_var ctx k = (k, VMap (case as_map (map_of ctx k) of Some m \<Rightarrow> m | None \<Rightarrow> []))"

definition any_var :: "val \<Rightarrow> gomap \<Rightarrow> string \<Rightarrow> string \<times> val" where
  "any_var z ctx k = (k, get_or z ctx k)"

definition BuildVariableMap :: "gomap \<Rightarrow> gomap" where
  "BuildVariableMap ctx =
     [map_var ctx ''inputs'', map_var ctx ''expressions'', map_var ctx ''variables'', map_var ctx ''steps'',
      map_var ctx ''stepStatus'', map_var ctx ''outputs'', any_var (VString []) ctx ''agentResponse'',
      any_var (VMap []) ctx ''agentOutputs'', any_var (VMap []) ctx ''reportResult''] @
     (case map_of ctx ''item'' of Some v \<Rightarrow> [(''item'', v)] | None \<Rightarrow> [])"

text \<open>
  The loop of \<^verbatim>\<open>EvaluateStepExpressions\<close>: it writes each result into \<^verbatim>\<open>vars["expressions"]\<close> too, so the
  variables are returned with it, also after an error.
\<close>

definition set_expression :: "string \<Rightarrow> val \<Rightarrow> gomap \<Rightarrow> gomap" where
  "set_expression name v vars =
     AList.update ''expressions''
       (VMap (AList.update name v (case as_map (map_of vars ''expressions'') of Some m \<Rightarrow> m | None \<Rightarrow> []))) vars"

fun eval_expressions ::
  "'w evaluator \<Rightarrow> Expression list \<Rightarrow> gomap \<Rightarrow> gomap \<Rightarrow> 'w \<Rightarrow> gomap result \<times> gomap \<times> 'w" where
  "eval_expressions ev [] results vars w = (Inr results, vars, w)"
| "eval_expressions ev (d # ds) results vars w =
     (case ev (Expression_Expression d) vars w of
        (Inl err, w') \<Rightarrow>
          (Inl (wrapf (''failed to evaluate expression '' @ [CHR 0x27] @ Expression_Name d @ [CHR 0x27] @ '': '') err),
           vars, w')
      | (Inr r, w') \<Rightarrow>
          eval_expressions ev ds (AList.update (Expression_Name d) r results)
            (set_expression (Expression_Name d) r vars) w')"

definition EvaluateStepExpressions ::
  "'w evaluator \<Rightarrow> Step \<Rightarrow> gomap \<Rightarrow> 'w \<Rightarrow> gomap result \<times> gomap \<times> 'w" where
  "EvaluateStepExpressions ev step vars w = eval_expressions ev (Step_Expressions step) [] vars w"

definition has_cel_indicators :: "string \<Rightarrow> bool" where
  "has_cel_indicators s \<longleftrightarrow> list_ex (\<lambda>c. c = CHR ''.'' \<or> c = CHR ''('' \<or> c = CHR ''['') s"

definition tryEvaluateAsCEL :: "'w evaluator \<Rightarrow> string \<Rightarrow> gomap \<Rightarrow> 'w \<Rightarrow> val result \<times> 'w" where
  "tryEvaluateAsCEL ev expr vars w =
     (if \<not> has_cel_indicators expr then (Inl (errorf ''not a CEL expression''), w)
      else (case ev expr vars w of
              (Inl err, w') \<Rightarrow> (Inl (wrapf ''evaluation failed: '' err), w')
            | (Inr r, w') \<Rightarrow> (Inr r, w')))"

fun EvaluateOutputValue :: "'w evaluator \<Rightarrow> gomap \<Rightarrow> val \<Rightarrow> 'w \<Rightarrow> val result \<times> 'w"
  and eval_output_entries :: "'w evaluator \<Rightarrow> gomap \<Rightarrow> (string \<times> val) list \<Rightarrow> 'w \<Rightarrow> (string \<times> val) list result \<times> 'w"
  and eval_output_items :: "'w evaluator \<Rightarrow> gomap \<Rightarrow> nat \<Rightarrow> val list \<Rightarrow> 'w \<Rightarrow> val list result \<times> 'w" where
  "EvaluateOutputValue ev vars (VString s) w =
     (case tryEvaluateAsCEL ev s vars w of (Inr r, w') \<Rightarrow> (Inr r, w') | (Inl _, w') \<Rightarrow> (Inr (VString s), w'))"
| "EvaluateOutputValue ev vars (VMap m) w =
     (case eval_output_entries ev vars m w of
        (Inl e, w') \<Rightarrow> (Inl e, w') | (Inr m', w') \<Rightarrow> (Inr (VMap m'), w'))"
| "EvaluateOutputValue ev vars (VList l) w =
     (case eval_output_items ev vars 0 l w of
        (Inl e, w') \<Rightarrow> (Inl e, w') | (Inr l', w') \<Rightarrow> (Inr (VList l'), w'))"
| "EvaluateOutputValue ev vars v w = (Inr v, w)"
| "eval_output_entries ev vars [] w = (Inr [], w)"
| "eval_output_entries ev vars ((k, v) # m) w =
     (case EvaluateOutputValue ev vars v w of
        (Inl e, w') \<Rightarrow> (Inl (wrapf (''failed to evaluate map key '' @ [CHR 0x27] @ k @ [CHR 0x27] @ '': '') e), w')
      | (Inr v', w') \<Rightarrow>
          (case eval_output_entries ev vars m w' of
             (Inl e, w'') \<Rightarrow> (Inl e, w'') | (Inr m', w'') \<Rightarrow> (Inr ((k, v') # m'), w'')))"
| "eval_output_items ev vars i [] w = (Inr [], w)"
| "eval_output_items ev vars i (v # l) w =
     (case EvaluateOutputValue ev vars v w of
        (Inl e, w') \<Rightarrow> (Inl (wrapf (''failed to evaluate array element '' @ utoa i @ '': '') e), w')
      | (Inr v', w') \<Rightarrow>
          (case eval_output_items ev vars (Suc i) l w' of
             (Inl e, w'') \<Rightarrow> (Inl e, w'') | (Inr l', w'') \<Rightarrow> (Inr (v' # l'), w'')))"

definition quoted :: "string \<Rightarrow> string" where
  "quoted s = [CHR 0x27] @ s @ [CHR 0x27]"

definition eval_step_output :: "'w evaluator \<Rightarrow> Output \<Rightarrow> gomap \<Rightarrow> 'w \<Rightarrow> val result \<times> 'w" where
  "eval_step_output ev d vars w =
     (case Output_Value d of
        Some raw \<Rightarrow>
          (case unmarshal raw of
             None \<Rightarrow> (Inl (errorf (''failed to unmarshal output '' @ quoted (Output_Name d) @ '' value: invalid JSON'')), w)
           | Some v \<Rightarrow>
               (case EvaluateOutputValue ev vars v w of
                  (Inl e, w') \<Rightarrow> (Inl (wrapf (''failed to evaluate output '' @ quoted (Output_Name d) @ '' value: '') e), w')
                | (Inr r, w') \<Rightarrow> (Inr r, w')))
      | None \<Rightarrow>
          if Output_Expression d \<noteq> [] then
            (case ev (Output_Expression d) vars w of
               (Inl e, w') \<Rightarrow> (Inl (wrapf (''failed to evaluate output '' @ quoted (Output_Name d) @ '' expression: '') e), w')
             | (Inr r, w') \<Rightarrow> (Inr r, w'))
          else (Inl (errorf (''output '' @ quoted (Output_Name d) @ '' must specify either '' @ quoted ''expression'' @
                  '' or '' @ quoted ''value'')), w))"

fun eval_outputs :: "'w evaluator \<Rightarrow> Output list \<Rightarrow> gomap \<Rightarrow> gomap \<Rightarrow> 'w \<Rightarrow> gomap result \<times> 'w" where
  "eval_outputs ev [] outputs vars w = (Inr outputs, w)"
| "eval_outputs ev (d # ds) outputs vars w =
     (case eval_step_output ev d vars w of
        (Inl e, w') \<Rightarrow> (Inl e, w')
      | (Inr r, w') \<Rightarrow> eval_outputs ev ds (AList.update (Output_Name d) r outputs) vars w')"

definition EvaluateStepOutputs :: "'w evaluator \<Rightarrow> Step \<Rightarrow> gomap \<Rightarrow> 'w \<Rightarrow> gomap result \<times> 'w" where
  "EvaluateStepOutputs ev step vars w = eval_outputs ev (Step_Outputs step) [] vars w"

subsection \<open>Lemmas\<close>

lemma BuildVariableMap_maps:
  "k \<in> {''inputs'', ''expressions'', ''variables'', ''steps'', ''stepStatus'', ''outputs''} \<Longrightarrow>
     map_of (BuildVariableMap ctx) k = Some (VMap (case as_map (map_of ctx k) of Some m \<Rightarrow> m | None \<Rightarrow> []))"
  by (auto simp: BuildVariableMap_def map_var_def any_var_def)

lemma BuildVariableMap_item: "map_of (BuildVariableMap ctx) ''item'' = map_of ctx ''item''"
  by (simp add: BuildVariableMap_def map_var_def any_var_def split: option.splits)

lemma eval_expressions_keys:
  "eval_expressions ev ds results vars w = (Inr r, vars', w') \<Longrightarrow>
     fst ` set r = fst ` set results \<union> Expression_Name ` set ds"
  by (induction ev ds results vars w rule: eval_expressions.induct) (auto split: prod.splits sum.splits)

lemma eval_outputs_keys:
  "eval_outputs ev ds outputs vars w = (Inr r, w') \<Longrightarrow>
     fst ` set r = fst ` set outputs \<union> Output_Name ` set ds"
  by (induction ev ds outputs vars w rule: eval_outputs.induct) (auto split: prod.splits sum.splits)

lemma wf_eval_outputs:
  "eval_outputs ev ds outputs vars w = (Inr r, w') \<Longrightarrow> wf_map outputs \<Longrightarrow> wf_map r"
  by (induction ev ds outputs vars w rule: eval_outputs.induct) (auto split: prod.splits sum.splits)

text \<open>A literal value evaluates without an error: a string that is no expression stands for itself.\<close>

lemma EvaluateOutputValue_total:
  "\<exists>r w'. EvaluateOutputValue ev vars v w = (Inr r, w')"
  "\<exists>m' w'. eval_output_entries ev vars m w = (Inr m', w') \<and> map fst m' = map fst m"
  "\<exists>l' w'. eval_output_items ev vars i l w = (Inr l', w') \<and> length l' = length l"
proof (induction ev vars v w and ev vars m w and ev vars i l w
    rule: EvaluateOutputValue_eval_output_entries_eval_output_items.induct)
  case (1 ev vars s w)
  show ?case by (cases "tryEvaluateAsCEL ev s vars w") (auto split: sum.splits)
next
  case (6 ev vars k v m w)
  from 6(1) obtain v' w1 where v: "EvaluateOutputValue ev vars v w = (Inr v', w1)" by blast
  from 6(2) [OF v [symmetric] refl] obtain m' w2
    where "eval_output_entries ev vars m w1 = (Inr m', w2)" "map fst m' = map fst m" by blast
  with v show ?case by simp
next
  case (8 ev vars i v l w)
  from 8(1) obtain v' w1 where v: "EvaluateOutputValue ev vars v w = (Inr v', w1)" by blast
  from 8(2) [OF v [symmetric] refl] obtain l' w2
    where "eval_output_items ev vars (Suc i) l w1 = (Inr l', w2)" "length l' = length l" by blast
  with v show ?case by simp
qed (auto split: prod.splits sum.splits)

end
