(* ===== verification/Exec_Env.thy ===== *)
theory Exec_Env
  imports Checkpoint Cel_Eval
begin

text \<open>
  What the executor's functions share: the parameters that stand for code outside the model, the
  mutable state they thread, events and the wrappers around the context manager.

  The world \<open>'w\<close> is everything outside the process. The functions of \<open>env\<close> are the CEL engine, the
  clock, the formatting of times, the Kubernetes client, the event recorder, the progress callback,
  the metrics and the action handlers that are not modelled (agents, MCP tools, external agents,
  queries, mutations, reports). A handler gets the executor's evaluator, the run and the context
  manager to read, and returns its outputs, the scoped and the shared context and the world: none of
  those functions assigns to a field of the WorkflowRun or records a completion.

  \<open>env_celWithLimit\<close> is the executor's CEL evaluator once a cost limit is set on it, \<open>env_newCEL\<close> the
  creation of an evaluator for the executor of a sub-workflow. \<open>env_order i ks\<close> is the order in which
  the \<open>i\<close>-th \<^verbatim>\<open>range\<close> over the map of the graph's nodes visits its keys.
\<close>

subsection \<open>State and environment\<close>

datatype step_kind =
    KForEach
  | KStepTemplateRef
  | KWorkflowRef
  | KAgentRef
  | KMCPToolCall
  | KExternalAgentRef
  | KResourceQuery
  | KPrometheusQuery
  | KMutate
  | KOpenReport
  | KWaitForCallback
  | KExpression

record 'w xstate =
  xs_run :: WorkflowRun
  xs_cm :: ContextManager
  xs_scoped :: "gomap option"
  xs_world :: 'w

type_synonym outputs = "gomap option"

type_synonym 'w handler =
  "'w evaluator \<Rightarrow> WorkflowRun \<Rightarrow> Step \<Rightarrow> gomap option \<Rightarrow> ContextManager \<Rightarrow> 'w
     \<Rightarrow> outputs result \<times> gomap option \<times> gomap option \<times> 'w"

record 'w env =
  env_eval :: "'w evaluator"
  env_celWithLimit :: "nat \<Rightarrow> 'w evaluator"
  env_newCEL :: "(nat \<Rightarrow> 'w evaluator) result"
  env_now :: "'w \<Rightarrow> int \<times> 'w"
  env_rfc3339 :: "int \<Rightarrow> string"
  env_parseDuration :: "string \<Rightarrow> int result"
  env_durationString :: "int \<Rightarrow> string"
  env_jsonText :: "val \<Rightarrow> string"
  env_random :: "nat \<Rightarrow> 'w \<Rightarrow> string result \<times> 'w"
  env_sha256 :: "string \<Rightarrow> string"
  env_progress :: "(WorkflowRun \<Rightarrow> Workflow \<Rightarrow> 'w \<Rightarrow> 'w) option"
  env_recorder :: "(WorkflowRun \<Rightarrow> string \<Rightarrow> string \<Rightarrow> string \<Rightarrow> 'w \<Rightarrow> 'w) option"
  env_metric :: "val \<Rightarrow> Output \<Rightarrow> string \<Rightarrow> string \<Rightarrow> gomap \<Rightarrow> 'w \<Rightarrow> 'w"
  env_getWorkflow :: "object_key \<Rightarrow> 'w \<Rightarrow> Workflow result \<times> 'w"
  env_getTemplate :: "object_key \<Rightarrow> 'w \<Rightarrow> StepTemplateSpec result \<times> 'w"
  env_hasControlClient :: bool
  env_getRun :: "object_key \<Rightarrow> 'w \<Rightarrow> WorkflowRun result \<times> 'w"
  env_patchPending :: "object_key \<Rightarrow> CallbackState option \<Rightarrow> 'w \<Rightarrow> goerror option \<times> 'w"
  env_retryPatch :: "('w \<Rightarrow> goerror option \<times> 'w) \<Rightarrow> 'w \<Rightarrow> goerror option \<times> 'w"
  env_client :: "'w client"
  env_retry :: "'w retrier"
  env_jsonSize :: "CheckpointSnapshot \<Rightarrow> nat"
  env_template :: "gomap \<Rightarrow> string \<Rightarrow> string result"
  env_templateJSON :: "gomap \<Rightarrow> raw_json \<Rightarrow> raw_json result"
  env_order :: "nat \<Rightarrow> string list \<Rightarrow> string list"
  env_schedule :: "nat \<Rightarrow> 'w \<Rightarrow> nat list \<times> 'w"
  env_maxWorkers :: int
  env_handler :: "step_kind \<Rightarrow> 'w handler"

abbreviation statuses :: "WorkflowRun \<Rightarrow> step_statuses" where
  "statuses r \<equiv> Status_StepStatuses (WorkflowRun_Status r)"

abbreviation run_phase :: "WorkflowRun \<Rightarrow> WorkflowRunPhase" where
  "run_phase r \<equiv> Status_Phase (WorkflowRun_Status r)"

definition get_status :: "WorkflowRun \<Rightarrow> string \<Rightarrow> StepStatus" where
  "get_status r name = get_or zero_StepStatus (statuses r) name"

definition set_status :: "string \<Rightarrow> StepStatus \<Rightarrow> WorkflowRun \<Rightarrow> WorkflowRun" where
  "set_status name st r = upd_status (\<lambda>s. s\<lparr>Status_StepStatuses := AList.update name st (Status_StepStatuses s)\<rparr>) r"

subsection \<open>Events and progress\<close>

definition eventConfig :: "Workflow \<Rightarrow> WorkflowRun \<Rightarrow> bool \<times> string" where
  "eventConfig workflow run =
     (let override = (\<lambda>c (enabled, level). case c of None \<Rightarrow> (enabled, level)
            | Some ec \<Rightarrow> ((case EventConfig_Enabled ec of Some b \<Rightarrow> b | None \<Rightarrow> enabled),
                         (if EventConfig_Level ec \<noteq> [] then EventConfig_Level ec else level)))
      in override (WorkflowRunSpec_Events (WorkflowRun_Spec run))
           (override (WorkflowSpec_Events (Workflow_Spec workflow)) (True, ''WorkflowAndSteps'')))"

definition emitWorkflowLevelEvent ::
  "'w env \<Rightarrow> Workflow \<Rightarrow> WorkflowRun \<Rightarrow> string \<Rightarrow> string \<Rightarrow> string \<Rightarrow> 'w \<Rightarrow> 'w" where
  "emitWorkflowLevelEvent env workflow run reason eventType message w =
     (case env_recorder env of None \<Rightarrow> w
      | Some rec \<Rightarrow> if fst (eventConfig workflow run) then rec run eventType reason message w else w)"

definition emit_step_event :: "string \<Rightarrow> 'w env \<Rightarrow> Workflow \<Rightarrow> WorkflowRun \<Rightarrow> string \<Rightarrow> 'w \<Rightarrow> 'w" where
  "emit_step_event eventType env workflow run message w =
     (case env_recorder env of None \<Rightarrow> w
      | Some rec \<Rightarrow> (case eventConfig workflow run of (enabled, level) \<Rightarrow>
          if \<not> enabled \<or> level \<noteq> ''WorkflowAndSteps'' then w
          else rec run eventType ''WorkflowExecution'' message w))"

definition emitStepEvent :: "'w env \<Rightarrow> Workflow \<Rightarrow> WorkflowRun \<Rightarrow> string \<Rightarrow> 'w \<Rightarrow> 'w" where
  "emitStepEvent = emit_step_event ''Normal''"

definition emitStepEventWarning :: "'w env \<Rightarrow> Workflow \<Rightarrow> WorkflowRun \<Rightarrow> string \<Rightarrow> 'w \<Rightarrow> 'w" where
  "emitStepEventWarning = emit_step_event ''Warning''"

definition invokeProgressCallback :: "'w env \<Rightarrow> WorkflowRun \<Rightarrow> Workflow \<Rightarrow> 'w \<Rightarrow> 'w" where
  "invokeProgressCallback env run workflow w =
     (case env_progress env of None \<Rightarrow> w | Some cb \<Rightarrow> cb run workflow w)"

definition invokeForEachProgressCallback :: "'w env \<Rightarrow> Workflow option \<Rightarrow> WorkflowRun \<Rightarrow> 'w \<Rightarrow> 'w" where
  "invokeForEachProgressCallback env currentWorkflow run w =
     (case (env_progress env, currentWorkflow) of (Some cb, Some cur) \<Rightarrow> cb run cur w | _ \<Rightarrow> w)"

subsection \<open>The context of the state\<close>

definition read_context :: "'w xstate \<Rightarrow> gomap result" where
  "read_context xs = ReadContext (xs_scoped xs) (Some (statuses (xs_run xs))) (xs_cm xs)"

definition write_outputs :: "gomap \<Rightarrow> 'w xstate \<Rightarrow> goerror option \<times> 'w xstate" where
  "write_outputs outs xs =
     (case WriteStepOutputs outs (xs_scoped xs) (xs_cm xs) of
        Inl e \<Rightarrow> (Some e, xs)
      | Inr (sc, cm) \<Rightarrow> (None, xs\<lparr>xs_scoped := sc, xs_cm := cm\<rparr>))"

text \<open>Writing to the live map: the scoped one when there is one, else the manager's.\<close>

definition put_context :: "gomap \<Rightarrow> 'w xstate \<Rightarrow> 'w xstate" where
  "put_context m xs =
     (case xs_scoped xs of
        Some _ \<Rightarrow> xs\<lparr>xs_scoped := Some m\<rparr>
      | None \<Rightarrow> xs\<lparr>xs_cm := (xs_cm xs)\<lparr>cm_inMemoryContext := Some m\<rparr>\<rparr>)"

text \<open>
  The status of the steps as the scheduler sees it: two runs agree when the phase of every step and
  of the run are the same.
\<close>

definition step_phase :: "WorkflowRun \<Rightarrow> string \<Rightarrow> StepPhase option" where
  "step_phase r n = map_option StepStatus_Phase (map_of (statuses r) n)"

definition same_phases :: "WorkflowRun \<Rightarrow> WorkflowRun \<Rightarrow> bool" where
  "same_phases r r' \<longleftrightarrow> (\<forall>n. step_phase r' n = step_phase r n) \<and> run_phase r' = run_phase r \<and>
     WorkflowRun_Meta r' = WorkflowRun_Meta r \<and> WorkflowRun_Spec r' = WorkflowRun_Spec r"

lemma same_phases_refl [simp]: "same_phases r r"
  by (simp add: same_phases_def)

lemma same_phases_trans [trans]: "same_phases r s \<Longrightarrow> same_phases s t \<Longrightarrow> same_phases r t"
  by (simp add: same_phases_def)

lemma statuses_set_status [simp]: "map_of (statuses (set_status n st r)) m = (if m = n then Some st else map_of (statuses r) m)"
  by (simp add: set_status_def)

lemma step_phase_set_status [simp]:
  "step_phase (set_status n st r) m = (if m = n then Some (StepStatus_Phase st) else step_phase r m)"
  by (simp add: step_phase_def)

lemma set_status_frame [simp]:
  "run_phase (set_status n st r) = run_phase r" "WorkflowRun_Meta (set_status n st r) = WorkflowRun_Meta r"
  "WorkflowRun_Spec (set_status n st r) = WorkflowRun_Spec r"
  by (simp_all add: set_status_def)

lemma same_phases_set_status:
  "map_of (statuses r) n = Some st0 \<Longrightarrow> StepStatus_Phase st = StepStatus_Phase st0 \<Longrightarrow> same_phases r (set_status n st r)"
  by (simp add: same_phases_def) (simp add: step_phase_def)

lemma get_status_Some: "step_phase r n = Some p \<Longrightarrow> StepStatus_Phase (get_status r n) = p"
  by (auto simp: get_status_def get_or_def step_phase_def)

lemma put_context_run [simp]: "xs_run (put_context m xs) = xs_run xs" "xs_world (put_context m xs) = xs_world xs"
  by (simp_all add: put_context_def split: option.splits)

text \<open>What no step execution touches: the phases and the record of completed steps.\<close>

definition keeps :: "'w xstate \<Rightarrow> 'w xstate \<Rightarrow> bool" where
  "keeps xs xs' \<longleftrightarrow> same_phases (xs_run xs) (xs_run xs') \<and>
     cm_completionOrder (xs_cm xs') = cm_completionOrder (xs_cm xs)"

lemma keeps_refl [simp]: "keeps xs xs"
  by (simp add: keeps_def)

lemma keeps_trans [trans]: "keeps xs ys \<Longrightarrow> keeps ys zs \<Longrightarrow> keeps xs zs"
  unfolding keeps_def by (auto intro: same_phases_trans)

lemma keeps_update [simp]:
  "keeps (xs\<lparr>xs_world := w\<rparr>) ys = keeps xs ys" "keeps xs (ys\<lparr>xs_world := w\<rparr>) = keeps xs ys"
  "keeps (xs\<lparr>xs_scoped := sc\<rparr>) ys = keeps xs ys" "keeps xs (ys\<lparr>xs_scoped := sc\<rparr>) = keeps xs ys"
  by (simp_all add: keeps_def)

lemma put_context_keeps [simp]: "keeps xs (put_context m xs)"
  by (simp add: keeps_def put_context_def split: option.splits)

lemma write_outputs_keeps: "write_outputs outs xs = (r, xs') \<Longrightarrow> keeps xs xs'"
  by (auto simp: write_outputs_def WriteStepOutputs_def keeps_def split: sum.splits option.splits if_splits)

lemma write_outputs_run: "write_outputs outs xs = (r, xs') \<Longrightarrow> xs_run xs' = xs_run xs \<and> xs_world xs' = xs_world xs"
  by (auto simp: write_outputs_def split: sum.splits)

subsection \<open>A concrete environment\<close>

text \<open>
  An environment over the trivial world, in which every expression is true, the clock stands still
  and the cluster is unreachable; the witnesses run the model in it.
\<close>

definition unreachable :: goerror where
  "unreachable = errorf ''connection refused''"

definition idle_env :: "unit env" where
  "idle_env =
     \<lparr>env_eval = (\<lambda>_ _ w. (Inr (VBool True), w)), env_celWithLimit = (\<lambda>_ _ _ w. (Inr (VBool True), w)),
      env_newCEL = Inr (\<lambda>_ _ _ w. (Inr (VBool True), w)), env_now = (\<lambda>w. (0, w)), env_rfc3339 = (\<lambda>_. ''1970-01-01T00:00:00Z''),
      env_parseDuration = (\<lambda>_. Inr 60000000000), env_durationString = (\<lambda>_. ''1m0s''), env_jsonText = (\<lambda>_. ''true''),
      env_random = (\<lambda>n w. (Inr (replicate n (CHR ''x'')), w)), env_sha256 = (\<lambda>_. replicate 32 (CHR ''y'')),
      env_progress = None, env_recorder = None, env_metric = (\<lambda>_ _ _ _ _ w. w),
      env_getWorkflow = (\<lambda>_ w. (Inl unreachable, w)), env_getTemplate = (\<lambda>_ w. (Inl unreachable, w)),
      env_hasControlClient = False, env_getRun = (\<lambda>_ w. (Inl unreachable, w)),
      env_patchPending = (\<lambda>_ _ w. (Some unreachable, w)), env_retryPatch = (\<lambda>f w. f w),
      env_client = \<lparr>Client_Get = (\<lambda>_ w. (Inl unreachable, w)), Client_Create = (\<lambda>_ w. (Some unreachable, w)),
         Client_Update = (\<lambda>_ w. (Some unreachable, w)), Client_Delete = (\<lambda>_ w. (Some unreachable, w))\<rparr>,
      env_retry = (\<lambda>f w. f w), env_jsonSize = (\<lambda>_. 0), env_template = (\<lambda>_ s. Inr s),
      env_templateJSON = (\<lambda>_ r. Inr r), env_order = (\<lambda>_ ks. ks), env_schedule = (\<lambda>n w. ([0..<n], w)),
      env_maxWorkers = 5,
      env_handler = (\<lambda>_ _ _ _ sc cm w. (Inl unreachable, sc, cm_inMemoryContext cm, w))\<rparr>"

definition idle_state :: "WorkflowRun \<Rightarrow> unit xstate" where
  "idle_state r = \<lparr>xs_run = r, xs_cm = NewContextManager, xs_scoped = None, xs_world = ()\<rparr>"

end
