(* ===== verification/Callback_Wait.thy ===== *)
theory Callback_Wait
  imports Exec_Env
begin

text \<open>
  The waitForCallback step (\<^verbatim>\<open>internal/workflow/executor/wait_for_callback.go\<close>) and the callback tokens
  (\<^verbatim>\<open>internal/workflow/token/generator.go\<close>). Randomness, SHA-256 and the parsing and printing of
  durations are parameters of \<open>env\<close>.
\<close>

subsection \<open>Tokens\<close>

definition TokenPrefix :: string where
  "TokenPrefix = ''cb_''"

definition TokenLength :: nat where
  "TokenLength = 32"

text \<open>\<^verbatim>\<open>%x\<close> of a byte slice: two lowercase hexadecimal digits for every byte.\<close>

definition hex_bytes :: "string \<Rightarrow> string" where
  "hex_bytes s = concat (map (\<lambda>c. hex_pad 2 (of_char c)) s)"

definition HashToken :: "(string \<Rightarrow> string) \<Rightarrow> string \<Rightarrow> string" where
  "HashToken sha256 tok = hex_bytes (sha256 tok)"

definition Generate :: "'w env \<Rightarrow> 'w \<Rightarrow> (string \<times> string) result \<times> 'w" where
  "Generate env w =
     (case env_random env TokenLength w of
        (Inl e, w') \<Rightarrow> (Inl (wrapf ''failed to generate random bytes: '' e), w')
      | (Inr bytes, w') \<Rightarrow>
          (let tok = TokenPrefix @ hex_bytes bytes in (Inr (tok, hex_bytes (env_sha256 env tok)), w')))"

definition hex_char :: "char \<Rightarrow> bool" where
  "hex_char c \<longleftrightarrow> \<not> ((c < CHR ''0'' \<or> CHR ''9'' < c) \<and> (c < CHR ''a'' \<or> CHR ''f'' < c))"

definition ValidateToken :: "string \<Rightarrow> bool" where
  "ValidateToken tok \<longleftrightarrow>
     length tok = length TokenPrefix + 64 \<and> take (length TokenPrefix) tok = TokenPrefix \<and>
     list_all hex_char (drop (length TokenPrefix) tok)"

subsection \<open>The step\<close>

definition awaiting :: "string \<Rightarrow> goerror" where
  "awaiting detail = GoError [ErrAwaitingCallback] (''awaiting callback'' @ detail)"

definition set_pending :: "CallbackState option \<Rightarrow> 'w xstate \<Rightarrow> 'w xstate" where
  "set_pending cb xs = xs\<lparr>xs_run := upd_status (\<lambda>s. s\<lparr>Status_PendingCallback := cb\<rparr>) (xs_run xs)\<rparr>"

abbreviation pending :: "WorkflowRun \<Rightarrow> CallbackState option" where
  "pending r \<equiv> Status_PendingCallback (WorkflowRun_Status r)"

abbreviation run_key :: "WorkflowRun \<Rightarrow> object_key" where
  "run_key r \<equiv> (WorkflowRun_Namespace r, WorkflowRun_Name r)"

definition patch_pending :: "'w env \<Rightarrow> WorkflowRun \<Rightarrow> CallbackState option \<Rightarrow> 'w \<Rightarrow> goerror option \<times> 'w" where
  "patch_pending env wr cb w =
     env_retryPatch env (\<lambda>w. case env_getRun env (run_key wr) w of
        (Inl e, w') \<Rightarrow> (Some e, w')
      | (Inr current, w') \<Rightarrow> env_patchPending env (run_key current) cb w') w"

definition setPendingCallbackPatch :: "'w env \<Rightarrow> WorkflowRun \<Rightarrow> CallbackState \<Rightarrow> 'w \<Rightarrow> goerror option \<times> 'w" where
  "setPendingCallbackPatch env wr cb w = patch_pending env wr (Some cb) w"

definition clearPendingCallbackPatch :: "'w env \<Rightarrow> WorkflowRun \<Rightarrow> 'w \<Rightarrow> goerror option \<times> 'w" where
  "clearPendingCallbackPatch env wr w = patch_pending env wr None w"

definition handleCallbackTimeout :: "'w env \<Rightarrow> WaitForCallbackStep \<Rightarrow> int \<Rightarrow> outputs result" where
  "handleCallbackTimeout env wfc timeoutDur =
     (let policy = (if WaitForCallbackStep_FailurePolicy wfc = [] then FailurePolicyFail
                    else WaitForCallbackStep_FailurePolicy wfc)
      in if policy = FailurePolicyContinue then Inr (Some [])
         else Inl (errorf (''callback timeout: no callback received within '' @ env_durationString env timeoutDur)))"

definition SchemaProperties :: "gomap \<Rightarrow> gomap option" where
  "SchemaProperties s = as_map (map_of s ''properties'')"

definition keepDeclaredProperties :: "raw_json option \<Rightarrow> gomap \<Rightarrow> gomap" where
  "keepDeclaredProperties schema out =
     (case schema of None \<Rightarrow> out
      | Some raw \<Rightarrow>
          (case unmarshal_map raw of None \<Rightarrow> out
           | Some s \<Rightarrow> (case SchemaProperties s of None \<Rightarrow> out
                        | Some props \<Rightarrow> filter (\<lambda>(k, v). has_key props k) out)))"

definition unix_seconds :: "int \<Rightarrow> int" where
  "unix_seconds t = t div 1000000000"

text \<open>The three paths once the timeout is parsed: outputs are there, still pending, or new.\<close>

definition consume_callback :: "'w env \<Rightarrow> WaitForCallbackStep \<Rightarrow> CallbackState \<Rightarrow> 'w xstate \<Rightarrow> outputs result \<times> 'w xstate" where
  "consume_callback env wfc cb xs =
     (case unmarshal_map (CallbackState_Outputs cb) of
        None \<Rightarrow> (Inl (errorf ''failed to parse callback outputs: invalid JSON''), xs)
      | Some decoded \<Rightarrow>
          (let outputs = keepDeclaredProperties (WaitForCallbackStep_OutputSchema wfc) decoded in
           case write_outputs outputs xs of
             (Some e, xs1) \<Rightarrow> (Inl (wrapf ''failed to write callback outputs: '' e), xs1)
           | (None, xs1) \<Rightarrow>
               if \<not> env_hasControlClient env then (Inr (Some outputs), set_pending None xs1)
               else (case clearPendingCallbackPatch env (xs_run xs1) (xs_world xs1) of
                       (Some e, w) \<Rightarrow>
                         (Inl (wrapf ''failed to clear PendingCallback after callback consumed: '' e), xs1\<lparr>xs_world := w\<rparr>)
                     | (None, w) \<Rightarrow> (Inr (Some outputs), set_pending None (xs1\<lparr>xs_world := w\<rparr>)))))"

definition still_pending ::
  "'w env \<Rightarrow> WaitForCallbackStep \<Rightarrow> string \<Rightarrow> int \<Rightarrow> CallbackState \<Rightarrow> 'w xstate \<Rightarrow> outputs result \<times> 'w xstate" where
  "still_pending env wfc stepName timeoutDur cb xs =
     (case env_now env (xs_world xs) of (now, w) \<Rightarrow>
        if CallbackState_ExpiresAt cb < unix_seconds now
        then (let w' = (if env_hasControlClient env then snd (clearPendingCallbackPatch env (xs_run xs) w) else w)
              in (handleCallbackTimeout env wfc timeoutDur, set_pending None (xs\<lparr>xs_world := w'\<rparr>)))
        else (Inl (awaiting ('': step '' @ quote stepName @ '' waiting for callback (expires '' @
                env_rfc3339 env (CallbackState_ExpiresAt cb) @ '')'')), xs\<lparr>xs_world := w\<rparr>))"

definition callback_path :: "WorkflowRun \<Rightarrow> string" where
  "callback_path r = ''/api/v1/workflow-runs/'' @ WorkflowRun_Namespace r @ ''/'' @ WorkflowRun_Name r @ ''/callback/''"

definition new_callback ::
  "'w env \<Rightarrow> string \<Rightarrow> int \<Rightarrow> 'w xstate \<Rightarrow> outputs result \<times> 'w xstate" where
  "new_callback env stepName timeoutDur xs =
     (case Generate env (xs_world xs) of
        (Inl e, w) \<Rightarrow> (Inl (wrapf ''failed to generate callback token: '' e), xs\<lparr>xs_world := w\<rparr>)
      | (Inr (tok, tokenHash), w) \<Rightarrow>
          (case env_now env w of (now, w1) \<Rightarrow>
             (let expiresAt = unix_seconds (now + timeoutDur);
                  cb = \<lparr>CallbackState_TokenHash = tokenHash, CallbackState_StepName = stepName,
                        CallbackState_ExpiresAt = expiresAt, CallbackState_Outputs = RawEmpty,
                        CallbackState_CreatedAt = unix_seconds now\<rparr>;
                  (patchErr, w2) = (if env_hasControlClient env
                                    then setPendingCallbackPatch env (xs_run xs) cb w1 else (None, w1))
              in case patchErr of
                   Some e \<Rightarrow> (Inl (wrapf ''failed to patch WorkflowRun status with PendingCallback: '' e), xs\<lparr>xs_world := w2\<rparr>)
                 | None \<Rightarrow>
                     (let xs1 = set_pending (Some cb) (xs\<lparr>xs_world := w2\<rparr>);
                          xs2 = snd (write_outputs [(''callbackToken'', VString tok)] xs1)
                      in (Inl (awaiting ('': step '' @ quote stepName @ '' waiting for callback at POST '' @
                            callback_path (xs_run xs) @ tok @ '' (expires '' @ env_rfc3339 env expiresAt @ '')'')), xs2)))))"

definition executeWaitForCallback :: "'w env \<Rightarrow> Step \<Rightarrow> 'w xstate \<Rightarrow> outputs result \<times> 'w xstate" where
  "executeWaitForCallback env step xs =
     (case Step_WaitForCallback step of
        None \<Rightarrow> (Inl (errorf ''waitForCallback step has nil configuration''), xs)
      | Some wfc \<Rightarrow>
          (case env_parseDuration env (WaitForCallbackStep_Timeout wfc) of
             Inl e \<Rightarrow> (Inl (wrapf (''invalid timeout duration '' @ quote (WaitForCallbackStep_Timeout wfc) @ '': '') e), xs)
           | Inr timeoutDur \<Rightarrow>
               (case pending (xs_run xs) of
                  Some cb \<Rightarrow>
                    if CallbackState_StepName cb = Step_Name step then
                      (if CallbackState_Outputs cb \<noteq> RawEmpty then consume_callback env wfc cb xs
                       else still_pending env wfc (Step_Name step) timeoutDur cb xs)
                    else new_callback env (Step_Name step) timeoutDur xs
                | None \<Rightarrow> new_callback env (Step_Name step) timeoutDur xs)))"

subsection \<open>Lemmas\<close>

lemma digit_char_hex: "n < 16 \<Longrightarrow> hex_char (digit_char n)"
proof -
  have "list_all (\<lambda>n. hex_char (digit_char n)) [0..<16]" by code_simp
  then show "n < 16 \<Longrightarrow> hex_char (digit_char n)" by (simp add: list_all_iff)
qed

lemma digits_base_hex: "list_all hex_char (digits_base 16 n)"
proof (induction "16::nat" n rule: digits_base.induct)
  case (1 n)
  then show ?case
    by (subst digits_base.simps) (auto simp: digit_char_hex)
qed

lemma hex_pad_hex: "list_all hex_char (hex_pad w n)"
proof -
  have "hex_char (CHR ''0'')" by (simp add: hex_char_def)
  then show ?thesis using digits_base_hex [of n] by (auto simp: hex_pad_def Let_def list_all_iff)
qed

lemma hex_pad_byte: "length (hex_pad 2 (of_char c)) = 2"
proof -
  have "of_char c < (16::nat) ^ 2" using nat_of_char_less_256 [of c] by simp
  from hex_pad_bounds [OF this, of 2] show ?thesis by simp
qed

lemma hex_bytes_length: "length (hex_bytes s) = 2 * length s"
  by (induction s) (simp_all add: hex_bytes_def hex_pad_byte)

lemma hex_bytes_hex: "list_all hex_char (hex_bytes s)"
  by (induction s) (simp_all add: hex_bytes_def hex_pad_hex)

lemma set_pending_frame [simp]:
  "keeps xs (set_pending cb xs)" "pending (xs_run (set_pending cb xs)) = cb"
  "xs_cm (set_pending cb xs) = xs_cm xs" "xs_scoped (set_pending cb xs) = xs_scoped xs"
  by (simp_all add: set_pending_def keeps_def same_phases_def step_phase_def)

lemma set_pending_same [simp]:
  "keeps xs (set_pending cb xs1) = keeps xs xs1"
  by (simp add: set_pending_def keeps_def same_phases_def step_phase_def)

lemma consume_callback_frame: "consume_callback env wfc cb xs = (r, xs') \<Longrightarrow> keeps xs xs'"
  by (auto simp: consume_callback_def Let_def split: option.splits prod.splits if_splits dest!: write_outputs_keeps)

lemma still_pending_frame: "still_pending env wfc n t cb xs = (r, xs') \<Longrightarrow> keeps xs xs'"
  by (auto simp: still_pending_def Let_def split: prod.splits if_splits)

lemma snd_write_outputs_run [simp]: "xs_run (snd (write_outputs outs xs)) = xs_run xs"
  using write_outputs_run [of outs xs] by (cases "write_outputs outs xs") auto

lemma snd_write_outputs_keeps [simp]: "keeps ys (snd (write_outputs outs xs)) = keeps ys xs"
  using write_outputs_keeps [of outs xs] by (cases "write_outputs outs xs") (auto simp: keeps_def same_phases_def)

lemma new_callback_frame: "new_callback env n t xs = (r, xs') \<Longrightarrow> keeps xs xs'"
  by (auto simp: new_callback_def Let_def split: option.splits prod.splits sum.splits if_splits)

lemma executeWaitForCallback_frame:
  "executeWaitForCallback env step xs = (r, xs') \<Longrightarrow> keeps xs xs'"
  by (auto simp: executeWaitForCallback_def split: option.splits sum.splits if_splits
      dest: consume_callback_frame still_pending_frame new_callback_frame)

lemma keepDeclared_keys:
  "unmarshal_map raw = Some s \<Longrightarrow> SchemaProperties s = Some props \<Longrightarrow>
     map_of (keepDeclaredProperties (Some raw) out) k = (if has_key props k then map_of out k else None)"
  by (simp add: keepDeclaredProperties_def map_of_filter_keys)

lemma write_outputs_variables:
  assumes "write_outputs outs xs = (None, xs')" "wf_map outs"
  shows "\<exists>ctx vs. GetContextFrom (xs_scoped xs') (xs_cm xs') = Some ctx \<and> map_of ctx ''variables'' = Some (VMap vs) \<and>
    (\<forall>k v. map_of outs k = Some v \<longrightarrow> map_of vs k = Some v)"
proof -
  have "\<exists>vs. map_of (write_variables outs m) ''variables'' = Some (VMap vs) \<and>
      (\<forall>k v. map_of outs k = Some v \<longrightarrow> map_of vs k = Some v)" for m
    using assms(2) by (auto simp: write_variables_def map_of_put_all split: option.splits)
  with assms(1) show ?thesis
    by (auto simp: write_outputs_def WriteStepOutputs_def GetContextFrom_def
        split: sum.splits option.splits if_splits)
qed

subsection \<open>Properties\<close>

text \<open>
  A generated token passes the format check of the callback server, and the hash stored for it
  is the one the server computes from the token it is sent.
\<close>

theorem Generate_valid:
  assumes "env_random env 32 w = (Inr bytes, w')" "length bytes = 32"
  shows "\<exists>tok hash. Generate env w = (Inr (tok, hash), w') \<and> ValidateToken tok \<and> hash = HashToken (env_sha256 env) tok"
  using assms hex_bytes_length [of bytes] hex_bytes_hex [of bytes]
  by (simp add: Generate_def ValidateToken_def HashToken_def TokenLength_def TokenPrefix_def Let_def)

theorem Generate_valid_witness:
  "\<exists>tok hash. Generate idle_env () = (Inr (tok, hash), ()) \<and> ValidateToken tok \<and> hash = HashToken (env_sha256 idle_env) tok"
  by (rule Generate_valid [where bytes = "replicate 32 (CHR ''x'')"]) (simp_all only: length_replicate, simp add: idle_env_def)

text \<open>
  When the outputs of the callback have arrived, the resumed step succeeds with exactly those
  decoded keys that its schema declares, has written them to the variables and cleared the pending
  callback; when it cannot clear it on the cluster it fails and keeps the callback pending, so that
  a restart consumes it again.
\<close>

theorem callback_resume:
  assumes "Step_WaitForCallback step = Some wfc" "env_parseDuration env (WaitForCallbackStep_Timeout wfc) = Inr t"
    "pending (xs_run xs) = Some cb" "CallbackState_StepName cb = Step_Name step"
    "CallbackState_Outputs cb = RawDoc (VMap payload)" "wf_map payload"
    "executeWaitForCallback env step xs = (r, xs')"
  shows "case r of
      Inr outs \<Rightarrow> pending (xs_run xs') = None \<and>
        outs = Some (keepDeclaredProperties (WaitForCallbackStep_OutputSchema wfc) payload) \<and>
        (\<exists>ctx vs. GetContextFrom (xs_scoped xs') (xs_cm xs') = Some ctx \<and> map_of ctx ''variables'' = Some (VMap vs) \<and>
          (\<forall>k v. map_of (keepDeclaredProperties (WaitForCallbackStep_OutputSchema wfc) payload) k = Some v
             \<longrightarrow> map_of vs k = Some v))
    | Inl e \<Rightarrow> pending (xs_run xs') = Some cb"
proof -
  let ?outs = "keepDeclaredProperties (WaitForCallbackStep_OutputSchema wfc) payload"
  have wf: "wf_map ?outs"
    using assms(6) by (auto simp: keepDeclaredProperties_def wf_map_def distinct_map_filter split: option.splits)
  have c: "consume_callback env wfc cb xs = (r, xs')"
    using assms by (simp add: executeWaitForCallback_def)
  obtain e xs1 where w: "write_outputs ?outs xs = (e, xs1)" by force
  note run = write_outputs_run [OF w]
  show ?thesis
  proof (cases e)
    case (Some err)
    with c w assms(3,5) run show ?thesis by (auto simp: consume_callback_def)
  next
    case None
    note vars = write_outputs_variables [OF w [unfolded None] wf]
    from c w None assms(5) run assms(3) vars show ?thesis
      by (auto simp: consume_callback_def Let_def split: if_splits prod.splits option.splits)
  qed
qed

definition wait_step :: Step where
  "wait_step = zero_Step\<lparr>Step_Name := ''approve'', Step_WaitForCallback := Some
     \<lparr>WaitForCallbackStep_Timeout = ''1m'', WaitForCallbackStep_CallbackRef = [],
      WaitForCallbackStep_OutputSchema = None, WaitForCallbackStep_Message = [],
      WaitForCallbackStep_FailurePolicy = []\<rparr>\<rparr>"

definition answered_run :: WorkflowRun where
  "answered_run = upd_status (\<lambda>s. s\<lparr>Status_PendingCallback := Some
     \<lparr>CallbackState_TokenHash = ''h'', CallbackState_StepName = ''approve'', CallbackState_ExpiresAt = 0,
      CallbackState_Outputs = RawDoc (VMap [(''ok'', VBool True)]), CallbackState_CreatedAt = 0\<rparr>\<rparr>) zero_WorkflowRun"

definition ready_cm :: ContextManager where
  "ready_cm = NewContextManager\<lparr>cm_inMemoryContext := Some [(''variables'', VMap [])], cm_contextInitialized := True\<rparr>"

theorem callback_resume_witness:
  "case executeWaitForCallback idle_env wait_step (idle_state answered_run\<lparr>xs_cm := ready_cm\<rparr>) of
     (Inr outs, xs') \<Rightarrow> pending (xs_run xs') = None \<and> outs = Some [(''ok'', VBool True)]
   | (Inl e, xs') \<Rightarrow> False"
proof -
  obtain r xs' where e: "executeWaitForCallback idle_env wait_step (idle_state answered_run\<lparr>xs_cm := ready_cm\<rparr>) = (r, xs')"
    by force
  have "\<not> isl (fst (executeWaitForCallback idle_env wait_step (idle_state answered_run\<lparr>xs_cm := ready_cm\<rparr>)))"
    by code_simp
  with callback_resume [OF _ _ _ _ _ _ e] e show ?thesis
    by (cases r) (simp_all add: wait_step_def zero_Step_def idle_env_def answered_run_def idle_state_def wf_map_def
        keepDeclaredProperties_def)
qed

end
