(* ===== verification/Kube_Client.thy ===== *)
theory Kube_Client
  imports Callback_Wait
begin

text \<open>
  What the controller's components share: the Kubernetes client they call, the records of the
  objects they read, and the lookup of the Workflow of a run (\<^verbatim>\<open>resolveWorkflow\<close> of
  \<^verbatim>\<open>internal/workflow/controller/workflowrun_controller.go\<close>).

  The client is the parameter \<open>kube\<close>: functions on a world \<open>'w\<close>, for each kind of object those the
  code calls. \<open>runs_client\<close> states the documented behaviour of the API server for WorkflowRuns that
  the code relies on; \<open>runs\<close> is the content of the server. A \<open>Get\<close> may fail at any time, a write that
  fails may or may not have been applied (a timeout), and objects of other kinds are apart.
\<close>

subsection \<open>Objects\<close>

record JobCondition =
  JobCondition_Type :: string
  JobCondition_Status :: string
  JobCondition_Reason :: string

record Job =
  Job_Namespace :: string
  Job_Name :: string
  Job_Annotations :: "(string \<times> string) list"
  Job_ServiceAccountName :: string
  Job_Volumes :: "Volume list"
  Job_Conditions :: "JobCondition list"
  Job_Active :: int
  Job_Succeeded :: int
  Job_Failed :: int
  Job_DeletionTimestamp :: "int option"

record ContainerWaiting =
  Waiting_Reason :: string
  Waiting_Message :: string

record ContainerStatus =
  ContainerStatus_Name :: string
  ContainerStatus_Waiting :: "ContainerWaiting option"
  ContainerStatus_Terminated :: "string option"
  ContainerStatus_LastTerminated :: "string option"

record Pod =
  Pod_Namespace :: string
  Pod_Name :: string
  Pod_CreationTimestamp :: int
  Pod_Phase :: string
  Pod_Reason :: string
  Pod_ContainerStatuses :: "ContainerStatus list"

text \<open>The events of a pod are pairs of reason and message.\<close>

type_synonym pod_event = "string \<times> string"

subsection \<open>The client\<close>

text \<open>
  \<open>kube_patchCallback k cb doc\<close> is the merge patch \<^verbatim>\<open>{"status":{"pendingCallback":{...,"outputs":doc}}}\<close> of
  the callback server; \<open>kube_jobText\<close> decodes the annotation of a Job. \<open>kube_propagation\<close> of a deletion is
  part of its key argument.
\<close>

datatype propagation = PropagationBackground | PropagationForeground

record 'w kube =
  kube_now :: "'w \<Rightarrow> int \<times> 'w"
  kube_event :: "(WorkflowRun \<Rightarrow> string \<Rightarrow> string \<Rightarrow> string \<Rightarrow> 'w \<Rightarrow> 'w) option"
  kube_getRun :: "object_key \<Rightarrow> 'w \<Rightarrow> WorkflowRun result \<times> 'w"
  kube_listRuns :: "string \<Rightarrow> 'w \<Rightarrow> WorkflowRun list result \<times> 'w"
  kube_updateStatus :: "WorkflowRun \<Rightarrow> 'w \<Rightarrow> goerror option \<times> 'w"
  kube_patchCallback :: "object_key \<Rightarrow> CallbackState \<Rightarrow> val \<Rightarrow> 'w \<Rightarrow> goerror option \<times> 'w"
  kube_deleteRun :: "object_key \<Rightarrow> 'w \<Rightarrow> goerror option \<times> 'w"
  kube_getWorkflow :: "object_key \<Rightarrow> 'w \<Rightarrow> Workflow result \<times> 'w"
  kube_getJob :: "object_key \<Rightarrow> 'w \<Rightarrow> Job result \<times> 'w"
  kube_createJob :: "Job \<Rightarrow> 'w \<Rightarrow> goerror option \<times> 'w"
  kube_deleteJob :: "propagation \<Rightarrow> object_key \<Rightarrow> 'w \<Rightarrow> goerror option \<times> 'w"
  kube_listPods :: "string \<Rightarrow> string \<Rightarrow> 'w \<Rightarrow> Pod list result \<times> 'w"
  kube_podEvents :: "object_key \<Rightarrow> 'w \<Rightarrow> pod_event list result \<times> 'w"
  kube_configMaps :: "'w client"

abbreviation not_found :: "goerror \<Rightarrow> bool" where
  "not_found e \<equiv> errors_is e ApiNotFound"

text \<open>\<^verbatim>\<open>client.IgnoreNotFound\<close>.\<close>

definition IgnoreNotFound :: "goerror option \<Rightarrow> goerror option" where
  "IgnoreNotFound err = (case err of None \<Rightarrow> None | Some e \<Rightarrow> if not_found e then None else Some e)"

definition emit :: "'w kube \<Rightarrow> WorkflowRun \<Rightarrow> string \<Rightarrow> string \<Rightarrow> string \<Rightarrow> 'w \<Rightarrow> 'w" where
  "emit kube wr eventType reason message w =
     (case kube_event kube of None \<Rightarrow> w | Some rec \<Rightarrow> rec wr eventType reason message w)"

subsection \<open>The Workflow of a run\<close>

abbreviation workflow_ref :: "WorkflowRun \<Rightarrow> WorkflowRef" where
  "workflow_ref r \<equiv> WorkflowRunSpec_WorkflowRef (WorkflowRun_Spec r)"

definition ref_namespace :: "WorkflowRun \<Rightarrow> string" where
  "ref_namespace r =
     (if WorkflowRef_Namespace (workflow_ref r) = [] then WorkflowRun_Namespace r
      else WorkflowRef_Namespace (workflow_ref r))"

definition key_string :: "object_key \<Rightarrow> string" where
  "key_string k = fst k @ ''/'' @ snd k"

definition resolveWorkflow ::
  "'w kube \<Rightarrow> string \<Rightarrow> WorkflowRun \<Rightarrow> 'w \<Rightarrow> (Workflow \<times> string) result \<times> 'w" where
  "resolveWorkflow kube controllerNamespace run w =
     (let workflowNamespace = ref_namespace run;
          workflowKey = (workflowNamespace, WorkflowRef_Name (workflow_ref run));
          fallbackKey = (controllerNamespace, WorkflowRef_Name (workflow_ref run))
      in case kube_getWorkflow kube workflowKey w of
           (Inr workflow, w1) \<Rightarrow> (Inr (workflow, workflowNamespace), w1)
         | (Inl err, w1) \<Rightarrow>
             (let failed = Inl (wrapf (''failed to get Workflow '' @ key_string workflowKey @ '': '') err) in
              if not_found err \<and> controllerNamespace \<noteq> [] \<and> controllerNamespace \<noteq> workflowNamespace
              then (case kube_getWorkflow kube fallbackKey w1 of
                      (Inr fallback, w2) \<Rightarrow> (Inr (fallback, controllerNamespace), w2)
                    | (Inl fbErr, w2) \<Rightarrow>
                        if \<not> not_found fbErr
                        then (Inl (wrapf (''failed to get Workflow '' @ key_string fallbackKey @
                                '' in controller namespace '' @ quote controllerNamespace @ '': '') fbErr), w2)
                        else (failed, w2))
              else (failed, w1)))"

text \<open>
  The error is a NotFound only when every lookup said so: a failure of the second lookup for any other
  reason is never mistaken for a missing Workflow.
\<close>

lemma resolveWorkflow_not_found:
  assumes "resolveWorkflow kube ns run w = (Inl e, w')" "not_found e"
  obtains e1 w1 where "kube_getWorkflow kube (ref_namespace run, WorkflowRef_Name (workflow_ref run)) w = (Inl e1, w1)"
    "not_found e1" and "ns = [] \<or> ns = ref_namespace run \<or>
      (\<exists>e2. kube_getWorkflow kube (ns, WorkflowRef_Name (workflow_ref run)) w1 = (Inl e2, w') \<and> not_found e2)"
  using assms by (auto simp: resolveWorkflow_def Let_def split: prod.splits sum.splits if_splits)

subsection \<open>Merge patches\<close>

text \<open>
  RFC 7386, the semantics of \<^verbatim>\<open>types.MergePatchType\<close>: members are merged recursively, a member whose
  value is null is removed, and every other value replaces the old one.
\<close>

fun merge_patch :: "val \<Rightarrow> val \<Rightarrow> val" and merge_entries :: "gomap \<Rightarrow> gomap \<Rightarrow> gomap" where
  "merge_patch t (VMap p) = VMap (merge_entries (case t of VMap m \<Rightarrow> m | _ \<Rightarrow> []) p)"
| "merge_patch t v = v"
| "merge_entries m [] = m"
| "merge_entries m ((k, v) # p) =
     merge_entries (if v = VNil then AList.delete k m
                    else AList.update k (merge_patch (case map_of m k of None \<Rightarrow> VNil | Some x \<Rightarrow> x) v) m) p"

fun null_free :: "val \<Rightarrow> bool" and null_free_entries :: "gomap \<Rightarrow> bool" where
  "null_free (VMap m) = null_free_entries m"
| "null_free VNil = False"
| "null_free v = True"
| "null_free_entries [] = True"
| "null_free_entries ((k, v) # m) = (map_of m k = None \<and> null_free v \<and> null_free_entries m)"

text \<open>The stored document after a patch of its place; null removes it.\<close>

definition patched_doc :: "raw_json \<Rightarrow> val \<Rightarrow> raw_json" where
  "patched_doc old doc =
     (if doc = VNil then RawEmpty
      else RawDoc (merge_patch (case old of RawDoc v \<Rightarrow> v | _ \<Rightarrow> VNil) doc))"

definition patched_callback :: "CallbackState option \<Rightarrow> CallbackState \<Rightarrow> val \<Rightarrow> CallbackState" where
  "patched_callback old cb doc =
     cb\<lparr>CallbackState_Outputs := patched_doc (case old of None \<Rightarrow> RawEmpty | Some c \<Rightarrow> CallbackState_Outputs c) doc\<rparr>"

lemma AList_update_fresh: "map_of m k = None \<Longrightarrow> AList.update k v m = m @ [(k, v)]"
  by (induction m) (auto split: if_splits)

lemma merge_patch_null_free:
  "null_free v \<Longrightarrow> merge_patch VNil v = v"
  "null_free_entries p \<Longrightarrow> (\<forall>k \<in> fst ` set p. map_of m k = None) \<Longrightarrow> merge_entries m p = m @ p"
proof (induction v and p arbitrary: and m rule: null_free_null_free_entries.induct)
  case (5 k v p)
  then have v: "v \<noteq> VNil" "merge_patch VNil v = v" by auto
  have "merge_entries (m @ [(k, v)]) p = (m @ [(k, v)]) @ p"
    using 5 by (intro "5.IH"(2)) (auto simp: map_of_eq_None_iff map_add_def split: option.splits)
  with 5 v show ?case by (simp add: AList_update_fresh)
qed simp_all

subsection \<open>The laws\<close>

type_synonym run_store = "object_key \<Rightarrow> WorkflowRun option"

definition reads :: "('w \<Rightarrow> run_store) \<Rightarrow> ('w \<Rightarrow> 'a \<times> 'w) \<Rightarrow> bool" where
  "reads runs f \<longleftrightarrow> (\<forall>w. runs (snd (f w)) = runs w)"

definition run_get_law :: "'w kube \<Rightarrow> ('w \<Rightarrow> run_store) \<Rightarrow> bool" where
  "run_get_law kube runs \<longleftrightarrow> (\<forall>k w r w'. kube_getRun kube k w = (r, w') \<longrightarrow>
     runs w' = runs w \<and>
     (case r of Inr wr \<Rightarrow> runs w k = Some wr \<and> run_key wr = k
      | Inl e \<Rightarrow> not_found e \<longrightarrow> runs w k = None))"

definition status_update_law :: "'w kube \<Rightarrow> ('w \<Rightarrow> run_store) \<Rightarrow> bool" where
  "status_update_law kube runs \<longleftrightarrow> (\<forall>wr w r w'. kube_updateStatus kube wr w = (r, w') \<longrightarrow>
     write_outcome r (runs w) (runs w')
       (\<exists>old. runs w (run_key wr) = Some old \<and>
          runs w' = (runs w)(run_key wr \<mapsto> old\<lparr>WorkflowRun_Status := WorkflowRun_Status wr\<rparr>)))"

definition callback_patch_law :: "'w kube \<Rightarrow> ('w \<Rightarrow> run_store) \<Rightarrow> bool" where
  "callback_patch_law kube runs \<longleftrightarrow> (\<forall>k cb doc w r w'. kube_patchCallback kube k cb doc w = (r, w') \<longrightarrow>
     write_outcome r (runs w) (runs w')
       (\<exists>old. runs w k = Some old \<and> runs w' = (runs w)(k \<mapsto>
          upd_status (\<lambda>s. s\<lparr>Status_PendingCallback := Some (patched_callback (Status_PendingCallback s) cb doc)\<rparr>) old)))"

definition run_delete_law :: "'w kube \<Rightarrow> ('w \<Rightarrow> run_store) \<Rightarrow> bool" where
  "run_delete_law kube runs \<longleftrightarrow> (\<forall>k w r w'. kube_deleteRun kube k w = (r, w') \<longrightarrow>
     write_outcome r (runs w) (runs w') (runs w' = (runs w)(k := None)) \<and>
     (\<forall>e. r = Some e \<and> not_found e \<longrightarrow> runs w k = None))"

definition other_kinds :: "'w kube \<Rightarrow> ('w \<Rightarrow> run_store) \<Rightarrow> bool" where
  "other_kinds kube runs \<longleftrightarrow>
     reads runs (kube_now kube) \<and>
     (\<forall>rec. kube_event kube = Some rec \<longrightarrow> (\<forall>wr t r m w. runs (rec wr t r m w) = runs w)) \<and>
     (\<forall>ns. reads runs (kube_listRuns kube ns)) \<and> (\<forall>k. reads runs (kube_getWorkflow kube k)) \<and>
     (\<forall>k. reads runs (kube_getJob kube k)) \<and> (\<forall>j. reads runs (kube_createJob kube j)) \<and>
     (\<forall>p k. reads runs (kube_deleteJob kube p k)) \<and> (\<forall>ns j. reads runs (kube_listPods kube ns j)) \<and>
     (\<forall>k. reads runs (kube_podEvents kube k)) \<and> (\<forall>k. reads runs (Client_Delete (kube_configMaps kube) k))"

definition runs_client :: "'w kube \<Rightarrow> ('w \<Rightarrow> run_store) \<Rightarrow> bool" where
  "runs_client kube runs \<longleftrightarrow> run_get_law kube runs \<and> status_update_law kube runs \<and>
     callback_patch_law kube runs \<and> run_delete_law kube runs \<and> other_kinds kube runs"

named_theorems kube_frame "the calls that leave the stored runs alone"

lemma reads_eq: "reads runs f \<Longrightarrow> f w = (r, w') \<Longrightarrow> runs w' = runs w"
  by (metis reads_def snd_conv)

lemma kube_calls_frame [kube_frame]:
  assumes "runs_client kube runs"
  shows "kube_now kube w = (t, w') \<Longrightarrow> runs w' = runs w"
    "kube_listRuns kube ns w = (rs, w') \<Longrightarrow> runs w' = runs w"
    "kube_getWorkflow kube k w = (wflow, w') \<Longrightarrow> runs w' = runs w"
    "kube_getJob kube k w = (j, w') \<Longrightarrow> runs w' = runs w"
    "kube_createJob kube job w = (e, w') \<Longrightarrow> runs w' = runs w"
    "kube_deleteJob kube p k w = (e, w') \<Longrightarrow> runs w' = runs w"
    "kube_listPods kube ns jn w = (ps, w') \<Longrightarrow> runs w' = runs w"
    "kube_podEvents kube k w = (es, w') \<Longrightarrow> runs w' = runs w"
    "kube_getRun kube k w = (wr, w') \<Longrightarrow> runs w' = runs w"
  using assms unfolding runs_client_def other_kinds_def run_get_law_def by (metis reads_eq)+

lemma emit_frame [kube_frame]: "runs_client kube runs \<Longrightarrow> runs (emit kube wr t r m w) = runs w"
  by (auto simp: runs_client_def other_kinds_def emit_def split: option.splits)

lemma resolveWorkflow_frame [kube_frame]:
  assumes "runs_client kube runs" "resolveWorkflow kube ns run w = (r, w')"
  shows "runs w' = runs w"
  using assms(2) by (auto simp: resolveWorkflow_def Let_def kube_calls_frame [OF assms(1)]
      split: prod.splits sum.splits if_splits)

lemma getRun_fresh:
  assumes "runs_client kube runs" "kube_getRun kube k w = (Inr wr, w')"
  shows "runs w k = Some wr \<and> run_key wr = k"
proof -
  have "run_get_law kube runs" using assms(1) by (simp add: runs_client_def)
  from this [unfolded run_get_law_def, rule_format, OF assms(2)] show ?thesis by simp
qed

text \<open>A cluster that holds its runs in the world, for the witnesses.\<close>

definition memory_kube :: "Workflow \<Rightarrow> (WorkflowRun option) kube" where
  "memory_kube wflow =
     \<lparr>kube_now = (\<lambda>w. (0, w)), kube_event = None,
      kube_getRun = (\<lambda>k w. case w of Some r \<Rightarrow> if run_key r = k then (Inr r, w) else (Inl (GoError [ApiNotFound] []), w)
                            | None \<Rightarrow> (Inl (GoError [ApiNotFound] []), w)),
      kube_listRuns = (\<lambda>ns w. (Inr (case w of Some r \<Rightarrow> if WorkflowRun_Namespace r = ns then [r] else [] | None \<Rightarrow> []), w)),
      kube_updateStatus = (\<lambda>r w. case w of Some h \<Rightarrow> if run_key r = run_key h
            then (None, Some (h\<lparr>WorkflowRun_Status := WorkflowRun_Status r\<rparr>)) else (Some (GoError [ApiNotFound] []), w)
          | None \<Rightarrow> (Some (GoError [ApiNotFound] []), w)),
      kube_patchCallback = (\<lambda>k cb doc w. case w of Some h \<Rightarrow> if run_key h = k
            then (None, Some (upd_status (\<lambda>s. s\<lparr>Status_PendingCallback :=
                    Some (patched_callback (Status_PendingCallback s) cb doc)\<rparr>) h))
            else (Some (GoError [ApiNotFound] []), w)
          | None \<Rightarrow> (Some (GoError [ApiNotFound] []), w)),
      kube_deleteRun = (\<lambda>k w. case w of Some h \<Rightarrow> if run_key h = k then (None, None)
            else (Some (GoError [ApiNotFound] []), w) | None \<Rightarrow> (Some (GoError [ApiNotFound] []), w)),
      kube_getWorkflow = (\<lambda>_ w. (Inr wflow, w)),
      kube_getJob = (\<lambda>_ w. (Inl (GoError [ApiNotFound] []), w)),
      kube_createJob = (\<lambda>_ w. (None, w)), kube_deleteJob = (\<lambda>_ _ w. (None, w)),
      kube_listPods = (\<lambda>_ _ w. (Inr [], w)), kube_podEvents = (\<lambda>_ w. (Inr [], w)),
      kube_configMaps = \<lparr>Client_Get = (\<lambda>_ w. (Inl unreachable, w)), Client_Create = (\<lambda>_ w. (Some unreachable, w)),
         Client_Update = (\<lambda>_ w. (Some unreachable, w)), Client_Delete = (\<lambda>_ w. (Some unreachable, w))\<rparr>\<rparr>"

definition memory_runs :: "WorkflowRun option \<Rightarrow> run_store" where
  "memory_runs w k = (case w of Some r \<Rightarrow> if run_key r = k then Some r else None | None \<Rightarrow> None)"

lemma memory_runs_client: "runs_client (memory_kube wflow) memory_runs"
  by (auto simp: runs_client_def run_get_law_def status_update_law_def callback_patch_law_def
      run_delete_law_def other_kinds_def reads_def memory_kube_def memory_runs_def write_outcome_def
      errors_is_def refused_def fun_eq_iff split: option.splits if_splits)

end
