(* ===== verification/Callback_Server.thy ===== *)
theory Callback_Server
  imports Kube_Client
begin

text \<open>
  The HTTP server that receives the callbacks of waitForCallback steps
  (\<^verbatim>\<open>internal/workflow/controller/callback_server.go\<close>). A request is its method, its path and what reading
  its body gives; a response its status code and its JSON members. The server's parameters are the
  cluster, SHA-256, the decoding of a JSON text, client-go's \<^verbatim>\<open>retry.RetryOnConflict\<close> and the order in
  which a \<^verbatim>\<open>range\<close> visits the properties of a schema.

  A request is handled in three atomic actions, between which others may run: its admission, the
  re-fetch of the run, and the patch. \<open>handleCallback\<close> is their sequence, \<open>callback_system\<close> their interleaving
  with other requests and with the rest of the system.
\<close>

subsection \<open>Requests and responses\<close>

record Request =
  Request_Method :: string
  Request_Path :: string
  Request_Body :: "string result"

datatype Response = Response (response_code: nat) (response_body: "(string \<times> string) list")

datatype patch_outcome = PatchTerminal | PatchAlready | PatchError goerror | PatchDone

record 'w CallbackServer =
  cs_kube :: "'w kube"
  cs_ControllerNamespace :: string
  cs_sha256 :: "string \<Rightarrow> string"
  cs_decode :: "string \<Rightarrow> raw_json"
  cs_retry :: "('w \<Rightarrow> patch_outcome \<times> 'w) \<Rightarrow> 'w \<Rightarrow> patch_outcome \<times> 'w"
  cs_order :: "string list \<Rightarrow> string list"

fun phase_string :: "WorkflowRunPhase \<Rightarrow> string" where
  "phase_string WorkflowRunPhaseNone = []"
| "phase_string WorkflowRunPhasePending = ''Pending''"
| "phase_string WorkflowRunPhaseRunning = ''Running''"
| "phase_string WorkflowRunPhaseSucceeded = ''Succeeded''"
| "phase_string WorkflowRunPhaseFailed = ''Failed''"

definition writeCallbackError :: "string \<Rightarrow> nat \<Rightarrow> Response" where
  "writeCallbackError msg code = Response code [(''error'', msg)]"

definition writeTerminalCallbackError :: Response where
  "writeTerminalCallbackError =
     writeCallbackError ''workflow run has reached a terminal phase; no longer accepting callbacks'' 410"

definition callback_ok :: "string \<Rightarrow> WorkflowRun \<Rightarrow> Response" where
  "callback_ok status wr = Response 200 [(''status'', status), (''runPhase'', phase_string (run_phase wr))]"

definition callback_prefix :: string where
  "callback_prefix = ''/api/v1/workflow-runs/''"

definition parse_callback_path :: "string \<Rightarrow> (object_key \<times> string) option" where
  "parse_callback_path p =
     (case split_on (CHR ''/'') (case cut_prefix p callback_prefix of Some r \<Rightarrow> r | None \<Rightarrow> p) of
        [ns, name, word, tok] \<Rightarrow>
          if word \<noteq> ''callback'' \<or> ns = [] \<or> name = [] \<or> tok = [] then None else Some ((ns, name), tok)
      | _ \<Rightarrow> None)"

subsection \<open>Validation of the payload\<close>

fun type_name :: "val \<Rightarrow> string" where
  "type_name VNil = ''<nil>''"
| "type_name (VBool b) = ''bool''"
| "type_name (VInt i) = ''int64''"
| "type_name (VFloat x) = ''float64''"
| "type_name (VString s) = ''string''"
| "type_name (VStrings l) = ''[]string''"
| "type_name (VList l) = ''[]interface {}''"
| "type_name (VMap m) = ''map[string]interface {}''"

fun has_json_type :: "string \<Rightarrow> val \<Rightarrow> bool" where
  "has_json_type t (VString s) = (t = ''string'')"
| "has_json_type t (VBool b) = (t = ''boolean'')"
| "has_json_type t (VFloat x) = (t = ''number'')"
| "has_json_type t (VInt i) = (t = ''number'')"
| "has_json_type t (VList l) = (t = ''array'')"
| "has_json_type t (VMap m) = (t = ''object'')"
| "has_json_type t v = False"

definition checkJSONType :: "string \<Rightarrow> val \<Rightarrow> string \<Rightarrow> goerror option" where
  "checkJSONType name v expected =
     (let kind = (if expected = ''integer'' then ''number'' else expected) in
      if kind \<notin> {''string'', ''boolean'', ''number'', ''array'', ''object''} \<or> has_json_type kind v then None
      else Some (errorf (''field '' @ quote name @ '': expected '' @ kind @ '', got '' @ type_name v)))"

definition check_required :: "gomap \<Rightarrow> val \<Rightarrow> goerror option" where
  "check_required payload r =
     (case as_string r of None \<Rightarrow> None
      | Some field \<Rightarrow> if has_key payload field then None
                      else Some (errorf (''required field '' @ quote field @ '' is missing'')))"

definition check_property :: "gomap \<Rightarrow> gomap \<Rightarrow> string \<Rightarrow> goerror option" where
  "check_property properties payload propName =
     (case as_map (map_of properties propName) of None \<Rightarrow> None
      | Some propMap \<Rightarrow>
          (case map_of propMap ''type'' of
             Some (VString expectedType) \<Rightarrow>
               (case map_of payload propName of None \<Rightarrow> None
                | Some v \<Rightarrow> checkJSONType propName v expectedType)
           | _ \<Rightarrow> None))"

definition validatePayloadAgainstSchema ::
  "(string list \<Rightarrow> string list) \<Rightarrow> raw_json option \<Rightarrow> gomap \<Rightarrow> goerror option" where
  "validatePayloadAgainstSchema order schema payload =
     (case schema of None \<Rightarrow> None
      | Some raw \<Rightarrow>
          (case unmarshal_map raw of None \<Rightarrow> None
           | Some s \<Rightarrow>
               (case first_error (check_required payload)
                       (case as_list (map_of s ''required'') of Some required \<Rightarrow> required | None \<Rightarrow> []) of
                  Some e \<Rightarrow> Some e
                | None \<Rightarrow>
                    (case SchemaProperties s of None \<Rightarrow> None
                     | Some properties \<Rightarrow>
                         first_error (check_property properties payload) (order (map fst properties))))))"

definition validateCallbackSchema ::
  "'w CallbackServer \<Rightarrow> WorkflowRun \<Rightarrow> string \<Rightarrow> gomap \<Rightarrow> 'w \<Rightarrow> goerror option \<times> 'w" where
  "validateCallbackSchema cs wr stepName payload w =
     (case resolveWorkflow (cs_kube cs) (cs_ControllerNamespace cs) wr w of
        (Inl e, w1) \<Rightarrow> (None, w1)
      | (Inr (workflow, ns), w1) \<Rightarrow>
          (case List.find (\<lambda>s. Step_Name s = stepName) (Workflow_Steps workflow) of
             None \<Rightarrow> (None, w1)
           | Some step \<Rightarrow>
               (case Step_WaitForCallback step of None \<Rightarrow> (None, w1)
                | Some wfc \<Rightarrow>
                    (validatePayloadAgainstSchema (cs_order cs) (WaitForCallbackStep_OutputSchema wfc) payload, w1))))"

subsection \<open>Handling a request\<close>

definition callback_body :: "'w CallbackServer \<Rightarrow> string \<Rightarrow> raw_json" where
  "callback_body cs bytes =
     (let b = take (2 ^ 20) bytes in if b = [] then RawDoc (VMap []) else cs_decode cs b)"

text \<open>What an admitted request goes on with: the key, the run and the callback as read, and its document.\<close>

type_synonym admitted = "object_key \<times> WorkflowRun \<times> CallbackState \<times> val"

definition admit_payload ::
  "'w CallbackServer \<Rightarrow> Request \<Rightarrow> object_key \<Rightarrow> WorkflowRun \<Rightarrow> CallbackState \<Rightarrow> 'w \<Rightarrow> (Response + admitted) \<times> 'w" where
  "admit_payload cs req key wr cb w =
     (let rejected = (\<lambda>why w. emit (cs_kube cs) wr ''Warning'' ''CallbackValidationFailed''
            (''Callback for step '' @ quote (CallbackState_StepName cb) @ '' rejected: '' @ why) w)
      in case Request_Body req of
           Inl e \<Rightarrow> (Inl (writeCallbackError ''failed to read request body'' 500), w)
         | Inr bytes \<Rightarrow>
             (case (callback_body cs bytes, unmarshal_map (callback_body cs bytes)) of
                (RawDoc doc, Some payload) \<Rightarrow>
                  (case validateCallbackSchema cs wr (CallbackState_StepName cb) payload w of
                     (Some e, w1) \<Rightarrow>
                       (Inl (writeCallbackError (''schema validation failed: '' @ err_msg e) 400), rejected (err_msg e) w1)
                   | (None, w1) \<Rightarrow> (Inr (key, wr, cb, doc), w1))
              | _ \<Rightarrow> (Inl (writeCallbackError ''invalid JSON body: '' 400), rejected ''invalid JSON'' w)))"

definition admit_run ::
  "'w CallbackServer \<Rightarrow> Request \<Rightarrow> object_key \<Rightarrow> string \<Rightarrow> WorkflowRun \<Rightarrow> 'w \<Rightarrow> (Response + admitted) \<times> 'w" where
  "admit_run cs req key tok wr w =
     (case pending wr of
        None \<Rightarrow> (Inl (writeCallbackError ''no pending callback for this workflow run'' 404), w)
      | Some cb \<Rightarrow>
          if CallbackState_TokenHash cb \<noteq> HashToken (cs_sha256 cs) tok
          then (Inl (writeCallbackError ''invalid or expired callback token'' 401), w)
          else if IsTerminal (run_phase wr) then (Inl writeTerminalCallbackError, w)
          else (case kube_now (cs_kube cs) w of (now, w1) \<Rightarrow>
            if CallbackState_ExpiresAt cb < unix_seconds now
            then (Inl (writeCallbackError ''callback token expired'' 401),
                  emit (cs_kube cs) wr ''Warning'' ''CallbackTimeout''
                    (''Callback token expired for step '' @ quote (CallbackState_StepName cb)) w1)
            else if CallbackState_Outputs cb \<noteq> RawEmpty then (Inl (callback_ok ''already_accepted'' wr), w1)
            else admit_payload cs req key wr cb w1))"

definition admit_callback :: "'w CallbackServer \<Rightarrow> Request \<Rightarrow> 'w \<Rightarrow> (Response + admitted) \<times> 'w" where
  "admit_callback cs req w =
     (if Request_Method req \<noteq> ''POST'' then (Inl (writeCallbackError ''method not allowed'' 405), w)
      else (case parse_callback_path (Request_Path req) of
        None \<Rightarrow> (Inl (writeCallbackError
                  ''path must be /api/v1/workflow-runs/{namespace}/{name}/callback/{token}'' 400), w)
      | Some (key, tok) \<Rightarrow>
          if \<not> ValidateToken tok then (Inl (writeCallbackError ''invalid token format'' 400), w)
          else (case kube_getRun (cs_kube cs) key w of
            (Inl e, w1) \<Rightarrow>
              (Inl (if not_found e then writeCallbackError ''workflow run not found'' 404
                    else writeCallbackError ''error fetching workflow run'' 500), w1)
          | (Inr wr, w1) \<Rightarrow> admit_run cs req key tok wr w1)))"

text \<open>The body of the retried function: the re-fetch, which may already decide, and the patch.\<close>

definition recheck_callback :: "'w CallbackServer \<Rightarrow> admitted \<Rightarrow> 'w \<Rightarrow> patch_outcome option \<times> 'w" where
  "recheck_callback cs a w =
     (case kube_getRun (cs_kube cs) (fst a) w of
        (Inl e, w1) \<Rightarrow> (Some (PatchError e), w1)
      | (Inr fresh, w1) \<Rightarrow>
          (if IsTerminal (run_phase fresh) then Some PatchTerminal
           else (case pending fresh of
                   Some c \<Rightarrow> if CallbackState_Outputs c \<noteq> RawEmpty then Some PatchAlready else None
                 | None \<Rightarrow> None), w1))"

definition patch_callback :: "'w CallbackServer \<Rightarrow> admitted \<Rightarrow> 'w \<Rightarrow> patch_outcome \<times> 'w" where
  "patch_callback cs a w =
     (case a of (key, wr, cb, doc) \<Rightarrow>
        (case kube_patchCallback (cs_kube cs) key cb doc w of
           (None, w1) \<Rightarrow> (PatchDone, w1) | (Some e, w1) \<Rightarrow> (PatchError e, w1)))"

definition try_callback :: "'w CallbackServer \<Rightarrow> admitted \<Rightarrow> 'w \<Rightarrow> patch_outcome \<times> 'w" where
  "try_callback cs a w =
     (case recheck_callback cs a w of (Some out, w1) \<Rightarrow> (out, w1) | (None, w1) \<Rightarrow> patch_callback cs a w1)"

definition finish_callback :: "'w CallbackServer \<Rightarrow> admitted \<Rightarrow> patch_outcome \<times> 'w \<Rightarrow> Response \<times> 'w" where
  "finish_callback cs a r =
     (case (a, r) of ((key, wr, cb, doc), out, w) \<Rightarrow>
        (case out of
           PatchTerminal \<Rightarrow> (writeTerminalCallbackError, w)
         | PatchAlready \<Rightarrow> (callback_ok ''already_accepted'' wr, w)
         | PatchError e \<Rightarrow> (writeCallbackError ''failed to record callback'' 500, w)
         | PatchDone \<Rightarrow>
             (callback_ok ''accepted'' wr,
              emit (cs_kube cs) wr ''Normal'' ''CallbackReceived''
                (''Callback received for step '' @ quote (CallbackState_StepName cb) @ ''; workflow run will resume'') w)))"

definition handleCallback :: "'w CallbackServer \<Rightarrow> Request \<Rightarrow> 'w \<Rightarrow> Response \<times> 'w" where
  "handleCallback cs req w =
     (case admit_callback cs req w of
        (Inl resp, w1) \<Rightarrow> (resp, w1)
      | (Inr a, w1) \<Rightarrow> finish_callback cs a (cs_retry cs (try_callback cs a) w1))"

text \<open>Requests served one after the other.\<close>

fun serve :: "'w CallbackServer \<Rightarrow> Request list \<Rightarrow> 'w \<Rightarrow> Response list \<times> 'w" where
  "serve cs [] w = ([], w)"
| "serve cs (req # reqs) w =
     (let (resp, w1) = handleCallback cs req w; (resps, w2) = serve cs reqs w1 in (resp # resps, w2))"

inductive patch_retry :: "('w \<Rightarrow> patch_outcome \<times> 'w) \<Rightarrow> 'w \<Rightarrow> patch_outcome \<times> 'w \<Rightarrow> bool" for f where
  last_try: "f w = r \<Longrightarrow> patch_retry f w r"
| next_try: "f w = (PatchError e, w1) \<Longrightarrow> errors_is e ApiConflict \<Longrightarrow> patch_retry f w1 r \<Longrightarrow> patch_retry f w r"

definition retries_patches :: "'w CallbackServer \<Rightarrow> bool" where
  "retries_patches cs \<longleftrightarrow> (\<forall>f w. patch_retry f w (cs_retry cs f w))"

subsection \<open>What a request does to the stored runs\<close>

abbreviation no_outputs :: "WorkflowRun \<Rightarrow> bool" where
  "no_outputs r \<equiv> (case pending r of None \<Rightarrow> True | Some c \<Rightarrow> CallbackState_Outputs c = RawEmpty)"

definition with_callback :: "CallbackState \<Rightarrow> val \<Rightarrow> WorkflowRun \<Rightarrow> WorkflowRun" where
  "with_callback cb doc r =
     upd_status (\<lambda>s. s\<lparr>Status_PendingCallback := Some (patched_callback (Status_PendingCallback s) cb doc)\<rparr>) r"

text \<open>The patch was applied to a run that was neither terminal nor already answered.\<close>

definition patch_applied :: "admitted \<Rightarrow> run_store \<Rightarrow> run_store \<Rightarrow> bool" where
  "patch_applied a m m' \<longleftrightarrow> (case a of (k, wr, cb, doc) \<Rightarrow>
     \<exists>old. m k = Some old \<and> \<not> IsTerminal (run_phase old) \<and> no_outputs old \<and>
       m' = m(k \<mapsto> with_callback cb doc old))"

lemma patchCallback_law:
  assumes "runs_client kube runs" "kube_patchCallback kube k cb doc w = (r, w')"
  shows "write_outcome r (runs w) (runs w')
    (\<exists>old. runs w k = Some old \<and> runs w' = (runs w)(k \<mapsto> with_callback cb doc old))"
  using assms unfolding runs_client_def callback_patch_law_def with_callback_def by blast

lemma try_callback_effect:
  assumes c: "runs_client (cs_kube cs) runs" and t: "try_callback cs a w = (out, w1)"
  shows "runs w1 = runs w \<and> out \<noteq> PatchDone \<or>
    patch_applied a (runs w) (runs w1) \<and> (\<forall>e. out = PatchError e \<longrightarrow> \<not> errors_is e ApiConflict)"
proof -
  obtain k wr cb doc where a: "a = (k, wr, cb, doc)" by (cases a)
  obtain r w2 where g: "kube_getRun (cs_kube cs) k w = (r, w2)" by fastforce
  note f = kube_calls_frame(9) [OF c g]
  show ?thesis
  proof (cases "\<exists>out. recheck_callback cs a w = (Some out, w2)")
    case True
    with t g f a show ?thesis
      by (auto simp: try_callback_def recheck_callback_def split: sum.splits if_splits option.splits)
  next
    case False
    with g a obtain fresh where fr: "r = Inr fresh" "\<not> IsTerminal (run_phase fresh)" "no_outputs fresh"
      "recheck_callback cs a w = (None, w2)"
      by (auto simp: recheck_callback_def split: sum.splits if_splits option.splits)
    with getRun_fresh [OF c] g f have st: "runs w2 k = Some fresh" by auto
    obtain e w3 where p: "kube_patchCallback (cs_kube cs) k cb doc w2 = (e, w3)" by fastforce
    from patchCallback_law [OF c p] st fr f a show ?thesis using t p
      by (auto simp: try_callback_def patch_callback_def patch_applied_def write_outcome_def refused_def
          split: option.splits)
  qed
qed

lemma patch_retry_effect:
  assumes c: "runs_client (cs_kube cs) runs" and "patch_retry (try_callback cs a) w r"
  shows "runs (snd r) = runs w \<and> fst r \<noteq> PatchDone \<or> patch_applied a (runs w) (runs (snd r))"
  using assms(2)
proof (induction rule: patch_retry.induct)
  case (last_try w r)
  with try_callback_effect [OF c, of a w "fst r" "snd r"] show ?case by auto
next
  case (next_try w e w1 r)
  with try_callback_effect [OF c next_try.hyps(1)] show ?case by auto
qed


text \<open>The request presents the token whose hash the callback state holds.\<close>

definition authentic :: "'w CallbackServer \<Rightarrow> Request \<Rightarrow> object_key \<Rightarrow> CallbackState \<Rightarrow> bool" where
  "authentic cs req k cb \<longleftrightarrow> Request_Method req = ''POST'' \<and>
     (\<exists>tok. parse_callback_path (Request_Path req) = Some (k, tok) \<and> ValidateToken tok \<and>
        CallbackState_TokenHash cb = HashToken (cs_sha256 cs) tok)"

text \<open>The body is a JSON object (or null) that the schema of the step accepts.\<close>

definition acceptable :: "'w CallbackServer \<Rightarrow> Request \<Rightarrow> WorkflowRun \<Rightarrow> CallbackState \<Rightarrow> val \<Rightarrow> bool" where
  "acceptable cs req wr cb doc \<longleftrightarrow> (\<exists>bytes payload w. Request_Body req = Inr bytes \<and>
     callback_body cs bytes = RawDoc doc \<and> unmarshal_map (RawDoc doc) = Some payload \<and>
     fst (validateCallbackSchema cs wr (CallbackState_StepName cb) payload w) = None)"

lemma validateCallbackSchema_frame [kube_frame]:
  assumes "runs_client (cs_kube cs) runs" "validateCallbackSchema cs wr n payload w = (r, w')"
  shows "runs w' = runs w"
  using assms(2) by (auto simp: validateCallbackSchema_def split: prod.splits sum.splits option.splits
      dest: resolveWorkflow_frame [OF assms(1)])

lemma admit_payload_cases:
  assumes c: "runs_client (cs_kube cs) runs" and "admit_payload cs req key wr cb w = (r, w')"
  shows "runs w' = runs w \<and> (\<forall>a. r = Inr a \<longrightarrow> (\<exists>doc. a = (key, wr, cb, doc) \<and> acceptable cs req wr cb doc))"
  using assms(2)
  by (auto simp: admit_payload_def acceptable_def Let_def emit_frame [OF c]
      split: sum.splits raw_json.splits option.splits prod.splits
      dest: validateCallbackSchema_frame [OF c]) (metis fst_conv)

lemma admit_run_cases:
  assumes c: "runs_client (cs_kube cs) runs" and a: "admit_run cs req key tok wr w = (r, w')"
  shows "runs w' = runs w \<and> (\<forall>a. r = Inr a \<longrightarrow> (\<exists>cb doc. a = (key, wr, cb, doc) \<and> pending wr = Some cb \<and>
    CallbackState_TokenHash cb = HashToken (cs_sha256 cs) tok \<and> \<not> IsTerminal (run_phase wr) \<and>
    unix_seconds (fst (kube_now (cs_kube cs) w)) \<le> CallbackState_ExpiresAt cb \<and>
    CallbackState_Outputs cb = RawEmpty \<and> acceptable cs req wr cb doc))"
proof -
  obtain now w1 where n: "kube_now (cs_kube cs) w = (now, w1)" by fastforce
  note f = kube_calls_frame(1) [OF c n]
  show ?thesis
    using a n f by (auto simp: admit_run_def emit_frame [OF c] split: option.splits if_splits
        dest: admit_payload_cases [OF c])
qed

lemma admit_callback_cases:
  assumes c: "runs_client (cs_kube cs) runs" and a: "admit_callback cs req w = (r, w')"
  shows "runs w' = runs w \<and> (\<forall>x. r = Inr x \<longrightarrow> (\<exists>k wr cb doc. x = (k, wr, cb, doc) \<and> runs w k = Some wr \<and>
    pending wr = Some cb \<and> authentic cs req k cb \<and> \<not> IsTerminal (run_phase wr) \<and>
    unix_seconds (fst (kube_now (cs_kube cs) (snd (kube_getRun (cs_kube cs) k w)))) \<le> CallbackState_ExpiresAt cb \<and>
    CallbackState_Outputs cb = RawEmpty \<and> acceptable cs req wr cb doc))"
proof (cases "parse_callback_path (Request_Path req)")
  case None
  with a show ?thesis by (auto simp: admit_callback_def split: if_splits)
next
  case (Some kt)
  then obtain k tok where kt: "parse_callback_path (Request_Path req) = Some (k, tok)" by (cases kt) auto
  obtain g w1 where g: "kube_getRun (cs_kube cs) k w = (g, w1)" by fastforce
  note f = kube_calls_frame(9) [OF c g]
  show ?thesis
  proof (cases g)
    case (Inl e)
    with a kt g f show ?thesis by (auto simp: admit_callback_def split: if_splits)
  next
    case (Inr wr)
    with getRun_fresh [OF c] g have st: "runs w k = Some wr" by auto
    show ?thesis
    proof (cases "Request_Method req = ''POST'' \<and> ValidateToken tok")
      case False
      with a kt show ?thesis by (auto simp: admit_callback_def split: if_splits)
    next
      case True
      with a kt g Inr have "admit_run cs req k tok wr w1 = (r, w')" by (simp add: admit_callback_def)
      from admit_run_cases [OF c this] st f g kt True show ?thesis by (auto simp: authentic_def)
    qed
  qed
qed

lemma finish_callback_frame:
  "runs_client (cs_kube cs) runs \<Longrightarrow> runs (snd (finish_callback cs a r)) = runs (snd r)"
  by (cases a; cases r) (auto simp: finish_callback_def emit_frame split: patch_outcome.splits)

lemma finish_callback_accepted:
  "fst (finish_callback cs a r) = callback_ok ''accepted'' wr \<Longrightarrow> fst r = PatchDone"
  by (cases a; cases r) (auto simp: finish_callback_def callback_ok_def writeTerminalCallbackError_def
      writeCallbackError_def split: patch_outcome.splits)

lemma admit_never_accepted:
  "fst (admit_callback cs req w) \<noteq> Inl (callback_ok ''accepted'' wr)"
  by (auto simp: admit_callback_def admit_run_def admit_payload_def callback_ok_def writeTerminalCallbackError_def
      writeCallbackError_def Let_def split: option.splits sum.splits prod.splits raw_json.splits)

lemma handleCallback_effect:
  assumes c: "runs_client (cs_kube cs) runs" and rt: "retries_patches cs"
    and h: "handleCallback cs req w = (resp, w')"
  shows "runs w' = runs w \<and> (\<forall>wr. resp \<noteq> callback_ok ''accepted'' wr) \<or>
    (\<exists>k wr cb doc. runs w k = Some wr \<and> pending wr = Some cb \<and> CallbackState_Outputs cb = RawEmpty \<and>
       \<not> IsTerminal (run_phase wr) \<and> authentic cs req k cb \<and> acceptable cs req wr cb doc \<and>
       unix_seconds (fst (kube_now (cs_kube cs) (snd (kube_getRun (cs_kube cs) k w)))) \<le> CallbackState_ExpiresAt cb \<and>
       runs w' = (runs w)(k \<mapsto> with_callback cb doc wr))"
proof -
  obtain r w1 where a: "admit_callback cs req w = (r, w1)" by fastforce
  note ad = admit_callback_cases [OF c a]
  show ?thesis
  proof (cases r)
    case (Inl x)
    with admit_never_accepted [of cs req w] a h ad show ?thesis by (auto simp: handleCallback_def)
  next
    case (Inr x)
    define q where "q = cs_retry cs (try_callback cs x) w1"
    have q: "patch_retry (try_callback cs x) w1 q" using rt by (simp add: q_def retries_patches_def)
    from Inr a h have fin: "finish_callback cs x q = (resp, w')" by (simp add: handleCallback_def q_def)
    with finish_callback_frame [OF c, of x q] have w': "runs w' = runs (snd q)" by simp
    from patch_retry_effect [OF c q] show ?thesis
    proof
      assume "runs (snd q) = runs w1 \<and> fst q \<noteq> PatchDone"
      then show ?thesis using fin w' ad finish_callback_accepted [of cs x q] by auto
    next
      assume ap: "patch_applied x (runs w1) (runs (snd q))"
      from ad Inr obtain k wr cb doc where x: "x = (k, wr, cb, doc)" "runs w k = Some wr" "pending wr = Some cb"
        "authentic cs req k cb" "\<not> IsTerminal (run_phase wr)" "CallbackState_Outputs cb = RawEmpty"
        "acceptable cs req wr cb doc"
        "unix_seconds (fst (kube_now (cs_kube cs) (snd (kube_getRun (cs_kube cs) k w)))) \<le> CallbackState_ExpiresAt cb"
        by blast
      with ap ad w' have "runs w' = (runs w)(k \<mapsto> with_callback cb doc wr)" by (auto simp: patch_applied_def)
      with x show ?thesis by blast
    qed
  qed
qed

lemma with_callback_pending:
  assumes "pending wr = Some cb" "CallbackState_Outputs cb = RawEmpty"
  shows "pending (with_callback cb doc wr) = Some (cb\<lparr>CallbackState_Outputs :=
    (if doc = VNil then RawEmpty else RawDoc (merge_patch VNil doc))\<rparr>)"
  using assms by (simp add: with_callback_def patched_callback_def patched_doc_def)

lemma handleCallback_keeps_answered:
  assumes "runs_client (cs_kube cs) runs" "retries_patches cs" "handleCallback cs req w = (resp, w')"
    "runs w k = Some wr" "pending wr = Some cb" "CallbackState_Outputs cb \<noteq> RawEmpty"
  shows "runs w' k = Some wr"
  using handleCallback_effect [OF assms(1-3)] assms(4-) by auto

subsection \<open>Interleaved requests\<close>

datatype request_state =
    ReqNew
  | ReqAdmitted admitted
  | ReqPatch admitted
  | ReqAnswer admitted patch_outcome
  | ReqDone Response

text \<open>\<open>others\<close> is what the rest of the system does to the world: the runner, the controller, the scheduler.\<close>

inductive callback_system ::
  "'w CallbackServer \<Rightarrow> ('w \<Rightarrow> 'w \<Rightarrow> bool) \<Rightarrow> 'w \<times> (Request \<times> request_state) list
     \<Rightarrow> 'w \<times> (Request \<times> request_state) list \<Rightarrow> bool" for cs others where
  arrive: "callback_system cs others (w, ps) (w, ps @ [(req, ReqNew)])"
| admit: "i < length ps \<Longrightarrow> ps ! i = (req, ReqNew) \<Longrightarrow> admit_callback cs req w = (r, w') \<Longrightarrow>
     callback_system cs others (w, ps)
       (w', ps[i := (req, case r of Inl resp \<Rightarrow> ReqDone resp | Inr a \<Rightarrow> ReqAdmitted a)])"
| recheck: "i < length ps \<Longrightarrow> ps ! i = (req, ReqAdmitted a) \<Longrightarrow> recheck_callback cs a w = (r, w') \<Longrightarrow>
     callback_system cs others (w, ps)
       (w', ps[i := (req, case r of None \<Rightarrow> ReqPatch a | Some out \<Rightarrow> ReqAnswer a out)])"
| patch: "i < length ps \<Longrightarrow> ps ! i = (req, ReqPatch a) \<Longrightarrow> patch_callback cs a w = (out, w') \<Longrightarrow>
     callback_system cs others (w, ps) (w', ps[i := (req, ReqAnswer a out)])"
| retry: "i < length ps \<Longrightarrow> ps ! i = (req, ReqAnswer a (PatchError e)) \<Longrightarrow> errors_is e ApiConflict \<Longrightarrow>
     callback_system cs others (w, ps) (w, ps[i := (req, ReqAdmitted a)])"
| answer: "i < length ps \<Longrightarrow> ps ! i = (req, ReqAnswer a out) \<Longrightarrow> finish_callback cs a (out, w) = (resp, w') \<Longrightarrow>
     callback_system cs others (w, ps) (w', ps[i := (req, ReqDone resp)])"
| other: "others w w' \<Longrightarrow> callback_system cs others (w, ps) (w', ps)"

definition answered :: "run_store \<Rightarrow> object_key \<Rightarrow> CallbackState \<Rightarrow> bool" where
  "answered m k cb \<longleftrightarrow> (\<exists>r. m k = Some r \<and> pending r = Some cb \<and> CallbackState_Outputs cb \<noteq> RawEmpty)"

text \<open>Nothing else in the system writes outputs into a pending callback.\<close>

definition answers_nothing :: "('w \<Rightarrow> run_store) \<Rightarrow> ('w \<Rightarrow> 'w \<Rightarrow> bool) \<Rightarrow> bool" where
  "answers_nothing runs others \<longleftrightarrow>
     (\<forall>w w' k cb. others w w' \<and> answered (runs w') k cb \<longrightarrow> answered (runs w) k cb)"

fun request_holds :: "request_state \<Rightarrow> admitted option" where
  "request_holds (ReqAdmitted a) = Some a"
| "request_holds (ReqPatch a) = Some a"
| "request_holds (ReqAnswer a out) = Some a"
| "request_holds _ = None"

definition holds_authentic :: "'w CallbackServer \<Rightarrow> (Request \<times> request_state) list \<Rightarrow> bool" where
  "holds_authentic cs ps \<longleftrightarrow> (\<forall>req st k wr cb doc. (req, st) \<in> set ps \<longrightarrow>
     request_holds st = Some (k, wr, cb, doc) \<longrightarrow> authentic cs req k cb)"

definition explained ::
  "'w CallbackServer \<Rightarrow> (object_key \<Rightarrow> CallbackState \<Rightarrow> bool) \<Rightarrow> run_store \<Rightarrow> Request set \<Rightarrow> bool" where
  "explained cs before m reqs \<longleftrightarrow>
     (\<forall>k cb. answered m k cb \<longrightarrow> before k cb \<or> (\<exists>req\<in>reqs. authentic cs req k cb))"

lemma fst_update: "i < length ps \<Longrightarrow> ps ! i = (req, st) \<Longrightarrow> fst ` set (ps[i := (req, st')]) = fst ` set ps"
  by (metis fst_conv list.set_map list_update_id map_update nth_map)

lemma holds_update:
  assumes "holds_authentic cs ps" "i < length ps" "ps ! i = (req, st)"
    "\<And>k wr cb doc. request_holds st' = Some (k, wr, cb, doc) \<Longrightarrow>
       request_holds st = Some (k, wr, cb, doc) \<or> authentic cs req k cb"
  shows "holds_authentic cs (ps[i := (req, st')])"
proof -
  have "(req, st) \<in> set ps" using assms(2,3) by (metis nth_mem)
  with assms(1) have old: "request_holds st = Some (k, wr, cb, doc) \<Longrightarrow> authentic cs req k cb" for k wr cb doc
    unfolding holds_authentic_def by blast
  show ?thesis
    unfolding holds_authentic_def
  proof (intro allI impI)
    fix req' x k wr cb doc
    assume "(req', x) \<in> set (ps[i := (req, st')])" "request_holds x = Some (k, wr, cb, doc)"
    then show "authentic cs req' k cb"
      using assms(1,4) old set_update_subset_insert [of ps i "(req, st')"] unfolding holds_authentic_def by blast
  qed
qed

lemma authentic_hash: "CallbackState_TokenHash cb' = CallbackState_TokenHash cb \<Longrightarrow> authentic cs req k cb' = authentic cs req k cb"
  by (simp add: authentic_def)

lemma explained_upd:
  assumes "explained cs before m reqs" "\<And>c. pending r = Some c \<Longrightarrow> \<exists>req\<in>reqs. authentic cs req k c"
  shows "explained cs before (m(k \<mapsto> r)) reqs"
  unfolding explained_def
proof (intro allI impI)
  fix j c
  assume "answered (m(k \<mapsto> r)) j c"
  then show "before j c \<or> (\<exists>req\<in>reqs. authentic cs req j c)"
    using assms by (cases "j = k") (auto simp: answered_def explained_def simp del: split_paired_All)
qed

lemma explained_mono: "explained cs before m reqs \<Longrightarrow> reqs \<subseteq> reqs' \<Longrightarrow> explained cs before m reqs'"
  unfolding explained_def by blast

lemma explained_patch:
  assumes c: "runs_client (cs_kube cs) runs" and e: "explained cs before (runs w) reqs"
    and p: "patch_callback cs (k, wr, cb, doc) w = (out, w')" and au: "req \<in> reqs" "authentic cs req k cb"
  shows "explained cs before (runs w') reqs"
proof -
  from p obtain r where "kube_patchCallback (cs_kube cs) k cb doc w = (r, w')"
    by (auto simp: patch_callback_def split: prod.splits option.splits)
  from patchCallback_law [OF c this] consider "runs w' = runs w"
    | old where "runs w' = (runs w)(k \<mapsto> with_callback cb doc old)"
    by (auto simp: write_outcome_def split: option.splits)
  then show ?thesis
  proof cases
    case 2
    have "authentic cs req k (patched_callback x cb doc)" for x
      using au(2) by (subst authentic_hash [of _ cb]) (simp_all add: patched_callback_def)
    then show ?thesis
      unfolding 2 by (intro explained_upd [OF e] bexI [OF _ au(1)]) (auto simp: with_callback_def)
  qed (use e in simp)
qed

lemma callback_system_inv:
  assumes c: "runs_client (cs_kube cs) runs" and o: "answers_nothing runs others"
    and "callback_system cs others (w, ps) (w', ps')"
    and "holds_authentic cs ps" "explained cs before (runs w) (fst ` set ps)"
  shows "holds_authentic cs ps' \<and> explained cs before (runs w') (fst ` set ps')"
  using assms(3-)
proof cases
  case (arrive req)
  have "holds_authentic cs (ps @ [(req, ReqNew)])" using assms(4) unfolding holds_authentic_def by auto
  with arrive explained_mono [OF assms(5)] show ?thesis by auto
next
  case (admit i req r)
  have "holds_authentic cs ps'" unfolding admit(1)
    by (rule holds_update [OF assms(4) admit(2,3)])
      (use admit_callback_cases [OF c admit(4)] in \<open>auto split: sum.splits\<close>)
  with admit(1) fst_update [OF admit(2,3)] admit_callback_cases [OF c admit(4)] assms(5) show ?thesis by simp
next
  case (recheck i req a r)
  have "runs w' = runs w"
    using recheck(4) kube_calls_frame(9) [OF c] by (auto simp: recheck_callback_def split: prod.splits sum.splits)
  moreover have "holds_authentic cs ps'" unfolding recheck(1)
    by (rule holds_update [OF assms(4) recheck(2,3)]) (auto split: option.splits)
  ultimately show ?thesis using recheck(1) fst_update [OF recheck(2,3)] assms(5) by simp
next
  case (patch i req a out)
  obtain k wr cb doc where a: "a = (k, wr, cb, doc)" by (cases a)
  have "(req, ReqPatch a) \<in> set ps" using patch(2,3) by (metis nth_mem)
  moreover from this have "req \<in> fst ` set ps" by force
  ultimately have "authentic cs req k cb" "req \<in> fst ` set ps"
    using assms(4) a unfolding holds_authentic_def by (blast intro: request_holds.simps(2))+
  with explained_patch [OF c assms(5)] patch(4) a have "explained cs before (runs w') (fst ` set ps)" by blast
  moreover have "holds_authentic cs ps'" unfolding patch(1)
    by (rule holds_update [OF assms(4) patch(2,3)]) auto
  ultimately show ?thesis using patch(1) fst_update [OF patch(2,3)] by simp
next
  case (retry i req a e)
  have "holds_authentic cs ps'" unfolding retry(2)
    by (rule holds_update [OF assms(4) retry(3,4)]) auto
  with retry(1,2) fst_update [OF retry(3,4)] assms(5) show ?thesis by simp
next
  case (answer i req a out resp)
  have "runs w' = runs w" using finish_callback_frame [OF c, of a "(out, w)"] answer(4) by simp
  moreover have "holds_authentic cs ps'" unfolding answer(1)
    by (rule holds_update [OF assms(4) answer(2,3)]) auto
  ultimately show ?thesis using answer(1) fst_update [OF answer(2,3)] assms(5) by simp
next
  case other
  with o assms(4,5) show ?thesis unfolding answers_nothing_def explained_def by blast
qed

subsection \<open>A concrete server\<close>

definition demo_token :: string where
  "demo_token = ''cb_'' @ replicate 64 (CHR ''0'')"

definition demo_run :: "raw_json \<Rightarrow> WorkflowRun" where
  "demo_run out = upd_status (\<lambda>s. s\<lparr>Status_Phase := WorkflowRunPhaseRunning, Status_PendingCallback :=
     Some \<lparr>CallbackState_TokenHash = ''61'', CallbackState_StepName = ''approve'', CallbackState_ExpiresAt = 60,
       CallbackState_Outputs = out, CallbackState_CreatedAt = 0\<rparr>\<rparr>)
     (zero_WorkflowRun\<lparr>WorkflowRun_Meta := zero_ObjectMeta\<lparr>ObjectMeta_Name := ''r'', ObjectMeta_Namespace := ''ns''\<rparr>\<rparr>)"

definition demo_doc :: "bool \<Rightarrow> val" where
  "demo_doc b = VMap [(''ok'', VBool b)]"

definition demo_server :: "(WorkflowRun option) CallbackServer" where
  "demo_server = \<lparr>cs_kube = memory_kube zero_Workflow, cs_ControllerNamespace = [], cs_sha256 = (\<lambda>_. ''a''),
     cs_decode = (\<lambda>bytes. RawDoc (demo_doc (bytes = ''y''))), cs_retry = (\<lambda>f w. f w), cs_order = (\<lambda>ks. ks)\<rparr>"

definition demo_request :: "bool \<Rightarrow> Request" where
  "demo_request b = \<lparr>Request_Method = ''POST'', Request_Path = ''/api/v1/workflow-runs/ns/r/callback/'' @ demo_token,
     Request_Body = Inr (if b then ''y'' else ''n'')\<rparr>"

abbreviation demo_answered :: "bool \<Rightarrow> WorkflowRun" where
  "demo_answered b \<equiv> demo_run (RawDoc (demo_doc b))"

lemma demo_server_laws: "runs_client (cs_kube demo_server) memory_runs" "retries_patches demo_server"
  by (simp_all add: demo_server_def memory_runs_client retries_patches_def patch_retry.last_try)

abbreviation demo_admitted :: "bool \<Rightarrow> admitted" where
  "demo_admitted b \<equiv> ((''ns'', ''r''), demo_run RawEmpty, the (pending (demo_run RawEmpty)), demo_doc b)"

lemma demo_path: "parse_callback_path (Request_Path (demo_request b)) = Some ((''ns'', ''r''), demo_token)"
proof -
  have "Request_Path (demo_request b) = ''/api/v1/workflow-runs/ns/r/callback/'' @ demo_token"
    by (simp add: demo_request_def)
  moreover have "parse_callback_path (''/api/v1/workflow-runs/ns/r/callback/'' @ demo_token) = Some ((''ns'', ''r''), demo_token)"
    by code_simp
  ultimately show ?thesis by simp
qed

lemma demo_token_valid: "ValidateToken demo_token"
  by code_simp

lemma demo_body: "callback_body demo_server (if b then ''y'' else ''n'') = RawDoc (demo_doc b)"
  by (simp add: callback_body_def demo_server_def)

lemma demo_doc_map: "unmarshal_map (RawDoc (demo_doc b)) = Some [(''ok'', VBool b)]"
  by (simp add: demo_doc_def)

lemma demo_run_simps [simp]:
  "WorkflowRun_Name (demo_run out) = ''r''" "WorkflowRun_Namespace (demo_run out) = ''ns''"
  "run_phase (demo_run out) = WorkflowRunPhaseRunning" "ref_namespace (demo_run out) = ''ns''"
  "pending (demo_run out) = Some \<lparr>CallbackState_TokenHash = ''61'', CallbackState_StepName = ''approve'',
     CallbackState_ExpiresAt = 60, CallbackState_Outputs = out, CallbackState_CreatedAt = 0\<rparr>"
  by (simp_all add: demo_run_def zero_ObjectMeta_def zero_WorkflowRun_def ref_namespace_def)

lemma demo_hash: "HashToken (cs_sha256 demo_server) demo_token = ''61''"
proof -
  have "hex_bytes ''a'' = ''61''" by code_simp
  then show ?thesis by (simp add: HashToken_def demo_server_def)
qed

lemma demo_schema: "validateCallbackSchema demo_server (demo_run out) n payload w = (None, w)"
  by (simp add: validateCallbackSchema_def demo_server_def resolveWorkflow_def memory_kube_def Let_def
      zero_Workflow_def zero_WorkflowSpec_def)

lemma demo_kube [simp]:
  "kube_getRun (cs_kube demo_server) (''ns'', ''r'') (Some (demo_run out)) = (Inr (demo_run out), Some (demo_run out))"
  "kube_now (cs_kube demo_server) w = (0, w)" "emit (cs_kube demo_server) r t e m w = w"
  by (simp_all add: demo_server_def memory_kube_def emit_def)

lemma demo_admit: "admit_callback demo_server (demo_request b) (Some (demo_run RawEmpty)) =
    (Inr (demo_admitted b), Some (demo_run RawEmpty))"
proof -
  have "Request_Method (demo_request b) = ''POST''" "Request_Body (demo_request b) = Inr (if b then ''y'' else ''n'')"
    by (simp_all add: demo_request_def)
  then show ?thesis
    by (simp add: admit_callback_def demo_path demo_token_valid admit_run_def demo_hash IsTerminal_def
        unix_seconds_def admit_payload_def demo_body [of b] demo_schema demo_doc_map)
qed

lemma demo_recheck:
  "recheck_callback demo_server (demo_admitted b) (Some (demo_run RawEmpty)) = (None, Some (demo_run RawEmpty))"
  by (simp add: recheck_callback_def IsTerminal_def)

lemma demo_patch:
  assumes "out = RawEmpty \<or> out = RawDoc (demo_doc c)"
  shows "patch_callback demo_server (demo_admitted b) (Some (demo_run out)) = (PatchDone, Some (demo_answered b))"
proof -
  have "patched_doc out (demo_doc b) = RawDoc (demo_doc b)"
    using assms by (auto simp: patched_doc_def demo_doc_def)
  then show ?thesis
    by (simp add: patch_callback_def demo_server_def memory_kube_def patched_callback_def)
      (simp add: demo_run_def upd_status_def)
qed

lemma demo_finish:
  "finish_callback demo_server (demo_admitted b) (PatchDone, w) = (callback_ok ''accepted'' (demo_run RawEmpty), w)"
  by (simp add: finish_callback_def)

lemma demo_handled:
  "handleCallback demo_server (demo_request b) (Some (demo_run RawEmpty)) =
     (callback_ok ''accepted'' (demo_run RawEmpty), Some (demo_answered b))"
proof -
  have "cs_retry demo_server f w = f w" for f w by (simp add: demo_server_def)
  then show ?thesis
    by (simp only: handleCallback_def demo_admit try_callback_def demo_recheck demo_patch [OF disjI1 [OF refl]]
        demo_finish prod.case sum.case option.case)
qed

abbreviation demo_steps where
  "demo_steps \<equiv> callback_system demo_server (\<lambda>_ _. False)"

lemma demo_step:
  "demo_steps (w, ps) (w, ps @ [(demo_request b, ReqNew)])"
  "i < length ps \<Longrightarrow> ps ! i = (demo_request b, ReqNew) \<Longrightarrow>
     demo_steps (Some (demo_run RawEmpty), ps) (Some (demo_run RawEmpty), ps[i := (demo_request b, ReqAdmitted (demo_admitted b))])"
  "i < length ps \<Longrightarrow> ps ! i = (demo_request b, ReqAdmitted (demo_admitted b)) \<Longrightarrow>
     demo_steps (Some (demo_run RawEmpty), ps) (Some (demo_run RawEmpty), ps[i := (demo_request b, ReqPatch (demo_admitted b))])"
  "i < length ps \<Longrightarrow> ps ! i = (demo_request b, ReqPatch (demo_admitted b)) \<Longrightarrow> out = RawEmpty \<or> out = RawDoc (demo_doc c) \<Longrightarrow>
     demo_steps (Some (demo_run out), ps) (Some (demo_answered b), ps[i := (demo_request b, ReqAnswer (demo_admitted b) PatchDone)])"
  "i < length ps \<Longrightarrow> ps ! i = (demo_request b, ReqAnswer (demo_admitted b) PatchDone) \<Longrightarrow>
     demo_steps (w, ps) (w, ps[i := (demo_request b, ReqDone (callback_ok ''accepted'' (demo_run RawEmpty)))])"
  using callback_system.arrive callback_system.admit [OF _ _ demo_admit [of b]] callback_system.recheck [OF _ _ demo_recheck [of b]]
    callback_system.patch [OF _ _ demo_patch [of out c b]] callback_system.answer [OF _ _ demo_finish [of b w]]
  by fastforce+

subsection \<open>Properties\<close>





text \<open>
  C15: However requests interleave with each other and with a rest of the system that writes no outputs
  itself, outputs in a pending callback that were not there before come from a request that presented
  the token of that callback.
\<close>

theorem interleaved_callbacks_authentic:
  assumes "runs_client (cs_kube cs) runs" "answers_nothing runs others"
    "(callback_system cs others)\<^sup>*\<^sup>* (w0, []) (w, ps)" "answered (runs w) k cb"
  shows "answered (runs w0) k cb \<or> (\<exists>req \<in> fst ` set ps. authentic cs req k cb)"
proof -
  have "case sys of (w, ps) \<Rightarrow> holds_authentic cs ps \<and> explained cs (answered (runs w0)) (runs w) (fst ` set ps)"
    if "(callback_system cs others)\<^sup>*\<^sup>* (w0, []) sys" for sys
    using that
  proof (induction rule: rtranclp_induct)
    case base
    show ?case by (simp add: holds_authentic_def explained_def)
  next
    case (step sys sys')
    then show ?case
      using callback_system_inv [OF assms(1,2)] by (cases sys; cases sys') blast
  qed
  from this [OF assms(3)] assms(4) show ?thesis unfolding explained_def by blast
qed

theorem interleaved_callbacks_authentic_witness:
  "\<exists>req \<in> {demo_request True}. authentic demo_server req (''ns'', ''r'') (the (pending (demo_answered True)))"
proof -
  let ?w = "Some (demo_run RawEmpty)" and ?r = "demo_request True"
  have "demo_steps (?w, []) (?w, [(?r, ReqNew)])"
    "demo_steps (?w, [(?r, ReqNew)]) (?w, [(?r, ReqAdmitted (demo_admitted True))])"
    "demo_steps (?w, [(?r, ReqAdmitted (demo_admitted True))]) (?w, [(?r, ReqPatch (demo_admitted True))])"
    "demo_steps (?w, [(?r, ReqPatch (demo_admitted True))])
       (Some (demo_answered True), [(?r, ReqAnswer (demo_admitted True) PatchDone)])"
    using demo_step(1) [of ?w "[]" True] demo_step(2-4) [of 0 "[_]" True] by simp_all
  then have run: "demo_steps\<^sup>*\<^sup>* (?w, []) (Some (demo_answered True), [(?r, ReqAnswer (demo_admitted True) PatchDone)])"
    by (meson rtranclp.rtrancl_into_rtrancl rtranclp.rtrancl_refl)
  have an: "answered (memory_runs (Some (demo_answered True))) (''ns'', ''r'') (the (pending (demo_answered True)))"
    "\<not> answered (memory_runs ?w) (''ns'', ''r'') (the (pending (demo_answered True)))"
    by (simp_all add: answered_def memory_runs_def)
  from interleaved_callbacks_authentic [OF demo_server_laws(1) _ run an(1)] an(2) show ?thesis
    by (simp add: answers_nothing_def)
qed


end
