(* ===== verification/Run_Controller.thy ===== *)
theory Run_Controller
  imports Callback_Server
begin

text \<open>
  The reconciler of WorkflowRuns (\<^verbatim>\<open>internal/workflow/controller/workflowrun_controller.go\<close>) and the
  detection of stuck runner pods (\<^verbatim>\<open>stuck_runner_pod.go\<close>).

  The run a function works on is passed and returned where the code changes it in place; the
  cluster is the parameter \<open>rec_kube\<close>. What the code prepares for the runner (the Job's pod template, RBAC
  bindings, copies of Secrets, the CA ConfigMap) are the parameters \<open>rec_buildJob\<close> and \<open>rec_ensure\<dots>\<close>, which
  leave the stored WorkflowRuns alone (\<open>prepares\<close>). \<open>rec_sort\<close> is \<^verbatim>\<open>sort.Slice\<close> by completion time, which is not stable.
\<close>

subsection \<open>State and parameters\<close>

record Result =
  Result_Requeue :: bool
  Result_RequeueAfter :: int

definition no_requeue :: Result where
  "no_requeue = \<lparr>Result_Requeue = False, Result_RequeueAfter = 0\<rparr>"

definition requeue_now :: Result where
  "requeue_now = \<lparr>Result_Requeue = True, Result_RequeueAfter = 0\<rparr>"

definition requeue_after :: "int \<Rightarrow> Result" where
  "requeue_after d = \<lparr>Result_Requeue = False, Result_RequeueAfter = d\<rparr>"

definition second :: int where
  "second = 1000000000"

record 'w reconciler =
  rec_kube :: "'w kube"
  rec_ControllerNamespace :: string
  rec_SecretSourceNamespace :: string
  rec_buildJob :: "WorkflowRun \<Rightarrow> Workflow \<Rightarrow> 'w \<Rightarrow> Job result \<times> 'w"
  rec_ensureRunnerAccess :: "WorkflowRun \<Rightarrow> Workflow \<Rightarrow> string \<Rightarrow> bool \<Rightarrow> 'w \<Rightarrow> goerror option \<times> 'w"
  rec_ensureRunnerSecrets :: "WorkflowRun \<Rightarrow> Job \<Rightarrow> string \<Rightarrow> 'w \<Rightarrow> goerror option \<times> 'w"
  rec_ensureAgentExecutorCA :: "WorkflowRun \<Rightarrow> Job \<Rightarrow> 'w \<Rightarrow> goerror option \<times> 'w"
  rec_ensureConfigMapWriter :: "string \<Rightarrow> string \<Rightarrow> 'w \<Rightarrow> goerror option \<times> 'w"
  rec_origins :: "string \<Rightarrow> (string \<times> string) list option"
  rec_sort :: "WorkflowRun list \<Rightarrow> WorkflowRun list"

abbreviation execution :: "WorkflowRun \<Rightarrow> WorkflowRunExecutionStatus option" where
  "execution r \<equiv> Status_Execution (WorkflowRun_Status r)"

definition attempts :: "WorkflowRun \<Rightarrow> int" where
  "attempts r = (case execution r of None \<Rightarrow> 0 | Some x \<Rightarrow> ExecutionStatus_Attempts x)"

text \<open>An assignment to fields of \<^verbatim>\<open>Status.Execution\<close>, which is created when it is nil.\<close>

definition upd_execution ::
  "(WorkflowRunExecutionStatus \<Rightarrow> WorkflowRunExecutionStatus) \<Rightarrow> WorkflowRun \<Rightarrow> WorkflowRun" where
  "upd_execution f r = upd_status (\<lambda>s. s\<lparr>Status_Execution :=
     Some (f (case Status_Execution s of None \<Rightarrow> zero_ExecutionStatus | Some x \<Rightarrow> x))\<rparr>) r"

definition setRunFailed :: "string \<Rightarrow> WorkflowRunFailureReason \<Rightarrow> WorkflowRun \<Rightarrow> WorkflowRun" where
  "setRunFailed message reason r = upd_status (\<lambda>s. s\<lparr>Status_Phase := WorkflowRunPhaseFailed,
     Status_Message := message, Status_FailureReason := reason, Status_PendingCallback := None\<rparr>) r"

subsection \<open>Names and lookups\<close>

definition workflowRunnerJobName :: "string \<Rightarrow> string" where
  "workflowRunnerJobName runName =
     (let base = replace_byte (CHR ''_'') (CHR ''-'') (to_lower (runName @ ''-runner'')) in
      if length base \<le> 63 then trim_suffix base ''-''
      else let suffix = hex_pad 8 (unat (fnv64a runName));
               prefix = trim_suffix (take (63 - length suffix - 1) base) ''-''
           in prefix @ ''-'' @ suffix)"

definition jobConditionTrue :: "Job \<Rightarrow> string \<Rightarrow> bool" where
  "jobConditionTrue job t \<longleftrightarrow>
     list_ex (\<lambda>c. JobCondition_Type c = t \<and> JobCondition_Status c = ''True'') (Job_Conditions job)"

definition workflowRunUsesExplicitRunnerServiceAccount :: "WorkflowRun \<Rightarrow> bool" where
  "workflowRunUsesExplicitRunnerServiceAccount r =
     (case WorkflowRunSpec_Execution (WorkflowRun_Spec r) of None \<Rightarrow> False
      | Some x \<Rightarrow> (case WorkflowRunExecutionSpec_Job x of None \<Rightarrow> False
                     | Some j \<Rightarrow> WorkflowRunJobSpec_ServiceAccountName j \<noteq> []))"

definition runnerSecretSourceNamespace :: "'w reconciler \<Rightarrow> string \<Rightarrow> string" where
  "runnerSecretSourceNamespace rec workflowNamespace =
     (if rec_SecretSourceNamespace rec \<noteq> [] then rec_SecretSourceNamespace rec else workflowNamespace)"

definition findStepFailurePolicy :: "Workflow \<Rightarrow> string \<Rightarrow> string" where
  "findStepFailurePolicy workflow stepName =
     (case List.find (\<lambda>s. Step_Name s = stepName \<and> (case Step_WaitForCallback s of None \<Rightarrow> False
              | Some wfc \<Rightarrow> WaitForCallbackStep_FailurePolicy wfc \<noteq> [])) (Workflow_Steps workflow) of
        Some s \<Rightarrow> (case Step_WaitForCallback s of Some wfc \<Rightarrow> WaitForCallbackStep_FailurePolicy wfc | None \<Rightarrow> FailurePolicyFail)
      | None \<Rightarrow> FailurePolicyFail)"

definition checkpointingEnabledForRun :: "WorkflowRun \<Rightarrow> bool" where
  "checkpointingEnabledForRun r = CheckpointingEnabled r"

definition maxRestartAttemptsForRun :: "WorkflowRun \<Rightarrow> int" where
  "maxRestartAttemptsForRun r =
     (case WorkflowRunSpec_Execution (WorkflowRun_Spec r) of None \<Rightarrow> 3
      | Some x \<Rightarrow> (case WorkflowRunExecutionSpec_Checkpointing x of None \<Rightarrow> 3
                     | Some c \<Rightarrow> (case CheckpointingConfig_MaxRestartAttempts c of None \<Rightarrow> 3 | Some n \<Rightarrow> n)))"

text \<open>The classification of errors: sentinels in the chain of the error.\<close>

definition secretAccessDeniedReason :: "goerror \<Rightarrow> WorkflowRunFailureReason" where
  "secretAccessDeniedReason e = (if errors_is e ErrSecretAccessDenied then SecretAccessDenied else FailureReasonNone)"

definition secretMountFailureReason :: "goerror \<Rightarrow> WorkflowRunFailureReason" where
  "secretMountFailureReason e =
     (if errors_is e ErrRunnerRefUnresolved then RunnerRefUnresolved else secretAccessDeniedReason e)"

text \<open>The HTTP status of an API error in the chain; an error without one may be a network error.\<close>

fun api_code :: "err_tag \<Rightarrow> nat option" where
  "api_code ApiNotFound = Some 404"
| "api_code ApiConflict = Some 409"
| "api_code ApiAlreadyExists = Some 409"
| "api_code ApiForbidden = Some 403"
| "api_code ApiInvalid = Some 422"
| "api_code ApiBadRequest = Some 400"
| "api_code ApiServerTimeout = Some 500"
| "api_code (ApiOther code) = Some code"
| "api_code _ = None"

definition retryable :: "goerror \<Rightarrow> bool" where
  "retryable e =
     (case List.map_filter api_code (err_tags e) of
        code # _ \<Rightarrow> code = 429 \<or> 500 \<le> code
      | [] \<Rightarrow> errors_is e NetworkError)"

definition transientUnless :: "bool \<Rightarrow> goerror \<Rightarrow> goerror" where
  "transientUnless terminal e =
     (if terminal \<or> \<not> retryable e then e else GoError (ErrTransientBuild # err_tags e) (err_msg e))"

subsection \<open>A failed Job\<close>

text \<open>The most recently created pod that has terminated; of several equally recent ones the first.\<close>

fun latest_pod :: "Pod option \<Rightarrow> Pod list \<Rightarrow> Pod option" where
  "latest_pod acc [] = acc"
| "latest_pod acc (p # ps) =
     latest_pod (if (Pod_Phase p = ''Failed'' \<or> Pod_Phase p = ''Succeeded'') \<and>
                   (case acc of None \<Rightarrow> True | Some q \<Rightarrow> Pod_CreationTimestamp q < Pod_CreationTimestamp p)
                 then Some p else acc) ps"

definition first_reason :: "(ContainerStatus \<Rightarrow> string option) \<Rightarrow> ContainerStatus list \<Rightarrow> string option" where
  "first_reason f css = List.find (\<lambda>s. s \<noteq> []) (map (\<lambda>c. case f c of Some r \<Rightarrow> r | None \<Rightarrow> []) css)"

definition getPodTerminationReason :: "'w kube \<Rightarrow> string \<Rightarrow> string \<Rightarrow> 'w \<Rightarrow> string \<times> 'w" where
  "getPodTerminationReason kube namespace jobName w =
     (case kube_listPods kube namespace jobName w of
        (Inl e, w1) \<Rightarrow> (''UnknownTerminationReason'', w1)
      | (Inr pods, w1) \<Rightarrow>
          ((case latest_pod None pods of None \<Rightarrow> []
            | Some p \<Rightarrow>
                if Pod_Reason p \<noteq> [] then Pod_Reason p
                else (case first_reason ContainerStatus_LastTerminated (Pod_ContainerStatuses p) of Some r \<Rightarrow> r
                      | None \<Rightarrow> (case first_reason ContainerStatus_Terminated (Pod_ContainerStatuses p) of
                                   Some r \<Rightarrow> r | None \<Rightarrow> []))), w1))"

definition isDeterministicTermination :: "string \<Rightarrow> bool" where
  "isDeterministicTermination reason \<longleftrightarrow>
     reason \<in> {''OOMKilled'', ''ContainerCannotRun'', ''CreateContainerError'', ''CreateContainerConfigError'', ''DeadlineExceeded''}"

type_synonym reconciled = "Result \<times> goerror option"

text \<open>A status update after which a conflict asks for another reconcile.\<close>

definition update_or_requeue :: "'w reconciler \<Rightarrow> Result \<Rightarrow> WorkflowRun \<Rightarrow> 'w \<Rightarrow> reconciled \<times> 'w" where
  "update_or_requeue rec res r w =
     (case kube_updateStatus (rec_kube rec) r w of
        (None, w1) \<Rightarrow> ((res, None), w1)
      | (Some e, w1) \<Rightarrow> (if errors_is e ApiConflict then (requeue_now, None) else (no_requeue, Some e), w1))"

definition terminal_message :: "string \<Rightarrow> string \<Rightarrow> int \<Rightarrow> string" where
  "terminal_message jobName reason n =
     (if isDeterministicTermination reason
      then ''Runner Job '' @ jobName @ '' failed with non-retryable reason: '' @ reason
      else if reason \<noteq> [] then ''Runner Job '' @ jobName @ '' failed (reason: '' @ reason @ '', attempts: '' @ itoa (n + 1) @ '')''
      else ''Runner Job '' @ jobName @ '' failed'')"

definition terminally_failed :: "int \<Rightarrow> string \<Rightarrow> string \<Rightarrow> int \<Rightarrow> WorkflowRun \<Rightarrow> WorkflowRun" where
  "terminally_failed now jobName reason n r =
     (let msg = terminal_message jobName reason n in
      upd_execution (\<lambda>x. x\<lparr>ExecutionStatus_Phase := WorkflowRunPhaseFailed, ExecutionStatus_JobName := jobName,
          ExecutionStatus_Message := msg, ExecutionStatus_CompletionTime := Some now,
          ExecutionStatus_LastTerminationReason := reason\<rparr>)
        (upd_status (\<lambda>s. s\<lparr>Status_CompletionTime := Some now\<rparr>) (setRunFailed msg FailureReasonNone r)))"

definition markRunTerminallyFailed ::
  "'w reconciler \<Rightarrow> WorkflowRun \<Rightarrow> string \<Rightarrow> string \<Rightarrow> int \<Rightarrow> 'w \<Rightarrow> reconciled \<times> 'w" where
  "markRunTerminallyFailed rec r jobName reason n w =
     (case kube_now (rec_kube rec) w of (now, w1) \<Rightarrow>
        (let r' = terminally_failed now jobName reason n r
         in update_or_requeue rec no_requeue r' (DeleteCheckpointForRun (kube_configMaps (rec_kube rec)) r' w1)))"

definition retried :: "string \<Rightarrow> int \<Rightarrow> int \<Rightarrow> WorkflowRun \<Rightarrow> WorkflowRun" where
  "retried reason n maxAttempts r =
     upd_execution (\<lambda>x. x\<lparr>ExecutionStatus_Attempts := n + 1, ExecutionStatus_LastTerminationReason := reason,
         ExecutionStatus_Message := ''Runner pod failed (reason: '' @ reason @ ''), retrying (attempt '' @ itoa (n + 1) @ ''/'' @ itoa maxAttempts @ '')'',
         ExecutionStatus_Phase := WorkflowRunPhasePending, ExecutionStatus_CompletionTime := None\<rparr>)
       (upd_status (\<lambda>s. s\<lparr>Status_Phase := WorkflowRunPhasePending, Status_CompletionTime := None\<rparr>) r)"

abbreviation job_key :: "Job \<Rightarrow> object_key" where
  "job_key j \<equiv> (Job_Namespace j, Job_Name j)"

definition retryTransientFailure ::
  "'w reconciler \<Rightarrow> WorkflowRun \<Rightarrow> Job \<Rightarrow> string \<Rightarrow> int \<Rightarrow> int \<Rightarrow> 'w \<Rightarrow> reconciled \<times> 'w" where
  "retryTransientFailure rec r job reason n maxAttempts w =
     (case kube_deleteJob (rec_kube rec) PropagationBackground (job_key job) w of (err, w1) \<Rightarrow>
        (case IgnoreNotFound err of
           Some e \<Rightarrow> ((no_requeue, Some e), w1)
         | None \<Rightarrow> update_or_requeue rec requeue_now (retried reason n maxAttempts r) w1))"

text \<open>The third result of the source, whether the failure was handled, is always true.\<close>

definition handleFailedJob :: "'w reconciler \<Rightarrow> WorkflowRun \<Rightarrow> Job \<Rightarrow> string \<Rightarrow> 'w \<Rightarrow> reconciled \<times> 'w" where
  "handleFailedJob rec r job jobName w =
     (if list_ex (\<lambda>c. (JobCondition_Type c = ''FailureTarget'' \<or> JobCondition_Type c = ''Failed'') \<and>
            JobCondition_Status c = ''True'' \<and> JobCondition_Reason c = ''DeadlineExceeded'') (Job_Conditions job)
      then markRunTerminallyFailed rec r jobName ''DeadlineExceeded'' (attempts r) w
      else if checkpointingEnabledForRun r
      then (case getPodTerminationReason (rec_kube rec) (WorkflowRun_Namespace r) jobName w of (reason, w1) \<Rightarrow>
              if \<not> isDeterministicTermination reason \<and> attempts r < maxRestartAttemptsForRun r
              then retryTransientFailure rec r job reason (attempts r) (maxRestartAttemptsForRun r) w1
              else markRunTerminallyFailed rec r jobName reason (attempts r) w1)
      else markRunTerminallyFailed rec r jobName [] (attempts r) w)"


subsection \<open>Stuck runner pods\<close>

definition stuckPodGracePeriod :: int where
  "stuckPodGracePeriod = 30 * second"

definition unresolvedRefWaitingReasons :: "(string \<times> WorkflowRunFailureReason) list" where
  "unresolvedRefWaitingReasons =
     [(''CreateContainerConfigError'', RunnerRefUnresolved), (''CreateContainerError'', FailureReasonNone)]"

definition mentionsSecretOrConfigMapRef :: "string \<Rightarrow> bool" where
  "mentionsSecretOrConfigMapRef message \<longleftrightarrow>
     contains (to_lower message) ''secret'' \<or> contains (to_lower message) ''configmap''"

text \<open>The dash of the messages, in UTF-8.\<close>

definition dash :: string where
  "dash = [CHR 0xE2, CHR 0x80, CHR 0x94]"

definition waiting_symptom :: "ContainerStatus \<Rightarrow> (string \<times> WorkflowRunFailureReason) option" where
  "waiting_symptom cs =
     (case ContainerStatus_Waiting cs of None \<Rightarrow> None
      | Some x \<Rightarrow>
          (case map_of unresolvedRefWaitingReasons (Waiting_Reason x) of None \<Rightarrow> None
           | Some reason \<Rightarrow>
               Some (''runner container '' @ quote (ContainerStatus_Name cs) @ '' is stuck ('' @ Waiting_Reason x @ '': '' @
                   Waiting_Message x @ ''); this usually means a Secret or ConfigMap (or one of their keys) referenced by the pod no longer exists '' @
                   dash @ '' re-run the WorkflowRun to re-resolve after fixing the reference'',
                 if mentionsSecretOrConfigMapRef (Waiting_Message x) then reason else FailureReasonNone)))"

fun first_some :: "('a \<Rightarrow> 'b option) \<Rightarrow> 'a list \<Rightarrow> 'b option" where
  "first_some f [] = None"
| "first_some f (x # xs) = (case f x of Some y \<Rightarrow> Some y | None \<Rightarrow> first_some f xs)"

definition mount_symptom :: "string \<Rightarrow> pod_event \<Rightarrow> (string \<times> WorkflowRunFailureReason) option" where
  "mount_symptom podName ev =
     (if fst ev \<noteq> ''FailedMount'' then None
      else Some (''runner pod '' @ quote podName @ '' failed to mount a volume ('' @ snd ev @
               ''); this usually means a Secret or ConfigMap referenced by the pod does not exist in this namespace (native Secret/ConfigMap volumes are always same-namespace) '' @
               dash @ '' re-run the WorkflowRun after fixing the reference'',
             if mentionsSecretOrConfigMapRef (snd ev) then RunnerRefUnresolved else FailureReasonNone))"

definition detectStuckRunnerPod ::
  "'w kube \<Rightarrow> Pod \<Rightarrow> 'w \<Rightarrow> (string \<times> WorkflowRunFailureReason) option \<times> 'w" where
  "detectStuckRunnerPod kube pod w =
     (if Pod_Phase pod \<noteq> ''Pending'' \<and> Pod_Phase pod \<noteq> ''Running'' then (None, w)
      else (case kube_now kube w of (now, w1) \<Rightarrow>
        if now - Pod_CreationTimestamp pod < stuckPodGracePeriod then (None, w1)
        else (case first_some waiting_symptom (Pod_ContainerStatuses pod) of
                Some found \<Rightarrow> (Some found, w1)
              | None \<Rightarrow>
                  if Pod_Phase pod \<noteq> ''Pending'' then (None, w1)
                  else (case kube_podEvents kube (Pod_Namespace pod, Pod_Name pod) w1 of
                          (Inl e, w2) \<Rightarrow> (None, w2)
                        | (Inr evs, w2) \<Rightarrow> (first_some (mount_symptom (Pod_Name pod)) evs, w2)))))"

definition generatedSecretVolumePrefix :: string where
  "generatedSecretVolumePrefix = ''ottoflow-secret-''"

definition generatedSecretVolumeOriginsAnnotation :: string where
  "generatedSecretVolumeOriginsAnnotation = ''ottoflow.nirmata.io/secret-volume-origins''"

text \<open>
  The matches of \<^verbatim>\<open>generatedSecretVolumeNameRE\<close>: a match starts at the beginning of a maximal run of the
  characters \<^verbatim>\<open>[A-Za-z0-9-]\<close> and is greedy, so it is a whole run that begins with the prefix and goes on.
\<close>

definition name_char :: "char \<Rightarrow> bool" where
  "name_char c \<longleftrightarrow> (CHR ''A'' \<le> c \<and> c \<le> CHR ''Z'') \<or> (CHR ''a'' \<le> c \<and> c \<le> CHR ''z'') \<or>
     (CHR ''0'' \<le> c \<and> c \<le> CHR ''9'') \<or> c = CHR ''-''"

fun name_runs :: "string \<Rightarrow> string \<Rightarrow> string list" where
  "name_runs acc [] = [rev acc]"
| "name_runs acc (c # s) = (if name_char c then name_runs (c # acc) s else rev acc # name_runs [] s)"

definition volume_tokens :: "string \<Rightarrow> string list" where
  "volume_tokens message = filter (\<lambda>t. has_prefix t generatedSecretVolumePrefix \<and>
     length generatedSecretVolumePrefix < length t) (name_runs [] message)"

definition secretVolumeAttribution :: "(string \<times> string) list option \<Rightarrow> string \<Rightarrow> string" where
  "secretVolumeAttribution origins message =
     (case origins of None \<Rightarrow> []
      | Some m \<Rightarrow> concat (map (\<lambda>name. '' Volume '' @ quote name @ '' was generated for '' @ get_or [] m name @ ''.'')
                     (sort (remdups (filter (has_key m) (volume_tokens message))))))"

definition stuck_failed :: "int \<Rightarrow> string \<Rightarrow> WorkflowRunFailureReason \<Rightarrow> WorkflowRun \<Rightarrow> WorkflowRun" where
  "stuck_failed now msg reason r =
     upd_execution (\<lambda>x. x\<lparr>ExecutionStatus_Phase := WorkflowRunPhaseFailed, ExecutionStatus_Message := msg,
         ExecutionStatus_CompletionTime := Some now\<rparr>)
       (upd_status (\<lambda>s. s\<lparr>Status_CompletionTime := Some now\<rparr>) (setRunFailed msg reason r))"

text \<open>\<open>None\<close> when the pod is not stuck, else the error the reconcile returns.\<close>

definition handleStuckRunnerPod ::
  "'w reconciler \<Rightarrow> WorkflowRun \<Rightarrow> Job \<Rightarrow> Pod \<Rightarrow> 'w \<Rightarrow> goerror option option \<times> 'w" where
  "handleStuckRunnerPod rec r job pod w =
     (case detectStuckRunnerPod (rec_kube rec) pod w of
        (None, w1) \<Rightarrow> (None, w1)
      | (Some (m, reason), w1) \<Rightarrow>
          (let msg = m @ secretVolumeAttribution (rec_origins rec
                 (get_or [] (Job_Annotations job) generatedSecretVolumeOriginsAnnotation)) m
           in case kube_now (rec_kube rec) w1 of (now, w2) \<Rightarrow>
             (case kube_updateStatus (rec_kube rec) (stuck_failed now msg reason r) w2 of
                (Some e, w3) \<Rightarrow> (Some (Some e), w3)
              | (None, w3) \<Rightarrow>
                  (case kube_deleteJob (rec_kube rec) PropagationBackground (job_key job) w3 of
                     (err, w4) \<Rightarrow> (Some (IgnoreNotFound err), w4)))))"

fun handleStuckRunnerPods ::
  "'w reconciler \<Rightarrow> WorkflowRun \<Rightarrow> Job \<Rightarrow> Pod list \<Rightarrow> 'w \<Rightarrow> goerror option option \<times> 'w" where
  "handleStuckRunnerPods rec r job [] w = (None, w)"
| "handleStuckRunnerPods rec r job (pod # pods) w =
     (case handleStuckRunnerPod rec r job pod w of
        (Some err, w1) \<Rightarrow> (Some err, w1)
      | (None, w1) \<Rightarrow> handleStuckRunnerPods rec r job pods w1)"

subsection \<open>A pending callback\<close>

text \<open>
  The outcome of a function that may let its caller go on: \<open>Inl\<close> with what the reconcile returns, \<open>Inr\<close> with the
  run as it is by then.
\<close>

type_synonym step_result = "reconciled + WorkflowRun"

definition ensure_running :: "'w reconciler \<Rightarrow> WorkflowRun \<Rightarrow> 'w \<Rightarrow> (goerror option \<times> WorkflowRun) \<times> 'w" where
  "ensure_running rec r w =
     (if run_phase r = WorkflowRunPhaseRunning then ((None, r), w)
      else (let r' = upd_status (\<lambda>s. s\<lparr>Status_Phase := WorkflowRunPhaseRunning\<rparr>) r in
            case kube_updateStatus (rec_kube rec) r' w of (err, w1) \<Rightarrow> ((err, r'), w1)))"

definition resumeRunnerJob :: "'w reconciler \<Rightarrow> WorkflowRun \<Rightarrow> 'w \<Rightarrow> step_result \<times> 'w" where
  "resumeRunnerJob rec r w =
     (let jobName = workflowRunnerJobName (WorkflowRun_Name r);
          kube = rec_kube rec in
      case kube_getJob kube (WorkflowRun_Namespace r, jobName) w of
        (Inl e, w1) \<Rightarrow>
          if not_found e
          then (case ensure_running rec r w1 of
                  ((Some err, r'), w2) \<Rightarrow> (Inl (no_requeue, Some err), w2)
                | ((None, r'), w2) \<Rightarrow> (Inr r', w2))
          else (Inl (no_requeue, Some e), w1)
      | (Inr job, w1) \<Rightarrow>
          if jobConditionTrue job ''Complete'' \<or> 0 < Job_Succeeded job
          then (if Job_DeletionTimestamp job \<noteq> None then (Inl (requeue_after (2 * second), None), w1)
                else (case kube_deleteJob kube PropagationForeground (job_key job) w1 of (err, w2) \<Rightarrow>
                  (case IgnoreNotFound err of
                     Some e \<Rightarrow> (Inl (no_requeue, Some e), w2)
                   | None \<Rightarrow> (Inl (requeue_after (2 * second), None), w2))))
          else if jobConditionTrue job ''Failed''
          then (case handleFailedJob rec r job jobName w1 of (res, w2) \<Rightarrow> (Inl res, w2))
          else (case ensure_running rec r w1 of
                  ((Some err, r'), w2) \<Rightarrow> (Inl (no_requeue, Some err), w2)
                | ((None, r'), w2) \<Rightarrow> (Inl (requeue_after (2 * second), None), w2)))"

definition timed_out :: "string \<Rightarrow> WorkflowRun \<Rightarrow> WorkflowRun" where
  "timed_out stepName r =
     (let msg = ''callback timeout: no callback received within the configured timeout'';
          ss = (get_status r stepName)\<lparr>StepStatus_Phase := StepPhaseFailed, StepStatus_Error := msg, StepStatus_Message := msg\<rparr>
      in setRunFailed (''Step '' @ quote stepName @ '' timed out waiting for callback'') FailureReasonNone
           (set_status stepName ss r))"

definition emit_timeout :: "'w reconciler \<Rightarrow> WorkflowRun \<Rightarrow> CallbackState \<Rightarrow> 'w \<Rightarrow> 'w" where
  "emit_timeout rec r cb w = emit (rec_kube rec) r ''Warning'' ''CallbackTimeout''
     (''Callback timeout for step '' @ quote (CallbackState_StepName cb)) w"

definition reconcilePendingCallback ::
  "'w reconciler \<Rightarrow> Workflow \<Rightarrow> WorkflowRun \<Rightarrow> CallbackState \<Rightarrow> 'w \<Rightarrow> step_result \<times> 'w" where
  "reconcilePendingCallback rec workflow r cb w =
     (case kube_now (rec_kube rec) w of (now, w1) \<Rightarrow>
        if CallbackState_Outputs cb \<noteq> RawEmpty then resumeRunnerJob rec r w1
        else if CallbackState_ExpiresAt cb < unix_seconds now
        then (let w2 = emit_timeout rec r cb w1 in
              if findStepFailurePolicy workflow (CallbackState_StepName cb) = FailurePolicyContinue
              then resumeRunnerJob rec r w2
              else (case kube_updateStatus (rec_kube rec) (timed_out (CallbackState_StepName cb) r) w2 of
                      (err, w3) \<Rightarrow> (Inl (no_requeue, err), w3)))
        else (case kube_now (rec_kube rec) w1 of (now', w2) \<Rightarrow>
          (Inl (requeue_after (max 0 (CallbackState_ExpiresAt cb * second - now') + second), None), w2)))"


subsection \<open>The runner Job\<close>

text \<open>\<^verbatim>\<open>setRunFailed\<close>, the status update, and the error of the cause when the update succeeds.\<close>

definition fail_run ::
  "'w reconciler \<Rightarrow> WorkflowRun \<Rightarrow> string \<Rightarrow> WorkflowRunFailureReason \<Rightarrow> goerror option \<Rightarrow> 'w \<Rightarrow> reconciled \<times> 'w" where
  "fail_run rec r message reason cause w =
     (case kube_updateStatus (rec_kube rec) (setRunFailed message reason r) w of
        (Some e, w1) \<Rightarrow> ((no_requeue, Some e), w1)
      | (None, w1) \<Rightarrow> ((no_requeue, cause), w1))"

text \<open>\<^verbatim>\<open>te.err\<close>: the error that a \<^verbatim>\<open>transientBuildError\<close> wraps.\<close>

definition transient_cause :: "goerror \<Rightarrow> goerror" where
  "transient_cause e = GoError (removeAll ErrTransientBuild (err_tags e)) (err_msg e)"

definition fail_unless_transient ::
  "'w reconciler \<Rightarrow> WorkflowRun \<Rightarrow> string \<Rightarrow> WorkflowRunFailureReason \<Rightarrow> goerror \<Rightarrow> 'w \<Rightarrow> reconciled \<times> 'w" where
  "fail_unless_transient rec r what reason e w =
     (if errors_is e ErrTransientBuild then ((no_requeue, Some (transient_cause e)), w)
      else fail_run rec r (what @ err_msg e) reason (Some e) w)"

definition handleAgentExecutorCAError :: "'w reconciler \<Rightarrow> WorkflowRun \<Rightarrow> goerror \<Rightarrow> 'w \<Rightarrow> reconciled \<times> 'w" where
  "handleAgentExecutorCAError rec r e w =
     fail_unless_transient rec r ''Failed to publish the agent-executor CA: '' (secretAccessDeniedReason e) e w"

definition create_job ::
  "'w reconciler \<Rightarrow> WorkflowRun \<Rightarrow> Job \<Rightarrow> string \<Rightarrow> 'w \<Rightarrow> (reconciled + Job) \<times> 'w" where
  "create_job rec r createdJob jobName w =
     (case kube_createJob (rec_kube rec) createdJob w of
        (None, w1) \<Rightarrow> (Inr createdJob, w1)
      | (Some e, w1) \<Rightarrow>
          if errors_is e ApiAlreadyExists
          then (case kube_getJob (rec_kube rec) (WorkflowRun_Namespace r, jobName) w1 of
                  (Inl getErr, w2) \<Rightarrow> (Inl (no_requeue, Some getErr), w2)
                | (Inr job, w2) \<Rightarrow> (Inr job, w2))
          else if retryable e then (Inl (no_requeue, Some e), w1)
          else (case fail_run rec r (''Failed to create runner Job '' @ jobName @ '': '' @ err_msg e) FailureReasonNone (Some e) w1 of
                  (res, w2) \<Rightarrow> (Inl res, w2)))"

definition prepare_job ::
  "'w reconciler \<Rightarrow> WorkflowRun \<Rightarrow> Workflow \<Rightarrow> string \<Rightarrow> string \<Rightarrow> 'w \<Rightarrow> (reconciled + Job) \<times> 'w" where
  "prepare_job rec r workflow workflowNamespace jobName w =
     (let stop = (\<lambda>(res, w). (Inl res, w)) in
      case rec_buildJob rec r workflow w of
        (Inl e, w1) \<Rightarrow> stop (fail_unless_transient rec r ''Failed to build runner Job: '' (secretMountFailureReason e) e w1)
      | (Inr createdJob, w1) \<Rightarrow>
      (case rec_ensureRunnerAccess rec r workflow (Job_ServiceAccountName createdJob)
              (workflowRunUsesExplicitRunnerServiceAccount r) w1 of
        (Some e, w2) \<Rightarrow>
          if errors_is e ErrRequeueRunnerAccess then (Inl (no_requeue, Some e), w2)
          else stop (fail_run rec r (''Failed to prepare runner access: '' @ err_msg e) (secretAccessDeniedReason e) (Some e) w2)
      | (None, w2) \<Rightarrow>
      (case rec_ensureRunnerSecrets rec r createdJob (runnerSecretSourceNamespace rec workflowNamespace) w2 of
        (Some e, w3) \<Rightarrow> stop (fail_unless_transient rec r ''Failed to prepare runner secrets: '' (secretAccessDeniedReason e) e w3)
      | (None, w3) \<Rightarrow>
      (case rec_ensureAgentExecutorCA rec r createdJob w3 of
        (Some e, w4) \<Rightarrow> stop (handleAgentExecutorCAError rec r e w4)
      | (None, w4) \<Rightarrow> create_job rec r createdJob jobName w4))))"

text \<open>The Job of the run, created when there is none.\<close>

definition find_or_create_job ::
  "'w reconciler \<Rightarrow> WorkflowRun \<Rightarrow> Workflow \<Rightarrow> string \<Rightarrow> string \<Rightarrow> 'w \<Rightarrow> (reconciled + Job) \<times> 'w" where
  "find_or_create_job rec r workflow workflowNamespace jobName w =
     (case kube_getJob (rec_kube rec) (WorkflowRun_Namespace r, jobName) w of
        (Inl e, w1) \<Rightarrow>
          if \<not> not_found e then (Inl (no_requeue, Some e), w1)
          else prepare_job rec r workflow workflowNamespace jobName w1
      | (Inr job, w1) \<Rightarrow>
          if Job_ServiceAccountName job \<noteq> [] \<and> \<not> workflowRunUsesExplicitRunnerServiceAccount r
          then (Inr job, snd (rec_ensureConfigMapWriter rec (WorkflowRun_Namespace r) (Job_ServiceAccountName job) w1))
          else (Inr job, w1))"

definition job_recorded :: "string \<Rightarrow> int \<Rightarrow> WorkflowRun \<Rightarrow> WorkflowRun" where
  "job_recorded jobName now r =
     (let phase = (if run_phase r = WorkflowRunPhaseNone then WorkflowRunPhasePending else run_phase r) in
      upd_status (\<lambda>s. s\<lparr>Status_Phase := phase,
        Status_Execution := Some (zero_ExecutionStatus\<lparr>ExecutionStatus_Phase := phase, ExecutionStatus_JobName := jobName,
          ExecutionStatus_Message := ''Runner Job created'', ExecutionStatus_StartTime := Some now,
          ExecutionStatus_Attempts := attempts r\<rparr>)\<rparr>) r)"

definition record_job :: "'w reconciler \<Rightarrow> WorkflowRun \<Rightarrow> string \<Rightarrow> 'w \<Rightarrow> (goerror + WorkflowRun) \<times> 'w" where
  "record_job rec r jobName w =
     (if map_option ExecutionStatus_JobName (execution r) = Some jobName then (Inr r, w)
      else (case kube_now (rec_kube rec) w of (now, w1) \<Rightarrow>
        (case kube_updateStatus (rec_kube rec) (job_recorded jobName now r) w1 of
           (Some e, w2) \<Rightarrow> (Inl e, w2)
         | (None, w2) \<Rightarrow> (Inr (job_recorded jobName now r), w2))))"

text \<open>The changes to the status while the Job exists; the second component says whether there was one.\<close>

definition note_pod :: "Pod list \<Rightarrow> WorkflowRun \<Rightarrow> WorkflowRun \<times> bool" where
  "note_pod pods r =
     (case pods of [] \<Rightarrow> (r, False)
      | p # _ \<Rightarrow>
          (let r1 = upd_execution (\<lambda>x. x) r in
           if map_option ExecutionStatus_PodName (execution r1) = Some (Pod_Name p) then (r1, False)
           else (upd_execution (\<lambda>x. x\<lparr>ExecutionStatus_PodName := Pod_Name p\<rparr>) r1, True)))"

definition note_running :: "Job \<Rightarrow> WorkflowRun \<times> bool \<Rightarrow> WorkflowRun \<times> bool" where
  "note_running job rm =
     (case (rm, execution (fst rm)) of
        ((r, modified), Some x) \<Rightarrow>
          if 0 < Job_Active job \<and>
             (ExecutionStatus_Phase x \<noteq> WorkflowRunPhaseRunning \<or> ExecutionStatus_Message x \<noteq> ''Runner Job is running'')
          then (upd_execution (\<lambda>x. x\<lparr>ExecutionStatus_Phase := WorkflowRunPhaseRunning,
                  ExecutionStatus_Message := ''Runner Job is running''\<rparr>) r, True)
          else (r, modified)
      | ((r, modified), None) \<Rightarrow> (r, modified))"

definition finish_supervision ::
  "'w reconciler \<Rightarrow> Job \<Rightarrow> string \<Rightarrow> WorkflowRun \<times> bool \<Rightarrow> 'w \<Rightarrow> reconciled \<times> 'w" where
  "finish_supervision rec job jobName rm w =
     (case note_running job rm of (r, modified) \<Rightarrow>
        if 0 < Job_Failed job \<and> \<not> IsTerminal (run_phase r) then handleFailedJob rec r job jobName w
        else if modified
        then (case kube_updateStatus (rec_kube rec) r w of
                (Some e, w1) \<Rightarrow> ((no_requeue, Some e), w1)
              | (None, w1) \<Rightarrow> ((requeue_after (2 * second), None), w1))
        else ((requeue_after (2 * second), None), w))"

definition supervise_job :: "'w reconciler \<Rightarrow> WorkflowRun \<Rightarrow> Job \<Rightarrow> string \<Rightarrow> 'w \<Rightarrow> reconciled \<times> 'w" where
  "supervise_job rec r job jobName w =
     (case record_job rec r jobName w of
        (Inl e, w1) \<Rightarrow> ((no_requeue, Some e), w1)
      | (Inr r1, w1) \<Rightarrow>
          (case kube_listPods (rec_kube rec) (WorkflowRun_Namespace r1) jobName w1 of
             (Inl e, w2) \<Rightarrow> finish_supervision rec job jobName (r1, False) w2
           | (Inr pods, w2) \<Rightarrow>
               (case handleStuckRunnerPods rec r1 job pods w2 of
                  (Some err, w3) \<Rightarrow> ((no_requeue, err), w3)
                | (None, w3) \<Rightarrow> finish_supervision rec job jobName (note_pod pods r1) w3)))"

definition reconcileJobExecution :: "'w reconciler \<Rightarrow> WorkflowRun \<Rightarrow> 'w \<Rightarrow> reconciled \<times> 'w" where
  "reconcileJobExecution rec r w =
     (let jobName = workflowRunnerJobName (WorkflowRun_Name r);
          go_on = (\<lambda>workflow ns r w. case find_or_create_job rec r workflow ns jobName w of
             (Inl res, w') \<Rightarrow> (res, w')
           | (Inr job, w') \<Rightarrow> supervise_job rec r job jobName w')
      in case resolveWorkflow (rec_kube rec) (rec_ControllerNamespace rec) r w of
           (Inl e, w1) \<Rightarrow>
             if not_found e then fail_run rec r (err_msg e) FailureReasonNone None w1
             else ((no_requeue, Some e), w1)
         | (Inr (workflow, ns), w1) \<Rightarrow>
             (case pending r of
                None \<Rightarrow> go_on workflow ns r w1
              | Some cb \<Rightarrow>
                  (case reconcilePendingCallback rec workflow r cb w1 of
                     (Inl res, w2) \<Rightarrow> (res, w2)
                   | (Inr r', w2) \<Rightarrow> go_on workflow ns r' w2)))"

subsection \<open>The run policy\<close>

definition of_workflow :: "string \<Rightarrow> string \<Rightarrow> string \<Rightarrow> WorkflowRun \<Rightarrow> bool" where
  "of_workflow namespace refName refNamespace wr \<longleftrightarrow>
     WorkflowRef_Name (workflow_ref wr) = refName \<and>
     (if WorkflowRef_Namespace (workflow_ref wr) = [] then namespace else WorkflowRef_Namespace (workflow_ref wr)) = refNamespace \<and>
     IsTerminal (run_phase wr)"

definition listCompletedRunsForWorkflow ::
  "'w reconciler \<Rightarrow> string \<Rightarrow> string \<Rightarrow> string \<Rightarrow> 'w \<Rightarrow> WorkflowRun list \<times> 'w" where
  "listCompletedRunsForWorkflow rec namespace refName refNamespace w =
     (case kube_listRuns (rec_kube rec) namespace w of
        (Inl e, w1) \<Rightarrow> ([], w1)
      | (Inr items, w1) \<Rightarrow> (filter (of_workflow namespace refName refNamespace) items, w1))"

text \<open>The loop over the runs to delete; it ends early with true when the current run was one of them.\<close>

fun delete_runs :: "'w reconciler \<Rightarrow> string \<Rightarrow> string \<Rightarrow> WorkflowRun list \<Rightarrow> 'w \<Rightarrow> bool result \<times> 'w" where
  "delete_runs rec why currentUID [] w = (Inr False, w)"
| "delete_runs rec why currentUID (wr # wrs) w =
     (case kube_deleteRun (rec_kube rec) (run_key wr) w of (err, w1) \<Rightarrow>
        (case IgnoreNotFound err of
           Some e \<Rightarrow> (Inl (wrapf (''delete run '' @ WorkflowRun_Name wr @ '' for '' @ why @ '': '') e), w1)
         | None \<Rightarrow> if WorkflowRun_UID wr = currentUID then (Inr True, w1)
                   else delete_runs rec why currentUID wrs w1))"

definition expired_before :: "int \<Rightarrow> WorkflowRun \<Rightarrow> bool" where
  "expired_before cutoff wr = (case Status_CompletionTime (WorkflowRun_Status wr) of None \<Rightarrow> False | Some t \<Rightarrow> t < cutoff)"

definition deref0 :: "int option \<Rightarrow> int" where
  "deref0 x = (case x of None \<Rightarrow> 0 | Some n \<Rightarrow> n)"

definition keep_newest :: "'w reconciler \<Rightarrow> string \<Rightarrow> int \<Rightarrow> WorkflowRun list \<Rightarrow> 'w \<Rightarrow> bool result \<times> 'w" where
  "keep_newest rec currentUID maxAllowed completed w =
     (if 0 < maxAllowed \<and> maxAllowed < int (length completed)
      then delete_runs rec ''maxAllowed'' currentUID
             (take (length completed - nat maxAllowed) (rec_sort rec completed)) w
      else (Inr False, w))"

definition applyRunPolicy :: "'w reconciler \<Rightarrow> Workflow \<Rightarrow> WorkflowRun \<Rightarrow> 'w \<Rightarrow> bool result \<times> 'w" where
  "applyRunPolicy rec workflow current w =
     (case WorkflowSpec_Run (Workflow_Spec workflow) of None \<Rightarrow> (Inr False, w)
      | Some run \<Rightarrow>
          (let namespace = WorkflowRun_Namespace current;
               refNamespace = (if Workflow_Namespace workflow = [] then namespace else Workflow_Namespace workflow);
               uid = WorkflowRun_UID current;
               list_them = listCompletedRunsForWorkflow rec namespace (Workflow_Name workflow) refNamespace;
               retention = deref0 (RunPolicy_RetentionMinutes run);
               maxAllowed = deref0 (RunPolicy_MaxAllowed run)
           in case list_them w of (completed, w1) \<Rightarrow>
             if completed = [] then (Inr False, w1)
             else (case kube_now (rec_kube rec) w1 of (now, w2) \<Rightarrow>
               if 0 < retention
               then (case delete_runs rec ''retention'' uid
                            (filter (expired_before (now - retention * 60 * second)) completed) w2 of
                       (Inr False, w3) \<Rightarrow>
                         (case list_them w3 of (completed', w4) \<Rightarrow> keep_newest rec uid maxAllowed completed' w4)
                     | (r, w3) \<Rightarrow> (r, w3))
               else keep_newest rec uid maxAllowed completed w2)))"

definition Reconcile :: "'w reconciler \<Rightarrow> object_key \<Rightarrow> 'w \<Rightarrow> reconciled \<times> 'w" where
  "Reconcile rec key w =
     (case kube_getRun (rec_kube rec) key w of
        (Inl e, w1) \<Rightarrow> ((no_requeue, IgnoreNotFound (Some e)), w1)
      | (Inr r, w1) \<Rightarrow>
          if IsTerminal (run_phase r)
          then (case kube_getWorkflow (rec_kube rec) (ref_namespace r, WorkflowRef_Name (workflow_ref r)) w1 of
                  (Inl e, w2) \<Rightarrow> ((no_requeue, None), w2)
                | (Inr workflow, w2) \<Rightarrow>
                    (case applyRunPolicy rec workflow r w2 of
                       (Inl e, w3) \<Rightarrow> ((no_requeue, Some e), w3)
                     | (Inr deleted, w3) \<Rightarrow> ((no_requeue, None), w3)))
          else reconcileJobExecution rec r w1)"

end
