(* ===== verification/Secret_Refs.thy ===== *)
theory Secret_Refs
  imports Run_Controller
begin

text \<open>
  Which Secrets a run refers to: the walk over a Workflow and everything it reaches
  (\<^verbatim>\<open>internal/workflow/controller/secret_refs.go\<close>, up to \<^verbatim>\<open>externalAgentRefSecretRefs\<close>).

  The objects are read through \<open>cluster_reader\<close>, a snapshot of the cluster: the walk writes nothing, and
  what changes while it runs is read again by the runner. A walk maps the visited set to the references
  it found and the visited set it leaves. The recursion through workflowRef has the number of levels that
  are left as its argument, \<open>maxWorkflowRefDepth\<close> minus the \<^verbatim>\<open>depth\<close> of the code; the steps of a
  Workflow are walked with the walk of the next level as the argument \<open>sub\<close>. Names in MCPTools are ASCII.
\<close>

subsection \<open>Data\<close>

definition maxWorkflowRefDepth :: nat where
  "maxWorkflowRefDepth = 10"

record resolvedSecretRef =
  ref_Namespace :: string
  ref_Name :: string
  ref_Key :: string
  ref_Origin :: string
  ref_IsKubeconfig :: bool
  ref_EnvVarName :: string
  ref_Optional :: bool
  ref_NeedsRunnerMount :: bool

definition secret_ref :: "string \<Rightarrow> string \<Rightarrow> string \<Rightarrow> string \<Rightarrow> bool \<Rightarrow> resolvedSecretRef" where
  "secret_ref ns name key origin needsRunnerMount =
     \<lparr>ref_Namespace = ns, ref_Name = name, ref_Key = key, ref_Origin = origin, ref_IsKubeconfig = False,
      ref_EnvVarName = [], ref_Optional = False, ref_NeedsRunnerMount = needsRunnerMount\<rparr>"

record visitedKey =
  vk_kind :: string
  vk_namespace :: string
  vk_name :: string

definition workflow_vk :: "string \<Rightarrow> string \<Rightarrow> visitedKey" where
  "workflow_vk ns name = \<lparr>vk_kind = ''Workflow'', vk_namespace = ns, vk_name = name\<rparr>"

record cluster_reader =
  rd_Workflow :: "object_key \<Rightarrow> Workflow result"
  rd_StepTemplate :: "object_key \<Rightarrow> StepTemplateSpec result"
  rd_Agent :: "object_key \<Rightarrow> Agent result"
  rd_MCPServer :: "object_key \<Rightarrow> MCPServer result"

type_synonym 'a walk = "visitedKey list \<Rightarrow> ('a \<times> visitedKey list) result"

text \<open>\<^verbatim>\<open>if ns == "" { ns = fallback }\<close>.\<close>

definition or_ns :: "string \<Rightarrow> string \<Rightarrow> string" where
  "or_ns ns fallback = (if ns = [] then fallback else ns)"

definition transient_hint :: string where
  "transient_hint = ''; re-run the WorkflowRun to re-resolve if this was a transient error''"

definition fetch_error :: "string \<Rightarrow> string \<Rightarrow> string \<Rightarrow> string \<Rightarrow> goerror \<Rightarrow> goerror" where
  "fetch_error kind ns name origin e =
     GoError (err_tags e) (''resolving secret refs: fetching '' @ kind @ '' '' @ ns @ ''/'' @ name @
       '' (referenced by '' @ origin @ ''): '' @ err_msg e @ transient_hint)"

subsection \<open>Walks\<close>

text \<open>The idiom \<^verbatim>\<open>xs, err := ...; if err != nil { return nil, err }; refs = append(refs, xs...)\<close>.\<close>

definition lift_refs :: "'a result \<Rightarrow> 'a walk" where
  "lift_refs r = (\<lambda>visited. bindr r (\<lambda>refs. Inr (refs, visited)))"

definition then_refs :: "'a list walk \<Rightarrow> 'a list walk \<Rightarrow> 'a list walk" where
  "then_refs f g = (\<lambda>visited. bindr (f visited) (\<lambda>r1. bindr (g (snd r1)) (\<lambda>r2. Inr (fst r1 @ fst r2, snd r2))))"

definition refs_opt :: "('a \<Rightarrow> 'b list walk) \<Rightarrow> 'a option \<Rightarrow> 'b list walk" where
  "refs_opt f x = (case x of None \<Rightarrow> lift_refs (Inr []) | Some y \<Rightarrow> f y)"

fun refs_all :: "('a \<Rightarrow> 'b list walk) \<Rightarrow> 'a list \<Rightarrow> 'b list walk" where
  "refs_all f [] = lift_refs (Inr [])"
| "refs_all f (x # xs) = then_refs (f x) (refs_all f xs)"

subsection \<open>References of one object\<close>

definition env_secret_refs :: "MCPServer \<Rightarrow> string \<Rightarrow> bool \<Rightarrow> EnvVar \<Rightarrow> resolvedSecretRef list" where
  "env_secret_refs server base needsRunnerMount ev =
     (case EnvVar_ValueFrom ev of None \<Rightarrow> []
      | Some from \<Rightarrow> (case EnvVarSource_SecretKeyRef from of None \<Rightarrow> []
         | Some sel \<Rightarrow>
             [\<lparr>ref_Namespace = MCPServer_Namespace server, ref_Name = SecretKeySelector_Name sel,
               ref_Key = SecretKeySelector_Key sel, ref_Origin = base @ '' env '' @ quote (EnvVar_Name ev),
               ref_IsKubeconfig = False, ref_EnvVarName = EnvVar_Name ev,
               ref_Optional = (SecretKeySelector_Optional sel = Some True),
               ref_NeedsRunnerMount = needsRunnerMount\<rparr>]))"

definition auth_secret_refs :: "MCPServer \<Rightarrow> string \<Rightarrow> bool \<Rightarrow> AuthConfig \<Rightarrow> resolvedSecretRef list" where
  "auth_secret_refs server base needsRunnerMount auth =
     (case AuthConfig_SecretRef auth of None \<Rightarrow> []
      | Some sr \<Rightarrow>
          (let ns = or_ns (SecretReference_Namespace sr) (MCPServer_Namespace server) in
           if AuthConfig_Type auth = ''basic''
           then (let credOrigin = base @ '' auth.secretRef (basic)'' in
                 [secret_ref ns (SecretReference_Name sr) ''username'' credOrigin needsRunnerMount,
                  secret_ref ns (SecretReference_Name sr) ''password'' credOrigin needsRunnerMount])
           else [secret_ref ns (SecretReference_Name sr) (SecretReference_Key sr)
                   (base @ '' auth.secretRef'') needsRunnerMount]))"

definition oauth2_secret_refs :: "MCPServer \<Rightarrow> string \<Rightarrow> bool \<Rightarrow> OAuth2Config \<Rightarrow> resolvedSecretRef list" where
  "oauth2_secret_refs server base needsRunnerMount oauth =
     (case OAuth2Config_ClientSecretRef oauth of None \<Rightarrow> []
      | Some sr \<Rightarrow>
          [secret_ref (or_ns (SecretReference_Namespace sr) (MCPServer_Namespace server)) (SecretReference_Name sr)
             (SecretReference_Key sr) (base @ '' auth.oauth2.clientSecretRef'') needsRunnerMount]) @
     (case OAuth2Config_ClientCredentialsRef oauth of None \<Rightarrow> []
      | Some cr \<Rightarrow>
          (let ns = or_ns (NamespacedSecretRef_Namespace cr) (MCPServer_Namespace server);
               credOrigin = base @ '' auth.oauth2.clientCredentialsRef'' in
           [secret_ref ns (NamespacedSecretRef_Name cr) ''client_id'' credOrigin needsRunnerMount,
            secret_ref ns (NamespacedSecretRef_Name cr) ''client_secret'' credOrigin needsRunnerMount]))"

definition server_refs :: "MCPServer \<Rightarrow> string \<Rightarrow> bool \<Rightarrow> resolvedSecretRef list" where
  "server_refs server origin needsRunnerMount =
     (let base = origin @ '' (MCPServer '' @ MCPServer_Namespace server @ ''/'' @ MCPServer_Name server @ '')'' in
      concat (map (env_secret_refs server base needsRunnerMount) (MCPServerSpec_Env (MCPServer_Spec server))) @
      (case MCPServerSpec_Auth (MCPServer_Spec server) of None \<Rightarrow> []
       | Some auth \<Rightarrow>
           auth_secret_refs server base needsRunnerMount auth @
           (case AuthConfig_OAuth2 auth of None \<Rightarrow> []
            | Some oauth \<Rightarrow> oauth2_secret_refs server base needsRunnerMount oauth)))"

definition mcpServerSecretRefs ::
  "cluster_reader \<Rightarrow> string \<Rightarrow> string \<Rightarrow> string \<Rightarrow> bool \<Rightarrow> resolvedSecretRef list result" where
  "mcpServerSecretRefs c serverName serverNamespace origin needsRunnerMount =
     (if serverName = [] then Inr []
      else (case rd_MCPServer c (serverNamespace, serverName) of
              Inl e \<Rightarrow> Inl (fetch_error ''MCPServer'' serverNamespace serverName origin e)
            | Inr server \<Rightarrow> Inr (server_refs server origin needsRunnerMount)))"

text \<open>\<^verbatim>\<open>strings.TrimSpace\<close>, and the part before the first colon (\<^verbatim>\<open>strings.Cut\<close>).\<close>

definition is_space :: "char \<Rightarrow> bool" where
  "is_space ch \<longleftrightarrow> (of_char ch :: nat) \<in> {9, 10, 11, 12, 13, 32}"

definition trim_space :: "string \<Rightarrow> string" where
  "trim_space s = List.rev (dropWhile is_space (List.rev (dropWhile is_space s)))"

definition tool_server :: "string \<Rightarrow> string" where
  "tool_server tool = takeWhile (\<lambda>ch. ch \<noteq> CHR '':'') (trim_space tool)"

definition agentRefSecretRefs ::
  "cluster_reader \<Rightarrow> StepAgentRef \<Rightarrow> string \<Rightarrow> string \<Rightarrow> resolvedSecretRef list result" where
  "agentRefSecretRefs c ref effectiveNamespace origin =
     (let ns = or_ns (StepAgentRef_Namespace ref) effectiveNamespace in
      case rd_Agent c (ns, StepAgentRef_Name ref) of
        Inl e \<Rightarrow> Inl (fetch_error ''Agent'' ns (StepAgentRef_Name ref) origin e)
      | Inr agent \<Rightarrow>
          bindr (map_result (\<lambda>tool. mcpServerSecretRefs c (tool_server tool) ns origin False)
                   (AgentSpec_MCPTools (Agent_Spec agent)))
            (\<lambda>refs. Inr (concat refs)))"

definition externalAgentRefSecretRefs :: "StepExternalAgentRef option \<Rightarrow> string \<Rightarrow> string \<Rightarrow> resolvedSecretRef list" where
  "externalAgentRefSecretRefs ref effectiveNamespace origin =
     (case ref of None \<Rightarrow> []
      | Some x \<Rightarrow>
          (case StepExternalAgentRef_CASecretRef x of None \<Rightarrow> []
           | Some ca \<Rightarrow> [secret_ref (or_ns (NamespacedSecretRef_Namespace ca) effectiveNamespace)
               (NamespacedSecretRef_Name ca) ''ca.crt'' (origin @ ''.externalAgentRef.caSecretRef'') True]) @
          (case StepExternalAgentRef_Auth x of None \<Rightarrow> []
           | Some auth \<Rightarrow> (case ExternalAgentAuth_SecretRef auth of None \<Rightarrow> []
              | Some sr \<Rightarrow> [secret_ref (or_ns (SecretReference_Namespace sr) effectiveNamespace)
                  (SecretReference_Name sr) (SecretReference_Key sr)
                  (origin @ ''.externalAgentRef.auth.secretRef'') True])))"

definition fetchStepTemplateStep ::
  "cluster_reader \<Rightarrow> string \<Rightarrow> string \<Rightarrow> string \<Rightarrow> StepTemplateStep result" where
  "fetchStepTemplateStep c namespace name origin =
     (case rd_StepTemplate c (namespace, name) of
        Inl e \<Rightarrow> Inl (fetch_error ''StepTemplate'' namespace name origin e)
      | Inr tpl \<Rightarrow> Inr (StepTemplateSpec_Step tpl))"

subsection \<open>References of a step\<close>

type_synonym sub_walk = "StepWorkflowRef \<Rightarrow> string \<Rightarrow> string \<Rightarrow> resolvedSecretRef list walk"

definition fromRefFields ::
  "cluster_reader \<Rightarrow> sub_walk \<Rightarrow> StepExternalAgentRef option \<Rightarrow> StepMCPToolCall option \<Rightarrow> StepAgentRef option \<Rightarrow>
   StepWorkflowRef option \<Rightarrow> string \<Rightarrow> string \<Rightarrow> resolvedSecretRef list walk" where
  "fromRefFields c sub externalAgentRef mcpToolCall agentRef workflowRef effectiveNamespace origin =
     then_refs (lift_refs (Inr (externalAgentRefSecretRefs externalAgentRef effectiveNamespace origin)))
    (then_refs (refs_opt (\<lambda>mcp. lift_refs (mcpServerSecretRefs c (StepMCPToolCall_Server mcp) effectiveNamespace
                                            (origin @ ''.mcpToolCall'') True)) mcpToolCall)
    (then_refs (refs_opt (\<lambda>ag. lift_refs (agentRefSecretRefs c ag effectiveNamespace (origin @ ''.agentRef''))) agentRef)
               (refs_opt (\<lambda>ref. sub ref effectiveNamespace (origin @ ''.workflowRef'')) workflowRef)))"

definition fromForEachStep ::
  "cluster_reader \<Rightarrow> sub_walk \<Rightarrow> StepForEachStep \<Rightarrow> string \<Rightarrow> string \<Rightarrow> resolvedSecretRef list walk" where
  "fromForEachStep c sub s = fromRefFields c sub (StepForEachStep_ExternalAgentRef s) (StepForEachStep_MCPToolCall s)
     (StepForEachStep_AgentRef s) (StepForEachStep_WorkflowRef s)"

definition fromStepTemplateStep ::
  "cluster_reader \<Rightarrow> sub_walk \<Rightarrow> StepTemplateStep \<Rightarrow> string \<Rightarrow> string \<Rightarrow> resolvedSecretRef list walk" where
  "fromStepTemplateStep c sub s = fromRefFields c sub (StepTemplateStep_ExternalAgentRef s) (StepTemplateStep_MCPToolCall s)
     (StepTemplateStep_AgentRef s) (StepTemplateStep_WorkflowRef s)"

definition stepTemplateRefSecretRefs ::
  "cluster_reader \<Rightarrow> sub_walk \<Rightarrow> StepTemplateRef \<Rightarrow> string \<Rightarrow> string \<Rightarrow> resolvedSecretRef list walk" where
  "stepTemplateRefSecretRefs c sub ref effectiveNamespace origin visited =
     (let ns = or_ns (StepTemplateRef_Namespace ref) effectiveNamespace in
      bindr (fetchStepTemplateStep c ns (StepTemplateRef_Name ref) origin)
        (\<lambda>tplStep. fromStepTemplateStep c sub tplStep effectiveNamespace origin visited))"

definition fromForEach ::
  "cluster_reader \<Rightarrow> sub_walk \<Rightarrow> StepForEach \<Rightarrow> string \<Rightarrow> string \<Rightarrow> resolvedSecretRef list walk" where
  "fromForEach c sub fe effectiveNamespace origin =
     then_refs (refs_opt (\<lambda>s. fromForEachStep c sub s effectiveNamespace (origin @ ''.step'')) (StepForEach_Step fe))
       (refs_opt (\<lambda>ref visited.
           bindr (fetchStepTemplateStep c (or_ns (StepForEachTemplateRef_Namespace ref) effectiveNamespace)
                    (StepForEachTemplateRef_Name ref) (origin @ ''.stepTemplateRef''))
             (\<lambda>tplStep. fromStepTemplateStep c sub tplStep effectiveNamespace (origin @ ''.stepTemplateRef'') visited))
         (StepForEach_StepTemplateRef fe))"

definition fromStep :: "cluster_reader \<Rightarrow> sub_walk \<Rightarrow> Step \<Rightarrow> string \<Rightarrow> string \<Rightarrow> resolvedSecretRef list walk" where
  "fromStep c sub step effectiveNamespace origin =
     then_refs (lift_refs (Inr (externalAgentRefSecretRefs (Step_ExternalAgentRef step) effectiveNamespace origin)))
    (then_refs (refs_opt (\<lambda>mcp. lift_refs (mcpServerSecretRefs c (StepMCPToolCall_Server mcp) effectiveNamespace
                                            (origin @ ''.mcpToolCall'') True)) (Step_MCPToolCall step))
    (then_refs (refs_opt (\<lambda>ag. lift_refs (agentRefSecretRefs c ag effectiveNamespace (origin @ ''.agentRef''))) (Step_AgentRef step))
    (then_refs (refs_opt (\<lambda>ref. stepTemplateRefSecretRefs c sub ref effectiveNamespace (origin @ ''.stepTemplateRef''))
                  (Step_StepTemplateRef step))
    (then_refs (refs_opt (\<lambda>ref. sub ref effectiveNamespace (origin @ ''.workflowRef'')) (Step_WorkflowRef step))
               (refs_opt (\<lambda>fe. fromForEach c sub fe effectiveNamespace (origin @ ''.forEach'')) (Step_ForEach step))))))"

definition depth_error :: "string \<Rightarrow> goerror" where
  "depth_error origin = errorf (''resolving secret refs: workflowRef chain at '' @ origin @ '' exceeds max depth '' @
     utoa maxWorkflowRefDepth @ '' (possible misconfiguration)'')"

primrec workflowRefSecretRefs :: "cluster_reader \<Rightarrow> nat \<Rightarrow> sub_walk" where
  "workflowRefSecretRefs c 0 = (\<lambda>ref effectiveNamespace origin visited. Inl (depth_error origin))"
| "workflowRefSecretRefs c (Suc levels) = (\<lambda>ref effectiveNamespace origin visited.
     (let subNamespace = or_ns (StepWorkflowRef_Namespace ref) effectiveNamespace;
          name = StepWorkflowRef_Name ref;
          vk = workflow_vk subNamespace name in
      if vk \<in> set visited then Inr ([], visited)
      else (case rd_Workflow c (subNamespace, name) of
              Inl e \<Rightarrow> Inl (fetch_error ''sub-Workflow'' subNamespace name origin e)
            | Inr workflow \<Rightarrow>
                refs_all (\<lambda>step. fromStep c (workflowRefSecretRefs c levels) step subNamespace
                    (origin @ '' -> workflow '' @ quote (Workflow_Name workflow) @ '' step '' @ quote (Step_Name step)))
                  (Workflow_Steps workflow) (vk # visited))))"

subsection \<open>References of a run\<close>

definition kubeconfig_refs :: "WorkflowRun \<Rightarrow> resolvedSecretRef list" where
  "kubeconfig_refs run =
     (case WorkflowRunSpec_ClusterRef (WorkflowRun_Spec run) of None \<Rightarrow> []
      | Some cref \<Rightarrow> (case ClusterRef_KubeConfigSecretRef cref of None \<Rightarrow> []
         | Some ref \<Rightarrow>
             [\<lparr>ref_Namespace = or_ns (KubeConfigSecretRef_Namespace ref) (WorkflowRun_Namespace run),
               ref_Name = KubeConfigSecretRef_Name ref, ref_Key = [],
               ref_Origin = ''workflowRun.spec.clusterRef.kubeConfigSecretRef'', ref_IsKubeconfig = True,
               ref_EnvVarName = [], ref_Optional = False, ref_NeedsRunnerMount = True\<rparr>]))"

definition collectSecretRefs ::
  "cluster_reader \<Rightarrow> Workflow \<Rightarrow> WorkflowRun \<Rightarrow> resolvedSecretRef list result" where
  "collectSecretRefs c workflow run =
     bindr (refs_all (\<lambda>step. fromStep c (workflowRefSecretRefs c maxWorkflowRefDepth) step (WorkflowRun_Namespace run)
                 (''step '' @ quote (Step_Name step)))
              (Workflow_Steps workflow) [workflow_vk (Workflow_Namespace workflow) (Workflow_Name workflow)])
       (\<lambda>r. Inr (kubeconfig_refs run @ fst r))"

end
