(* ===== verification/Agent_Needs.thy ===== *)
theory Agent_Needs
  imports Secret_Refs
begin

text \<open>
  Whether a run reaches an agent (\<^verbatim>\<open>internal/workflow/controller/secret_needs_creds.go\<close>): any agentRef, for the
  CA of the agent executor, or one that is certain to run and whose Agent uses the Nirmata provider, for
  the LLM credentials (\<open>requireNirmataProvider\<close>). The walk has the shape of that of \<open>Secret_Refs\<close> and stops at the
  first match; the reader of Agents, uncached in the second case, is an argument of its own. A method of
  \<^verbatim>\<open>agentStepWalker\<close> that shares its name with one of \<^verbatim>\<open>secretRefWalker\<close> has the prefix \<open>needs_\<close>.
\<close>

definition nirmataModelProvider :: string where
  "nirmataModelProvider = ''nirmata''"

type_synonym agent_reader = "object_key \<Rightarrow> Agent result"

text \<open>The idiom \<^verbatim>\<open>found, err := ...; if err != nil || found { return found, err }\<close>.\<close>

definition or_found :: "bool walk \<Rightarrow> bool walk \<Rightarrow> bool walk" where
  "or_found f g = (\<lambda>visited. bindr (f visited) (\<lambda>r. if fst r then Inr r else g (snd r)))"

definition found_opt :: "('a \<Rightarrow> bool walk) \<Rightarrow> 'a option \<Rightarrow> bool walk" where
  "found_opt f x = (case x of None \<Rightarrow> lift_refs (Inr False) | Some y \<Rightarrow> f y)"

fun found_all :: "('a \<Rightarrow> bool walk) \<Rightarrow> 'a list \<Rightarrow> bool walk" where
  "found_all f [] = lift_refs (Inr False)"
| "found_all f (x # xs) = or_found (f x) (found_all f xs)"

definition stepMayNotRun :: "MatchCondition list \<Rightarrow> string \<Rightarrow> bool" where
  "stepMayNotRun matchConditions failurePolicy \<longleftrightarrow> matchConditions \<noteq> [] \<or> failurePolicy = FailurePolicyContinue"

definition agentRefNeeds :: "agent_reader \<Rightarrow> bool \<Rightarrow> StepAgentRef \<Rightarrow> string \<Rightarrow> bool result" where
  "agentRefNeeds agentReader requireNirmataProvider ref effectiveNamespace =
     (if \<not> requireNirmataProvider then Inr True
      else (let ns = or_ns (StepAgentRef_Namespace ref) effectiveNamespace in
            case agentReader (ns, StepAgentRef_Name ref) of
              Inl e \<Rightarrow> if not_found e then Inr False
                       else Inl (wrapf (''fetching Agent '' @ ns @ ''/'' @ StepAgentRef_Name ref @ '': '') e)
            | Inr agent \<Rightarrow> Inr (AgentSpec_ModelProvider (Agent_Spec agent) = [] \<or>
                               AgentSpec_ModelProvider (Agent_Spec agent) = nirmataModelProvider)))"

definition needs_fetchStepTemplateStep :: "cluster_reader \<Rightarrow> string \<Rightarrow> string \<Rightarrow> StepTemplateStep result" where
  "needs_fetchStepTemplateStep c namespace name =
     (case rd_StepTemplate c (namespace, name) of
        Inl e \<Rightarrow> Inl (wrapf (''fetching StepTemplate '' @ namespace @ ''/'' @ name @ '': '') e)
      | Inr tpl \<Rightarrow> Inr (StepTemplateSpec_Step tpl))"

type_synonym sub_needs = "StepWorkflowRef \<Rightarrow> string \<Rightarrow> bool walk"

definition fromLeafRefs ::
  "agent_reader \<Rightarrow> bool \<Rightarrow> sub_needs \<Rightarrow> StepAgentRef option \<Rightarrow> StepWorkflowRef option \<Rightarrow> string \<Rightarrow> bool walk" where
  "fromLeafRefs agentReader requireNirmataProvider sub agentRef workflowRef effectiveNamespace =
     or_found (found_opt (\<lambda>ag. lift_refs (agentRefNeeds agentReader requireNirmataProvider ag effectiveNamespace)) agentRef)
       (found_opt (\<lambda>ref. sub ref effectiveNamespace) workflowRef)"

definition template_needs ::
  "cluster_reader \<Rightarrow> agent_reader \<Rightarrow> bool \<Rightarrow> sub_needs \<Rightarrow> string \<Rightarrow> string \<Rightarrow> string \<Rightarrow> bool walk" where
  "template_needs c agentReader requireNirmataProvider sub ns name effectiveNamespace visited =
     bindr (needs_fetchStepTemplateStep c (or_ns ns effectiveNamespace) name)
       (\<lambda>tplStep. fromLeafRefs agentReader requireNirmataProvider sub (StepTemplateStep_AgentRef tplStep)
          (StepTemplateStep_WorkflowRef tplStep) effectiveNamespace visited)"

definition needs_fromForEach ::
  "cluster_reader \<Rightarrow> agent_reader \<Rightarrow> bool \<Rightarrow> sub_needs \<Rightarrow> StepForEach \<Rightarrow> string \<Rightarrow> bool walk" where
  "needs_fromForEach c agentReader requireNirmataProvider sub fe effectiveNamespace =
     (if requireNirmataProvider then lift_refs (Inr False)
      else or_found (found_opt (\<lambda>s. fromLeafRefs agentReader requireNirmataProvider sub (StepForEachStep_AgentRef s)
                        (StepForEachStep_WorkflowRef s) effectiveNamespace) (StepForEach_Step fe))
             (found_opt (\<lambda>ref. template_needs c agentReader requireNirmataProvider sub
                  (StepForEachTemplateRef_Namespace ref) (StepForEachTemplateRef_Name ref) effectiveNamespace)
                (StepForEach_StepTemplateRef fe)))"

definition needs_fromStep ::
  "cluster_reader \<Rightarrow> agent_reader \<Rightarrow> bool \<Rightarrow> sub_needs \<Rightarrow> Step \<Rightarrow> string \<Rightarrow> bool walk" where
  "needs_fromStep c agentReader requireNirmataProvider sub step effectiveNamespace =
     (if requireNirmataProvider \<and> stepMayNotRun (Step_MatchConditions step) (Step_FailurePolicy step)
      then lift_refs (Inr False)
      else or_found (found_opt (\<lambda>ag. lift_refs (agentRefNeeds agentReader requireNirmataProvider ag effectiveNamespace))
                       (Step_AgentRef step))
          (or_found (found_opt (\<lambda>ref. sub ref effectiveNamespace) (Step_WorkflowRef step))
          (or_found (found_opt (\<lambda>ref. template_needs c agentReader requireNirmataProvider sub
                        (StepTemplateRef_Namespace ref) (StepTemplateRef_Name ref) effectiveNamespace)
                       (Step_StepTemplateRef step))
                    (found_opt (\<lambda>fe. needs_fromForEach c agentReader requireNirmataProvider sub fe effectiveNamespace)
                       (Step_ForEach step)))))"

primrec fromWorkflowRef :: "cluster_reader \<Rightarrow> agent_reader \<Rightarrow> bool \<Rightarrow> nat \<Rightarrow> sub_needs" where
  "fromWorkflowRef c agentReader requireNirmataProvider 0 = (\<lambda>ref effectiveNamespace visited.
     Inl (errorf (''workflowRef chain exceeds max depth '' @ utoa maxWorkflowRefDepth @ '' (possible misconfiguration)'')))"
| "fromWorkflowRef c agentReader requireNirmataProvider (Suc levels) = (\<lambda>ref effectiveNamespace visited.
     (let subNamespace = or_ns (StepWorkflowRef_Namespace ref) effectiveNamespace;
          name = StepWorkflowRef_Name ref;
          vk = workflow_vk subNamespace name in
      if vk \<in> set visited then Inr (False, visited)
      else (case rd_Workflow c (subNamespace, name) of
              Inl e \<Rightarrow> Inl (wrapf (''fetching sub-Workflow '' @ subNamespace @ ''/'' @ name @ '': '') e)
            | Inr workflow \<Rightarrow>
                found_all (\<lambda>s. needs_fromStep c agentReader requireNirmataProvider
                     (fromWorkflowRef c agentReader requireNirmataProvider levels) s subNamespace)
                  (Workflow_Steps workflow) (vk # visited))))"

definition walkAgentSteps ::
  "cluster_reader \<Rightarrow> agent_reader \<Rightarrow> Workflow \<Rightarrow> string \<Rightarrow> bool \<Rightarrow> bool result" where
  "walkAgentSteps c agentReader workflow runNamespace requireNirmataProvider =
     bindr (found_all (\<lambda>step. needs_fromStep c agentReader requireNirmataProvider
                 (fromWorkflowRef c agentReader requireNirmataProvider maxWorkflowRefDepth) step runNamespace)
              (Workflow_Steps workflow) [workflow_vk (Workflow_Namespace workflow) (Workflow_Name workflow)])
       (\<lambda>r. Inr (fst r))"

definition workflowNeedsAgentExecutor :: "cluster_reader \<Rightarrow> Workflow \<Rightarrow> string \<Rightarrow> bool result" where
  "workflowNeedsAgentExecutor c workflow runNamespace =
     wrap_err ''checking agent-executor need: '' (walkAgentSteps c (rd_Agent c) workflow runNamespace False)"

definition workflowNeedsNirmataLLMCredentials ::
  "cluster_reader \<Rightarrow> agent_reader \<Rightarrow> Workflow \<Rightarrow> string \<Rightarrow> bool result" where
  "workflowNeedsNirmataLLMCredentials c agentReader workflow runNamespace =
     wrap_err ''checking Nirmata LLM credential need: '' (walkAgentSteps c agentReader workflow runNamespace True)"

end
