(* ===== verification/Workflow_Reach.thy ===== *)
theory Workflow_Reach
  imports Agent_Needs
begin

text \<open>
  What the walks of \<open>Secret_Refs\<close> and \<open>Agent_Needs\<close> compute. \<open>reached\<close> is the reachability of steps through workflowRef,
  of the step itself, of its forEach child and of the StepTemplates they use; with \<open>strict\<close> only through steps that are certain to
  run. \<open>body_names\<close> says which keys of which Secrets a step names. \<open>explored\<close> is the invariant of a depth-first walk with a visited set; the
  locales \<open>secret_explorer\<close> and \<open>agent_explorer\<close> are what the walk of a step needs of the walk of a sub-Workflow.
\<close>

subsection \<open>Reachable steps\<close>

record ref_body =
  body_ExternalAgentRef :: "StepExternalAgentRef option"
  body_MCPToolCall :: "StepMCPToolCall option"
  body_AgentRef :: "StepAgentRef option"
  body_WorkflowRef :: "StepWorkflowRef option"

definition step_body :: "Step \<Rightarrow> ref_body" where
  "step_body s = \<lparr>body_ExternalAgentRef = Step_ExternalAgentRef s, body_MCPToolCall = Step_MCPToolCall s,
     body_AgentRef = Step_AgentRef s, body_WorkflowRef = Step_WorkflowRef s\<rparr>"

definition child_body :: "StepForEachStep \<Rightarrow> ref_body" where
  "child_body s = \<lparr>body_ExternalAgentRef = StepForEachStep_ExternalAgentRef s, body_MCPToolCall = StepForEachStep_MCPToolCall s,
     body_AgentRef = StepForEachStep_AgentRef s, body_WorkflowRef = StepForEachStep_WorkflowRef s\<rparr>"

definition template_body :: "StepTemplateStep \<Rightarrow> ref_body" where
  "template_body s = \<lparr>body_ExternalAgentRef = StepTemplateStep_ExternalAgentRef s, body_MCPToolCall = StepTemplateStep_MCPToolCall s,
     body_AgentRef = StepTemplateStep_AgentRef s, body_WorkflowRef = StepTemplateStep_WorkflowRef s\<rparr>"

definition template_bodies :: "cluster_reader \<Rightarrow> string \<Rightarrow> string \<Rightarrow> ref_body list" where
  "template_bodies c ns name =
     (case rd_StepTemplate c (ns, name) of Inl e \<Rightarrow> [] | Inr tpl \<Rightarrow> [template_body (StepTemplateSpec_Step tpl)])"

definition foreach_bodies :: "cluster_reader \<Rightarrow> string \<Rightarrow> StepForEach \<Rightarrow> ref_body list" where
  "foreach_bodies c ns fe =
     (case StepForEach_Step fe of None \<Rightarrow> [] | Some s \<Rightarrow> [child_body s]) @
     (case StepForEach_StepTemplateRef fe of None \<Rightarrow> []
      | Some ref \<Rightarrow> template_bodies c (or_ns (StepForEachTemplateRef_Namespace ref) ns) (StepForEachTemplateRef_Name ref))"

definition step_bodies :: "cluster_reader \<Rightarrow> bool \<Rightarrow> string \<Rightarrow> Step \<Rightarrow> ref_body list" where
  "step_bodies c strict ns step =
     step_body step #
     (case Step_StepTemplateRef step of None \<Rightarrow> []
      | Some ref \<Rightarrow> template_bodies c (or_ns (StepTemplateRef_Namespace ref) ns) (StepTemplateRef_Name ref)) @
     (case Step_ForEach step of None \<Rightarrow> [] | Some fe \<Rightarrow> if strict then [] else foreach_bodies c ns fe)"

definition ref_target :: "string \<Rightarrow> StepWorkflowRef \<Rightarrow> object_key" where
  "ref_target ns ref = (or_ns (StepWorkflowRef_Namespace ref) ns, StepWorkflowRef_Name ref)"

definition counted :: "bool \<Rightarrow> Step \<Rightarrow> bool" where
  "counted strict step \<longleftrightarrow> \<not> (strict \<and> stepMayNotRun (Step_MatchConditions step) (Step_FailurePolicy step))"

inductive reached :: "cluster_reader \<Rightarrow> bool \<Rightarrow> Step list \<Rightarrow> string \<Rightarrow> string \<Rightarrow> Step \<Rightarrow> bool"
  for c strict steps runNamespace where
  reached_root: "step \<in> set steps \<Longrightarrow> counted strict step \<Longrightarrow> reached c strict steps runNamespace runNamespace step"
| reached_sub: "reached c strict steps runNamespace ns step \<Longrightarrow> b \<in> set (step_bodies c strict ns step) \<Longrightarrow>
    body_WorkflowRef b = Some ref \<Longrightarrow> rd_Workflow c (ref_target ns ref) = Inr workflow \<Longrightarrow>
    step' \<in> set (Workflow_Steps workflow) \<Longrightarrow> counted strict step' \<Longrightarrow>
    reached c strict steps runNamespace (fst (ref_target ns ref)) step'"

subsection \<open>Secrets a step names\<close>

inductive server_names :: "MCPServer \<Rightarrow> string \<Rightarrow> string \<Rightarrow> string \<Rightarrow> bool" for server where
  names_env: "ev \<in> set (MCPServerSpec_Env (MCPServer_Spec server)) \<Longrightarrow> EnvVar_ValueFrom ev = Some from \<Longrightarrow>
    EnvVarSource_SecretKeyRef from = Some sel \<Longrightarrow>
    server_names server (MCPServer_Namespace server) (SecretKeySelector_Name sel) (SecretKeySelector_Key sel)"
| names_basic: "MCPServerSpec_Auth (MCPServer_Spec server) = Some auth \<Longrightarrow> AuthConfig_SecretRef auth = Some sr \<Longrightarrow>
    AuthConfig_Type auth = ''basic'' \<Longrightarrow> key \<in> {''username'', ''password''} \<Longrightarrow>
    server_names server (or_ns (SecretReference_Namespace sr) (MCPServer_Namespace server)) (SecretReference_Name sr) key"
| names_token: "MCPServerSpec_Auth (MCPServer_Spec server) = Some auth \<Longrightarrow> AuthConfig_SecretRef auth = Some sr \<Longrightarrow>
    AuthConfig_Type auth \<noteq> ''basic'' \<Longrightarrow>
    server_names server (or_ns (SecretReference_Namespace sr) (MCPServer_Namespace server)) (SecretReference_Name sr)
      (SecretReference_Key sr)"
| names_client_secret: "MCPServerSpec_Auth (MCPServer_Spec server) = Some auth \<Longrightarrow> AuthConfig_OAuth2 auth = Some oauth \<Longrightarrow>
    OAuth2Config_ClientSecretRef oauth = Some sr \<Longrightarrow>
    server_names server (or_ns (SecretReference_Namespace sr) (MCPServer_Namespace server)) (SecretReference_Name sr)
      (SecretReference_Key sr)"
| names_client_credentials: "MCPServerSpec_Auth (MCPServer_Spec server) = Some auth \<Longrightarrow> AuthConfig_OAuth2 auth = Some oauth \<Longrightarrow>
    OAuth2Config_ClientCredentialsRef oauth = Some cr \<Longrightarrow> key \<in> {''client_id'', ''client_secret''} \<Longrightarrow>
    server_names server (or_ns (NamespacedSecretRef_Namespace cr) (MCPServer_Namespace server)) (NamespacedSecretRef_Name cr) key"

text \<open>Namespace, name and key, and who needs it: the runner, only the agent executor, or the runner the whole Secret.\<close>

datatype use_kind = RunnerKey | ExecutorKey | WholeSecret

type_synonym secret_use = "string \<times> string \<times> string \<times> use_kind"

inductive body_names :: "cluster_reader \<Rightarrow> string \<Rightarrow> ref_body \<Rightarrow> secret_use \<Rightarrow> bool" for c ns b where
  names_ca: "body_ExternalAgentRef b = Some x \<Longrightarrow> StepExternalAgentRef_CASecretRef x = Some ca \<Longrightarrow>
    body_names c ns b (or_ns (NamespacedSecretRef_Namespace ca) ns, NamespacedSecretRef_Name ca, ''ca.crt'', RunnerKey)"
| names_bearer: "body_ExternalAgentRef b = Some x \<Longrightarrow> StepExternalAgentRef_Auth x = Some auth \<Longrightarrow>
    ExternalAgentAuth_SecretRef auth = Some sr \<Longrightarrow>
    body_names c ns b (or_ns (SecretReference_Namespace sr) ns, SecretReference_Name sr, SecretReference_Key sr, RunnerKey)"
| names_tool: "body_MCPToolCall b = Some mcp \<Longrightarrow> StepMCPToolCall_Server mcp \<noteq> [] \<Longrightarrow>
    rd_MCPServer c (ns, StepMCPToolCall_Server mcp) = Inr server \<Longrightarrow> server_names server ns' name key \<Longrightarrow>
    body_names c ns b (ns', name, key, RunnerKey)"
| names_agent: "body_AgentRef b = Some ag \<Longrightarrow> agentNs = or_ns (StepAgentRef_Namespace ag) ns \<Longrightarrow>
    rd_Agent c (agentNs, StepAgentRef_Name ag) = Inr agent \<Longrightarrow> tool \<in> set (AgentSpec_MCPTools (Agent_Spec agent)) \<Longrightarrow>
    tool_server tool \<noteq> [] \<Longrightarrow> rd_MCPServer c (agentNs, tool_server tool) = Inr server \<Longrightarrow>
    server_names server ns' name key \<Longrightarrow> body_names c ns b (ns', name, key, ExecutorKey)"

definition key_kind :: "bool \<Rightarrow> use_kind" where
  "key_kind needsRunnerMount = (if needsRunnerMount then RunnerKey else ExecutorKey)"

definition secret_use :: "resolvedSecretRef \<Rightarrow> secret_use" where
  "secret_use r = (ref_Namespace r, ref_Name r, ref_Key r,
     if ref_IsKubeconfig r then WholeSecret else key_kind (ref_NeedsRunnerMount r))"

definition uses :: "resolvedSecretRef list \<Rightarrow> secret_use set" where
  "uses rs = secret_use ` set rs"

definition body_uses :: "cluster_reader \<Rightarrow> string \<Rightarrow> ref_body \<Rightarrow> secret_use set" where
  "body_uses c ns b = {s. body_names c ns b s}"

text \<open>A fact that holds of a body that is reached.\<close>

definition finds :: "cluster_reader \<Rightarrow> bool \<Rightarrow> (string \<Rightarrow> ref_body \<Rightarrow> bool) \<Rightarrow> Step list \<Rightarrow> string \<Rightarrow> bool" where
  "finds c strict Q steps runNamespace \<longleftrightarrow>
     (\<exists>ns step b. reached c strict steps runNamespace ns step \<and> b \<in> set (step_bodies c strict ns step) \<and> Q ns b)"

subsection \<open>Exploration\<close>

definition vk_of :: "object_key \<Rightarrow> visitedKey" where
  "vk_of k = workflow_vk (fst k) (snd k)"

definition covers ::
  "cluster_reader \<Rightarrow> bool \<Rightarrow> (string \<Rightarrow> ref_body \<Rightarrow> bool) \<Rightarrow> visitedKey list \<Rightarrow> string \<Rightarrow> Step \<Rightarrow> bool" where
  "covers c strict P visited ns step \<longleftrightarrow>
     (counted strict step \<longrightarrow> (\<forall>b \<in> set (step_bodies c strict ns step).
        P ns b \<and> (\<forall>ref. body_WorkflowRef b = Some ref \<longrightarrow> vk_of (ref_target ns ref) \<in> set visited)))"

definition explored ::
  "cluster_reader \<Rightarrow> bool \<Rightarrow> (string \<Rightarrow> ref_body \<Rightarrow> bool) \<Rightarrow> visitedKey list \<Rightarrow> visitedKey list \<Rightarrow> bool" where
  "explored c strict P v v' \<longleftrightarrow> set v \<subseteq> set v' \<and>
     (\<forall>k. vk_of k \<in> set v' \<longrightarrow> vk_of k \<notin> set v \<longrightarrow>
        (\<exists>workflow. rd_Workflow c k = Inr workflow \<and>
           (\<forall>step \<in> set (Workflow_Steps workflow). covers c strict P v' (fst k) step)))"

lemma vk_of_inj [simp]: "vk_of a = vk_of b \<longleftrightarrow> a = b"
  by (auto simp: vk_of_def workflow_vk_def prod_eq_iff)

lemma covers_mono:
  "covers c strict P v ns step \<Longrightarrow> (\<And>ns b. P ns b \<Longrightarrow> Q ns b) \<Longrightarrow> set v \<subseteq> set v' \<Longrightarrow> covers c strict Q v' ns step"
  unfolding covers_def by blast

lemma explored_refl: "explored c strict P v v"
  by (simp add: explored_def)

lemma explored_trans:
  assumes 1: "explored c strict P v v1" and 2: "explored c strict Q v1 v2"
    and P: "\<And>ns b. P ns b \<Longrightarrow> R ns b" and Q: "\<And>ns b. Q ns b \<Longrightarrow> R ns b"
  shows "explored c strict R v v2"
  unfolding explored_def
proof (intro conjI allI impI)
  show "set v \<subseteq> set v2" using 1 2 unfolding explored_def by blast
  fix k assume k: "vk_of k \<in> set v2" "vk_of k \<notin> set v"
  show "\<exists>workflow. rd_Workflow c k = Inr workflow \<and>
      (\<forall>step\<in>set (Workflow_Steps workflow). covers c strict R v2 (fst k) step)"
  proof (cases "vk_of k \<in> set v1")
    case True
    with 1 k obtain wfl where "rd_Workflow c k = Inr wfl"
      "\<And>step. step \<in> set (Workflow_Steps wfl) \<Longrightarrow> covers c strict P v1 (fst k) step"
      unfolding explored_def by blast
    moreover have "set v1 \<subseteq> set v2" using 2 unfolding explored_def by blast
    ultimately show ?thesis using covers_mono [where P = P and Q = R, OF _ P] by blast
  next
    case False
    with 2 k obtain wfl where "rd_Workflow c k = Inr wfl"
      "\<And>step. step \<in> set (Workflow_Steps wfl) \<Longrightarrow> covers c strict Q v2 (fst k) step"
      unfolding explored_def by blast
    then show ?thesis using covers_mono [where P = Q and Q = R, OF _ Q order_refl] by blast
  qed
qed

lemma explored_push:
  assumes "explored c strict P (vk_of k # v) v'" "rd_Workflow c k = Inr workflow"
    "\<And>step. step \<in> set (Workflow_Steps workflow) \<Longrightarrow> covers c strict P v' (fst k) step"
  shows "explored c strict P v v'"
  unfolding explored_def
proof (intro conjI allI impI)
  show "set v \<subseteq> set v'" using assms(1) unfolding explored_def by auto
  fix k' assume "vk_of k' \<in> set v'" "vk_of k' \<notin> set v"
  then show "\<exists>workflow. rd_Workflow c k' = Inr workflow \<and>
      (\<forall>step\<in>set (Workflow_Steps workflow). covers c strict P v' (fst k') step)"
    using assms unfolding explored_def by (cases "k' = k") (blast, metis set_ConsD vk_of_inj)
qed

text \<open>The visited set is closed, so the fact holds everywhere.\<close>

lemma explored_reached:
  assumes ex: "explored c strict P [vk_of root] v"
    and root: "rd_Workflow c root = Inr workflow" "fst root = runNamespace"
    and top: "\<And>step. step \<in> set (Workflow_Steps workflow) \<Longrightarrow> covers c strict P v runNamespace step"
    and "reached c strict (Workflow_Steps workflow) runNamespace ns step"
  shows "counted strict step \<and> covers c strict P v ns step"
  using assms(5)
proof (induction rule: reached.induct)
  case (reached_root step)
  with top show ?case by blast
next
  case (reached_sub ns step b ref wfl step')
  let ?k = "ref_target ns ref"
  have "vk_of ?k \<in> set v" using reached_sub unfolding covers_def by blast
  then consider "?k = root" | "vk_of ?k \<in> set v" "vk_of ?k \<notin> set [vk_of root]" by auto
  then have "covers c strict P v (fst ?k) step'"
  proof cases
    case 1
    with root reached_sub.hyps have "wfl = workflow" by simp
    with 1 top reached_sub.hyps root show ?thesis by simp
  next
    case 2
    with ex reached_sub.hyps show ?thesis unfolding explored_def by fastforce
  qed
  with reached_sub.hyps show ?case by blast
qed

lemma not_found_anywhere:
  assumes "explored c strict P [vk_of root] v" "rd_Workflow c root = Inr workflow" "fst root = runNamespace"
    and "\<And>step. step \<in> set (Workflow_Steps workflow) \<Longrightarrow> covers c strict P v runNamespace step"
    and "\<And>ns b. P ns b \<Longrightarrow> \<not> Q ns b"
  shows "\<not> finds c strict Q (Workflow_Steps workflow) runNamespace"
proof
  assume "finds c strict Q (Workflow_Steps workflow) runNamespace"
  then obtain ns step b where "reached c strict (Workflow_Steps workflow) runNamespace ns step"
    "b \<in> set (step_bodies c strict ns step)" "Q ns b" unfolding finds_def by blast
  with explored_reached [OF assms(1-4)] assms(5) show False unfolding covers_def by blast
qed

subsection \<open>Finding\<close>

lemma reached_via:
  assumes "reached c strict (Workflow_Steps workflow) (fst (ref_target ns ref)) ns' step'"
    and "reached c strict steps runNamespace ns step" "b \<in> set (step_bodies c strict ns step)"
    "body_WorkflowRef b = Some ref" "rd_Workflow c (ref_target ns ref) = Inr workflow"
  shows "reached c strict steps runNamespace ns' step'"
  using assms by (induction rule: reached.induct) (blast intro: reached.intros)+

lemma reached_steps_mono:
  "reached c strict steps ns0 ns step \<Longrightarrow> set steps \<subseteq> set steps' \<Longrightarrow> reached c strict steps' ns0 ns step"
  by (induction rule: reached.induct) (blast intro: reached.intros)+

lemma finds_here:
  "counted strict step \<Longrightarrow> step \<in> set steps \<Longrightarrow> b \<in> set (step_bodies c strict ns step) \<Longrightarrow> Q ns b \<Longrightarrow>
   finds c strict Q steps ns"
  unfolding finds_def by (blast intro: reached_root)

lemma finds_below:
  assumes "counted strict step" "step \<in> set steps" "b \<in> set (step_bodies c strict ns step)"
    "body_WorkflowRef b = Some ref" "rd_Workflow c (ref_target ns ref) = Inr workflow"
    "finds c strict Q (Workflow_Steps workflow) (fst (ref_target ns ref))"
  shows "finds c strict Q steps ns"
  using assms reached_via [OF _ reached_root [OF assms(2,1)] assms(3-5)] unfolding finds_def by blast

end
