(* ===== verification/Secret_Walks.thy ===== *)
theory Secret_Walks
  imports Workflow_Reach
begin

text \<open>
  The walk over Secret references finds exactly what the reachable steps name, and it returns: the
  contract \<open>walk_ok\<close> of a walk, the locale \<open>secret_explorer\<close> in which the walk of a step is verified once, and its
  interpretation on the walk of a sub-Workflow at every level.
\<close>

subsection \<open>The Secrets of one object\<close>

lemma uses_simps [simp]: "uses [] = {}" "uses (r # rs) = insert (secret_use r) (uses rs)" "uses (xs @ ys) = uses xs \<union> uses ys"
  by (auto simp: uses_def)

lemma uses_concat [simp]: "uses (concat xss) = (\<Union>xs \<in> set xss. uses xs)"
  by (induction xss) auto

lemma secret_use_ref [simp]: "secret_use (secret_ref ns name key origin m) = (ns, name, key, key_kind m)"
  by (simp add: secret_use_def secret_ref_def)

lemma env_uses:
  "uses (env_secret_refs server base m ev) =
     {(MCPServer_Namespace server, SecretKeySelector_Name sel, SecretKeySelector_Key sel, key_kind m) | sel from.
        EnvVar_ValueFrom ev = Some from \<and> EnvVarSource_SecretKeyRef from = Some sel}"
  by (auto simp: env_secret_refs_def secret_use_def split: option.splits)

definition server_uses :: "MCPServer \<Rightarrow> bool \<Rightarrow> secret_use set" where
  "server_uses server m = {(ns, name, key, key_kind m) | ns name key. server_names server ns name key}"

lemma server_uses_eq: "uses (server_refs server origin m) = server_uses server m"
proof (rule equalityI)
  show "uses (server_refs server origin m) \<subseteq> server_uses server m"
    by (auto simp: server_refs_def server_uses_def env_uses auth_secret_refs_def oauth2_secret_refs_def Let_def
        split: option.splits if_splits intro: server_names.intros)
  show "server_uses server m \<subseteq> uses (server_refs server origin m)"
  proof
    fix s assume "s \<in> server_uses server m"
    then obtain ns name key where s: "s = (ns, name, key, key_kind m)" and n: "server_names server ns name key"
      by (auto simp: server_uses_def)
    from n show "s \<in> uses (server_refs server origin m)"
      unfolding s
    proof (cases rule: server_names.cases)
      case (names_env ev src sel)
      then have "(ns, name, key, key_kind m) \<in> uses (env_secret_refs server base m ev)" for base
        by (simp add: env_uses)
      with names_env show "(ns, name, key, key_kind m) \<in> uses (server_refs server origin m)"
        by (auto simp: server_refs_def Let_def)
    qed (auto simp: server_refs_def auth_secret_refs_def oauth2_secret_refs_def Let_def)
  qed
qed

definition named_server_uses :: "cluster_reader \<Rightarrow> string \<Rightarrow> string \<Rightarrow> bool \<Rightarrow> secret_use set" where
  "named_server_uses c ns name m =
     (if name = [] then {} else case rd_MCPServer c (ns, name) of Inl e \<Rightarrow> {} | Inr server \<Rightarrow> server_uses server m)"

lemma named_server_uses_iff:
  "s \<in> named_server_uses c ns name m \<longleftrightarrow> name \<noteq> [] \<and>
     (\<exists>server ns' n k. rd_MCPServer c (ns, name) = Inr server \<and> server_names server ns' n k \<and> s = (ns', n, k, key_kind m))"
  by (auto simp: named_server_uses_def server_uses_def split: sum.splits)

lemma mcpServerSecretRefs_uses:
  "mcpServerSecretRefs c name ns origin m = Inr rs \<Longrightarrow> uses rs = named_server_uses c ns name m"
  by (auto simp: mcpServerSecretRefs_def named_server_uses_def server_uses_eq split: if_splits sum.splits)

definition agent_uses :: "cluster_reader \<Rightarrow> string \<Rightarrow> StepAgentRef \<Rightarrow> secret_use set" where
  "agent_uses c ns ref =
     (let agentNs = or_ns (StepAgentRef_Namespace ref) ns in
      case rd_Agent c (agentNs, StepAgentRef_Name ref) of Inl e \<Rightarrow> {}
      | Inr agent \<Rightarrow> (\<Union>tool \<in> set (AgentSpec_MCPTools (Agent_Spec agent)). named_server_uses c agentNs (tool_server tool) False))"

lemma map_result_uses:
  assumes "map_result f xs = Inr yss" "\<And>x ys. f x = Inr ys \<Longrightarrow> uses ys = g x"
  shows "(\<Union>ys \<in> set yss. uses ys) = (\<Union>x \<in> set xs. g x)"
  using assms(1)
proof (induction xs arbitrary: yss)
  case (Cons x xs)
  then obtain ys zss where "f x = Inr ys" "map_result f xs = Inr zss" "yss = ys # zss"
    by (auto simp: bindr_Inr)
  with Cons.IH assms(2) show ?case by (simp del: Union_iff UN_iff)
qed simp

lemma agentRefSecretRefs_uses:
  "agentRefSecretRefs c ref ns origin = Inr rs \<Longrightarrow> uses rs = agent_uses c ns ref"
  by (auto simp: agentRefSecretRefs_def agent_uses_def Let_def bindr_Inr split: sum.splits
      dest!: map_result_uses [OF _ mcpServerSecretRefs_uses])

definition external_uses :: "string \<Rightarrow> StepExternalAgentRef option \<Rightarrow> secret_use set" where
  "external_uses ns x = uses (externalAgentRefSecretRefs x ns [])"

lemma external_uses_eq: "uses (externalAgentRefSecretRefs x ns origin) = external_uses ns x"
  by (auto simp: external_uses_def externalAgentRefSecretRefs_def split: option.splits)

lemma body_uses_eq:
  "body_uses c ns b = external_uses ns (body_ExternalAgentRef b) \<union>
     (case body_MCPToolCall b of None \<Rightarrow> {} | Some mcp \<Rightarrow> named_server_uses c ns (StepMCPToolCall_Server mcp) True) \<union>
     (case body_AgentRef b of None \<Rightarrow> {} | Some ag \<Rightarrow> agent_uses c ns ag)" (is "_ = ?E \<union> ?M \<union> ?A")
proof (rule equalityI; rule subsetI)
  fix s assume "s \<in> body_uses c ns b"
  then have "body_names c ns b s" by (simp add: body_uses_def)
  then show "s \<in> ?E \<union> ?M \<union> ?A"
    by cases (auto simp: external_uses_def externalAgentRefSecretRefs_def named_server_uses_iff agent_uses_def
        key_kind_def Let_def intro!: bexI)
next
  fix s assume "s \<in> ?E \<union> ?M \<union> ?A"
  then consider "s \<in> ?E" | "s \<in> ?M" | "s \<in> ?A" by blast
  then have "body_names c ns b s"
  proof cases
    case 1
    then show ?thesis
      by (auto simp: external_uses_def externalAgentRefSecretRefs_def key_kind_def split: option.splits intro: body_names.intros)
  next
    case 2
    then show ?thesis
      by (auto simp: named_server_uses_iff key_kind_def split: option.splits intro: names_tool)
  next
    case 3
    then show ?thesis
      by (auto simp: agent_uses_def named_server_uses_iff key_kind_def Let_def split: option.splits sum.splits intro: names_agent)
  qed
  then show "s \<in> body_uses c ns b" by (simp add: body_uses_def)
qed

subsection \<open>The contract of a walk\<close>

definition below :: "cluster_reader \<Rightarrow> string \<Rightarrow> StepWorkflowRef \<Rightarrow> secret_use \<Rightarrow> bool" where
  "below c ns ref s \<longleftrightarrow> (\<exists>workflow. rd_Workflow c (ref_target ns ref) = Inr workflow \<and>
     finds c False (\<lambda>ns b. s \<in> body_uses c ns b) (Workflow_Steps workflow) (fst (ref_target ns ref)))"

definition walk_ok ::
  "cluster_reader \<Rightarrow> string \<Rightarrow> secret_use set \<Rightarrow> StepWorkflowRef set \<Rightarrow> resolvedSecretRef list walk \<Rightarrow> bool" where
  "walk_ok c ns S T w \<longleftrightarrow> (\<forall>v rs v'. w v = Inr (rs, v') \<longrightarrow>
     explored c False (\<lambda>ns b. body_uses c ns b \<subseteq> uses rs) v v' \<and> S \<subseteq> uses rs \<and>
     (\<forall>ref \<in> T. vk_of (ref_target ns ref) \<in> set v') \<and>
     (\<forall>s \<in> uses rs. s \<in> S \<or> (\<exists>ref \<in> T. below c ns ref s)))"

lemma walk_ok_lift:
  assumes "\<And>rs. r = Inr rs \<Longrightarrow> uses rs = S"
  shows "walk_ok c ns S {} (lift_refs r)"
  using assms by (auto simp: walk_ok_def lift_refs_def bindr_Inr explored_refl)

lemma walk_ok_then:
  assumes f: "walk_ok c ns S T f" and g: "walk_ok c ns S' T' g"
  shows "walk_ok c ns (S \<union> S') (T \<union> T') (then_refs f g)"
  unfolding walk_ok_def
proof (intro allI impI)
  fix v rs v' assume "then_refs f g v = Inr (rs, v')"
  then obtain rs1 v1 rs2 where fv: "f v = Inr (rs1, v1)" and gv: "g v1 = Inr (rs2, v')" and rs: "rs = rs1 @ rs2"
    by (auto simp: then_refs_def bindr_Inr)
  note F = f [unfolded walk_ok_def, rule_format, OF fv]
  note G = g [unfolded walk_ok_def, rule_format, OF gv]
  have "set v1 \<subseteq> set v'" using G unfolding explored_def by blast
  moreover have "explored c False (\<lambda>ns b. body_uses c ns b \<subseteq> uses rs) v v'"
    by (rule explored_trans [OF conjunct1 [OF F] conjunct1 [OF G]]) (auto simp: rs)
  ultimately show "explored c False (\<lambda>ns b. body_uses c ns b \<subseteq> uses rs) v v' \<and> S \<union> S' \<subseteq> uses rs \<and>
     (\<forall>ref \<in> T \<union> T'. vk_of (ref_target ns ref) \<in> set v') \<and>
     (\<forall>s \<in> uses rs. s \<in> S \<union> S' \<or> (\<exists>ref \<in> T \<union> T'. below c ns ref s))"
    using F G unfolding rs uses_simps by blast
qed

lemma walk_ok_opt:
  assumes "\<And>y. x = Some y \<Longrightarrow> walk_ok c ns (S y) (T y) (f y)"
  shows "walk_ok c ns (case x of None \<Rightarrow> {} | Some y \<Rightarrow> S y) (case x of None \<Rightarrow> {} | Some y \<Rightarrow> T y) (refs_opt f x)"
  using assms walk_ok_lift [of "Inr []" "{}"] by (cases x) (simp_all add: refs_opt_def)

lemma walk_ok_bind:
  assumes "\<And>x. r = Inr x \<Longrightarrow> walk_ok c ns S T (f x)"
  shows "walk_ok c ns S T (\<lambda>v. bindr r (\<lambda>x. f x v))"
  using assms by (cases r) (simp_all add: walk_ok_def)

lemma walk_ok_all:
  assumes "\<And>x. x \<in> set xs \<Longrightarrow> walk_ok c ns (S x) (T x) (f x)"
  shows "walk_ok c ns (\<Union>x \<in> set xs. S x) (\<Union>x \<in> set xs. T x) (refs_all f xs)"
  using assms
proof (induction xs)
  case Nil
  then show ?case using walk_ok_lift [of "Inr []" "{}"] by simp
next
  case (Cons x xs)
  then show ?case using walk_ok_then [of c ns "S x" "T x" "f x" "\<Union>x \<in> set xs. S x"] by simp
qed

lemma walk_ok_cong: "walk_ok c ns S T w \<Longrightarrow> S = S' \<Longrightarrow> T = T' \<Longrightarrow> walk_ok c ns S' T' w"
  by simp

lemma counted_lax: "counted False step"
  by (simp add: counted_def)

definition body_refs :: "ref_body list \<Rightarrow> StepWorkflowRef set" where
  "body_refs bs = {ref. \<exists>b \<in> set bs. body_WorkflowRef b = Some ref}"

definition all_uses :: "cluster_reader \<Rightarrow> string \<Rightarrow> ref_body list \<Rightarrow> secret_use set" where
  "all_uses c ns bs = (\<Union>b \<in> set bs. body_uses c ns b)"

subsection \<open>The walk of a step\<close>

locale secret_explorer =
  fixes c :: cluster_reader and sub :: sub_walk
  assumes sub_ok: "walk_ok c ns {} {ref} (sub ref ns origin)"
begin

lemma own_ok:
  "walk_ok c ns (external_uses ns x) {} (lift_refs (Inr (externalAgentRefSecretRefs x ns origin)))"
  "walk_ok c ns (case mo of None \<Rightarrow> {} | Some mcp \<Rightarrow> named_server_uses c ns (StepMCPToolCall_Server mcp) True) {}
     (refs_opt (\<lambda>mcp. lift_refs (mcpServerSecretRefs c (StepMCPToolCall_Server mcp) ns origin2 True)) mo)"
  "walk_ok c ns (case ao of None \<Rightarrow> {} | Some ag \<Rightarrow> agent_uses c ns ag) {}
     (refs_opt (\<lambda>ag. lift_refs (agentRefSecretRefs c ag ns origin3)) ao)"
  "walk_ok c ns {} (set_option wo) (refs_opt (\<lambda>ref. sub ref ns origin4) wo)"
proof -
  show "walk_ok c ns (external_uses ns x) {} (lift_refs (Inr (externalAgentRefSecretRefs x ns origin)))"
    by (rule walk_ok_lift) (simp add: external_uses_eq)
  show "walk_ok c ns (case mo of None \<Rightarrow> {} | Some mcp \<Rightarrow> named_server_uses c ns (StepMCPToolCall_Server mcp) True) {}
     (refs_opt (\<lambda>mcp. lift_refs (mcpServerSecretRefs c (StepMCPToolCall_Server mcp) ns origin2 True)) mo)"
    by (rule walk_ok_cong [OF walk_ok_opt refl], rule walk_ok_lift, erule mcpServerSecretRefs_uses)
      (simp split: option.split)
  show "walk_ok c ns (case ao of None \<Rightarrow> {} | Some ag \<Rightarrow> agent_uses c ns ag) {}
     (refs_opt (\<lambda>ag. lift_refs (agentRefSecretRefs c ag ns origin3)) ao)"
    by (rule walk_ok_cong [OF walk_ok_opt refl], rule walk_ok_lift, erule agentRefSecretRefs_uses)
      (simp split: option.split)
  show "walk_ok c ns {} (set_option wo) (refs_opt (\<lambda>ref. sub ref ns origin4) wo)"
    by (rule walk_ok_cong [OF walk_ok_opt], rule sub_ok) (auto split: option.split)
qed

lemma fromRefFields_ok:
  "walk_ok c ns (body_uses c ns \<lparr>body_ExternalAgentRef = x, body_MCPToolCall = mo, body_AgentRef = ao, body_WorkflowRef = wo\<rparr>)
     (set_option wo) (fromRefFields c sub x mo ao wo ns origin)"
  unfolding fromRefFields_def
  by (rule walk_ok_cong [OF walk_ok_then [OF own_ok(1) walk_ok_then [OF own_ok(2) walk_ok_then [OF own_ok(3) own_ok(4)]]]])
    (auto simp: body_uses_eq)

lemma template_ok:
  assumes "rd_StepTemplate c (ns', name) = Inr tpl"
  shows "walk_ok c ns (all_uses c ns (template_bodies c ns' name)) (body_refs (template_bodies c ns' name))
     (fromStepTemplateStep c sub (StepTemplateSpec_Step tpl) ns origin)"
  using assms unfolding fromStepTemplateStep_def
  by (intro walk_ok_cong [OF fromRefFields_ok])
    (auto simp: template_bodies_def template_body_def all_uses_def body_refs_def)

lemma fetched_ok:
  "walk_ok c ns (all_uses c ns (template_bodies c ns' name)) (body_refs (template_bodies c ns' name))
     (\<lambda>v. bindr (fetchStepTemplateStep c ns' name o1) (\<lambda>t. fromStepTemplateStep c sub t ns o2 v))"
  by (rule walk_ok_bind) (auto simp: fetchStepTemplateStep_def split: sum.splits intro: template_ok)

lemma fromForEach_ok:
  "walk_ok c ns (all_uses c ns (foreach_bodies c ns fe)) (body_refs (foreach_bodies c ns fe)) (fromForEach c sub fe ns origin)"
proof -
  have "walk_ok c ns (case StepForEach_Step fe of None \<Rightarrow> {} | Some s \<Rightarrow> body_uses c ns (child_body s))
      (case StepForEach_Step fe of None \<Rightarrow> {} | Some s \<Rightarrow> set_option (body_WorkflowRef (child_body s)))
      (refs_opt (\<lambda>s. fromForEachStep c sub s ns (origin @ ''.step'')) (StepForEach_Step fe))"
    by (rule walk_ok_opt) (simp add: fromForEachStep_def child_body_def fromRefFields_ok)
  from walk_ok_then [OF this walk_ok_opt [OF fetched_ok]] show ?thesis
    unfolding fromForEach_def
    by (rule walk_ok_cong)
      (auto simp: all_uses_def body_refs_def foreach_bodies_def split: option.splits)
qed

lemma fromStep_ok:
  "walk_ok c ns (all_uses c ns (step_bodies c False ns step)) (body_refs (step_bodies c False ns step))
     (fromStep c sub step ns origin)"
proof -
  have tpl: "walk_ok c ns (case Step_StepTemplateRef step of None \<Rightarrow> {}
        | Some ref \<Rightarrow> all_uses c ns (template_bodies c (or_ns (StepTemplateRef_Namespace ref) ns) (StepTemplateRef_Name ref)))
      (case Step_StepTemplateRef step of None \<Rightarrow> {}
        | Some ref \<Rightarrow> body_refs (template_bodies c (or_ns (StepTemplateRef_Namespace ref) ns) (StepTemplateRef_Name ref)))
      (refs_opt (\<lambda>ref. stepTemplateRefSecretRefs c sub ref ns (origin @ ''.stepTemplateRef'')) (Step_StepTemplateRef step))"
    by (rule walk_ok_opt) (simp add: stepTemplateRefSecretRefs_def [abs_def] Let_def fetched_ok)
  show ?thesis
    unfolding fromStep_def
    by (rule walk_ok_cong [OF walk_ok_then [OF own_ok(1) walk_ok_then [OF own_ok(2) walk_ok_then [OF own_ok(3)
         walk_ok_then [OF tpl walk_ok_then [OF own_ok(4) walk_ok_opt [OF fromForEach_ok]]]]]]])
      (auto simp: step_bodies_def step_body_def body_uses_eq all_uses_def body_refs_def split: option.splits)
qed

lemma steps_ok:
  "walk_ok c ns (\<Union>step \<in> set steps. all_uses c ns (step_bodies c False ns step))
     (\<Union>step \<in> set steps. body_refs (step_bodies c False ns step)) (refs_all (\<lambda>step. fromStep c sub step ns (g step)) steps)"
  by (rule walk_ok_all) (rule fromStep_ok)

lemma steps_covered:
  assumes "refs_all (\<lambda>step. fromStep c sub step ns (g step)) steps v = Inr (rs, v')" "step \<in> set steps"
  shows "covers c False (\<lambda>ns b. body_uses c ns b \<subseteq> uses rs) v' ns step"
  using steps_ok [unfolded walk_ok_def, rule_format, OF assms(1)] assms(2)
  unfolding covers_def all_uses_def body_refs_def by blast

lemma steps_sound:
  assumes "refs_all (\<lambda>step. fromStep c sub step ns (g step)) steps v = Inr (rs, v')" "s \<in> uses rs"
  shows "finds c False (\<lambda>ns b. s \<in> body_uses c ns b) steps ns"
proof -
  have "s \<in> (\<Union>step \<in> set steps. all_uses c ns (step_bodies c False ns step)) \<or>
      (\<exists>ref \<in> \<Union>step \<in> set steps. body_refs (step_bodies c False ns step). below c ns ref s)"
    using steps_ok [unfolded walk_ok_def, rule_format, OF assms(1)] assms(2) by blast
  then show ?thesis
  proof
    assume "s \<in> (\<Union>step \<in> set steps. all_uses c ns (step_bodies c False ns step))"
    then obtain step b where "step \<in> set steps" "b \<in> set (step_bodies c False ns step)" "s \<in> body_uses c ns b"
      unfolding all_uses_def by blast
    then show ?thesis by (intro finds_here [OF counted_lax])
  next
    assume "\<exists>ref \<in> \<Union>step \<in> set steps. body_refs (step_bodies c False ns step). below c ns ref s"
    then obtain step b ref where "step \<in> set steps" "b \<in> set (step_bodies c False ns step)"
      "body_WorkflowRef b = Some ref" "below c ns ref s" unfolding body_refs_def by blast
    then show ?thesis using finds_below [OF counted_lax] unfolding below_def by blast
  qed
qed

end

lemma vk_of_target: "vk_of (ref_target ns ref) = workflow_vk (or_ns (StepWorkflowRef_Namespace ref) ns) (StepWorkflowRef_Name ref)"
  by (simp add: vk_of_def ref_target_def)

lemma workflowRef_ok: "walk_ok c ns {} {ref} (workflowRefSecretRefs c levels ref ns origin)"
proof (induction levels arbitrary: ns ref origin)
  case 0
  then show ?case by (simp add: walk_ok_def)
next
  case (Suc levels)
  have ex: "secret_explorer c (workflowRefSecretRefs c levels)"
    by (rule secret_explorer.intro) (rule Suc.IH)
  let ?k = "ref_target ns ref"
  show ?case
    unfolding walk_ok_def
  proof (intro allI impI)
    fix v rs v' assume w: "workflowRefSecretRefs c (Suc levels) ref ns origin v = Inr (rs, v')"
    show "explored c False (\<lambda>ns b. body_uses c ns b \<subseteq> uses rs) v v' \<and> {} \<subseteq> uses rs \<and>
       (\<forall>ref \<in> {ref}. vk_of (ref_target ns ref) \<in> set v') \<and>
       (\<forall>s \<in> uses rs. s \<in> {} \<or> (\<exists>ref \<in> {ref}. below c ns ref s))"
    proof (cases "vk_of ?k \<in> set v")
      case True
      with w show ?thesis by (simp add: vk_of_target Let_def explored_refl)
    next
      case False
      with w obtain wfl g where wfl: "rd_Workflow c ?k = Inr wfl"
        and steps: "refs_all (\<lambda>step. fromStep c (workflowRefSecretRefs c levels) step (fst ?k) (g step))
            (Workflow_Steps wfl) (vk_of ?k # v) = Inr (rs, v')"
        by (auto simp: vk_of_def ref_target_def Let_def split: sum.splits if_splits)
      from secret_explorer.steps_ok [OF ex, unfolded walk_ok_def, rule_format, OF steps]
      have e: "explored c False (\<lambda>ns b. body_uses c ns b \<subseteq> uses rs) (vk_of ?k # v) v'" by blast
      have "explored c False (\<lambda>ns b. body_uses c ns b \<subseteq> uses rs) v v'"
        by (rule explored_push [OF e wfl]) (rule secret_explorer.steps_covered [OF ex steps])
      moreover have "below c ns ref s" if "s \<in> uses rs" for s
        using wfl secret_explorer.steps_sound [OF ex steps that] unfolding below_def by blast
      moreover have "vk_of ?k \<in> set v'" using e unfolding explored_def by auto
      ultimately show ?thesis by blast
    qed
  qed
qed

interpretation refs_walk: secret_explorer c "workflowRefSecretRefs c levels" for c levels
  by unfold_locales (rule workflowRef_ok)

subsection \<open>What is collected\<close>

lemma collect_uses:
  assumes r: "collectSecretRefs c workflow run = Inr refs"
    and root: "rd_Workflow c (Workflow_Namespace workflow, Workflow_Name workflow) = Inr workflow"
    "Workflow_Namespace workflow = WorkflowRun_Namespace run"
  shows "uses refs = uses (kubeconfig_refs run) \<union>
    {s. finds c False (\<lambda>ns b. body_names c ns b s) (Workflow_Steps workflow) (WorkflowRun_Namespace run)}"
proof -
  let ?ns = "WorkflowRun_Namespace run" and ?k = "(Workflow_Namespace workflow, Workflow_Name workflow)"
  from r obtain rs v where refs: "refs = kubeconfig_refs run @ rs"
    and w: "refs_all (\<lambda>step. fromStep c (workflowRefSecretRefs c maxWorkflowRefDepth) step ?ns
        (''step '' @ quote (Step_Name step))) (Workflow_Steps workflow) [vk_of ?k] = Inr (rs, v)"
    by (auto simp: collectSecretRefs_def bindr_Inr vk_of_def)
  let ?P = "\<lambda>ns b. body_uses c ns b \<subseteq> uses rs"
  have e: "explored c False ?P [vk_of ?k] v"
    using refs_walk.steps_ok [unfolded walk_ok_def, rule_format, OF w] by blast
  have "s \<in> uses rs" if "finds c False (\<lambda>ns b. body_names c ns b s) (Workflow_Steps workflow) ?ns" for s
  proof (rule ccontr)
    assume "s \<notin> uses rs"
    then have "\<And>ns b. ?P ns b \<Longrightarrow> \<not> body_names c ns b s" unfolding body_uses_def by blast
    with not_found_anywhere [OF e root(1) _ refs_walk.steps_covered [OF w]] root(2) that show False by simp
  qed
  moreover have "finds c False (\<lambda>ns b. body_names c ns b s) (Workflow_Steps workflow) ?ns" if "s \<in> uses rs" for s
    using refs_walk.steps_sound [OF w that] by (simp add: body_uses_def)
  ultimately show ?thesis by (auto simp: refs)
qed

subsection \<open>The walk returns\<close>

text \<open>
  What the references of a step resolve to: every object it names can be read, and the Workflows it
  names are in \<open>W\<close>. \<open>unvisited\<close> decreases from level to level.
\<close>

definition server_resolves :: "cluster_reader \<Rightarrow> string \<Rightarrow> string \<Rightarrow> bool" where
  "server_resolves c ns name \<longleftrightarrow> name = [] \<or> (\<exists>server. rd_MCPServer c (ns, name) = Inr server)"

definition body_resolves :: "cluster_reader \<Rightarrow> object_key set \<Rightarrow> string \<Rightarrow> ref_body \<Rightarrow> bool" where
  "body_resolves c W ns b \<longleftrightarrow>
     (\<forall>mcp. body_MCPToolCall b = Some mcp \<longrightarrow> server_resolves c ns (StepMCPToolCall_Server mcp)) \<and>
     (\<forall>ag. body_AgentRef b = Some ag \<longrightarrow>
        (\<exists>agent. rd_Agent c (or_ns (StepAgentRef_Namespace ag) ns, StepAgentRef_Name ag) = Inr agent \<and>
           (\<forall>tool \<in> set (AgentSpec_MCPTools (Agent_Spec agent)).
              server_resolves c (or_ns (StepAgentRef_Namespace ag) ns) (tool_server tool)))) \<and>
     (\<forall>ref. body_WorkflowRef b = Some ref \<longrightarrow> ref_target ns ref \<in> W)"

definition step_resolves :: "cluster_reader \<Rightarrow> object_key set \<Rightarrow> string \<Rightarrow> Step \<Rightarrow> bool" where
  "step_resolves c W ns step \<longleftrightarrow>
     (\<forall>ref. Step_StepTemplateRef step = Some ref \<longrightarrow>
        (\<exists>tpl. rd_StepTemplate c (or_ns (StepTemplateRef_Namespace ref) ns, StepTemplateRef_Name ref) = Inr tpl)) \<and>
     (\<forall>fe ref. Step_ForEach step = Some fe \<longrightarrow> StepForEach_StepTemplateRef fe = Some ref \<longrightarrow>
        (\<exists>tpl. rd_StepTemplate c (or_ns (StepForEachTemplateRef_Namespace ref) ns, StepForEachTemplateRef_Name ref) = Inr tpl)) \<and>
     (\<forall>b \<in> set (step_bodies c False ns step). body_resolves c W ns b)"

definition cluster_resolves :: "cluster_reader \<Rightarrow> object_key set \<Rightarrow> bool" where
  "cluster_resolves c W \<longleftrightarrow> (\<forall>k \<in> W. \<exists>workflow. rd_Workflow c k = Inr workflow \<and>
     (\<forall>step \<in> set (Workflow_Steps workflow). step_resolves c W (fst k) step))"

definition unvisited :: "object_key set \<Rightarrow> visitedKey list \<Rightarrow> nat" where
  "unvisited W v = card {k \<in> W. vk_of k \<notin> set v}"

definition returns :: "nat \<Rightarrow> object_key set \<Rightarrow> 'a walk \<Rightarrow> bool" where
  "returns n W w \<longleftrightarrow> (\<forall>v. unvisited W v < n \<longrightarrow> (\<exists>x v'. w v = Inr (x, v') \<and> set v \<subseteq> set v'))"

lemma unvisited_walk_mono: "finite W \<Longrightarrow> set v \<subseteq> set v' \<Longrightarrow> unvisited W v' \<le> unvisited W v"
  unfolding unvisited_def by (rule card_mono) auto

lemma unvisited_push:
  assumes "finite W" "k \<in> W" "vk_of k \<notin> set v"
  shows "unvisited W (vk_of k # v) < unvisited W v"
  unfolding unvisited_def by (rule psubset_card_mono) (use assms in auto)

lemma returns_lift: "r = Inr x \<Longrightarrow> returns n W (lift_refs r)"
  by (simp add: returns_def lift_refs_def)

lemma returns_then:
  assumes "finite W" "returns n W f" "returns n W g"
  shows "returns n W (then_refs f g)"
  unfolding returns_def
proof (intro allI impI)
  fix v assume n: "unvisited W v < n"
  with assms(2) obtain x1 v1 where f: "f v = Inr (x1, v1)" "set v \<subseteq> set v1" unfolding returns_def by blast
  with unvisited_walk_mono [OF assms(1)] n have "unvisited W v1 < n" by (meson le_less_trans)
  with assms(3) obtain x2 v2 where "g v1 = Inr (x2, v2)" "set v1 \<subseteq> set v2" unfolding returns_def by blast
  with f show "\<exists>x v'. then_refs f g v = Inr (x, v') \<and> set v \<subseteq> set v'" by (auto simp: then_refs_def)
qed

lemma returns_opt: "(\<And>y. x = Some y \<Longrightarrow> returns n W (f y)) \<Longrightarrow> returns n W (refs_opt f x)"
  by (cases x) (simp_all add: refs_opt_def returns_lift)

lemma returns_all:
  assumes "finite W"
  shows "(\<And>x. x \<in> set xs \<Longrightarrow> returns n W (f x)) \<Longrightarrow> returns n W (refs_all f xs)"
  by (induction xs) (simp_all add: returns_lift returns_then [OF assms])

lemma map_result_total: "(\<And>x. x \<in> set xs \<Longrightarrow> \<exists>y. f x = Inr y) \<Longrightarrow> \<exists>ys. map_result f xs = Inr ys"
proof (induction xs)
  case (Cons x xs)
  then obtain ys where "map_result f xs = Inr ys" by auto
  moreover obtain y where "f x = Inr y" using Cons.prems [of x] by auto
  ultimately show ?case by simp
qed simp

lemma mcpServerSecretRefs_total: "server_resolves c ns name \<Longrightarrow> \<exists>rs. mcpServerSecretRefs c name ns origin m = Inr rs"
  by (auto simp: server_resolves_def mcpServerSecretRefs_def)

locale total_explorer =
  fixes c :: cluster_reader and n :: nat and sub :: sub_walk
  assumes sub_returns: "finite W \<Longrightarrow> cluster_resolves c W \<Longrightarrow> ref_target ns ref \<in> W \<Longrightarrow>
    returns n W (sub ref ns origin)"
begin

lemma own_returns:
  assumes W: "finite W" "cluster_resolves c W"
    and "body_resolves c W ns \<lparr>body_ExternalAgentRef = x, body_MCPToolCall = mo, body_AgentRef = ao, body_WorkflowRef = wo\<rparr>"
  shows "returns n W (refs_opt (\<lambda>mcp. lift_refs (mcpServerSecretRefs c (StepMCPToolCall_Server mcp) ns o1 True)) mo)"
    "returns n W (refs_opt (\<lambda>ag. lift_refs (agentRefSecretRefs c ag ns o2)) ao)"
    "returns n W (refs_opt (\<lambda>ref. sub ref ns o3) wo)"
proof -
  show "returns n W (refs_opt (\<lambda>mcp. lift_refs (mcpServerSecretRefs c (StepMCPToolCall_Server mcp) ns o1 True)) mo)"
  proof (rule returns_opt)
    fix mcp assume "mo = Some mcp"
    with assms have "server_resolves c ns (StepMCPToolCall_Server mcp)" by (simp add: body_resolves_def)
    from mcpServerSecretRefs_total [OF this, of o1 True]
    show "returns n W (lift_refs (mcpServerSecretRefs c (StepMCPToolCall_Server mcp) ns o1 True))"
      by (rule exE) (rule returns_lift)
  qed
  show "returns n W (refs_opt (\<lambda>ag. lift_refs (agentRefSecretRefs c ag ns o2)) ao)"
  proof (rule returns_opt)
    fix ag assume ag: "ao = Some ag"
    let ?ns = "or_ns (StepAgentRef_Namespace ag) ns"
    from assms ag obtain agent where a: "rd_Agent c (?ns, StepAgentRef_Name ag) = Inr agent"
      and t: "\<And>tool. tool \<in> set (AgentSpec_MCPTools (Agent_Spec agent)) \<Longrightarrow> server_resolves c ?ns (tool_server tool)"
      by (auto simp: body_resolves_def)
    have "\<exists>rss. map_result (\<lambda>tool. mcpServerSecretRefs c (tool_server tool) ?ns o2 False)
        (AgentSpec_MCPTools (Agent_Spec agent)) = Inr rss"
      by (rule map_result_total, rule mcpServerSecretRefs_total, rule t)
    then obtain rss where "map_result (\<lambda>tool. mcpServerSecretRefs c (tool_server tool) ?ns o2 False)
        (AgentSpec_MCPTools (Agent_Spec agent)) = Inr rss" ..
    with a have "agentRefSecretRefs c ag ns o2 = Inr (concat rss)" by (simp add: agentRefSecretRefs_def)
    then show "returns n W (lift_refs (agentRefSecretRefs c ag ns o2))" by (rule returns_lift)
  qed
  show "returns n W (refs_opt (\<lambda>ref. sub ref ns o3) wo)"
    using assms by (intro returns_opt sub_returns [OF W]) (auto simp: body_resolves_def)
qed

lemma fromRefFields_returns:
  assumes W: "finite W" "cluster_resolves c W"
    and "body_resolves c W ns \<lparr>body_ExternalAgentRef = x, body_MCPToolCall = mo, body_AgentRef = ao, body_WorkflowRef = wo\<rparr>"
  shows "returns n W (fromRefFields c sub x mo ao wo ns origin)"
  unfolding fromRefFields_def by (intro returns_then [OF W(1)] returns_lift [OF refl] own_returns [OF assms])

lemma template_returns:
  assumes W: "finite W" "cluster_resolves c W"
    and "rd_StepTemplate c (ns', name) = Inr tpl" "\<And>b. b \<in> set (template_bodies c ns' name) \<Longrightarrow> body_resolves c W ns b"
  shows "returns n W (\<lambda>v. bindr (fetchStepTemplateStep c ns' name o1) (\<lambda>t. fromStepTemplateStep c sub t ns o2 v))"
  using assms fromRefFields_returns [OF W]
  by (simp add: fetchStepTemplateStep_def fromStepTemplateStep_def template_bodies_def template_body_def)

lemma fromStep_returns:
  assumes W: "finite W" "cluster_resolves c W"
    and "step_resolves c W ns step"
  shows "returns n W (fromStep c sub step ns origin)"
proof -
  have own: "body_resolves c W ns \<lparr>body_ExternalAgentRef = Step_ExternalAgentRef step, body_MCPToolCall = Step_MCPToolCall step,
      body_AgentRef = Step_AgentRef step, body_WorkflowRef = Step_WorkflowRef step\<rparr>"
    using assms by (auto simp: step_resolves_def step_bodies_def step_body_def)
  have "returns n W (stepTemplateRefSecretRefs c sub ref ns o1)" if "Step_StepTemplateRef step = Some ref" for ref o1
    using assms that by (auto simp: step_resolves_def step_bodies_def stepTemplateRefSecretRefs_def [abs_def] Let_def intro!: template_returns [OF W])
  moreover have "returns n W (fromForEach c sub fe ns o1)" if fe: "Step_ForEach step = Some fe" for fe o1
  proof -
    have "returns n W (fromForEachStep c sub s ns o2)" if "StepForEach_Step fe = Some s" for s o2
      using assms fe that unfolding fromForEachStep_def
      by (intro fromRefFields_returns [OF W]) (auto simp: step_resolves_def step_bodies_def foreach_bodies_def child_body_def)
    moreover have "returns n W (\<lambda>v. bindr (fetchStepTemplateStep c (or_ns (StepForEachTemplateRef_Namespace ref) ns)
        (StepForEachTemplateRef_Name ref) o2) (\<lambda>t. fromStepTemplateStep c sub t ns o3 v))"
      if ref: "StepForEach_StepTemplateRef fe = Some ref" for ref o2 o3
    proof -
      from assms fe ref obtain tpl where "rd_StepTemplate c (or_ns (StepForEachTemplateRef_Namespace ref) ns,
          StepForEachTemplateRef_Name ref) = Inr tpl" unfolding step_resolves_def by blast
      then show ?thesis
        by (rule template_returns [OF W]) (use assms fe ref in \<open>simp add: step_resolves_def step_bodies_def foreach_bodies_def\<close>)
    qed
    ultimately show ?thesis unfolding fromForEach_def by (intro returns_then [OF W(1)] returns_opt)
  qed
  ultimately show ?thesis
    unfolding fromStep_def by (intro returns_then [OF W(1)] returns_lift [OF refl] own_returns [OF W own] returns_opt)
qed

lemma steps_return:
  assumes W: "finite W" "cluster_resolves c W"
    and "\<And>step. step \<in> set steps \<Longrightarrow> step_resolves c W ns step"
  shows "returns n W (refs_all (\<lambda>step. fromStep c sub step ns (g step)) steps)"
  by (intro returns_all [OF W(1)] fromStep_returns [OF W] assms(3))

end

lemma workflowRef_returns:
  "finite W \<Longrightarrow> cluster_resolves c W \<Longrightarrow> ref_target ns ref \<in> W \<Longrightarrow>
   returns levels W (workflowRefSecretRefs c levels ref ns origin)"
proof (induction levels arbitrary: W ns ref origin)
  case 0
  then show ?case by (simp add: returns_def)
next
  case (Suc levels)
  have ex: "total_explorer c levels (workflowRefSecretRefs c levels)"
    by (rule total_explorer.intro) (rule Suc.IH)
  let ?k = "ref_target ns ref"
  from Suc.prems obtain wfl where wfl: "rd_Workflow c ?k = Inr wfl"
    "\<And>step. step \<in> set (Workflow_Steps wfl) \<Longrightarrow> step_resolves c W (fst ?k) step"
    unfolding cluster_resolves_def by blast
  show ?case
    unfolding returns_def
  proof (intro allI impI)
    fix v assume n: "unvisited W v < Suc levels"
    show "\<exists>x v'. workflowRefSecretRefs c (Suc levels) ref ns origin v = Inr (x, v') \<and> set v \<subseteq> set v'"
    proof (cases "vk_of ?k \<in> set v")
      case True
      then show ?thesis by (simp add: vk_of_target Let_def)
    next
      case False
      from unvisited_push [OF Suc.prems(1,3) False] n have "unvisited W (vk_of ?k # v) < levels" by linarith
      with total_explorer.steps_return [OF ex Suc.prems(1,2) wfl(2)]
      have "\<exists>x v'. refs_all (\<lambda>step. fromStep c (workflowRefSecretRefs c levels) step (fst ?k) (g step)) (Workflow_Steps wfl)
          (vk_of ?k # v) = Inr (x, v') \<and> set (vk_of ?k # v) \<subseteq> set v'" for g unfolding returns_def by blast
      from this [of "\<lambda>step. origin @ '' -> workflow '' @ quote (Workflow_Name wfl) @ '' step '' @ quote (Step_Name step)"]
        False wfl(1) show ?thesis by (auto simp: vk_of_def ref_target_def Let_def)
    qed
  qed
qed

interpretation returning_walk: total_explorer c levels "workflowRefSecretRefs c levels" for c levels
  by unfold_locales (rule workflowRef_returns)

lemma collect_returns:
  assumes "finite W" "cluster_resolves c W"
    "\<And>step. step \<in> set (Workflow_Steps workflow) \<Longrightarrow> step_resolves c W (WorkflowRun_Namespace run) step"
    "card (W - {(Workflow_Namespace workflow, Workflow_Name workflow)}) < maxWorkflowRefDepth"
  shows "\<exists>refs. collectSecretRefs c workflow run = Inr refs"
proof -
  let ?k = "(Workflow_Namespace workflow, Workflow_Name workflow)"
  have "{k \<in> W. vk_of k \<notin> set [vk_of ?k]} = W - {?k}" by auto
  with assms(4) have "unvisited W [vk_of ?k] < maxWorkflowRefDepth" by (simp add: unvisited_def)
  with returning_walk.steps_return [OF assms(1,2,3)]
  have "\<exists>x v'. refs_all (\<lambda>step. fromStep c (workflowRefSecretRefs c maxWorkflowRefDepth) step (WorkflowRun_Namespace run) (g step))
      (Workflow_Steps workflow) [vk_of ?k] = Inr (x, v') \<and> set [vk_of ?k] \<subseteq> set v'" for g unfolding returns_def by blast
  from this [of "\<lambda>step. ''step '' @ quote (Step_Name step)"] show ?thesis
    by (auto simp: collectSecretRefs_def vk_of_def)
qed

end
