(* ===== verification/Agent_Walks.thy ===== *)
theory Agent_Walks
  imports Secret_Walks
begin

text \<open>
  The search for agents answers the question it asks: \<open>need_ok\<close> is the contract of a search, the locale
  \<open>agent_explorer\<close> verifies the search of a step, for both settings of \<open>requireNirmataProvider\<close> at once.
\<close>

definition agent_match :: "agent_reader \<Rightarrow> bool \<Rightarrow> string \<Rightarrow> ref_body \<Rightarrow> bool" where
  "agent_match agentReader strict ns b \<longleftrightarrow>
     (\<exists>ag. body_AgentRef b = Some ag \<and> agentRefNeeds agentReader strict ag ns = Inr True)"

definition match_below :: "cluster_reader \<Rightarrow> agent_reader \<Rightarrow> bool \<Rightarrow> string \<Rightarrow> StepWorkflowRef \<Rightarrow> bool" where
  "match_below c rd strict ns ref \<longleftrightarrow> (\<exists>workflow. rd_Workflow c (ref_target ns ref) = Inr workflow \<and>
     finds c strict (agent_match rd strict) (Workflow_Steps workflow) (fst (ref_target ns ref)))"

definition need_ok ::
  "cluster_reader \<Rightarrow> agent_reader \<Rightarrow> bool \<Rightarrow> string \<Rightarrow> bool \<Rightarrow> StepWorkflowRef set \<Rightarrow> bool walk \<Rightarrow> bool" where
  "need_ok c rd strict ns N T w \<longleftrightarrow> (\<forall>v f v'. w v = Inr (f, v') \<longrightarrow>
     (if f then N \<or> (\<exists>ref \<in> T. match_below c rd strict ns ref)
      else \<not> N \<and> explored c strict (\<lambda>ns b. \<not> agent_match rd strict ns b) v v' \<and>
           (\<forall>ref \<in> T. vk_of (ref_target ns ref) \<in> set v')))"

lemma need_ok_lift: "(\<And>f. r = Inr f \<Longrightarrow> N = f) \<Longrightarrow> need_ok c rd strict ns N {} (lift_refs r)"
  by (auto simp: need_ok_def lift_refs_def bindr_Inr explored_refl)

lemma need_ok_or:
  assumes f: "need_ok c rd strict ns N T f" and g: "need_ok c rd strict ns N' T' g"
  shows "need_ok c rd strict ns (N \<or> N') (T \<union> T') (or_found f g)"
  unfolding need_ok_def
proof (intro allI impI)
  fix v b v' assume "or_found f g v = Inr (b, v')"
  then obtain b1 v1 where fv: "f v = Inr (b1, v1)" and r: "(if b1 then Inr (b1, v1) else g v1) = Inr (b, v')"
    by (auto simp: or_found_def bindr_Inr split: if_splits)
  note F = f [unfolded need_ok_def, rule_format, OF fv]
  show "if b then (N \<or> N') \<or> (\<exists>ref \<in> T \<union> T'. match_below c rd strict ns ref)
      else \<not> (N \<or> N') \<and> explored c strict (\<lambda>ns b. \<not> agent_match rd strict ns b) v v' \<and>
           (\<forall>ref \<in> T \<union> T'. vk_of (ref_target ns ref) \<in> set v')"
  proof (cases b1)
    case True
    with F r show ?thesis by auto
  next
    case False
    with r have gv: "g v1 = Inr (b, v')" by simp
    note G = g [unfolded need_ok_def, rule_format, OF gv]
    show ?thesis
    proof (cases b)
      case True
      with G show ?thesis by auto
    next
      case b: False
      with F G \<open>\<not> b1\<close> have "explored c strict (\<lambda>ns b. \<not> agent_match rd strict ns b) v v'"
        by (auto intro: explored_trans)
      moreover from G b have "set v1 \<subseteq> set v'" by (simp add: explored_def)
      ultimately show ?thesis using F G b \<open>\<not> b1\<close> by auto
    qed
  qed
qed

lemma need_ok_opt:
  assumes "\<And>y. x = Some y \<Longrightarrow> need_ok c rd strict ns (N y) (T y) (f y)"
  shows "need_ok c rd strict ns (case x of None \<Rightarrow> False | Some y \<Rightarrow> N y) (case x of None \<Rightarrow> {} | Some y \<Rightarrow> T y) (found_opt f x)"
  using assms need_ok_lift [of "Inr False" False] by (cases x) (simp_all add: found_opt_def)

lemma need_ok_bind:
  assumes "\<And>x. r = Inr x \<Longrightarrow> need_ok c rd strict ns N T (f x)"
  shows "need_ok c rd strict ns N T (\<lambda>v. bindr r (\<lambda>x. f x v))"
  using assms by (cases r) (simp_all add: need_ok_def)

lemma need_ok_all:
  assumes "\<And>x. x \<in> set xs \<Longrightarrow> need_ok c rd strict ns (N x) (T x) (f x)"
  shows "need_ok c rd strict ns (\<exists>x \<in> set xs. N x) (\<Union>x \<in> set xs. T x) (found_all f xs)"
  using assms
proof (induction xs)
  case Nil
  then show ?case using need_ok_lift [of "Inr False" False] by simp
next
  case (Cons x xs)
  then show ?case using need_ok_or [of c rd strict ns "N x" "T x" "f x" "\<exists>x \<in> set xs. N x"] by simp
qed

lemma need_ok_cong: "need_ok c rd strict ns N T w \<Longrightarrow> N = N' \<Longrightarrow> T = T' \<Longrightarrow> need_ok c rd strict ns N' T' w"
  by simp

text \<open>The bodies the search looks at: none of a step that may not run.\<close>

definition counted_bodies :: "cluster_reader \<Rightarrow> bool \<Rightarrow> string \<Rightarrow> Step \<Rightarrow> ref_body list" where
  "counted_bodies c strict ns step = (if counted strict step then step_bodies c strict ns step else [])"

abbreviation any_match :: "agent_reader \<Rightarrow> bool \<Rightarrow> string \<Rightarrow> ref_body list \<Rightarrow> bool" where
  "any_match rd strict ns bs \<equiv> \<exists>b \<in> set bs. agent_match rd strict ns b"

locale agent_explorer =
  fixes c :: cluster_reader and rd :: agent_reader and strict :: bool and sub :: sub_needs
  assumes sub_ok: "need_ok c rd strict ns False {ref} (sub ref ns)"
begin

lemma own_needs:
  "need_ok c rd strict ns (case ao of None \<Rightarrow> False | Some ag \<Rightarrow> agentRefNeeds rd strict ag ns = Inr True) {}
     (found_opt (\<lambda>ag. lift_refs (agentRefNeeds rd strict ag ns)) ao)"
  "need_ok c rd strict ns False (set_option wo) (found_opt (\<lambda>ref. sub ref ns) wo)"
proof -
  show "need_ok c rd strict ns (case ao of None \<Rightarrow> False | Some ag \<Rightarrow> agentRefNeeds rd strict ag ns = Inr True) {}
     (found_opt (\<lambda>ag. lift_refs (agentRefNeeds rd strict ag ns)) ao)"
    by (rule need_ok_cong [OF need_ok_opt refl], rule need_ok_lift) (auto split: option.split)
  show "need_ok c rd strict ns False (set_option wo) (found_opt (\<lambda>ref. sub ref ns) wo)"
    by (rule need_ok_cong [OF need_ok_opt], rule sub_ok) (auto split: option.split)
qed

lemma fromLeafRefs_ok:
  assumes "body_AgentRef b = ao" "body_WorkflowRef b = wo"
  shows "need_ok c rd strict ns (agent_match rd strict ns b) (set_option wo) (fromLeafRefs rd strict sub ao wo ns)"
  unfolding fromLeafRefs_def
  by (rule need_ok_cong [OF need_ok_or [OF own_needs]]) (auto simp: agent_match_def assms split: option.split)

lemma template_needs_ok:
  "need_ok c rd strict ns (any_match rd strict ns (template_bodies c (or_ns ns' ns) name))
     (body_refs (template_bodies c (or_ns ns' ns) name)) (template_needs c rd strict sub ns' name ns)"
  unfolding template_needs_def [abs_def]
proof (rule need_ok_bind)
  fix t assume "needs_fetchStepTemplateStep c (or_ns ns' ns) name = Inr t"
  then have t: "template_bodies c (or_ns ns' ns) name = [template_body t]"
    by (auto simp: needs_fetchStepTemplateStep_def template_bodies_def split: sum.splits)
  show "need_ok c rd strict ns (any_match rd strict ns (template_bodies c (or_ns ns' ns) name))
     (body_refs (template_bodies c (or_ns ns' ns) name))
     (fromLeafRefs rd strict sub (StepTemplateStep_AgentRef t) (StepTemplateStep_WorkflowRef t) ns)"
    by (rule need_ok_cong [OF fromLeafRefs_ok [of "template_body t"]]) (auto simp: t template_body_def body_refs_def)
qed

lemma needs_fromForEach_ok:
  assumes "\<not> strict"
  shows "need_ok c rd strict ns (any_match rd strict ns (foreach_bodies c ns fe)) (body_refs (foreach_bodies c ns fe))
     (needs_fromForEach c rd strict sub fe ns)"
proof -
  have "need_ok c rd strict ns (case StepForEach_Step fe of None \<Rightarrow> False | Some s \<Rightarrow> agent_match rd strict ns (child_body s))
      (case StepForEach_Step fe of None \<Rightarrow> {} | Some s \<Rightarrow> set_option (body_WorkflowRef (child_body s)))
      (found_opt (\<lambda>s. fromLeafRefs rd strict sub (StepForEachStep_AgentRef s) (StepForEachStep_WorkflowRef s) ns)
        (StepForEach_Step fe))"
    by (rule need_ok_opt) (simp add: child_body_def fromLeafRefs_ok)
  note 1 = need_ok_or [OF this need_ok_opt [OF template_needs_ok]]
  show ?thesis
    unfolding needs_fromForEach_def if_not_P [OF assms]
    by (rule need_ok_cong [OF 1]) (auto simp: body_refs_def foreach_bodies_def split: option.splits)
qed

lemma match_step_body:
  "agent_match rd strict ns (step_body step) =
     (case Step_AgentRef step of None \<Rightarrow> False | Some ag \<Rightarrow> agentRefNeeds rd strict ag ns = Inr True)"
  "body_WorkflowRef (step_body step) = Step_WorkflowRef step"
  by (auto simp: agent_match_def step_body_def split: option.split)

lemma needs_fromStep_ok:
  "need_ok c rd strict ns (any_match rd strict ns (counted_bodies c strict ns step)) (body_refs (counted_bodies c strict ns step))
     (needs_fromStep c rd strict sub step ns)"
proof (cases "counted strict step")
  case False
  then show ?thesis
    using need_ok_lift [of "Inr False" False] by (simp add: counted_bodies_def body_refs_def needs_fromStep_def counted_def)
next
  case True
  have fe: "need_ok c rd strict ns
      (case Step_ForEach step of None \<Rightarrow> False | Some fe \<Rightarrow> if strict then False else any_match rd strict ns (foreach_bodies c ns fe))
      (case Step_ForEach step of None \<Rightarrow> {} | Some fe \<Rightarrow> if strict then {} else body_refs (foreach_bodies c ns fe))
      (found_opt (\<lambda>fe. needs_fromForEach c rd strict sub fe ns) (Step_ForEach step))"
  proof (rule need_ok_opt)
    fix fe
    show "need_ok c rd strict ns (if strict then False else any_match rd strict ns (foreach_bodies c ns fe))
        (if strict then {} else body_refs (foreach_bodies c ns fe)) (needs_fromForEach c rd strict sub fe ns)"
    proof (cases strict)
      case True
      then show ?thesis using need_ok_lift [of "Inr False" False] by (simp add: needs_fromForEach_def)
    next
      case False
      with needs_fromForEach_ok show ?thesis by simp
    qed
  qed
  have "needs_fromStep c rd strict sub step ns =
      or_found (found_opt (\<lambda>ag. lift_refs (agentRefNeeds rd strict ag ns)) (Step_AgentRef step))
     (or_found (found_opt (\<lambda>ref. sub ref ns) (Step_WorkflowRef step))
     (or_found (found_opt (\<lambda>ref. template_needs c rd strict sub (StepTemplateRef_Namespace ref) (StepTemplateRef_Name ref) ns)
         (Step_StepTemplateRef step))
       (found_opt (\<lambda>fe. needs_fromForEach c rd strict sub fe ns) (Step_ForEach step))))"
    using True unfolding needs_fromStep_def counted_def by (rule if_not_P)
  moreover have "need_ok c rd strict ns (any_match rd strict ns (counted_bodies c strict ns step)) (body_refs (counted_bodies c strict ns step)) \<dots>"
    using True
    by (intro need_ok_cong [OF need_ok_or [OF own_needs(1) need_ok_or [OF own_needs(2)
         need_ok_or [OF need_ok_opt [OF template_needs_ok] fe]]]])
      (auto simp: counted_bodies_def step_bodies_def match_step_body bex_Un body_refs_def split: option.split)
  ultimately show ?thesis by simp
qed

lemma needs_steps_ok:
  "need_ok c rd strict ns (\<exists>step \<in> set steps. any_match rd strict ns (counted_bodies c strict ns step))
     (\<Union>step \<in> set steps. body_refs (counted_bodies c strict ns step)) (found_all (\<lambda>s. needs_fromStep c rd strict sub s ns) steps)"
  by (rule need_ok_all) (rule needs_fromStep_ok)

lemma needs_covered:
  assumes "found_all (\<lambda>s. needs_fromStep c rd strict sub s ns) steps v = Inr (False, v')" "step \<in> set steps"
  shows "covers c strict (\<lambda>ns b. \<not> agent_match rd strict ns b) v' ns step"
  using needs_steps_ok [unfolded need_ok_def, rule_format, OF assms(1)] assms(2)
  unfolding covers_def counted_bodies_def body_refs_def by (simp, blast)

lemma needs_found:
  assumes "found_all (\<lambda>s. needs_fromStep c rd strict sub s ns) steps v = Inr (True, v')"
  shows "finds c strict (agent_match rd strict) steps ns"
proof -
  have "(\<exists>step \<in> set steps. any_match rd strict ns (counted_bodies c strict ns step)) \<or>
      (\<exists>ref \<in> \<Union>step \<in> set steps. body_refs (counted_bodies c strict ns step). match_below c rd strict ns ref)"
    using needs_steps_ok [unfolded need_ok_def, rule_format, OF assms] by simp
  then show ?thesis
  proof
    assume "\<exists>step \<in> set steps. any_match rd strict ns (counted_bodies c strict ns step)"
    then show ?thesis by (auto simp: counted_bodies_def split: if_splits intro: finds_here)
  next
    assume "\<exists>ref \<in> \<Union>step \<in> set steps. body_refs (counted_bodies c strict ns step). match_below c rd strict ns ref"
    then obtain step b ref where "step \<in> set steps" "counted strict step" "b \<in> set (step_bodies c strict ns step)"
      "body_WorkflowRef b = Some ref" "match_below c rd strict ns ref"
      unfolding body_refs_def counted_bodies_def by (auto split: if_splits)
    then show ?thesis using finds_below unfolding match_below_def by blast
  qed
qed

end

lemma fromWorkflowRef_ok: "need_ok c rd strict ns False {ref} (fromWorkflowRef c rd strict levels ref ns)"
proof (induction levels arbitrary: ns ref)
  case 0
  then show ?case by (simp add: need_ok_def)
next
  case (Suc levels)
  have ex: "agent_explorer c rd strict (fromWorkflowRef c rd strict levels)"
    by (rule agent_explorer.intro) (rule Suc.IH)
  let ?k = "ref_target ns ref" and ?P = "\<lambda>ns b. \<not> agent_match rd strict ns b"
  show ?case
    unfolding need_ok_def
  proof (intro allI impI)
    fix v f v' assume w: "fromWorkflowRef c rd strict (Suc levels) ref ns v = Inr (f, v')"
    show "if f then False \<or> (\<exists>ref \<in> {ref}. match_below c rd strict ns ref)
      else \<not> False \<and> explored c strict ?P v v' \<and> (\<forall>ref \<in> {ref}. vk_of (ref_target ns ref) \<in> set v')"
    proof (cases "vk_of ?k \<in> set v")
      case True
      with w show ?thesis by (simp add: vk_of_target Let_def explored_refl split: if_splits)
    next
      case False
      with w obtain wfl where wfl: "rd_Workflow c ?k = Inr wfl"
        and steps: "found_all (\<lambda>s. needs_fromStep c rd strict (fromWorkflowRef c rd strict levels) s (fst ?k))
            (Workflow_Steps wfl) (vk_of ?k # v) = Inr (f, v')"
        by (auto simp: vk_of_def ref_target_def Let_def split: sum.splits if_splits)
      show ?thesis
      proof (cases f)
        case True
        with wfl agent_explorer.needs_found [OF ex] steps show ?thesis unfolding match_below_def by auto
      next
        case f: False
        from agent_explorer.needs_steps_ok [OF ex, unfolded need_ok_def, rule_format, OF steps] f
        have e: "explored c strict ?P (vk_of ?k # v) v'" by simp
        have "explored c strict ?P v v'"
          by (rule explored_push [OF e wfl], rule agent_explorer.needs_covered [OF ex]) (use steps f in simp_all)
        moreover have "vk_of ?k \<in> set v'" using e unfolding explored_def by auto
        ultimately show ?thesis using f by simp
      qed
    qed
  qed
qed

interpretation agents_walk: agent_explorer c rd strict "fromWorkflowRef c rd strict levels" for c rd strict levels
  by unfold_locales (rule fromWorkflowRef_ok)

lemma walkAgentSteps_exact:
  assumes r: "walkAgentSteps c rd workflow runNamespace strict = Inr found"
    and root: "rd_Workflow c (Workflow_Namespace workflow, Workflow_Name workflow) = Inr workflow"
    "Workflow_Namespace workflow = runNamespace"
  shows "found \<longleftrightarrow> finds c strict (agent_match rd strict) (Workflow_Steps workflow) runNamespace"
proof -
  let ?k = "(Workflow_Namespace workflow, Workflow_Name workflow)"
  from r obtain v where w: "found_all (\<lambda>step. needs_fromStep c rd strict (fromWorkflowRef c rd strict maxWorkflowRefDepth) step runNamespace)
      (Workflow_Steps workflow) [vk_of ?k] = Inr (found, v)"
    by (auto simp: walkAgentSteps_def bindr_Inr vk_of_def)
  show ?thesis
  proof (cases found)
    case True
    with agents_walk.needs_found w show ?thesis by auto
  next
    case False
    have e: "explored c strict (\<lambda>ns b. \<not> agent_match rd strict ns b) [vk_of ?k] v"
      using agents_walk.needs_steps_ok [unfolded need_ok_def, rule_format, OF w] False by simp
    from not_found_anywhere [OF e root(1)] agents_walk.needs_covered root(2) w False
    have "\<not> finds c strict (agent_match rd strict) (Workflow_Steps workflow) runNamespace" by simp
    with False show ?thesis by simp
  qed
qed

end
