(* ===== verification/Trigger_Client.thy ===== *)
theory Trigger_Client
  imports Run_Controller
begin

text \<open>
  What the triggers share: the client calls with which they look at runs and create them, the limit on
  concurrent runs (\<^verbatim>\<open>countActiveWorkflowRuns\<close> of \<^verbatim>\<open>controller/scheduler.go\<close>), the construction of a run and the
  loop that writes its status, which scheduler and trigger manager both have.

  \<open>tclient\<close> extends the client of Kube_Client. Its laws, \<open>triggers_client\<close>, are the documented behaviour of
  the API server: a List with a label selector returns the runs that match, a Create stores the object
  without its status, and nothing else touches the runs.
\<close>

record 'w tclient =
  tc_kube :: "'w kube"
  tc_listRuns :: "string \<Rightarrow> (string \<times> string) list \<Rightarrow> 'w \<Rightarrow> WorkflowRun list result \<times> 'w"
  tc_createRun :: "WorkflowRun \<Rightarrow> 'w \<Rightarrow> goerror option \<times> 'w"
  tc_getSecret :: "object_key \<Rightarrow> 'w \<Rightarrow> (string \<times> string) list result \<times> 'w"
  tc_workflowEvent :: "(Workflow \<Rightarrow> string \<Rightarrow> string \<Rightarrow> string \<Rightarrow> 'w \<Rightarrow> 'w) option"
  tc_sleep :: "'w \<Rightarrow> 'w"
  tc_random :: "nat \<Rightarrow> 'w \<Rightarrow> string \<times> 'w"

subsection \<open>Runs of a workflow\<close>

definition WorkflowLabelKey :: string where
  "WorkflowLabelKey = ''ottoflow.nirmata.io/workflow''"

definition TriggerLabelKey :: string where
  "TriggerLabelKey = ''ottoflow.nirmata.io/trigger''"

definition ManagedByLabelKey :: string where
  "ManagedByLabelKey = ''ottoflow.nirmata.io/managed-by''"

abbreviation WorkflowRun_Labels :: "WorkflowRun \<Rightarrow> (string \<times> string) list" where
  "WorkflowRun_Labels r \<equiv> ObjectMeta_Labels (WorkflowRun_Meta r)"

abbreviation WorkflowRun_Owners :: "WorkflowRun \<Rightarrow> OwnerReference list" where
  "WorkflowRun_Owners r \<equiv> ObjectMeta_OwnerReferences (WorkflowRun_Meta r)"

text \<open>\<^verbatim>\<open>client.MatchingLabels\<close>.\<close>

definition has_labels :: "(string \<times> string) list \<Rightarrow> WorkflowRun \<Rightarrow> bool" where
  "has_labels ls r \<longleftrightarrow> (\<forall>(k, v) \<in> set ls. map_of (WorkflowRun_Labels r) k = Some v)"

definition countActiveWorkflowRuns :: "'w tclient \<Rightarrow> Workflow \<Rightarrow> string list \<Rightarrow> 'w \<Rightarrow> int result \<times> 'w" where
  "countActiveWorkflowRuns tc workflow skip w =
     (case tc_listRuns tc (Workflow_Namespace workflow) [(WorkflowLabelKey, Workflow_Name workflow)] w of
        (Inl e, w1) \<Rightarrow> (Inl e, w1)
      | (Inr items, w1) \<Rightarrow>
          (Inr (int (length (filter (\<lambda>wr. IsActive (run_phase wr) \<and> WorkflowRun_Name wr \<notin> set skip) items))), w1))"

text \<open>The guard that scheduler and trigger manager repeat: may another run be created?\<close>

definition below_limit :: "'w tclient \<Rightarrow> Workflow \<Rightarrow> string list \<Rightarrow> 'w \<Rightarrow> bool result \<times> 'w" where
  "below_limit tc workflow skip w =
     (let limit = EffectiveMaxConcurrentRuns (WorkflowSpec_Run (Workflow_Spec workflow)) in
      if limit \<le> 0 then (Inr True, w)
      else (case countActiveWorkflowRuns tc workflow skip w of
              (Inl e, w1) \<Rightarrow> (Inl e, w1)
            | (Inr active, w1) \<Rightarrow> (Inr (active < limit), w1)))"

subsection \<open>A new run\<close>

definition workflow_owner :: "Workflow \<Rightarrow> OwnerReference" where
  "workflow_owner workflow =
     \<lparr>OwnerReference_APIVersion = ''ottoflow.nirmata.io/v1alpha1'', OwnerReference_Kind = ''Workflow'',
      OwnerReference_Name = Workflow_Name workflow, OwnerReference_UID = ObjectMeta_UID (Workflow_Meta workflow),
      OwnerReference_Controller = True, OwnerReference_BlockOwnerDeletion = False\<rparr>"

definition pending_status :: "TriggerInfo \<Rightarrow> WorkflowRunStatus" where
  "pending_status info = zero_Status\<lparr>Status_Phase := WorkflowRunPhasePending, Status_Trigger := Some info\<rparr>"

definition buildWorkflowRun :: "Workflow \<Rightarrow> string \<Rightarrow> (string \<times> string) list \<Rightarrow> TriggerInfo \<Rightarrow> WorkflowRun" where
  "buildWorkflowRun workflow name inputs triggerInfo =
     \<lparr>WorkflowRun_Meta = zero_ObjectMeta\<lparr>ObjectMeta_Name := name, ObjectMeta_Namespace := Workflow_Namespace workflow,
        ObjectMeta_OwnerReferences := [workflow_owner workflow],
        ObjectMeta_Labels := [(WorkflowLabelKey, Workflow_Name workflow)]\<rparr>,
      WorkflowRun_Spec = \<lparr>WorkflowRunSpec_WorkflowRef = \<lparr>WorkflowRef_Name = Workflow_Name workflow, WorkflowRef_Namespace = Workflow_Namespace workflow\<rparr>,
        WorkflowRunSpec_InputValues = inputs, WorkflowRunSpec_ClusterRef = None, WorkflowRunSpec_Events = None,
        WorkflowRunSpec_Execution = WorkflowSpec_Execution (Workflow_Spec workflow)\<rparr>,
      WorkflowRun_Status = pending_status triggerInfo\<rparr>"

definition add_labels :: "(string \<times> string) list \<Rightarrow> WorkflowRun \<Rightarrow> WorkflowRun" where
  "add_labels ls r = r\<lparr>WorkflowRun_Meta := (WorkflowRun_Meta r)\<lparr>ObjectMeta_Labels := put_all (WorkflowRun_Labels r) ls\<rparr>\<rparr>"

text \<open>
  The loop after a Create: five attempts to read the run and write its status, with a pause before each
  but the first.
\<close>

fun status_attempts ::
  "'w tclient \<Rightarrow> object_key \<Rightarrow> WorkflowRunStatus \<Rightarrow> nat \<Rightarrow> goerror \<Rightarrow> 'w \<Rightarrow> goerror option \<times> 'w" where
  "status_attempts tc key st 0 lastErr w = (Some (wrapf ''failed to set WorkflowRun status after create: '' lastErr), w)"
| "status_attempts tc key st (Suc n) lastErr w =
     (let retry = (\<lambda>e w. status_attempts tc key st n e (if n = 0 then w else tc_sleep tc w)) in
      case kube_getRun (tc_kube tc) key w of
        (Inl e, w1) \<Rightarrow> retry e w1
      | (Inr r, w1) \<Rightarrow>
          (case kube_updateStatus (tc_kube tc) (r\<lparr>WorkflowRun_Status := st\<rparr>) w1 of
             (None, w2) \<Rightarrow> (None, w2)
           | (Some e, w2) \<Rightarrow> retry e w2))"

definition set_new_status :: "'w tclient \<Rightarrow> WorkflowRun \<Rightarrow> 'w \<Rightarrow> goerror option \<times> 'w" where
  "set_new_status tc run w = status_attempts tc (run_key run) (WorkflowRun_Status run) 5 (errorf []) w"

subsection \<open>The laws\<close>

definition creates_runs :: "'w tclient \<Rightarrow> ('w \<Rightarrow> run_store) \<Rightarrow> bool" where
  "creates_runs tc runs \<longleftrightarrow> (\<forall>r w e w'. tc_createRun tc r w = (e, w') \<longrightarrow>
     write_outcome e (runs w) (runs w')
       (\<exists>stored. runs w (run_key r) = None \<and> runs w' = (runs w)(run_key r \<mapsto> stored) \<and> run_key stored = run_key r \<and>
          WorkflowRun_Labels stored = WorkflowRun_Labels r \<and> WorkflowRun_Owners stored = WorkflowRun_Owners r \<and>
          WorkflowRun_Spec stored = WorkflowRun_Spec r \<and>
          WorkflowRun_Status stored = zero_Status))"

definition lists_labelled :: "'w tclient \<Rightarrow> ('w \<Rightarrow> run_store) \<Rightarrow> bool" where
  "lists_labelled tc runs \<longleftrightarrow> (\<forall>ns ls w l w'. tc_listRuns tc ns ls w = (l, w') \<longrightarrow>
     runs w' = runs w \<and>
     (case l of Inl e \<Rightarrow> True
      | Inr items \<Rightarrow> distinct items \<and>
          set items = {r. runs w (run_key r) = Some r \<and> WorkflowRun_Namespace r = ns \<and> has_labels ls r}))"

definition triggers_client :: "'w tclient \<Rightarrow> ('w \<Rightarrow> run_store) \<Rightarrow> bool" where
  "triggers_client tc runs \<longleftrightarrow> runs_client (tc_kube tc) runs \<and> creates_runs tc runs \<and> lists_labelled tc runs \<and>
     (\<forall>w k r. runs w k = Some r \<longrightarrow> run_key r = k) \<and> (\<forall>k. reads runs (tc_getSecret tc k)) \<and> (\<forall>n. reads runs (tc_random tc n)) \<and>
     (\<forall>w. runs (tc_sleep tc w) = runs w) \<and>
     (\<forall>rec. tc_workflowEvent tc = Some rec \<longrightarrow> (\<forall>wflow t r m w. runs (rec wflow t r m w) = runs w))"

lemma triggers_frame [kube_frame]:
  assumes "triggers_client tc runs"
  shows "tc_getSecret tc k w = (x, w') \<Longrightarrow> runs w' = runs w"
    "tc_random tc n w = (y, w') \<Longrightarrow> runs w' = runs w"
    "runs (tc_sleep tc w) = runs w"
    "tc_listRuns tc ns ls w = (l, w') \<Longrightarrow> runs w' = runs w"
    "kube_now (tc_kube tc) w = (t, w') \<Longrightarrow> runs w' = runs w"
  using assms kube_calls_frame(1) unfolding triggers_client_def lists_labelled_def by (metis reads_eq)+

lemma triggers_keyed: "triggers_client tc runs \<Longrightarrow> runs w k = Some r \<Longrightarrow> run_key r = k"
  unfolding triggers_client_def by blast

lemma triggers_runs_client: "triggers_client tc runs \<Longrightarrow> runs_client (tc_kube tc) runs"
  unfolding triggers_client_def by blast

subsection \<open>Active runs\<close>

definition active_runs :: "Workflow \<Rightarrow> run_store \<Rightarrow> object_key set" where
  "active_runs workflow R = {k. \<exists>r. R k = Some r \<and> WorkflowRun_Namespace r = Workflow_Namespace workflow \<and>
     has_labels [(WorkflowLabelKey, Workflow_Name workflow)] r \<and> IsActive (run_phase r)}"

lemma list_items:
  assumes "triggers_client tc runs" "tc_listRuns tc ns ls w = (Inr items, w')"
  shows "runs w' = runs w" "distinct (map run_key items)"
    "r \<in> set items \<longleftrightarrow> runs w (run_key r) = Some r \<and> WorkflowRun_Namespace r = ns \<and> has_labels ls r"
proof -
  have "lists_labelled tc runs" using assms(1) unfolding triggers_client_def by blast
  from this [unfolded lists_labelled_def, rule_format, OF assms(2)]
  have it: "runs w' = runs w" "distinct items" "set items = {r. runs w (run_key r) = Some r \<and> WorkflowRun_Namespace r = ns \<and> has_labels ls r}"
    by simp_all
  have "inj_on run_key (set items)"
  proof (rule inj_onI)
    fix a b
    assume "a \<in> set items" "b \<in> set items" "run_key a = run_key b"
    then have "runs w (run_key a) = Some a" "runs w (run_key a) = Some b" using it(3) by auto
    then show "a = b" by simp
  qed
  with it(2) show "distinct (map run_key items)" unfolding distinct_map by blast
  show "runs w' = runs w" "r \<in> set items \<longleftrightarrow> runs w (run_key r) = Some r \<and> WorkflowRun_Namespace r = ns \<and> has_labels ls r"
    using it(1,3) by simp_all
qed

lemma count_law:
  assumes "triggers_client tc runs" "countActiveWorkflowRuns tc workflow skip w = (Inr n, w')"
  shows "n = int (card {k \<in> active_runs workflow (runs w). snd k \<notin> set skip}) \<and> runs w' = runs w"
proof -
  from assms(2) obtain items where l: "tc_listRuns tc (Workflow_Namespace workflow) [(WorkflowLabelKey, Workflow_Name workflow)] w = (Inr items, w')"
    and n: "n = int (length (filter (\<lambda>wr. IsActive (run_phase wr) \<and> WorkflowRun_Name wr \<notin> set skip) items))"
    by (auto simp: countActiveWorkflowRuns_def split: prod.splits sum.splits)
  note keyed = triggers_keyed [OF assms(1)] and it = list_items [OF assms(1) l]
  let ?f = "filter (\<lambda>wr. IsActive (run_phase wr) \<and> WorkflowRun_Name wr \<notin> set skip) items"
  have inj: "inj_on run_key (set ?f)" using it(2) unfolding distinct_map by (auto intro: inj_on_subset)
  have "distinct ?f" using it(2) unfolding distinct_map by simp
  from trans [OF card_image [OF inj] distinct_card [OF this]] have "card (run_key ` set ?f) = length ?f" .
  moreover have "run_key ` set ?f = {k \<in> active_runs workflow (runs w). snd k \<notin> set skip}"
  proof (intro equalityI subsetI)
    fix k
    assume "k \<in> run_key ` set ?f"
    then obtain r where "k = run_key r" "r \<in> set ?f" by blast
    then have "runs w k = Some r" "WorkflowRun_Namespace r = Workflow_Namespace workflow"
      "has_labels [(WorkflowLabelKey, Workflow_Name workflow)] r" "IsActive (run_phase r)" "snd k \<notin> set skip" using it(3) by auto
    then show "k \<in> {k \<in> active_runs workflow (runs w). snd k \<notin> set skip}" unfolding active_runs_def by blast
  next
    fix k
    assume k: "k \<in> {k \<in> active_runs workflow (runs w). snd k \<notin> set skip}"
    then obtain r where r: "runs w k = Some r" "WorkflowRun_Namespace r = Workflow_Namespace workflow"
      "has_labels [(WorkflowLabelKey, Workflow_Name workflow)] r" "IsActive (run_phase r)" unfolding active_runs_def by blast
    note key = keyed [OF r(1)]
    then have "runs w (run_key r) = Some r" "WorkflowRun_Name r \<notin> set skip" using r(1) k by auto
    with r it(3) have "r \<in> set ?f" by simp
    with keyed [OF r(1)] show "k \<in> run_key ` set ?f" by blast
  qed
  ultimately show ?thesis using n it(1) by simp
qed

text \<open>A run that belongs to a workflow, by label and by owner, and the limit on those that are active.\<close>

definition run_of :: "Workflow \<Rightarrow> WorkflowRun \<Rightarrow> bool" where
  "run_of workflow r \<longleftrightarrow> WorkflowRun_Namespace r = Workflow_Namespace workflow \<and>
     map_of (WorkflowRun_Labels r) WorkflowLabelKey = Some (Workflow_Name workflow) \<and> workflow_owner workflow \<in> set (WorkflowRun_Owners r)"

definition max_runs :: "Workflow \<Rightarrow> int" where
  "max_runs workflow = EffectiveMaxConcurrentRuns (WorkflowSpec_Run (Workflow_Spec workflow))"

text \<open>What a trigger may do to the stored runs: nothing, or add one active run of its workflow.\<close>

definition fires :: "Workflow \<Rightarrow> run_store \<Rightarrow> run_store \<Rightarrow> bool" where
  "fires workflow R R' \<longleftrightarrow> R' = R \<or> (\<exists>k r. R k = None \<and> R' = R(k \<mapsto> r) \<and> run_key r = k \<and> run_of workflow r \<and> IsActive (run_phase r))"

text \<open>The same under the limit.\<close>

definition limited_fire :: "Workflow \<Rightarrow> run_store \<Rightarrow> run_store \<Rightarrow> bool" where
  "limited_fire workflow R R' \<longleftrightarrow> fires workflow R R' \<and>
     (R' \<noteq> R \<and> 0 < max_runs workflow \<longrightarrow> int (card (active_runs workflow R)) < max_runs workflow)"

lemma fires_refl [simp]: "fires workflow R R" "limited_fire workflow R R"
  by (simp_all add: fires_def limited_fire_def)

lemma active_runs_fires:
  assumes "fires workflow R R'" "R' \<noteq> R" "finite (active_runs workflow R)"
  shows "card (active_runs workflow R') = Suc (card (active_runs workflow R)) \<and> finite (active_runs workflow R')"
proof -
  from assms(1,2) obtain k r where k: "R k = None" "R' = R(k \<mapsto> r)" "run_of workflow r" "IsActive (run_phase r)"
    unfolding fires_def by blast
  then have "active_runs workflow R' = insert k (active_runs workflow R)" "k \<notin> active_runs workflow R"
    by (auto simp: active_runs_def has_labels_def run_of_def)
  with assms(3) show ?thesis by simp
qed

text \<open>Writing the status of one run, any number of times, whatever fails.\<close>

definition sets_status :: "object_key \<Rightarrow> WorkflowRunStatus \<Rightarrow> run_store \<Rightarrow> run_store \<Rightarrow> bool" where
  "sets_status key st R R' \<longleftrightarrow> R' = R \<or> (\<exists>r. R key = Some r \<and> R' = R(key \<mapsto> r\<lparr>WorkflowRun_Status := st\<rparr>))"

lemma sets_status_trans: "sets_status key st R R1 \<Longrightarrow> sets_status key st R1 R2 \<Longrightarrow> sets_status key st R R2"
  unfolding sets_status_def by auto

lemma update_sets_status:
  assumes "triggers_client tc runs" "kube_updateStatus (tc_kube tc) (r\<lparr>WorkflowRun_Status := st\<rparr>) w = (u, w')" "runs w (run_key r) = Some r"
  shows "sets_status (run_key r) st (runs w) (runs w')"
proof -
  have "status_update_law (tc_kube tc) runs" using triggers_runs_client [OF assms(1)] by (simp add: runs_client_def)
  from this [unfolded status_update_law_def, rule_format, OF assms(2)] assms(3) show ?thesis
    by (auto simp: write_outcome_def sets_status_def split: option.splits)
qed

lemma status_attempts_effect:
  assumes "triggers_client tc runs" "status_attempts tc key st n e w = (x, w')"
  shows "sets_status key st (runs w) (runs w')"
  using assms(2)
proof (induction n arbitrary: e w)
  case (Suc n)
  note law = triggers_runs_client [OF assms(1)]
  have again: "sets_status key st (runs w1) (runs w')"
    if "status_attempts tc key st n e (if n = 0 then w1 else tc_sleep tc w1) = (x, w')" for e w1
  proof -
    have "runs (if n = 0 then w1 else tc_sleep tc w1) = runs w1" using triggers_frame(3) [OF assms(1)] by simp
    with Suc.IH [OF that] show ?thesis by metis
  qed
  obtain g w1 where g: "kube_getRun (tc_kube tc) key w = (g, w1)" by force
  have w1: "runs w1 = runs w" using kube_calls_frame(9) [OF law g] .
  show ?case
  proof (cases g)
    case (Inl e')
    with Suc.prems g have "status_attempts tc key st n e' (if n = 0 then w1 else tc_sleep tc w1) = (x, w')" by simp
    from again [OF this] w1 show ?thesis by simp
  next
    case (Inr r)
    then have r: "runs w key = Some r" "run_key r = key" using getRun_fresh [OF law] g by auto
    obtain u w2 where u: "kube_updateStatus (tc_kube tc) (r\<lparr>WorkflowRun_Status := st\<rparr>) w1 = (u, w2)" by force
    have w2: "sets_status key st (runs w) (runs w2)" using update_sets_status [OF assms(1) u] r w1 by simp
    show ?thesis
    proof (cases u)
      case None
      with Suc.prems g Inr u w2 show ?thesis by simp
    next
      case (Some e')
      with Suc.prems g Inr u have "status_attempts tc key st n e' (if n = 0 then w2 else tc_sleep tc w2) = (x, w')" by simp
      from sets_status_trans [OF w2 again [OF this]] show ?thesis .
    qed
  qed
qed (simp add: sets_status_def)

lemma create_fires:
  assumes "triggers_client tc runs" "tc_createRun tc run w = (e, w')" "run_of workflow run"
  shows "fires workflow (runs w) (runs w')" "e = None \<Longrightarrow> runs w' \<noteq> runs w"
    "e = None \<Longrightarrow> runs w (run_key run) = None"
proof -
  have "creates_runs tc runs" using assms(1) by (simp add: triggers_client_def)
  note law = this [unfolded creates_runs_def, rule_format, OF assms(2)]
  have eff: "\<exists>r. runs w (run_key run) = None \<and> runs w' = (runs w)(run_key run \<mapsto> r) \<and> run_key r = run_key run \<and>
      WorkflowRun_Labels r = WorkflowRun_Labels run \<and> WorkflowRun_Owners r = WorkflowRun_Owners run \<and>
      WorkflowRun_Status r = zero_Status" if "e = None \<or> runs w' \<noteq> runs w"
    using law that by (auto simp: write_outcome_def split: option.splits)
  then show "e = None \<Longrightarrow> runs w' \<noteq> runs w" "e = None \<Longrightarrow> runs w (run_key run) = None"
    by (metis fun_upd_same option.distinct(1))+
  have "fires workflow (runs w) (runs w')" if ne: "runs w' \<noteq> runs w"
  proof -
    from eff ne obtain r where r: "runs w (run_key run) = None" "runs w' = (runs w)(run_key run \<mapsto> r)" "run_key r = run_key run"
      "WorkflowRun_Labels r = WorkflowRun_Labels run" "WorkflowRun_Owners r = WorkflowRun_Owners run" "WorkflowRun_Status r = zero_Status" by blast
    then have "run_of workflow r" using assms(3) by (auto simp: run_of_def)
    with r show ?thesis unfolding fires_def
      by (intro disjI2 exI [of _ "run_key run"] exI [of _ r]) (simp add: IsActive_def zero_Status_def)
  qed
  then show "fires workflow (runs w) (runs w')" by (cases "runs w' = runs w") simp_all
qed

lemma sets_status_fires:
  assumes "fires workflow R R1" "R1 \<noteq> R" "sets_status (run_key run) (WorkflowRun_Status run) R1 R2"
    and "IsActive (run_phase run)" "R (run_key run) = None"
  shows "fires workflow R R2" "R2 \<noteq> R"
proof -
  from assms(1,2) obtain k r where k: "R k = None" "R1 = R(k \<mapsto> r)" "run_key r = k" "run_of workflow r" "IsActive (run_phase r)"
    unfolding fires_def by metis
  from assms(3) consider "R2 = R1" | r' where "R1 (run_key run) = Some r'" "R2 = R1(run_key run \<mapsto> r'\<lparr>WorkflowRun_Status := WorkflowRun_Status run\<rparr>)"
    unfolding sets_status_def by blast
  then have "fires workflow R R2 \<and> R2 \<noteq> R"
  proof cases
    case 1
    with assms(1,2) show ?thesis by simp
  next
    case (2 r')
    with k(2) assms(5) have "run_key run = k" "r' = r" by (auto split: if_splits)
    with 2 k have R2: "R2 = R(k \<mapsto> r\<lparr>WorkflowRun_Status := WorkflowRun_Status run\<rparr>)" by auto
    then have "R2 \<noteq> R" using k(1) by (metis fun_upd_same option.distinct(1))
    moreover have "run_of workflow (r\<lparr>WorkflowRun_Status := WorkflowRun_Status run\<rparr>)" using k(4) by (simp add: run_of_def)
    ultimately show ?thesis using R2 k(1,3) assms(4) unfolding fires_def
      by (intro conjI disjI2 exI [of _ k] exI [of _ "r\<lparr>WorkflowRun_Status := WorkflowRun_Status run\<rparr>"]) simp_all
  qed
  then show "fires workflow R R2" "R2 \<noteq> R" by simp_all
qed

lemma buildWorkflowRun_simps [simp]:
  "WorkflowRun_Namespace (buildWorkflowRun workflow name inputs info) = Workflow_Namespace workflow"
  "WorkflowRun_Name (buildWorkflowRun workflow name inputs info) = name"
  "WorkflowRun_Labels (buildWorkflowRun workflow name inputs info) = [(WorkflowLabelKey, Workflow_Name workflow)]"
  "IsActive (run_phase (buildWorkflowRun workflow name inputs info))"
  "WorkflowRun_Owners (buildWorkflowRun workflow name inputs info) = [workflow_owner workflow]"
  by (simp_all add: buildWorkflowRun_def pending_status_def IsActive_def)

lemma add_labels_simps [simp]:
  "WorkflowRun_Namespace (add_labels ls r) = WorkflowRun_Namespace r" "WorkflowRun_Name (add_labels ls r) = WorkflowRun_Name r"
  "WorkflowRun_Status (add_labels ls r) = WorkflowRun_Status r"
  "WorkflowRun_Labels (add_labels ls r) = put_all (WorkflowRun_Labels r) ls" "WorkflowRun_Owners (add_labels ls r) = WorkflowRun_Owners r"
  by (simp_all add: add_labels_def)

text \<open>Creating a run and then writing its status, as every trigger does.\<close>

lemma create_and_set_fires:
  assumes "triggers_client tc runs" "tc_createRun tc run w = (None, w1)" "run_of workflow run" "IsActive (run_phase run)"
    and "sets_status (run_key run) (WorkflowRun_Status run) (runs w1) R"
  shows "fires workflow (runs w) R" "R \<noteq> runs w"
proof -
  note c = create_fires [OF assms(1-3)]
  from sets_status_fires [OF c(1) c(2) assms(5,4) c(3)] show "fires workflow (runs w) R" "R \<noteq> runs w" by simp_all
qed

lemma set_new_status_effect:
  "triggers_client tc runs \<Longrightarrow> set_new_status tc run w = (x, w') \<Longrightarrow> sets_status (run_key run) (WorkflowRun_Status run) (runs w) (runs w')"
  unfolding set_new_status_def by (rule status_attempts_effect)

lemma below_limit_law:
  assumes "triggers_client tc runs" "below_limit tc workflow skip w = (x, w')"
  shows "runs w' = runs w"
    "x = Inr True \<Longrightarrow> 0 < max_runs workflow \<Longrightarrow>
       int (card {k \<in> active_runs workflow (runs w). snd k \<notin> set skip}) < max_runs workflow"
proof -
  obtain c w1 where c: "countActiveWorkflowRuns tc workflow skip w = (c, w1)" by force
  have "runs w1 = runs w"
    using c by (auto simp: countActiveWorkflowRuns_def dest: triggers_frame(4) [OF assms(1)] split: prod.splits sum.splits)
  then show "runs w' = runs w"
    using assms(2) c by (auto simp: below_limit_def max_runs_def Let_def split: if_splits sum.splits)
  show "int (card {k \<in> active_runs workflow (runs w). snd k \<notin> set skip}) < max_runs workflow"
    if "x = Inr True" "0 < max_runs workflow"
  proof (cases c)
    case (Inl e)
    with assms(2) c that show ?thesis by (simp add: below_limit_def max_runs_def Let_def)
  next
    case (Inr n)
    with assms(2) c that have "n < max_runs workflow" by (simp add: below_limit_def max_runs_def Let_def)
    with count_law [OF assms(1) c [unfolded Inr]] show ?thesis by simp
  qed
qed

text \<open>Reading the clock or random bytes around a fire changes nothing; a fire after a successful check is limited.\<close>

lemma limited_fireI:
  assumes "triggers_client tc runs" "below_limit tc workflow [] w = (Inr True, w1)" "fires workflow (runs w1) R"
  shows "limited_fire workflow (runs w) R"
  using assms(3) below_limit_law [OF assms(1,2)] by (simp add: limited_fire_def)

text \<open>The client of one run in memory, for the witnesses.\<close>

definition memory_tclient :: "Workflow \<Rightarrow> (WorkflowRun option) tclient" where
  "memory_tclient workflow =
     \<lparr>tc_kube = memory_kube workflow,
      tc_listRuns = (\<lambda>ns ls w. (Inr (case w of Some r \<Rightarrow> if WorkflowRun_Namespace r = ns \<and> has_labels ls r then [r] else [] | None \<Rightarrow> []), w)),
      tc_createRun = (\<lambda>r w. case w of None \<Rightarrow> (None, Some (r\<lparr>WorkflowRun_Status := zero_Status\<rparr>)) | Some h \<Rightarrow> (Some (GoError [ApiForbidden] []), w)),
      tc_getSecret = (\<lambda>k w. (Inr [(''hmac-key'', replicate 32 (CHR ''k''))], w)), tc_workflowEvent = None, tc_sleep = (\<lambda>w. w),
      tc_random = (\<lambda>n w. (replicate n (CHR ''a''), w))\<rparr>"

lemma memory_triggers_client: "triggers_client (memory_tclient workflow) memory_runs"
proof -
  have "creates_runs (memory_tclient workflow) memory_runs"
    by (auto simp: creates_runs_def memory_tclient_def memory_runs_def write_outcome_def refused_def fun_eq_iff split: option.splits)
  moreover have "lists_labelled (memory_tclient workflow) memory_runs"
    by (auto simp: lists_labelled_def memory_tclient_def memory_runs_def split: option.splits if_splits)
  ultimately show ?thesis using memory_runs_client [of workflow]
    by (auto simp: triggers_client_def memory_tclient_def reads_def memory_runs_def split: option.splits if_splits)
qed

end
