(* ===== verification/Cron_Scheduler.thy ===== *)
theory Cron_Scheduler
  imports Trigger_Client
begin

text \<open>
  The scheduler of cron triggers, \<^verbatim>\<open>controller/scheduler.go\<close> and \<^verbatim>\<open>scheduler_events.go\<close>. The cron engine is the
  parameter \<open>cron\<close>: it keeps a set of entries, each a schedule and the key its function is called with;
  \<open>cron_engine\<close> states what is documented of it. A locked section is one step; the context that \<^verbatim>\<open>Start\<close>
  sets is the flag \<open>Scheduler_started\<close>.
\<close>

subsection \<open>The registry of schedules\<close>

record 'c cron =
  cron_AddFunc :: "string \<Rightarrow> string \<Rightarrow> 'c \<Rightarrow> nat result \<times> 'c"
  cron_Remove :: "nat \<Rightarrow> 'c \<Rightarrow> 'c"

record 'c Scheduler =
  Scheduler_cron :: 'c
  Scheduler_started :: bool
  Scheduler_entries :: "(string \<times> nat) list"
  Scheduler_workflows :: "(string \<times> Workflow) list"
  Scheduler_cronSpecs :: "(string \<times> CronTrigger) list"

definition NewScheduler :: "'c \<Rightarrow> 'c Scheduler" where
  "NewScheduler engine = \<lparr>Scheduler_cron = engine, Scheduler_started = False, Scheduler_entries = [],
     Scheduler_workflows = [], Scheduler_cronSpecs = []\<rparr>"

definition StartScheduler :: "'c Scheduler \<Rightarrow> 'c Scheduler" where
  "StartScheduler s = s\<lparr>Scheduler_started := True\<rparr>"

definition cron_schedule :: "CronTrigger \<Rightarrow> string" where
  "cron_schedule cronSpec = (if CronTrigger_Timezone cronSpec \<noteq> []
     then ''CRON_TZ='' @ CronTrigger_Timezone cronSpec @ '' '' @ CronTrigger_Schedule cronSpec else CronTrigger_Schedule cronSpec)"

definition drop_entry :: "'c cron \<Rightarrow> string \<Rightarrow> 'c Scheduler \<Rightarrow> 'c Scheduler" where
  "drop_entry eng key s =
     (case map_of (Scheduler_entries s) key of
        None \<Rightarrow> s
      | Some entryID \<Rightarrow> s\<lparr>Scheduler_cron := cron_Remove eng entryID (Scheduler_cron s),
                           Scheduler_entries := AList.delete key (Scheduler_entries s)\<rparr>)"

definition AddSchedule :: "'c cron \<Rightarrow> string \<Rightarrow> Workflow \<Rightarrow> CronTrigger \<Rightarrow> 'c Scheduler \<Rightarrow> goerror option \<times> 'c Scheduler" where
  "AddSchedule eng key workflow cronSpec s =
     (let s1 = drop_entry eng key s; schedule = cron_schedule cronSpec in
      case cron_AddFunc eng schedule key (Scheduler_cron s1) of
        (Inl e, c) \<Rightarrow> (Some (wrapf (''invalid cron schedule '' @ quote schedule @ '': '') e), s1\<lparr>Scheduler_cron := c\<rparr>)
      | (Inr entryID, c) \<Rightarrow>
          (None, s1\<lparr>Scheduler_cron := c, Scheduler_entries := AList.update key entryID (Scheduler_entries s1),
                    Scheduler_workflows := AList.update key workflow (Scheduler_workflows s1),
                    Scheduler_cronSpecs := AList.update key cronSpec (Scheduler_cronSpecs s1)\<rparr>))"

definition RemoveSchedule :: "'c cron \<Rightarrow> string \<Rightarrow> 'c Scheduler \<Rightarrow> 'c Scheduler" where
  "RemoveSchedule eng key s =
     (case map_of (Scheduler_entries s) key of
        None \<Rightarrow> s
      | Some entryID \<Rightarrow> (drop_entry eng key s)\<lparr>Scheduler_workflows := AList.delete key (Scheduler_workflows s),
                           Scheduler_cronSpecs := AList.delete key (Scheduler_cronSpecs s)\<rparr>)"

definition scheduleKeys :: "'c Scheduler \<Rightarrow> string list" where
  "scheduleKeys s = map fst (Scheduler_entries s)"

definition HasSchedule :: "'c Scheduler \<Rightarrow> string \<Rightarrow> bool" where
  "HasSchedule s key \<longleftrightarrow> has_key (Scheduler_entries s) key"

subsection \<open>A fire\<close>

definition cron_labels :: "Workflow \<Rightarrow> (string \<times> string) list" where
  "cron_labels workflow = [(WorkflowLabelKey, Workflow_Name workflow), (TriggerLabelKey, ''cron'')]"

definition hasActiveWorkflowRun :: "'w tclient \<Rightarrow> Workflow \<Rightarrow> 'w \<Rightarrow> bool result \<times> 'w" where
  "hasActiveWorkflowRun tc workflow w =
     (case tc_listRuns tc (Workflow_Namespace workflow) (cron_labels workflow) w of
        (Inl e, w1) \<Rightarrow> (Inl e, w1)
      | (Inr items, w1) \<Rightarrow> (Inr (list_ex (\<lambda>wr. IsActive (run_phase wr)) items), w1))"

definition replaced :: "WorkflowRun \<Rightarrow> WorkflowRun" where
  "replaced wr = setRunFailed ''Replaced by newer cron trigger execution'' FailureReasonNone wr"

fun cancel_runs :: "'w tclient \<Rightarrow> WorkflowRun list \<Rightarrow> string list \<Rightarrow> 'w \<Rightarrow> string list result \<times> 'w" where
  "cancel_runs tc [] cancelled w = (Inr cancelled, w)"
| "cancel_runs tc (wr # items) cancelled w =
     (if IsActive (run_phase wr)
      then (case kube_updateStatus (tc_kube tc) (replaced wr) w of
              (Some e, w1) \<Rightarrow> (Inl (wrapf (''failed to cancel WorkflowRun '' @ WorkflowRun_Name wr @ '': '') e), w1)
            | (None, w1) \<Rightarrow> cancel_runs tc items (cancelled @ [WorkflowRun_Name wr]) w1)
      else cancel_runs tc items cancelled w)"

definition cancelActiveWorkflowRuns :: "'w tclient \<Rightarrow> Workflow \<Rightarrow> 'w \<Rightarrow> string list result \<times> 'w" where
  "cancelActiveWorkflowRuns tc workflow w =
     (case tc_listRuns tc (Workflow_Namespace workflow) (cron_labels workflow) w of
        (Inl e, w1) \<Rightarrow> (Inl e, w1)
      | (Inr items, w1) \<Rightarrow> cancel_runs tc items [] w1)"

definition secret_subject :: "string \<Rightarrow> CronInputFromSecret \<Rightarrow> string" where
  "secret_subject ns entry = ''secret '' @ ns @ ''/'' @ CronSecretKeyRef_Name (CronInputFromSecret_SecretRef entry) @ '': ''"

fun read_secret_inputs ::
  "'w tclient \<Rightarrow> string \<Rightarrow> CronInputFromSecret list \<Rightarrow> (string \<times> string) list \<Rightarrow> 'w \<Rightarrow> (string \<times> string) list result \<times> 'w" where
  "read_secret_inputs tc ns [] out w = (Inr out, w)"
| "read_secret_inputs tc ns (entry # rest) out w =
     (let ref = CronInputFromSecret_SecretRef entry; refNs = CronSecretKeyRef_Namespace ref in
      if refNs \<noteq> [] \<and> refNs \<noteq> ns
      then (Inl (errorf (secret_subject refNs entry @ ''Secret references are resolved only in the Workflow's namespace '' @ quote ns)), w)
      else (case tc_getSecret tc (ns, CronSecretKeyRef_Name ref) w of
              (Inl e, w1) \<Rightarrow> (Inl (wrapf (secret_subject ns entry) e), w1)
            | (Inr data, w1) \<Rightarrow>
                (case map_of data (CronSecretKeyRef_Key ref) of
                   None \<Rightarrow> (Inl (GoError [ErrCronInputKeyMissing]
                              (secret_subject ns entry @ ''key '' @ quote (CronSecretKeyRef_Key ref) @ '' not found'')), w1)
                 | Some v \<Rightarrow> read_secret_inputs tc ns rest (AList.update (CronInputFromSecret_InputName entry) v out) w1)))"

definition cronInputValuesFromSecrets ::
  "'w tclient \<Rightarrow> string \<Rightarrow> CronInputFromSecret list \<Rightarrow> 'w \<Rightarrow> (string \<times> string) list result \<times> 'w" where
  "cronInputValuesFromSecrets tc workflowNamespace from w = read_secret_inputs tc workflowNamespace from [] w"

definition cron_run :: "Workflow \<Rightarrow> CronTrigger \<Rightarrow> string \<Rightarrow> (string \<times> string) list \<Rightarrow> int \<Rightarrow> WorkflowRun" where
  "cron_run workflow cronSpec name inputs now =
     add_labels [(TriggerLabelKey, ''cron''), (ManagedByLabelKey, ''ottoflow-scheduler'')]
       (buildWorkflowRun workflow name inputs
          \<lparr>TriggerInfo_Type = ''Cron'', TriggerInfo_CronSchedule = CronTrigger_Schedule cronSpec, TriggerInfo_TriggeredAt = now,
           TriggerInfo_EventResource = None, TriggerInfo_WebhookRequest = None\<rparr>)"

definition cron_inputs :: "'w tclient \<Rightarrow> Workflow \<Rightarrow> CronTrigger \<Rightarrow> 'w \<Rightarrow> (string \<times> string) list result \<times> 'w" where
  "cron_inputs tc workflow cronSpec w =
     (if CronTrigger_InputValuesFrom cronSpec = [] then (Inr [], w)
      else (case cronInputValuesFromSecrets tc (Workflow_Namespace workflow) (CronTrigger_InputValuesFrom cronSpec) w of
              (Inl e, w1) \<Rightarrow> (Inl (GoError (ErrCronInputValuesFrom # err_tags e) (''cron inputValuesFrom: '' @ err_msg e)), w1)
            | (Inr fromSecret, w1) \<Rightarrow> (Inr (put_all [] fromSecret), w1)))"

definition createWorkflowRun :: "'w tclient \<Rightarrow> Workflow \<Rightarrow> CronTrigger \<Rightarrow> 'w \<Rightarrow> goerror option \<times> 'w" where
  "createWorkflowRun tc workflow cronSpec w =
     (case kube_now (tc_kube tc) w of (t, w0) \<Rightarrow>
        (case cron_inputs tc workflow cronSpec w0 of
           (Inl e, w1) \<Rightarrow> (Some e, w1)
         | (Inr inputs, w1) \<Rightarrow>
             (case kube_now (tc_kube tc) w1 of (now, w2) \<Rightarrow>
                let run = cron_run workflow cronSpec (Workflow_Name workflow @ ''-'' @ itoa (unix_seconds t)) inputs now
                in case tc_createRun tc run w2 of
                     (Some e, w3) \<Rightarrow> (Some e, w3)
                   | (None, w3) \<Rightarrow> set_new_status tc run w3)))"

subsection \<open>Events for failed fires\<close>

definition maxEventNoteBytes :: nat where
  "maxEventNoteBytes = 1024"

text \<open>\<^verbatim>\<open>utf8.RuneStart\<close>.\<close>

definition rune_start :: "char \<Rightarrow> bool" where
  "rune_start c \<longleftrightarrow> \<not> (128 \<le> (of_char c :: nat) \<and> (of_char c :: nat) < 192)"

fun cut_back :: "string \<Rightarrow> nat \<Rightarrow> nat" where
  "cut_back s 0 = 0"
| "cut_back s (Suc n) = (if rune_start (s ! Suc n) then Suc n else cut_back s n)"

definition truncateEventNote :: "string \<Rightarrow> string" where
  "truncateEventNote s = (if length s \<le> maxEventNoteBytes then s else take (cut_back s maxEventNoteBytes) s)"

definition cronFireFailureReason :: "goerror \<Rightarrow> string" where
  "cronFireFailureReason e =
     (if \<not> errors_is e ErrCronInputValuesFrom then ''CronWorkflowRunCreateFailed''
      else if errors_is e ErrCronInputKeyMissing then ''CronInputSecretKeyMissing''
      else if errors_is e ApiForbidden then ''CronInputSecretForbidden''
      else if errors_is e ApiNotFound then ''CronInputSecretNotFound''
      else ''CronInputSecretInvalid'')"

definition recordCronFireFailure :: "'w tclient \<Rightarrow> Workflow \<Rightarrow> goerror \<Rightarrow> 'w \<Rightarrow> 'w" where
  "recordCronFireFailure tc workflow e w =
     (case tc_workflowEvent tc of None \<Rightarrow> w
      | Some rec \<Rightarrow> rec workflow ''Warning'' (cronFireFailureReason e) (truncateEventNote (err_msg e)) w)"

text \<open>
  The concurrency policy: whether the fire goes on, and which runs it has replaced.
\<close>

definition apply_policy :: "'w tclient \<Rightarrow> Workflow \<Rightarrow> CronTrigger \<Rightarrow> 'w \<Rightarrow> string list option \<times> 'w" where
  "apply_policy tc workflow cronSpec w =
     (if CronTrigger_ConcurrencyPolicy cronSpec = ''Forbid''
      then (case hasActiveWorkflowRun tc workflow w of
              (Inl e, w1) \<Rightarrow> (None, w1) | (Inr hasActive, w1) \<Rightarrow> (if hasActive then None else Some [], w1))
      else if CronTrigger_ConcurrencyPolicy cronSpec = ''Replace''
      then (case cancelActiveWorkflowRuns tc workflow w of
              (Inl e, w1) \<Rightarrow> (None, w1) | (Inr cancelled, w1) \<Rightarrow> (Some cancelled, w1))
      else (Some [], w))"

definition fire :: "'w tclient \<Rightarrow> Workflow \<Rightarrow> CronTrigger \<Rightarrow> string list \<Rightarrow> 'w \<Rightarrow> 'w" where
  "fire tc workflow cronSpec cancelled w =
     (case below_limit tc workflow cancelled w of
        (Inl e, w1) \<Rightarrow> w1
      | (Inr False, w1) \<Rightarrow> w1
      | (Inr True, w1) \<Rightarrow>
          (case createWorkflowRun tc workflow cronSpec w1 of
             (Some e, w2) \<Rightarrow> recordCronFireFailure tc workflow e w2
           | (None, w2) \<Rightarrow> w2))"

definition handleCronFire :: "'w tclient \<Rightarrow> string \<Rightarrow> 'c Scheduler \<Rightarrow> 'w \<Rightarrow> 'w" where
  "handleCronFire tc key s w =
     (case (map_of (Scheduler_workflows s) key, map_of (Scheduler_cronSpecs s) key) of
        (Some workflow, Some cronSpec) \<Rightarrow>
          if \<not> Scheduler_started s then w
          else (case apply_policy tc workflow cronSpec w of
                  (None, w1) \<Rightarrow> w1
                | (Some cancelled, w1) \<Rightarrow> fire tc workflow cronSpec cancelled w1)
      | _ \<Rightarrow> w)"

subsection \<open>What the registry guarantees\<close>

text \<open>
  The cron engine: an entry that is added gets a number that is free, a schedule that cannot be parsed
  adds nothing, removing forgets the entry.
\<close>

definition cron_engine :: "'c cron \<Rightarrow> ('c \<Rightarrow> nat \<Rightarrow> (string \<times> string) option) \<Rightarrow> bool" where
  "cron_engine eng fired_by \<longleftrightarrow>
     (\<forall>sch key c r c'. cron_AddFunc eng sch key c = (r, c') \<longrightarrow>
        (case r of Inl e \<Rightarrow> fired_by c' = fired_by c
         | Inr i \<Rightarrow> fired_by c i = None \<and> fired_by c' = (fired_by c)(i \<mapsto> (sch, key)))) \<and>
     (\<forall>i c. fired_by (cron_Remove eng i c) = (fired_by c)(i := None))"

text \<open>The engine fires exactly the registered keys, each by one entry and with the schedule of its trigger.\<close>

definition schedules_ok :: "('c \<Rightarrow> nat \<Rightarrow> (string \<times> string) option) \<Rightarrow> 'c Scheduler \<Rightarrow> bool" where
  "schedules_ok fired_by s \<longleftrightarrow>
     (\<forall>i sch key. fired_by (Scheduler_cron s) i = Some (sch, key) \<longleftrightarrow>
        map_of (Scheduler_entries s) key = Some i \<and>
        map_option cron_schedule (map_of (Scheduler_cronSpecs s) key) = Some sch) \<and>
     (\<forall>key. map_of (Scheduler_entries s) key \<noteq> None \<longrightarrow>
        map_of (Scheduler_cronSpecs s) key \<noteq> None \<and> map_of (Scheduler_workflows s) key \<noteq> None)"

lemma drop_entry_simps [simp]:
  "map_of (Scheduler_entries (drop_entry eng key s)) = (map_of (Scheduler_entries s))(key := None)"
  "Scheduler_cronSpecs (drop_entry eng key s) = Scheduler_cronSpecs s"
  "Scheduler_workflows (drop_entry eng key s) = Scheduler_workflows s"
  "Scheduler_started (drop_entry eng key s) = Scheduler_started s"
  by (auto simp: drop_entry_def split: option.splits)

lemma schedules_inj:
  assumes "schedules_ok fired_by s" "map_of (Scheduler_entries s) k = Some i" "map_of (Scheduler_entries s) k' = Some i"
  shows "k = k'"
proof -
  from assms obtain spec spec' where "map_of (Scheduler_cronSpecs s) k = Some spec" "map_of (Scheduler_cronSpecs s) k' = Some spec'"
    unfolding schedules_ok_def by blast
  with assms have "fired_by (Scheduler_cron s) i = Some (cron_schedule spec, k)" "fired_by (Scheduler_cron s) i = Some (cron_schedule spec', k')"
    unfolding schedules_ok_def by simp_all
  then show ?thesis by simp
qed

lemma drop_entry_ok:
  assumes "cron_engine eng fired_by" "schedules_ok fired_by s"
  shows "schedules_ok fired_by (drop_entry eng key s)"
proof (cases "map_of (Scheduler_entries s) key")
  case None
  with assms(2) show ?thesis by (simp add: drop_entry_def)
next
  case (Some i)
  then have "fired_by (Scheduler_cron (drop_entry eng key s)) = (fired_by (Scheduler_cron s))(i := None)"
    using assms(1) by (simp add: drop_entry_def cron_engine_def)
  moreover have "k \<noteq> key \<Longrightarrow> map_of (Scheduler_entries s) k \<noteq> Some i" for k using schedules_inj [OF assms(2) Some] by blast
  ultimately show ?thesis using assms(2) Some unfolding schedules_ok_def drop_entry_simps by (auto split: if_splits)
qed

lemma AddSchedule_ok:
  assumes "cron_engine eng fired_by" "schedules_ok fired_by s" "AddSchedule eng key workflow cronSpec s = (e, s')"
  shows "schedules_ok fired_by s'"
proof -
  let ?s1 = "drop_entry eng key s"
  note ok = drop_entry_ok [OF assms(1,2), of key]
  obtain r c where a: "cron_AddFunc eng (cron_schedule cronSpec) key (Scheduler_cron ?s1) = (r, c)" by force
  note law = assms(1) [unfolded cron_engine_def, THEN conjunct1, rule_format, OF a]
  show ?thesis
  proof (cases r)
    case (Inl err)
    with assms(3) a law ok show ?thesis by (auto simp: AddSchedule_def Let_def schedules_ok_def)
  next
    case (Inr i)
    with law have c: "fired_by (Scheduler_cron ?s1) i = None" "fired_by c = (fired_by (Scheduler_cron ?s1))(i \<mapsto> (cron_schedule cronSpec, key))"
      by simp_all
    have fresh: "k \<noteq> key \<Longrightarrow> map_of (Scheduler_entries s) k \<noteq> Some i" for k
    proof
      assume "map_of (Scheduler_entries s) k = Some i" "k \<noteq> key"
      then have k: "map_of (Scheduler_entries ?s1) k = Some i" by simp
      with ok obtain spec where "map_of (Scheduler_cronSpecs ?s1) k = Some spec" unfolding schedules_ok_def by (metis option.distinct(1) option.exhaust)
      with ok k have "fired_by (Scheduler_cron ?s1) i = Some (cron_schedule spec, k)" unfolding schedules_ok_def by simp
      with c(1) show False by simp
    qed
    from Inr a assms(3) have s': "s' = ?s1\<lparr>Scheduler_cron := c, Scheduler_entries := AList.update key i (Scheduler_entries ?s1),
        Scheduler_workflows := AList.update key workflow (Scheduler_workflows ?s1),
        Scheduler_cronSpecs := AList.update key cronSpec (Scheduler_cronSpecs ?s1)\<rparr>"
      by (simp add: AddSchedule_def Let_def)
    show ?thesis unfolding s' using ok c fresh unfolding schedules_ok_def by (auto split: if_splits)
  qed
qed

lemma RemoveSchedule_ok:
  assumes "cron_engine eng fired_by" "schedules_ok fired_by s"
  shows "schedules_ok fired_by (RemoveSchedule eng key s)"
proof (cases "map_of (Scheduler_entries s) key")
  case None
  with assms(2) show ?thesis by (simp add: RemoveSchedule_def)
next
  case (Some i)
  have "map_of (Scheduler_entries (drop_entry eng key s)) key = None" by simp
  with drop_entry_ok [OF assms, of key] Some show ?thesis
    by (auto simp: RemoveSchedule_def schedules_ok_def)
qed

lemma AddSchedule_entries:
  "AddSchedule eng key workflow cronSpec s = (e, s') \<Longrightarrow>
     (\<forall>k. k \<noteq> key \<longrightarrow> map_of (Scheduler_entries s') k = map_of (Scheduler_entries s) k \<and>
       map_of (Scheduler_workflows s') k = map_of (Scheduler_workflows s) k \<and> map_of (Scheduler_cronSpecs s') k = map_of (Scheduler_cronSpecs s) k) \<and>
     (e = None \<longrightarrow> map_of (Scheduler_entries s') key \<noteq> None \<and> map_of (Scheduler_workflows s') key = Some workflow \<and>
        map_of (Scheduler_cronSpecs s') key = Some cronSpec) \<and>
     (e \<noteq> None \<longrightarrow> map_of (Scheduler_entries s') key = None) \<and> Scheduler_started s' = Scheduler_started s"
  by (auto simp: AddSchedule_def Let_def split: prod.splits sum.splits)

lemma RemoveSchedule_entries [simp]:
  "map_of (Scheduler_entries (RemoveSchedule eng key s)) = (map_of (Scheduler_entries s))(key := None)"
  by (auto simp: RemoveSchedule_def fun_upd_idem_iff split: option.splits)

subsection \<open>What a fire does\<close>

text \<open>Runs that a fire under policy Replace has ended: active cron runs of the workflow.\<close>

definition cancels :: "Workflow \<Rightarrow> run_store \<Rightarrow> run_store \<Rightarrow> bool" where
  "cancels workflow R R1 \<longleftrightarrow> (\<forall>k. R1 k = R k \<or> (\<exists>r. R k = Some r \<and> IsActive (run_phase r) \<and> has_labels (cron_labels workflow) r \<and>
     WorkflowRun_Namespace r = Workflow_Namespace workflow \<and> R1 k = Some (replaced r)))"

lemma replaced_simps [simp]:
  "WorkflowRun_Meta (replaced r) = WorkflowRun_Meta r" "\<not> IsActive (run_phase (replaced r))"
  "r\<lparr>WorkflowRun_Status := WorkflowRun_Status (replaced r)\<rparr> = replaced r"
  by (simp_all add: replaced_def setRunFailed_def upd_status_def IsActive_def)

lemma cancels_refl [simp]: "cancels workflow R R"
  by (simp add: cancels_def)

lemma cancels_step:
  assumes "cancels workflow (R(run_key r \<mapsto> replaced r)) R1" "R (run_key r) = Some r" "IsActive (run_phase r)"
    and "has_labels (cron_labels workflow) r" "WorkflowRun_Namespace r = Workflow_Namespace workflow"
  shows "cancels workflow R R1" "R1 (run_key r) = Some (replaced r)"
proof -
  from assms(1) show here: "R1 (run_key r) = Some (replaced r)"
    unfolding cancels_def by (metis fun_upd_same option.inject replaced_simps(2))
  show "cancels workflow R R1"
    unfolding cancels_def
  proof
    fix k
    show "R1 k = R k \<or> (\<exists>r. R k = Some r \<and> IsActive (run_phase r) \<and> has_labels (cron_labels workflow) r \<and>
        WorkflowRun_Namespace r = Workflow_Namespace workflow \<and> R1 k = Some (replaced r))"
    proof (cases "k = run_key r")
      case True
      with here assms(2-5) show ?thesis by blast
    next
      case False
      with assms(1) [unfolded cancels_def, THEN spec, of k] show ?thesis by (metis fun_upd_other)
    qed
  qed
qed

lemma cancel_runs_effect:
  assumes "triggers_client tc runs" "cancel_runs tc items acc w = (x, w')" "distinct (map run_key items)"
    and "\<forall>r\<in>set items. runs w (run_key r) = Some r \<and> has_labels (cron_labels workflow) r \<and> WorkflowRun_Namespace r = Workflow_Namespace workflow"
  shows "cancels workflow (runs w) (runs w') \<and>
    (\<forall>names. x = Inr names \<longrightarrow> (\<forall>n\<in>set names - set acc. \<exists>r. runs w' (Workflow_Namespace workflow, n) = Some r \<and> \<not> IsActive (run_phase r)))"
  using assms(2-4)
proof (induction items arbitrary: acc w)
  case (Cons r items)
  then have r: "runs w (run_key r) = Some r" "has_labels (cron_labels workflow) r" "WorkflowRun_Namespace r = Workflow_Namespace workflow" by auto
  show ?case
  proof (cases "IsActive (run_phase r)")
    case False
    with Cons.prems(1) have "cancel_runs tc items acc w = (x, w')" by simp
    moreover from Cons.prems(2) have "distinct (map run_key items)" by simp
    ultimately show ?thesis using Cons.prems(3) by (intro Cons.IH) (blast intro: list.set_intros)+
  next
    case True
    obtain e w1 where u: "kube_updateStatus (tc_kube tc) (replaced r) w = (e, w1)" by force
    have "status_update_law (tc_kube tc) runs" using triggers_runs_client [OF assms(1)] by (simp add: runs_client_def)
    note law = this [unfolded status_update_law_def, rule_format, OF u]
    then have w1: "runs w1 = runs w \<or> runs w1 = (runs w)(run_key r \<mapsto> replaced r)"
      "e = None \<Longrightarrow> runs w1 = (runs w)(run_key r \<mapsto> replaced r)"
      using r(1) by (auto simp: write_outcome_def split: option.splits)
    have one: "cancels workflow (runs w) (runs w1)"
      using w1(1) cancels_step(1) [where R = "runs w" and r = r, OF _ r(1) True r(2,3)] by auto
    show ?thesis
    proof (cases e)
      case (Some err)
      with Cons.prems u True one show ?thesis by auto
    next
      case None
      with Cons.prems u True have rest: "cancel_runs tc items (acc @ [WorkflowRun_Name r]) w1 = (x, w')" by simp
      have w1': "runs w1 = (runs w)(run_key r \<mapsto> replaced r)" using w1(2) None by simp
      have "\<forall>r\<in>set items. runs w1 (run_key r) = Some r \<and> has_labels (cron_labels workflow) r \<and> WorkflowRun_Namespace r = Workflow_Namespace workflow"
      proof
        fix q
        assume q: "q \<in> set items"
        then have "run_key q \<noteq> run_key r" using Cons.prems(2) by (auto simp: image_iff)
        with q Cons.prems(3) w1' show "runs w1 (run_key q) = Some q \<and> has_labels (cron_labels workflow) q \<and>
            WorkflowRun_Namespace q = Workflow_Namespace workflow" by (auto simp: fun_upd_other)
      qed
      from Cons.IH [OF rest _ this] Cons.prems(2) have ih: "cancels workflow (runs w1) (runs w')"
        "\<forall>names. x = Inr names \<longrightarrow> (\<forall>n\<in>set names - set (acc @ [WorkflowRun_Name r]).
           \<exists>r. runs w' (Workflow_Namespace workflow, n) = Some r \<and> \<not> IsActive (run_phase r))" by simp_all
      from cancels_step [where R = "runs w" and r = r, OF ih(1) [unfolded w1'] r(1) True r(2,3)] have
        "cancels workflow (runs w) (runs w')" "runs w' (Workflow_Namespace workflow, WorkflowRun_Name r) = Some (replaced r)"
        using r(3) by simp_all
      with ih(2) show ?thesis by (metis DiffI Diff_iff Un_iff empty_iff insert_iff list.set replaced_simps(2) set_append)
    qed
  qed
qed auto

text \<open>No active cron run of the workflow.\<close>

definition cron_idle :: "Workflow \<Rightarrow> run_store \<Rightarrow> bool" where
  "cron_idle workflow R \<longleftrightarrow> (\<forall>k r. R k = Some r \<and> WorkflowRun_Namespace r = Workflow_Namespace workflow \<and>
     has_labels (cron_labels workflow) r \<longrightarrow> \<not> IsActive (run_phase r))"

lemma apply_policy_effect:
  assumes "triggers_client tc runs" "apply_policy tc workflow cronSpec w = (x, w')"
  shows "cancels workflow (runs w) (runs w')"
    "CronTrigger_ConcurrencyPolicy cronSpec \<noteq> ''Replace'' \<Longrightarrow> runs w' = runs w"
    "CronTrigger_ConcurrencyPolicy cronSpec = ''Forbid'' \<Longrightarrow> x \<noteq> None \<Longrightarrow> cron_idle workflow (runs w)"
    "x = Some names \<Longrightarrow> n \<in> set names \<Longrightarrow> \<exists>r. runs w' (Workflow_Namespace workflow, n) = Some r \<and> \<not> IsActive (run_phase r)"
proof -
  obtain l w1 where l: "tc_listRuns tc (Workflow_Namespace workflow) (cron_labels workflow) w = (l, w1)" by force
  have w1: "runs w1 = runs w" using triggers_frame(4) [OF assms(1) l] .
  consider (forbid) "CronTrigger_ConcurrencyPolicy cronSpec = ''Forbid''" | (replace) "CronTrigger_ConcurrencyPolicy cronSpec = ''Replace''"
    | (other) "CronTrigger_ConcurrencyPolicy cronSpec \<notin> {''Forbid'', ''Replace''}" by blast
  then have "cancels workflow (runs w) (runs w') \<and> (CronTrigger_ConcurrencyPolicy cronSpec \<noteq> ''Replace'' \<longrightarrow> runs w' = runs w) \<and>
    (CronTrigger_ConcurrencyPolicy cronSpec = ''Forbid'' \<and> x \<noteq> None \<longrightarrow> cron_idle workflow (runs w)) \<and>
    (\<forall>names n. x = Some names \<and> n \<in> set names \<longrightarrow> (\<exists>r. runs w' (Workflow_Namespace workflow, n) = Some r \<and> \<not> IsActive (run_phase r)))"
  proof cases
    case forbid
    with assms(2) l have x: "w' = w1" "x \<in> {None, Some []}" "x \<noteq> None \<Longrightarrow> \<exists>items. l = Inr items \<and> \<not> list_ex (\<lambda>wr. IsActive (run_phase wr)) items"
      by (auto simp: apply_policy_def hasActiveWorkflowRun_def split: sum.splits if_splits)
    have "cron_idle workflow (runs w)" if "x \<noteq> None"
    proof -
      from x(3) [OF that] obtain items where items: "l = Inr items" "\<forall>wr\<in>set items. \<not> IsActive (run_phase wr)" by (auto simp: list_ex_iff)
      note it = list_items [OF assms(1) l [unfolded items(1)]]
      show ?thesis unfolding cron_idle_def
      proof (intro allI impI, elim conjE)
        fix k r
        assume r: "runs w k = Some r" "WorkflowRun_Namespace r = Workflow_Namespace workflow" "has_labels (cron_labels workflow) r"
        with triggers_keyed [OF assms(1) r(1)] it(3) have "r \<in> set items" by auto
        with items(2) show "\<not> IsActive (run_phase r)" by blast
      qed
    qed
    with x w1 forbid show ?thesis by auto
  next
    case replace
    show ?thesis
    proof (cases l)
      case (Inl e)
      with assms(2) l replace w1 show ?thesis by (auto simp: apply_policy_def cancelActiveWorkflowRuns_def)
    next
      case (Inr items)
      note it = list_items [OF assms(1) l [unfolded Inr]]
      obtain c w2 where c: "cancel_runs tc items [] w1 = (c, w2)" by force
      with assms(2) l Inr replace have x: "w' = w2" "x = (case c of Inl e \<Rightarrow> None | Inr names \<Rightarrow> Some names)"
        by (auto simp: apply_policy_def cancelActiveWorkflowRuns_def split: sum.splits)
      have "\<forall>r\<in>set items. runs w1 (run_key r) = Some r \<and> has_labels (cron_labels workflow) r \<and> WorkflowRun_Namespace r = Workflow_Namespace workflow"
        using it(3) w1 by auto
      from cancel_runs_effect [OF assms(1) c it(2) this] x w1 replace show ?thesis by (auto split: sum.splits)
    qed
  next
    case other
    with assms(2) show ?thesis by (auto simp: apply_policy_def)
  qed
  then show "cancels workflow (runs w) (runs w')"
    "CronTrigger_ConcurrencyPolicy cronSpec \<noteq> ''Replace'' \<Longrightarrow> runs w' = runs w"
    "CronTrigger_ConcurrencyPolicy cronSpec = ''Forbid'' \<Longrightarrow> x \<noteq> None \<Longrightarrow> cron_idle workflow (runs w)"
    "x = Some names \<Longrightarrow> n \<in> set names \<Longrightarrow> \<exists>r. runs w' (Workflow_Namespace workflow, n) = Some r \<and> \<not> IsActive (run_phase r)"
    by blast+
qed

lemma read_secret_inputs_frame [kube_frame]:
  "triggers_client tc runs \<Longrightarrow> read_secret_inputs tc ns from out w = (x, w') \<Longrightarrow> runs w' = runs w"
proof (induction "from" arbitrary: out w)
  case (Cons entry rest)
  then show ?case
    by (auto simp: Let_def dest: triggers_frame(1) [OF Cons.prems(1)] split: if_splits prod.splits sum.splits option.splits)
qed simp

lemma cron_inputs_frame [kube_frame]:
  "triggers_client tc runs \<Longrightarrow> cron_inputs tc workflow cronSpec w = (x, w') \<Longrightarrow> runs w' = runs w"
  by (auto simp: cron_inputs_def cronInputValuesFromSecrets_def read_secret_inputs_frame split: if_splits prod.splits sum.splits)

lemma cron_run_of: "run_of workflow (cron_run workflow cronSpec name inputs now)" "IsActive (run_phase (cron_run workflow cronSpec name inputs now))"
  by (simp_all add: run_of_def cron_run_def WorkflowLabelKey_def TriggerLabelKey_def ManagedByLabelKey_def)

lemma createWorkflowRun_fires:
  assumes "triggers_client tc runs" "createWorkflowRun tc workflow cronSpec w = (x, w')"
  shows "fires workflow (runs w) (runs w')"
proof -
  obtain t w0 where n0: "kube_now (tc_kube tc) w = (t, w0)" by force
  obtain i w1 where i: "cron_inputs tc workflow cronSpec w0 = (i, w1)" by force
  have e: "runs w1 = runs w" using triggers_frame(5) [OF assms(1) n0] cron_inputs_frame [OF assms(1) i] by simp
  show ?thesis
  proof (cases i)
    case (Inl err)
    with assms(2) n0 i e show ?thesis by (auto simp: createWorkflowRun_def)
  next
    case (Inr inputs)
    obtain now w2 where n2: "kube_now (tc_kube tc) w1 = (now, w2)" by force
    define run where "run = cron_run workflow cronSpec (Workflow_Name workflow @ ''-'' @ itoa (unix_seconds t)) inputs now"
    note run = cron_run_of [of workflow cronSpec "Workflow_Name workflow @ ''-'' @ itoa (unix_seconds t)" inputs now, folded run_def]
    have w2: "runs w2 = runs w" using triggers_frame(5) [OF assms(1) n2] e by simp
    obtain c w3 where c: "tc_createRun tc run w2 = (c, w3)" by force
    show ?thesis
    proof (cases c)
      case (Some err)
      with assms(2) n0 i Inr n2 c have "w' = w3" by (simp add: createWorkflowRun_def run_def Let_def)
      with create_fires(1) [OF assms(1) c run(1)] w2 show ?thesis by simp
    next
      case None
      with assms(2) n0 i Inr n2 c have "set_new_status tc run w3 = (x, w')" by (simp add: createWorkflowRun_def run_def Let_def)
      from create_and_set_fires(1) [OF assms(1) c [unfolded None] run set_new_status_effect [OF assms(1) this]] w2 show ?thesis by simp
    qed
  qed
qed

lemma handleCronFire_effect:
  assumes "triggers_client tc runs" "map_of (Scheduler_workflows s) key = Some workflow" "map_of (Scheduler_cronSpecs s) key = Some cronSpec"
  obtains R1 where "cancels workflow (runs w) R1" "limited_fire workflow R1 (runs (handleCronFire tc key s w))"
    "CronTrigger_ConcurrencyPolicy cronSpec \<noteq> ''Replace'' \<Longrightarrow> R1 = runs w"
    "CronTrigger_ConcurrencyPolicy cronSpec = ''Forbid'' \<Longrightarrow> runs (handleCronFire tc key s w) \<noteq> runs w \<Longrightarrow> cron_idle workflow (runs w)"
proof (cases "Scheduler_started s")
  case False
  with assms(2,3) have "handleCronFire tc key s w = w" by (simp add: handleCronFire_def)
  with that [of "runs w"] show ?thesis by simp
next
  case True
  obtain x w1 where p: "apply_policy tc workflow cronSpec w = (x, w1)" by force
  note pol = apply_policy_effect [OF assms(1) p]
  show ?thesis
  proof (cases x)
    case None
    with assms(2,3) p True have "handleCronFire tc key s w = w1" by (simp add: handleCronFire_def)
    with pol(1,2) that [of "runs w1"] show ?thesis by auto
  next
    case (Some names)
    obtain b w2 where b: "below_limit tc workflow names w1 = (b, w2)" by force
    note lim = below_limit_law [OF assms(1) b]
    have skip: "{k \<in> active_runs workflow (runs w1). snd k \<notin> set names} = active_runs workflow (runs w1)"
    proof -
      have "snd k \<notin> set names" if "k \<in> active_runs workflow (runs w1)" for k
      proof
        assume n: "snd k \<in> set names"
        from that obtain r where r: "runs w1 k = Some r" "WorkflowRun_Namespace r = Workflow_Namespace workflow" "IsActive (run_phase r)"
          unfolding active_runs_def by blast
        then have "k = (Workflow_Namespace workflow, snd k)" using triggers_keyed [OF assms(1) r(1)] by auto
        with pol(4) [OF Some n] r(1,3) show False by (metis option.inject)
      qed
      then show ?thesis by blast
    qed
    obtain c w3 where c: "createWorkflowRun tc workflow cronSpec w2 = (c, w3)" by force
    have ev: "runs (recordCronFireFailure tc workflow e w) = runs w" for e w
      using assms(1) by (auto simp: recordCronFireFailure_def triggers_client_def split: option.splits)
    show ?thesis
    proof (cases "b = Inr True")
      case False
      with assms(2,3) p True Some b have "handleCronFire tc key s w = w2"
        by (auto simp: handleCronFire_def fire_def split: sum.splits bool.splits)
      with pol(1,2) lim(1) that [of "runs w1"] show ?thesis by auto
    next
      case created: True
      with assms(2,3) p True Some b c ev have h: "runs (handleCronFire tc key s w) = runs w3"
        by (auto simp: handleCronFire_def fire_def split: option.splits)
      show ?thesis
        by (rule that [of "runs w1"])
          (use pol Some lim(1) lim(2) [OF created] skip createWorkflowRun_fires [OF assms(1) c] h in \<open>simp_all add: limited_fire_def\<close>)
    qed
  qed
qed

text \<open>An engine that numbers its entries, for the witnesses.\<close>

definition memory_cron :: "(nat \<times> (nat \<times> string \<times> string) list) cron" where
  "memory_cron = \<lparr>cron_AddFunc = (\<lambda>sch key c. (Inr (fst c), (Suc (fst c), (fst c, sch, key) # snd c))),
     cron_Remove = (\<lambda>i c. (fst c, AList.delete i (snd c)))\<rparr>"

definition memory_fired :: "nat \<times> (nat \<times> string \<times> string) list \<Rightarrow> nat \<Rightarrow> (string \<times> string) option" where
  "memory_fired c i = (if i < fst c then map_of (snd c) i else None)"

lemma memory_cron_engine: "cron_engine memory_cron memory_fired"
  by (auto simp: cron_engine_def memory_cron_def memory_fired_def fun_eq_iff)

end
