(* ===== verification/Cel_Refs.thy ===== *)
theory Cel_Refs
  imports Api_Types
begin

text \<open>
  The references in the expressions of a workflow, \<^verbatim>\<open>internal/webhook/workflow_deps_validation.go\<close>: which
  strings of a step may be CEL, which steps, variables and inputs they name, and whether the
  dependencies of the step cover them.

  The regular expressions of the source are scanners over bytes. \<^verbatim>\<open>FindAllStringSubmatch\<close> looks for the
  leftmost match and goes on behind it (\<open>FindAll\<close>); every pattern has a unique match at a given place.
  A Go map used as a set is the list of its elements, and the order in which it is visited is the
  argument \<open>web_order\<close>. The parser of CEL is \<open>web_parses\<close>, the text of a document that is not JSON
  \<open>web_text\<close>.
\<close>

named_theorems admission_defs "definitions of the admission checks, for unfolding"

record web_lib =
  web_order :: "string list \<Rightarrow> string list"
  web_parses :: "string \<Rightarrow> bool"
  web_text :: "raw_json \<Rightarrow> string"

text \<open>A \<^verbatim>\<open>range\<close> over a set visits each element.\<close>

definition visits_all :: "(string list \<Rightarrow> string list) \<Rightarrow> bool" where
  "visits_all order \<longleftrightarrow> (\<forall>xs. set (order xs) = set xs)"

text \<open>The idiom \<^verbatim>\<open>if err := ...; err != nil { return err }\<close> before the next check.\<close>

definition and_then :: "goerror option \<Rightarrow> goerror option \<Rightarrow> goerror option" where
  "and_then a b = (case a of Some e \<Rightarrow> Some e | None \<Rightarrow> b)"

lemma and_then_None [simp]: "and_then a b = None \<longleftrightarrow> a = None \<and> b = None"
  by (auto simp: and_then_def split: option.splits)

subsection \<open>String literals\<close>

text \<open>
  \<^verbatim>\<open>celStringLiteralRe\<close>: what follows the closing quote of a literal whose opening quote has been read. A
  backslash takes the next character with it, except a newline, which \<^verbatim>\<open>.\<close> does not match.
\<close>

fun literal_end :: "char \<Rightarrow> string \<Rightarrow> string option" where
  "literal_end q [] = None"
| "literal_end q (c # s) =
     (if c = q then Some s
      else if c = CHR 0x5C
      then (case s of [] \<Rightarrow> None | d # s' \<Rightarrow> if d = CHR 0x0A then None else literal_end q s')
      else literal_end q s)"

lemma literal_end_shorter: "literal_end q s = Some r \<Longrightarrow> length r < length s"
proof (induction q s rule: literal_end.induct)
  case (2 q c s)
  then show ?case by (cases s) (auto split: if_splits)
qed simp

definition is_quote :: "char \<Rightarrow> bool" where
  "is_quote c \<longleftrightarrow> c = CHR 0x22 \<or> c = CHR 0x27"

text \<open>\<^verbatim>\<open>celStringLiteralRe.ReplaceAllString(s, `""`)\<close>.\<close>

function strip_literals :: "string \<Rightarrow> string" where
  "strip_literals [] = []"
| "strip_literals (c # s) =
     (case (if is_quote c then literal_end c s else None) of
        Some rest \<Rightarrow> CHR 0x22 # CHR 0x22 # strip_literals rest
      | None \<Rightarrow> c # strip_literals s)"
  by pat_completeness auto
termination
  by (relation "measure length") (auto split: if_splits dest!: literal_end_shorter)

lemma strip_literals_id: "\<forall>c\<in>set s. \<not> is_quote c \<Longrightarrow> strip_literals s = s"
  by (induction s) auto

lemma strip_literals_literal:
  assumes "is_quote q" "\<forall>c\<in>set l. c \<noteq> q \<and> c \<noteq> CHR 0x5C"
  shows "strip_literals (q # l @ q # s) = CHR 0x22 # CHR 0x22 # strip_literals s"
proof -
  from assms(2) have "literal_end q (l @ q # s) = Some s" by (induction l) auto
  with assms(1) show ?thesis by simp
qed

subsection \<open>References\<close>

definition lower_letter :: "char \<Rightarrow> bool" where
  "lower_letter c \<longleftrightarrow> 97 \<le> (of_char c :: nat) \<and> (of_char c :: nat) \<le> 122"

definition letter :: "char \<Rightarrow> bool" where
  "letter c \<longleftrightarrow> lower_letter c \<or> 65 \<le> (of_char c :: nat) \<and> (of_char c :: nat) \<le> 90"

definition letter_digit :: "char \<Rightarrow> bool" where
  "letter_digit c \<longleftrightarrow> letter c \<or> 48 \<le> (of_char c :: nat) \<and> (of_char c :: nat) \<le> 57"

text \<open>The class \<^verbatim>\<open>\w\<close>.\<close>

definition word_char :: "char \<Rightarrow> bool" where
  "word_char c \<longleftrightarrow> letter_digit c \<or> c = CHR ''_''"

lemma letter_digit_word: "letter_digit c \<Longrightarrow> word_char c"
  by (simp add: word_char_def)

lemma lower_letter_digit: "lower_letter c \<Longrightarrow> letter_digit c"
  by (simp add: letter_digit_def letter_def)

text \<open>
  The three patterns: a keyword with its dot, and a name with a class for its first and one for its
  other characters; \<open>Ref_Bounded\<close> stands for the group \<^verbatim>\<open>(?:^|[^.\w])\<close> in front.
\<close>

record ref_pattern =
  Ref_Bounded :: bool
  Ref_Keywords :: "string list"
  Ref_First :: "char \<Rightarrow> bool"
  Ref_Rest :: "char \<Rightarrow> bool"

definition stepsRefRe :: ref_pattern where
  "stepsRefRe = \<lparr>Ref_Bounded = True, Ref_Keywords = [''steps.'', ''stepStatus.''], Ref_First = lower_letter, Ref_Rest = letter_digit\<rparr>"

definition variablesRefRe :: ref_pattern where
  "variablesRefRe = \<lparr>Ref_Bounded = False, Ref_Keywords = [''variables.''], Ref_First = letter, Ref_Rest = letter_digit\<rparr>"

definition inputsRefRe :: ref_pattern where
  "inputsRefRe = \<lparr>Ref_Bounded = False, Ref_Keywords = [''inputs.''],
     Ref_First = (\<lambda>c. letter c \<or> c = CHR ''_''), Ref_Rest = word_char\<rparr>"

text \<open>May a match start behind the character \<open>prev\<close>, none at the start of the text?\<close>

definition boundary :: "ref_pattern \<Rightarrow> char option \<Rightarrow> bool" where
  "boundary re prev \<longleftrightarrow> \<not> Ref_Bounded re \<or> (case prev of None \<Rightarrow> True | Some c \<Rightarrow> c \<noteq> CHR ''.'' \<and> \<not> word_char c)"

text \<open>A match at the front of a string: the name and the rest behind it.\<close>

fun name_at :: "ref_pattern \<Rightarrow> string \<Rightarrow> (string \<times> string) option" where
  "name_at re [] = None"
| "name_at re (c # s) = (if Ref_First re c then Some (c # takeWhile (Ref_Rest re) s, dropWhile (Ref_Rest re) s) else None)"

fun keyword_at :: "ref_pattern \<Rightarrow> string list \<Rightarrow> string \<Rightarrow> (string \<times> string) option" where
  "keyword_at re [] s = None"
| "keyword_at re (k # ks) s =
     (case Option.bind (cut_prefix s k) (name_at re) of Some x \<Rightarrow> Some x | None \<Rightarrow> keyword_at re ks s)"

definition ref_at :: "ref_pattern \<Rightarrow> char option \<Rightarrow> string \<Rightarrow> (string \<times> string) option" where
  "ref_at re prev s = (if boundary re prev then keyword_at re (Ref_Keywords re) s else None)"

lemma name_at_Some:
  "name_at re s = Some (n, r) \<longleftrightarrow>
     (\<exists>c cs. n = c # cs \<and> s = n @ r \<and> Ref_First re c \<and> (\<forall>x\<in>set cs. Ref_Rest re x) \<and> (r = [] \<or> \<not> Ref_Rest re (hd r)))"
proof (cases s)
  case (Cons c s')
  have "takeWhile (Ref_Rest re) (cs @ r) = cs \<and> dropWhile (Ref_Rest re) (cs @ r) = r"
    if "\<forall>x\<in>set cs. Ref_Rest re x" "r = [] \<or> \<not> Ref_Rest re (hd r)" for cs
    using that by (cases r) (auto simp: takeWhile_append dropWhile_append)
  moreover have "dropWhile (Ref_Rest re) s' = [] \<or> \<not> Ref_Rest re (hd (dropWhile (Ref_Rest re) s'))"
    using hd_dropWhile by blast
  ultimately show ?thesis using Cons by (auto dest: set_takeWhileD)
qed simp

lemma keyword_at_Some:
  "keyword_at re ks s = Some (n, r) \<Longrightarrow> \<exists>k\<in>set ks. \<exists>t. s = k @ t \<and> name_at re t = Some (n, r)"
  by (induction ks) (auto simp: cut_prefix_Some split: option.splits bind_splits)

lemma ref_at_Some:
  assumes "ref_at re prev s = Some (n, r)"
  obtains k t where "k \<in> set (Ref_Keywords re)" "s = k @ t" "name_at re t = Some (n, r)" "boundary re prev"
  using assms keyword_at_Some by (fastforce simp: ref_at_def split: if_splits)

lemma ref_at_shorter: "ref_at re prev s = Some (n, r) \<Longrightarrow> length r < length s"
  by (erule ref_at_Some) (auto simp: name_at_Some)

function FindAll :: "ref_pattern \<Rightarrow> char option \<Rightarrow> string \<Rightarrow> string list" where
  "FindAll re prev [] = []"
| "FindAll re prev (c # s) =
     (case ref_at re prev (c # s) of
        Some (name, rest) \<Rightarrow> name # FindAll re (Some (last name)) rest
      | None \<Rightarrow> FindAll re (Some c) s)"
  by pat_completeness auto
termination
  by (relation "measure (\<lambda>(re, prev, s). length s)") (auto dest: ref_at_shorter)

definition extractStepRefs :: "string list \<Rightarrow> string list" where
  "extractStepRefs exprs = concat (map (\<lambda>s. FindAll stepsRefRe None (strip_literals s)) exprs)"

definition extractVariableRefs :: "string list \<Rightarrow> string list" where
  "extractVariableRefs exprs = concat (map (FindAll variablesRefRe None) exprs)"

definition extractInputRefs :: "string list \<Rightarrow> string list" where
  "extractInputRefs exprs = concat (map (\<lambda>s. FindAll inputsRefRe None (strip_literals s)) exprs)"

subsection \<open>What the scanner finds\<close>

text \<open>
  A name occurs as a reference in a text: behind a keyword that starts at a boundary, and as long as
  its characters go. \<open>prev\<close> is the character before the text.
\<close>

definition refers :: "ref_pattern \<Rightarrow> char option \<Rightarrow> string \<Rightarrow> string \<Rightarrow> bool" where
  "refers re prev s n \<longleftrightarrow> (\<exists>pre k t r. s = pre @ k @ t \<and> k \<in> set (Ref_Keywords re) \<and> name_at re t = Some (n, r) \<and>
     boundary re (if pre = [] then prev else Some (last pre)))"

lemma refersI:
  "s = pre @ k @ t \<Longrightarrow> k \<in> set (Ref_Keywords re) \<Longrightarrow> name_at re t = Some (n, r) \<Longrightarrow>
     boundary re (if pre = [] then prev else Some (last pre)) \<Longrightarrow> refers re prev s n"
  unfolding refers_def by blast

lemma refers_append:
  assumes "pre \<noteq> []" "refers re (Some (last pre)) s n"
  shows "refers re prev (pre @ s) n"
proof -
  from assms(2) obtain pre' k t r where "s = pre' @ k @ t" "k \<in> set (Ref_Keywords re)" "name_at re t = Some (n, r)"
    "boundary re (if pre' = [] then Some (last pre) else Some (last pre'))" unfolding refers_def by blast
  with assms(1) show ?thesis
    by (intro refersI [where pre = "pre @ pre'" and k = k and t = t and r = r]) (simp_all split: if_splits)
qed

text \<open>Every name that is found occurs, for each of the patterns.\<close>

lemma FindAll_sound: "n \<in> set (FindAll re prev s) \<Longrightarrow> refers re prev s n"
proof (induction re prev s rule: FindAll.induct)
  case (2 re prev c s)
  show ?case
  proof (cases "ref_at re prev (c # s)")
    case None
    with 2 have "refers re (Some c) s n" by simp
    then show ?thesis using refers_append [of "[c]"] by simp
  next
    case (Some x)
    then obtain m r where x: "ref_at re prev (c # s) = Some (m, r)" by (cases x) simp
    then obtain k t where k: "k \<in> set (Ref_Keywords re)" "c # s = k @ t" "name_at re t = Some (m, r)" "boundary re prev"
      by (rule ref_at_Some)
    from x "2.prems" consider "n = m" | "n \<in> set (FindAll re (Some (last m)) r)" by auto
    then show ?thesis
    proof cases
      case 1
      show ?thesis by (rule refersI [where pre = "[]" and k = k and t = t and r = r]) (simp_all add: k 1)
    next
      case behind: 2
      from k(3) have t: "t = m @ r" "m \<noteq> []" by (auto simp: name_at_Some)
      from "2.IH"(2) [OF x refl behind] have "refers re (Some (last (k @ m))) r n" using t by simp
      with t k(2) refers_append [of "k @ m"] show ?thesis by simp
    qed
  qed
qed simp

text \<open>
  For the pattern of steps the converse holds too: matches cannot overlap, since inside of one no
  character is a boundary.
\<close>

lemma steps_keyword_chars: "k \<in> set (Ref_Keywords stepsRefRe) \<Longrightarrow> x \<in> set k \<Longrightarrow> x = CHR ''.'' \<or> word_char x"
  by (auto simp: stepsRefRe_def word_char_def letter_digit_def letter_def lower_letter_def)

lemma steps_name_chars: "name_at stepsRefRe t = Some (n, r) \<Longrightarrow> x \<in> set n \<Longrightarrow> word_char x"
  by (auto simp: name_at_Some stepsRefRe_def word_char_def lower_letter_digit)

lemma boundary_steps: "boundary stepsRefRe (Some c) \<longleftrightarrow> c \<noteq> CHR ''.'' \<and> \<not> word_char c"
  by (simp add: boundary_def stepsRefRe_def)

lemma steps_keyword_unique:
  "k @ t = k' @ t' \<Longrightarrow> k \<in> set (Ref_Keywords stepsRefRe) \<Longrightarrow> k' \<in> set (Ref_Keywords stepsRefRe) \<Longrightarrow> k = k' \<and> t = t'"
  by (auto simp: stepsRefRe_def)

lemma keyword_at_complete:
  "k \<in> set ks \<Longrightarrow> name_at re t = Some x \<Longrightarrow> keyword_at re ks (k @ t) \<noteq> None"
  by (induction ks) (auto split: option.splits)

lemma steps_match_behind:
  assumes "k @ m @ r = pre @ s" "pre \<noteq> []" "boundary stepsRefRe (Some (last pre))"
    and "k \<in> set (Ref_Keywords stepsRefRe)" "name_at stepsRefRe (m @ r) = Some (m, r)"
  shows "\<exists>pre'. pre = (k @ m) @ pre' \<and> pre' \<noteq> [] \<and> r = pre' @ s"
proof -
  have inside: "\<not> boundary stepsRefRe (Some x)" if "x \<in> set (k @ m)" for x
    using that steps_keyword_chars [OF assms(4)] steps_name_chars [OF assms(5)] by (auto simp: boundary_steps)
  from assms(1) consider us where "pre = (k @ m) @ us" "r = us @ s" | us where "k @ m = pre @ us" "us \<noteq> []"
    unfolding append.assoc [symmetric] append_eq_append_conv2 [of "k @ m"] by fastforce
  then show ?thesis
  proof cases
    case (1 us)
    then have "us \<noteq> []" using inside [of "last pre"] assms(2,3) by (metis append_Nil2 last_in_set)
    with 1 show ?thesis by blast
  next
    case (2 us)
    then have "last pre \<in> set (k @ m)" using assms(2) by simp
    with inside assms(3) show ?thesis by blast
  qed
qed

lemma FindAll_steps: "n \<in> set (FindAll stepsRefRe prev s) \<longleftrightarrow> refers stepsRefRe prev s n"
proof
  assume "refers stepsRefRe prev s n"
  then show "n \<in> set (FindAll stepsRefRe prev s)"
  proof (induction s arbitrary: prev rule: length_induct)
    case (1 s)
    then obtain pre k t r where o: "s = pre @ k @ t" "k \<in> set (Ref_Keywords stepsRefRe)" "name_at stepsRefRe t = Some (n, r)"
      "boundary stepsRefRe (if pre = [] then prev else Some (last pre))" unfolding refers_def by blast
    have ne: "k @ t \<noteq> []" using o(3) by (auto simp: name_at_Some)
    then obtain c s' where s: "s = c # s'" using o(1) by (metis append_is_Nil_conv neq_Nil_conv)
    show ?case
    proof (cases "ref_at stepsRefRe prev s")
      case None
      have "pre \<noteq> []"
      proof
        assume "pre = []"
        with o None keyword_at_complete [OF o(2,3)] show False by (simp add: ref_at_def)
      qed
      then obtain pre' where "pre = c # pre'" "s' = pre' @ k @ t" using s o(1) by (cases pre) auto
      then have "refers stepsRefRe (Some c) s' n" using o by (intro refersI [of _ pre' k t]) (auto split: if_splits)
      with 1 None s show ?thesis by simp
    next
      case (Some x)
      then obtain m q where x: "ref_at stepsRefRe prev s = Some (m, q)" by (cases x) simp
      then obtain k' t' where k': "k' \<in> set (Ref_Keywords stepsRefRe)" "s = k' @ t'" "name_at stepsRefRe t' = Some (m, q)"
        by (rule ref_at_Some)
      then have t': "t' = m @ q" "m \<noteq> []" by (auto simp: name_at_Some)
      show ?thesis
      proof (cases "pre = []")
        case True
        then have "t = t'" using steps_keyword_unique [of k t k' t'] o(1,2) k'(1,2) by simp
        with o(3) k'(3) x s show ?thesis by simp
      next
        case False
        with steps_match_behind [of k' m q pre "k @ t"] o k' t' obtain pre' where
          p: "pre = (k' @ m) @ pre'" "pre' \<noteq> []" "q = pre' @ k @ t" by auto
        then have "refers stepsRefRe (Some (last m)) q n" using o by (intro refersI [of _ pre' k t]) auto
        moreover have "length q < length s" using k'(2) t' by simp
        ultimately have "n \<in> set (FindAll stepsRefRe (Some (last m)) q)" using 1(1) by blast
        with x s show ?thesis by simp
      qed
    qed
  qed
qed (rule FindAll_sound)

text \<open>The steps an expression refers to: \<^verbatim>\<open>steps.name\<close> or \<^verbatim>\<open>stepStatus.name\<close> outside of string literals.\<close>

definition refers_step :: "string \<Rightarrow> string \<Rightarrow> bool" where
  "refers_step e n \<longleftrightarrow> refers stepsRefRe None (strip_literals e) n"

lemma set_extractStepRefs: "n \<in> set (extractStepRefs exprs) \<longleftrightarrow> (\<exists>e\<in>set exprs. refers_step e n)"
  by (simp add: extractStepRefs_def refers_step_def FindAll_steps)

subsection \<open>The expressions of a step\<close>

definition nonempty :: "string list \<Rightarrow> string list" where
  "nonempty ss = filter (\<lambda>s. s \<noteq> []) ss"

definition option_strings :: "'a option \<Rightarrow> ('a \<Rightarrow> string list) \<Rightarrow> string list" where
  "option_strings x f = (case x of None \<Rightarrow> [] | Some y \<Rightarrow> f y)"

definition evaluatedAsCEL :: "web_lib \<Rightarrow> string \<Rightarrow> bool" where
  "evaluatedAsCEL lib s \<longleftrightarrow> list_ex (\<lambda>c. c \<in> set ''.(['') s \<and> web_parses lib s"

fun walk_strings :: "web_lib \<Rightarrow> val \<Rightarrow> string list" and walk_entries :: "web_lib \<Rightarrow> (string \<times> val) list \<Rightarrow> string list"
  and walk_items :: "web_lib \<Rightarrow> val list \<Rightarrow> string list" where
  "walk_strings lib (VString t) = (if evaluatedAsCEL lib t then [t] else [])"
| "walk_strings lib (VList l) = walk_items lib l"
| "walk_strings lib (VMap m) = walk_entries lib m"
| "walk_strings lib _ = []"
| "walk_entries lib [] = []"
| "walk_entries lib ((k, v) # m) = walk_strings lib v @ walk_entries lib m"
| "walk_items lib [] = []"
| "walk_items lib (v # l) = walk_strings lib v @ walk_items lib l"

definition jsonStringValues :: "web_lib \<Rightarrow> raw_json \<Rightarrow> string list" where
  "jsonStringValues lib raw = (case unmarshal raw of None \<Rightarrow> [web_text lib raw] | Some v \<Rightarrow> walk_strings lib v)"

definition output_strings :: "web_lib \<Rightarrow> Output \<Rightarrow> string list" where
  "output_strings lib x = nonempty [Output_Expression x] @
     (case Output_Value x of None \<Rightarrow> [] | Some raw \<Rightarrow> if raw = RawEmpty then [] else jsonStringValues lib raw)"

definition query_strings :: "StepResourceQuery \<Rightarrow> string list" where
  "query_strings q = nonempty ([StepResourceQuery_Namespace q, StepResourceQuery_Name q, StepResourceQuery_FieldSelector q] @
     map snd (StepResourceQuery_Outputs q) @ map snd (StepResourceQuery_LabelSelector q))"

definition prometheus_strings :: "StepPrometheusQuery \<Rightarrow> string list" where
  "prometheus_strings q = nonempty (map snd (StepPrometheusQuery_Variables q) @ map snd (StepPrometheusQuery_Outputs q))"

definition mutate_strings :: "StepMutate \<Rightarrow> string list" where
  "mutate_strings m = nonempty ([StepMutateTarget_Namespace (StepMutate_Target m), StepMutateTarget_Name (StepMutate_Target m)] @
     option_strings (StepMutate_ApplyConfiguration m) (\<lambda>a. [MutateApplyConfiguration_Expression a]) @
     option_strings (StepMutate_JSONPatch m) (\<lambda>j. [MutateJSONPatch_Expression j]) @ map snd (StepMutate_Outputs m))"

definition collectCELStringsFromOpenReport :: "StepOpenReport option \<Rightarrow> string list" where
  "collectCELStringsFromOpenReport ref = option_strings ref (\<lambda>r.
     nonempty [StepOpenReport_ResultsExpression r, StepOpenReport_ScopeExpression r, StepOpenReport_SummaryExpression r])"

definition collectCELStringsFromStep :: "web_lib \<Rightarrow> Step \<Rightarrow> string list" where
  "collectCELStringsFromStep lib step =
     nonempty (map Expression_Expression (Step_Expressions step)) @
     concat (map (output_strings lib) (Step_Outputs step)) @
     nonempty (map MatchCondition_Expression (Step_MatchConditions step)) @
     option_strings (Step_WorkflowRef step) (\<lambda>r. nonempty (map snd (StepWorkflowRef_Inputs r))) @
     option_strings (Step_AgentRef step) (\<lambda>r. nonempty (StepAgentRef_AdditionalPrompts r)) @
     option_strings (Step_MCPToolCall step) (\<lambda>r. nonempty (map snd (StepMCPToolCall_Arguments r))) @
     option_strings (Step_ResourceQuery step) query_strings @
     option_strings (Step_PrometheusQuery step) prometheus_strings @
     option_strings (Step_Mutate step) mutate_strings @
     option_strings (Step_StepTemplateRef step) (\<lambda>r. nonempty (map snd (StepTemplateRef_Arguments r))) @
     option_strings (Step_ForEach step) (\<lambda>f. nonempty [StepForEach_Items f]) @
     option_strings (Step_ExternalAgentRef step) (\<lambda>r. nonempty [StepExternalAgentRef_Prompt r]) @
     collectCELStringsFromOpenReport (Step_OpenReport step)"

definition collectCELStringsFromForEachStep :: "web_lib \<Rightarrow> StepForEachStep \<Rightarrow> string list" where
  "collectCELStringsFromForEachStep lib inner =
     nonempty (map Expression_Expression (StepForEachStep_Expressions inner)) @
     concat (map (output_strings lib) (StepForEachStep_Outputs inner)) @
     nonempty (map MatchCondition_Expression (StepForEachStep_MatchConditions inner)) @
     option_strings (StepForEachStep_ResourceQuery inner) query_strings @
     option_strings (StepForEachStep_PrometheusQuery inner) prometheus_strings @
     option_strings (StepForEachStep_Mutate inner) mutate_strings @
     option_strings (StepForEachStep_AgentRef inner) (\<lambda>r. nonempty (StepAgentRef_AdditionalPrompts r)) @
     option_strings (StepForEachStep_MCPToolCall inner) (\<lambda>r. nonempty (map snd (StepMCPToolCall_Arguments r))) @
     option_strings (StepForEachStep_WorkflowRef inner) (\<lambda>r. nonempty (map snd (StepWorkflowRef_Inputs r))) @
     option_strings (StepForEachStep_ExternalAgentRef inner) (\<lambda>r. nonempty [StepExternalAgentRef_Prompt r]) @
     collectCELStringsFromOpenReport (StepForEachStep_OpenReport inner)"

text \<open>The inline step of a forEach, if there is one.\<close>

definition inner_step :: "Step \<Rightarrow> StepForEachStep option" where
  "inner_step s = Option.bind (Step_ForEach s) StepForEach_Step"

subsection \<open>Checks\<close>

text \<open>\<^verbatim>\<open>variableToSteps\<close>: the names of the steps that write a variable, in the order of the steps.\<close>

definition step_outputs :: "Step \<Rightarrow> Output list" where
  "step_outputs s = Step_Outputs s @ (case inner_step s of None \<Rightarrow> [] | Some i \<Rightarrow> StepForEachStep_Outputs i)"

definition add_producer :: "string \<Rightarrow> Output \<Rightarrow> (string \<times> string list) list \<Rightarrow> (string \<times> string list) list" where
  "add_producer step x m = (if Output_Name x = [] then m
     else AList.update (Output_Name x) (get_or [] m (Output_Name x) @ [step]) m)"

definition variableToSteps :: "Step list \<Rightarrow> (string \<times> string list) list" where
  "variableToSteps steps = fold (\<lambda>s. fold (add_producer (Step_Name s)) (step_outputs s)) steps []"

fun hasProducerDependency :: "string \<Rightarrow> string list \<Rightarrow> string list \<Rightarrow> bool" where
  "hasProducerDependency stepName [] deps = False"
| "hasProducerDependency stepName (producer # ps) deps =
     (if producer = stepName then True else if producer \<in> set deps then True else hasProducerDependency stepName ps deps)"

definition for_each_mark :: "bool \<Rightarrow> string" where
  "for_each_mark inner = (if inner then '' forEach'' else [])"

definition explicit_mark :: "bool \<Rightarrow> string" where
  "explicit_mark inner = (if inner then [] else '' (dependencies must be explicit)'')"

definition check_step_ref :: "bool \<Rightarrow> string list \<Rightarrow> Step \<Rightarrow> string \<Rightarrow> goerror option" where
  "check_step_ref inner stepNames step ref =
     (if ref \<notin> set stepNames then None
      else if ref = Step_Name step then None
      else if ref \<in> set (Step_DependsOn step) then None
      else Some (errorf (''step '' @ quote (Step_Name step) @ for_each_mark inner @ '' references steps.'' @ ref @
        '' but does not list '' @ quote ref @ '' in dependsOn'' @ explicit_mark inner)))"

definition check_variable_ref ::
  "bool \<Rightarrow> string list \<Rightarrow> (string \<times> string list) list \<Rightarrow> Step \<Rightarrow> string \<Rightarrow> goerror option" where
  "check_variable_ref inner workflowVars producers step v =
     (if v \<in> set workflowVars then None
      else if get_or [] producers v = [] then None
      else if hasProducerDependency (Step_Name step) (get_or [] producers v) (Step_DependsOn step) then None
      else Some (errorf (''step '' @ quote (Step_Name step) @ for_each_mark inner @ '' references variables.'' @ v @
        '' but lists none of its producing steps ('' @ join_with '', '' (get_or [] producers v) @ '') in dependsOn'' @ explicit_mark inner)))"

definition check_refs :: "web_lib \<Rightarrow> bool \<Rightarrow> WorkflowSpec \<Rightarrow> Step \<Rightarrow> string list \<Rightarrow> goerror option" where
  "check_refs lib inner spec step exprs =
     and_then (first_error (check_step_ref inner (map Step_Name (WorkflowSpec_Steps spec)) step) (web_order lib (extractStepRefs exprs)))
       (first_error (check_variable_ref inner (map Variable_Name (WorkflowSpec_Variables spec)) (variableToSteps (WorkflowSpec_Steps spec)) step)
         (web_order lib (extractVariableRefs exprs)))"

definition ValidateStepDependencies :: "web_lib \<Rightarrow> WorkflowSpec option \<Rightarrow> goerror option" where
  "ValidateStepDependencies lib p =
     (case p of None \<Rightarrow> None
      | Some spec \<Rightarrow>
          if WorkflowSpec_Steps spec = [] then None
          else and_then
            (first_error (\<lambda>s. check_refs lib False spec s (collectCELStringsFromStep lib s)) (WorkflowSpec_Steps spec))
            (first_error (\<lambda>s. case inner_step s of None \<Rightarrow> None
                | Some i \<Rightarrow> check_refs lib True spec s (collectCELStringsFromForEachStep lib i)) (WorkflowSpec_Steps spec)))"

definition check_inputs :: "web_lib \<Rightarrow> WorkflowSpec \<Rightarrow> string \<Rightarrow> string list \<Rightarrow> goerror option" where
  "check_inputs lib spec subject exprs =
     first_error (\<lambda>ref. if ref \<in> set (map Input_Name (WorkflowSpec_Inputs spec)) then None
         else Some (errorf (subject @ '' references inputs.'' @ ref @ '' which is not declared in workflow inputs'')))
       (web_order lib (extractInputRefs exprs))"

definition check_step_inputs :: "web_lib \<Rightarrow> WorkflowSpec \<Rightarrow> Step \<Rightarrow> goerror option" where
  "check_step_inputs lib spec s =
     and_then (check_inputs lib spec (''step '' @ quote (Step_Name s)) (collectCELStringsFromStep lib s))
       (case inner_step s of None \<Rightarrow> None
        | Some i \<Rightarrow> check_inputs lib spec (''step '' @ quote (Step_Name s) @ '' forEach'') (collectCELStringsFromForEachStep lib i))"

definition check_output_inputs :: "web_lib \<Rightarrow> WorkflowSpec \<Rightarrow> Output \<Rightarrow> goerror option" where
  "check_output_inputs lib spec x = (if Output_Expression x = [] then None
     else check_inputs lib spec (''workflow output '' @ quote (Output_Name x)) [Output_Expression x])"

definition ValidateInputRefs :: "web_lib \<Rightarrow> WorkflowSpec option \<Rightarrow> goerror option" where
  "ValidateInputRefs lib p =
     (case p of None \<Rightarrow> None
      | Some spec \<Rightarrow>
          and_then (first_error (check_step_inputs lib spec) (WorkflowSpec_Steps spec))
         (and_then (first_error (\<lambda>v. check_inputs lib spec (''variable '' @ quote (Variable_Name v)) [Variable_Expression v])
                     (WorkflowSpec_Variables spec))
           (first_error (check_output_inputs lib spec) (WorkflowSpec_Outputs spec))))"

subsection \<open>What the checks decide\<close>

text \<open>All expressions of a step, those of its inline step included, and the steps that write a variable.\<close>

definition all_cel_strings :: "web_lib \<Rightarrow> Step \<Rightarrow> string list" where
  "all_cel_strings lib s = collectCELStringsFromStep lib s @
     (case inner_step s of None \<Rightarrow> [] | Some i \<Rightarrow> collectCELStringsFromForEachStep lib i)"

definition writers :: "Step list \<Rightarrow> string \<Rightarrow> string set" where
  "writers steps v = {Step_Name t | t. t \<in> set steps \<and> v \<noteq> [] \<and> v \<in> Output_Name ` set (step_outputs t)}"

definition step_ref_ok :: "WorkflowSpec \<Rightarrow> Step \<Rightarrow> string \<Rightarrow> bool" where
  "step_ref_ok spec s n \<longleftrightarrow>
     (n \<in> Step_Name ` set (WorkflowSpec_Steps spec) \<and> n \<noteq> Step_Name s \<longrightarrow> n \<in> set (Step_DependsOn s))"

definition variable_ref_ok :: "WorkflowSpec \<Rightarrow> Step \<Rightarrow> string \<Rightarrow> bool" where
  "variable_ref_ok spec s v \<longleftrightarrow>
     (v \<notin> Variable_Name ` set (WorkflowSpec_Variables spec) \<and> writers (WorkflowSpec_Steps spec) v \<noteq> {} \<longrightarrow>
        (\<exists>p \<in> writers (WorkflowSpec_Steps spec) v. p = Step_Name s \<or> p \<in> set (Step_DependsOn s)))"

definition refs_covered :: "WorkflowSpec \<Rightarrow> Step \<Rightarrow> string \<Rightarrow> bool" where
  "refs_covered spec s e \<longleftrightarrow> (\<forall>n. refers_step e n \<longrightarrow> step_ref_ok spec s n) \<and>
     (\<forall>v \<in> set (FindAll variablesRefRe None e). variable_ref_ok spec s v)"

lemma add_producers:
  "set (get_or [] (fold (add_producer n) xs m) v) =
     set (get_or [] m v) \<union> (if v \<noteq> [] \<and> v \<in> Output_Name ` set xs then {n} else {})"
  by (induction xs arbitrary: m) (auto simp: add_producer_def)

lemma set_variableToSteps: "set (get_or [] (variableToSteps steps) v) = writers steps v"
proof -
  have "set (get_or [] (fold (\<lambda>s. fold (add_producer (Step_Name s)) (step_outputs s)) steps m) v) =
      set (get_or [] m v) \<union> writers steps v" for m
    by (induction steps arbitrary: m) (auto simp: add_producers writers_def)
  from this [of "[]"] show ?thesis by (simp add: variableToSteps_def get_or_def)
qed

lemma hasProducerDependency_iff: "hasProducerDependency n ps deps \<longleftrightarrow> (\<exists>p\<in>set ps. p = n \<or> p \<in> set deps)"
  by (induction ps) auto

lemma first_error_visits: "visits_all order \<Longrightarrow> first_error f (order xs) = None \<longleftrightarrow> (\<forall>x\<in>set xs. f x = None)"
  by (simp add: first_error_None visits_all_def)

lemma check_refs_iff:
  assumes "visits_all (web_order lib)"
  shows "check_refs lib inner spec s exprs = None \<longleftrightarrow> (\<forall>e\<in>set exprs. refs_covered spec s e)"
proof -
  have "check_step_ref inner (map Step_Name (WorkflowSpec_Steps spec)) s n = None \<longleftrightarrow> step_ref_ok spec s n" for n
    by (auto simp: check_step_ref_def step_ref_ok_def)
  moreover have "check_variable_ref inner (map Variable_Name (WorkflowSpec_Variables spec)) (variableToSteps (WorkflowSpec_Steps spec)) s v = None \<longleftrightarrow>
      variable_ref_ok spec s v" for v
    unfolding check_variable_ref_def variable_ref_ok_def hasProducerDependency_iff set_variableToSteps
    using set_variableToSteps [of "WorkflowSpec_Steps spec" v] by auto
  moreover have "(\<forall>n\<in>set (extractStepRefs exprs). P n) \<longleftrightarrow> (\<forall>e\<in>set exprs. \<forall>n. refers_step e n \<longrightarrow> P n)" for P
    using set_extractStepRefs by blast
  ultimately show ?thesis
    unfolding check_refs_def and_then_None first_error_visits [OF assms] refs_covered_def
    by (simp add: extractVariableRefs_def ball_conj_distrib)
qed

lemma ValidateStepDependencies_iff:
  assumes "visits_all (web_order lib)"
  shows "ValidateStepDependencies lib (Some spec) = None \<longleftrightarrow>
     (\<forall>s\<in>set (WorkflowSpec_Steps spec). \<forall>e\<in>set (all_cel_strings lib s). refs_covered spec s e)"
proof -
  have "(case inner_step s of None \<Rightarrow> None | Some i \<Rightarrow> check_refs lib True spec s (collectCELStringsFromForEachStep lib i)) = None \<longleftrightarrow>
      (\<forall>e\<in>set (case inner_step s of None \<Rightarrow> [] | Some i \<Rightarrow> collectCELStringsFromForEachStep lib i). refs_covered spec s e)" for s
    by (cases "inner_step s") (simp_all add: check_refs_iff [OF assms])
  then show ?thesis
    by (auto simp: ValidateStepDependencies_def first_error_None check_refs_iff [OF assms] all_cel_strings_def) blast
qed

lemma check_inputs_iff:
  "visits_all (web_order lib) \<Longrightarrow> check_inputs lib spec subject exprs = None \<longleftrightarrow>
     (\<forall>e\<in>set exprs. set (FindAll inputsRefRe None (strip_literals e)) \<subseteq> Input_Name ` set (WorkflowSpec_Inputs spec))"
  by (auto simp: check_inputs_def first_error_visits extractInputRefs_def)

definition inputs_declared :: "WorkflowSpec \<Rightarrow> string \<Rightarrow> bool" where
  "inputs_declared spec e \<longleftrightarrow>
     set (FindAll inputsRefRe None (strip_literals e)) \<subseteq> Input_Name ` set (WorkflowSpec_Inputs spec)"

lemma check_inputs_declared:
  "visits_all (web_order lib) \<Longrightarrow> check_inputs lib spec subject exprs = None \<longleftrightarrow> (\<forall>e\<in>set exprs. inputs_declared spec e)"
  unfolding inputs_declared_def by (rule check_inputs_iff)

lemma ValidateInputRefs_iff:
  assumes "visits_all (web_order lib)"
  shows "ValidateInputRefs lib (Some spec) = None \<longleftrightarrow>
     (\<forall>s\<in>set (WorkflowSpec_Steps spec). \<forall>e\<in>set (all_cel_strings lib s). inputs_declared spec e) \<and>
     (\<forall>v\<in>set (WorkflowSpec_Variables spec). inputs_declared spec (Variable_Expression v)) \<and>
     (\<forall>x\<in>set (WorkflowSpec_Outputs spec). inputs_declared spec (Output_Expression x))"
proof -
  have "check_step_inputs lib spec s = None \<longleftrightarrow> (\<forall>e\<in>set (all_cel_strings lib s). inputs_declared spec e)" for s
    unfolding check_step_inputs_def and_then_None check_inputs_declared [OF assms]
    by (cases "inner_step s") (auto simp: all_cel_strings_def check_inputs_declared [OF assms])
  moreover have "inputs_declared spec []" by (simp add: inputs_declared_def)
  then have "check_output_inputs lib spec x = None \<longleftrightarrow> inputs_declared spec (Output_Expression x)" for x
    by (simp add: check_output_inputs_def check_inputs_declared [OF assms])
  ultimately show ?thesis
    by (simp add: ValidateInputRefs_def first_error_None check_inputs_declared [OF assms])
qed

end
