(* ===== verification/Step_Templates.thy ===== *)
theory Step_Templates
  imports Callback_Wait
begin

text \<open>
  Step templates (\<^verbatim>\<open>internal/workflow/executor/steptemplate_executor.go\<close>): resolving the arguments and
  instantiating the template into a step. Go's text/template is the parameter \<open>env_template\<close> of a
  map of arguments and a string; \<open>env_templateJSON\<close> is the same on the bytes of a JSON value. Running
  the instantiated step is the executor's business (theory Executor).
\<close>

subsection \<open>Arguments\<close>

fun eval_args ::
  "'w evaluator \<Rightarrow> gomap \<Rightarrow> (string \<times> string) list \<Rightarrow> gomap \<Rightarrow> 'w \<Rightarrow> gomap result \<times> 'w" where
  "eval_args ev vars [] resolved w = (Inr resolved, w)"
| "eval_args ev vars ((p, expr) # rest) resolved w =
     (case ev expr vars w of
        (Inl e, w') \<Rightarrow> (Inl (wrapf (''failed to evaluate argument '' @ quoted p @ '': '') e), w')
      | (Inr r, w') \<Rightarrow> eval_args ev vars rest (AList.update p r resolved) w')"

definition missing_param :: "string \<Rightarrow> goerror" where
  "missing_param p = errorf (''required parameter '' @ quoted p @ '' not provided'')"

fun apply_defaults ::
  "'w evaluator \<Rightarrow> gomap \<Rightarrow> StepTemplateParameter list \<Rightarrow> gomap \<Rightarrow> 'w \<Rightarrow> gomap result \<times> 'w" where
  "apply_defaults ev vars [] resolved w = (Inr resolved, w)"
| "apply_defaults ev vars (p # ps) resolved w =
     (if has_key resolved (StepTemplateParameter_Name p) then apply_defaults ev vars ps resolved w
      else if StepTemplateParameter_Default p \<noteq> [] then
        (case ev (StepTemplateParameter_Default p) vars w of
           (Inl e, w') \<Rightarrow> (Inl (wrapf (''failed to evaluate default value for parameter '' @
                              quoted (StepTemplateParameter_Name p) @ '': '') e), w')
         | (Inr r, w') \<Rightarrow> apply_defaults ev vars ps (AList.update (StepTemplateParameter_Name p) r resolved) w')
      else if StepTemplateParameter_Required p then (Inl (missing_param (StepTemplateParameter_Name p)), w)
      else apply_defaults ev vars ps resolved w)"

definition check_required :: "StepTemplateParameter list \<Rightarrow> gomap \<Rightarrow> goerror option" where
  "check_required ps resolved =
     first_error (\<lambda>p. if StepTemplateParameter_Required p \<and> \<not> has_key resolved (StepTemplateParameter_Name p)
                      then Some (missing_param (StepTemplateParameter_Name p)) else None) ps"

definition resolve_args ::
  "'w evaluator \<Rightarrow> gomap \<Rightarrow> (string \<times> string) list \<Rightarrow> StepTemplateParameter list \<Rightarrow> 'w \<Rightarrow> gomap result \<times> 'w" where
  "resolve_args ev vars args params w =
     (case eval_args ev vars args [] w of
        (Inl e, w') \<Rightarrow> (Inl e, w')
      | (Inr resolved, w') \<Rightarrow>
          (case apply_defaults ev vars params resolved w' of
             (Inl e, w'') \<Rightarrow> (Inl e, w'')
           | (Inr resolved', w'') \<Rightarrow>
               (case check_required params resolved' of Some e \<Rightarrow> (Inl e, w'') | None \<Rightarrow> (Inr resolved', w''))))"

subsection \<open>Instantiation\<close>

definition substituteString :: "'w env \<Rightarrow> gomap \<Rightarrow> string \<Rightarrow> string result" where
  "substituteString env args s = (if s = [] then Inr s else env_template env args s)"

definition subst_entries ::
  "'w env \<Rightarrow> gomap \<Rightarrow> string \<Rightarrow> (string \<times> string) list \<Rightarrow> (string \<times> string) list result" where
  "subst_entries env args what m =
     map_result (\<lambda>(k, v). bindr (wrap_err (''failed to substitute '' @ what @ '' '' @ quoted k @ '': '')
                                  (substituteString env args v)) (\<lambda>v'. Inr (k, v'))) m"

definition subst_field :: "'w env \<Rightarrow> gomap \<Rightarrow> string \<Rightarrow> string \<Rightarrow> string result" where
  "subst_field env args what s = wrap_err (''failed to substitute '' @ what @ '': '') (substituteString env args s)"

definition subst_expression :: "'w env \<Rightarrow> gomap \<Rightarrow> Expression \<Rightarrow> Expression result" where
  "subst_expression env args e =
     bindr (subst_field env args (''expression '' @ quoted (Expression_Name e)) (Expression_Expression e))
       (\<lambda>s. Inr \<lparr>Expression_Name = Expression_Name e, Expression_Expression = s\<rparr>)"

text \<open>Only the name, the expression and the value of an output are carried over.\<close>

definition subst_output :: "'w env \<Rightarrow> gomap \<Rightarrow> Output \<Rightarrow> Output result" where
  "subst_output env args d =
     bindr (if Output_Expression d \<noteq> []
            then subst_field env args (''output expression '' @ quoted (Output_Name d)) (Output_Expression d)
            else Inr [])
       (\<lambda>expr. bindr (case Output_Value d of None \<Rightarrow> Inr None
            | Some raw \<Rightarrow> bindr (wrap_err (''failed to substitute output value '' @ quoted (Output_Name d) @ '': '')
                                   (env_templateJSON env args raw)) (\<lambda>r. Inr (Some r)))
       (\<lambda>v. Inr \<lparr>Output_Name = Output_Name d, Output_Expression = expr, Output_Value = v,
                 Output_Metric = None, Output_Sensitive = False\<rparr>))"

definition subst_condition :: "'w env \<Rightarrow> gomap \<Rightarrow> MatchCondition \<Rightarrow> MatchCondition result" where
  "subst_condition env args c =
     bindr (subst_field env args (''matchCondition '' @ quoted (MatchCondition_Name c)) (MatchCondition_Expression c))
       (\<lambda>s. Inr \<lparr>MatchCondition_Name = MatchCondition_Name c, MatchCondition_Expression = s\<rparr>)"

definition subst_resource_query :: "'w env \<Rightarrow> gomap \<Rightarrow> StepResourceQuery \<Rightarrow> StepResourceQuery result" where
  "subst_resource_query env args q =
     bindr (subst_field env args ''ResourceQuery namespace'' (StepResourceQuery_Namespace q)) (\<lambda>ns.
     bindr (subst_field env args ''ResourceQuery name'' (StepResourceQuery_Name q)) (\<lambda>nm.
     bindr (subst_field env args ''ResourceQuery fieldSelector'' (StepResourceQuery_FieldSelector q)) (\<lambda>fs.
     bindr (subst_entries env args ''ResourceQuery labelSelector'' (StepResourceQuery_LabelSelector q)) (\<lambda>ls.
     bindr (subst_entries env args ''ResourceQuery output'' (StepResourceQuery_Outputs q)) (\<lambda>outs.
     Inr (q\<lparr>StepResourceQuery_Namespace := ns, StepResourceQuery_Name := nm, StepResourceQuery_FieldSelector := fs,
            StepResourceQuery_LabelSelector := ls, StepResourceQuery_Outputs := outs\<rparr>))))))"

definition subst_prometheus_query :: "'w env \<Rightarrow> gomap \<Rightarrow> StepPrometheusQuery \<Rightarrow> StepPrometheusQuery result" where
  "subst_prometheus_query env args q =
     bindr (subst_field env args ''PrometheusQuery query'' (StepPrometheusQuery_Query q)) (\<lambda>qu.
     bindr (subst_field env args ''PrometheusQuery timeRange'' (StepPrometheusQuery_TimeRange q)) (\<lambda>tr.
     bindr (subst_field env args ''PrometheusQuery step'' (StepPrometheusQuery_Step q)) (\<lambda>st.
     bindr (subst_entries env args ''PrometheusQuery variable'' (StepPrometheusQuery_Variables q)) (\<lambda>vs.
     bindr (subst_entries env args ''PrometheusQuery output'' (StepPrometheusQuery_Outputs q)) (\<lambda>outs.
     Inr (q\<lparr>StepPrometheusQuery_Query := qu, StepPrometheusQuery_TimeRange := tr, StepPrometheusQuery_Step := st,
            StepPrometheusQuery_Variables := vs, StepPrometheusQuery_Outputs := outs\<rparr>))))))"

fun subst_prompts :: "'w env \<Rightarrow> gomap \<Rightarrow> nat \<Rightarrow> string list \<Rightarrow> string list result" where
  "subst_prompts env args i [] = Inr []"
| "subst_prompts env args i (p # ps) =
     bindr (subst_field env args (''AgentRef prompt '' @ utoa i) p) (\<lambda>p'.
     bindr (subst_prompts env args (Suc i) ps) (\<lambda>ps'. Inr (p' # ps')))"

definition subst_opt :: "('a \<Rightarrow> 'a result) \<Rightarrow> 'a option \<Rightarrow> 'a option result" where
  "subst_opt f x = (case x of None \<Rightarrow> Inr None | Some y \<Rightarrow> bindr (f y) (\<lambda>z. Inr (Some z)))"

definition instantiateStepTemplate :: "'w env \<Rightarrow> StepTemplateStep \<Rightarrow> string \<Rightarrow> gomap \<Rightarrow> Step result" where
  "instantiateStepTemplate env t stepName args =
     bindr (subst_field env args ''message'' (StepTemplateStep_Message t)) (\<lambda>msg.
     bindr (map_result (subst_expression env args) (StepTemplateStep_Expressions t)) (\<lambda>exprs.
     bindr (map_result (subst_output env args) (StepTemplateStep_Outputs t)) (\<lambda>outs.
     bindr (map_result (subst_condition env args) (StepTemplateStep_MatchConditions t)) (\<lambda>conds.
     bindr (subst_opt (subst_resource_query env args) (StepTemplateStep_ResourceQuery t)) (\<lambda>rq.
     bindr (subst_opt (subst_prometheus_query env args) (StepTemplateStep_PrometheusQuery t)) (\<lambda>pq.
     bindr (subst_opt (\<lambda>a. bindr (subst_prompts env args 0 (StepAgentRef_AdditionalPrompts a))
              (\<lambda>ps. Inr (a\<lparr>StepAgentRef_AdditionalPrompts := ps\<rparr>))) (StepTemplateStep_AgentRef t)) (\<lambda>ar.
     bindr (subst_opt (\<lambda>m. bindr (subst_entries env args ''MCPToolCall argument'' (StepMCPToolCall_Arguments m))
              (\<lambda>as. Inr (m\<lparr>StepMCPToolCall_Arguments := as\<rparr>))) (StepTemplateStep_MCPToolCall t)) (\<lambda>mc.
     bindr (subst_opt (\<lambda>r. bindr (subst_entries env args ''WorkflowRef input'' (StepWorkflowRef_Inputs r))
              (\<lambda>is. Inr (r\<lparr>StepWorkflowRef_Inputs := is\<rparr>))) (StepTemplateStep_WorkflowRef t)) (\<lambda>wr.
     bindr (subst_opt (\<lambda>x. bindr (subst_field env args ''ExternalAgentRef prompt'' (StepExternalAgentRef_Prompt x))
              (\<lambda>p. Inr (x\<lparr>StepExternalAgentRef_Prompt := p\<rparr>))) (StepTemplateStep_ExternalAgentRef t)) (\<lambda>ea.
     Inr (zero_Step\<lparr>Step_Name := stepName, Step_Message := msg, Step_DependsOn := StepTemplateStep_DependsOn t,
       Step_Retry := StepTemplateStep_Retry t, Step_Timeout := StepTemplateStep_Timeout t,
       Step_FailurePolicy := StepTemplateStep_FailurePolicy t, Step_Expressions := exprs, Step_Outputs := outs,
       Step_MatchConditions := conds, Step_ResourceQuery := rq, Step_PrometheusQuery := pq, Step_AgentRef := ar,
       Step_MCPToolCall := mc, Step_WorkflowRef := wr, Step_ExternalAgentRef := ea\<rparr>)))))))))))"

text \<open>The step-level fields that override those of the template.\<close>

definition override_step :: "Step \<Rightarrow> Step \<Rightarrow> Step" where
  "override_step step inst =
     inst\<lparr>Step_DependsOn := (if Step_DependsOn step \<noteq> [] then Step_DependsOn step else Step_DependsOn inst),
          Step_MatchConditions := (if Step_MatchConditions step \<noteq> [] then Step_MatchConditions step else Step_MatchConditions inst),
          Step_Retry := (if Step_Retry step \<noteq> None then Step_Retry step else Step_Retry inst),
          Step_Timeout := (if Step_Timeout step \<noteq> [] then Step_Timeout step else Step_Timeout inst),
          Step_FailurePolicy := (if Step_FailurePolicy step \<noteq> [] then Step_FailurePolicy step else Step_FailurePolicy inst)\<rparr>"

text \<open>\<^verbatim>\<open>executeStepTemplate\<close> up to its last line: the step that it then executes.\<close>

definition template_step :: "'w env \<Rightarrow> Step \<Rightarrow> StepTemplateRef \<Rightarrow> 'w xstate \<Rightarrow> Step result \<times> 'w xstate" where
  "template_step env step ref xs =
     (let ns = (if StepTemplateRef_Namespace ref = [] then WorkflowRun_Namespace (xs_run xs)
                else StepTemplateRef_Namespace ref) in
      case env_getTemplate env (ns, StepTemplateRef_Name ref) (xs_world xs) of
        (Inl e, w) \<Rightarrow> (Inl (wrapf (''failed to get StepTemplate '' @ ns @ ''/'' @ StepTemplateRef_Name ref @ '': '') e),
                       xs\<lparr>xs_world := w\<rparr>)
      | (Inr spec, w) \<Rightarrow>
          (case read_context (xs\<lparr>xs_world := w\<rparr>) of
             Inl e \<Rightarrow> (Inl (wrapf ''failed to read context: '' e), xs\<lparr>xs_world := w\<rparr>)
           | Inr ctx \<Rightarrow>
               (case resolve_args (env_eval env) (BuildVariableMap ctx) (StepTemplateRef_Arguments ref)
                       (StepTemplateSpec_Parameters spec) w of
                  (Inl e, w') \<Rightarrow> (Inl e, xs\<lparr>xs_world := w'\<rparr>)
                | (Inr args, w') \<Rightarrow>
                    (wrap_err ''failed to instantiate step template: ''
                       (bindr (instantiateStepTemplate env (StepTemplateSpec_Step spec) (Step_Name step) args)
                          (\<lambda>inst. Inr (override_step step inst))), xs\<lparr>xs_world := w'\<rparr>))))"

subsection \<open>Lemmas\<close>

lemma eval_args_map:
  "eval_args ev vars args resolved w = (Inr r, w') \<Longrightarrow> has_key r k \<longleftrightarrow> has_key resolved k \<or> k \<in> fst ` set args"
  by (induction ev vars args resolved w rule: eval_args.induct)
    (auto simp: has_key_def split: prod.splits sum.splits)

lemma apply_defaults_keeps:
  "apply_defaults ev vars ps resolved w = (Inr r, w') \<Longrightarrow> has_key resolved k \<Longrightarrow> map_of r k = map_of resolved k"
proof (induction ev vars ps resolved w rule: apply_defaults.induct)
  case (2 ev vars p ps resolved w)
  then show ?case by (auto simp: has_key_def split: prod.splits sum.splits if_splits)
qed simp

text \<open>What an instantiated step can do: it is never a forEach, a template, a mutation, a report or a wait.\<close>

definition leaf_step :: "Step \<Rightarrow> bool" where
  "leaf_step s \<longleftrightarrow> Step_ForEach s = None \<and> Step_StepTemplateRef s = None"

lemma instantiate_leaf:
  assumes "instantiateStepTemplate env t n args = Inr s"
  shows "leaf_step s \<and> Step_Name s = n \<and> Step_Mutate s = None \<and> Step_OpenReport s = None \<and> Step_WaitForCallback s = None"
  using assms by (auto simp: instantiateStepTemplate_def bindr_Inr leaf_step_def zero_Step_def)

lemma override_leaf: "leaf_step s \<Longrightarrow> leaf_step (override_step step s)"
  by (simp add: override_step_def leaf_step_def)

lemma template_step_run:
  "template_step env step ref xs = (r, xs') \<Longrightarrow> xs_run xs' = xs_run xs \<and> xs_scoped xs' = xs_scoped xs \<and> xs_cm xs' = xs_cm xs"
  by (auto simp: template_step_def Let_def split: prod.splits sum.splits)

lemma template_step_leaf:
  "template_step env step ref xs = (Inr s, xs') \<Longrightarrow> leaf_step s"
  by (auto simp: template_step_def Let_def bindr_Inr override_leaf dest!: instantiate_leaf
      split: prod.splits sum.splits)

subsection \<open>Properties\<close>

text \<open>
  The arguments resolved for a template cover every required parameter, and whatever the step
  passes takes precedence over the defaults.
\<close>

theorem resolve_args_complete:
  assumes "resolve_args ev vars args params w = (Inr r, w')"
  shows "(\<forall>p\<in>set params. StepTemplateParameter_Required p \<longrightarrow> has_key r (StepTemplateParameter_Name p)) \<and>
    (\<exists>given w1. eval_args ev vars args [] w = (Inr given, w1) \<and>
       (\<forall>k. k \<in> fst ` set args \<longrightarrow> has_key given k \<and> map_of r k = map_of given k))"
proof -
  obtain given w1 where g: "eval_args ev vars args [] w = (Inr given, w1)"
    using assms by (auto simp: resolve_args_def split: prod.splits sum.splits)
  obtain w2 where d: "apply_defaults ev vars params given w1 = (Inr r, w2)" and c: "check_required params r = None"
    using assms g by (auto simp: resolve_args_def split: prod.splits sum.splits option.splits)
  have "has_key given k \<and> map_of r k = map_of given k" if "k \<in> fst ` set args" for k
    using eval_args_map [OF g, of k] apply_defaults_keeps [OF d, of k] that by blast
  moreover have "has_key r (StepTemplateParameter_Name p)"
    if "p \<in> set params" "StepTemplateParameter_Required p" for p
    using c that by (auto simp: check_required_def first_error_None split: if_splits)
  ultimately show ?thesis using g by blast
qed

theorem resolve_args_complete_witness:
  "\<exists>r. resolve_args (env_eval idle_env) [] [(''ns'', ''inputs.ns'')]
     [\<lparr>StepTemplateParameter_Name = ''ns'', StepTemplateParameter_Description = [],
       StepTemplateParameter_Default = [], StepTemplateParameter_Required = True\<rparr>] () = (Inr r, ()) \<and> has_key r ''ns''"
proof -
  let ?p = "[\<lparr>StepTemplateParameter_Name = ''ns'', StepTemplateParameter_Description = [],
       StepTemplateParameter_Default = [], StepTemplateParameter_Required = True\<rparr>]"
  have r: "resolve_args (env_eval idle_env) [] [(''ns'', ''inputs.ns'')] ?p () = (Inr [(''ns'', VBool True)], ())"
    by (simp add: resolve_args_def idle_env_def check_required_def has_key_def)
  from resolve_args_complete [OF r] r show ?thesis by auto
qed

text \<open>The sensitive flag and the metric of a template's outputs are not carried over to the step.\<close>

lemma instantiate_drops_sensitive:
  assumes "instantiateStepTemplate env t n args = Inr s" "d \<in> set (Step_Outputs s)"
  shows "\<not> Output_Sensitive d \<and> Output_Metric d = None"
proof -
  have o: "map_result (subst_output env args) (StepTemplateStep_Outputs t) = Inr (Step_Outputs s)"
    using assms(1) by (clarsimp simp: instantiateStepTemplate_def bindr_Inr)
  from map_result_Inr [OF o] assms(2) obtain d0 where "subst_output env args d0 = Inr d"
    by (fastforce simp: in_set_conv_nth list_all2_conv_all_nth)
  then show ?thesis by (auto simp: subst_output_def bindr_Inr)
qed

end
