(* ===== verification/Foreach.thy ===== *)
theory Foreach
  imports Step_Templates
begin

text \<open>
  forEach steps (\<^verbatim>\<open>internal/workflow/executor/foreach_executor.go\<close>): the isolated context of an item,
  the worker pool, the collection of results and the verdict on the loop.

  The pool is the transition system \<open>pool_step\<close>. Which items complete, and in which order, is decided
  by it; \<open>executeForEach\<close> takes the completion order from \<open>env_schedule\<close> and runs the items one after
  the other in that order. The execution of an item's step is the parameter \<open>exec\<close>. The error for
  items that are no list leaves out the printed type and value.
\<close>

subsection \<open>Results\<close>

record ForEachItemResult =
  ItemResult_Item :: val
  ItemResult_Outputs :: "gomap option"
  ItemResult_Status :: string

record ForEachItemFailure =
  ItemFailure_Item :: val
  ItemFailure_Error :: string

record ForEachResults =
  ForEachResults_Results :: "ForEachItemResult list"
  ForEachResults_Failed :: "ForEachItemFailure list"

definition no_results :: ForEachResults where
  "no_results = \<lparr>ForEachResults_Results = [], ForEachResults_Failed = []\<rparr>"

text \<open>What a worker appends, under the mutex, when its item is done.\<close>

definition record_item :: "val \<Rightarrow> outputs result \<Rightarrow> ForEachResults \<Rightarrow> ForEachResults" where
  "record_item item r res =
     (case r of
        Inl e \<Rightarrow> \<lparr>ForEachResults_Results = ForEachResults_Results res @
                    [\<lparr>ItemResult_Item = item, ItemResult_Outputs = None, ItemResult_Status = ''failed''\<rparr>],
                  ForEachResults_Failed = ForEachResults_Failed res @
                    [\<lparr>ItemFailure_Item = item, ItemFailure_Error = err_msg e\<rparr>]\<rparr>
      | Inr outs \<Rightarrow> res\<lparr>ForEachResults_Results := ForEachResults_Results res @
                    [\<lparr>ItemResult_Item = item, ItemResult_Outputs = outs, ItemResult_Status = ''succeeded''\<rparr>]\<rparr>)"

definition foreachFailureError :: "nat \<Rightarrow> nat \<Rightarrow> string \<Rightarrow> string \<Rightarrow> goerror" where
  "foreachFailureError requested failed policy firstFailure =
     (if failed = 0 then errorf (''forEach: no items completed successfully (loop cancelled or incomplete); '' @
          utoa requested @ '' item(s) requested'')
      else if failed < requested then errorf (''forEach: '' @ utoa failed @ '' of '' @ utoa requested @
          '' item(s) failed and '' @ utoa (requested - failed) @
          '' did not complete (loop cancelled or incomplete) with itemFailurePolicy='' @ policy @
          ''; first failure to complete: '' @ firstFailure)
      else errorf (''forEach: all '' @ utoa requested @ '' item(s) failed with itemFailurePolicy='' @ policy @
          ''; first failure to complete: '' @ firstFailure))"

definition result_val :: "ForEachItemResult \<Rightarrow> val" where
  "result_val r = VMap [(''item'', ItemResult_Item r),
     (''outputs'', VMap (case ItemResult_Outputs r of None \<Rightarrow> [] | Some m \<Rightarrow> m)),
     (''status'', VString (ItemResult_Status r))]"

definition failure_val :: "ForEachItemFailure \<Rightarrow> val" where
  "failure_val f = VMap [(''item'', ItemFailure_Item f), (''error'', VString (ItemFailure_Error f))]"

definition writeForEachResults :: "string \<Rightarrow> ForEachResults \<Rightarrow> ContextManager \<Rightarrow> goerror option \<times> ContextManager" where
  "writeForEachResults stepName res cm =
     (case GetContext cm of
        None \<Rightarrow> (Some (errorf ''context not initialized''), cm)
      | Some ctx \<Rightarrow>
          (let stepsMap = (case as_map (map_of ctx ''steps'') of Some m \<Rightarrow> m | None \<Rightarrow> []);
               entry = VMap [(''results'', VList (map result_val (ForEachResults_Results res))),
                 (''succeeded'', VList (map result_val
                    (filter (\<lambda>r. ItemResult_Status r = ''succeeded'') (ForEachResults_Results res)))),
                 (''failed'', VList (map failure_val (ForEachResults_Failed res)))]
           in (None, cm\<lparr>cm_inMemoryContext := Some
                (AList.update ''steps'' (VMap (AList.update stepName entry stepsMap)) ctx)\<rparr>)))"

subsection \<open>One item\<close>

definition convertForEachStepToStep :: "StepForEachStep \<Rightarrow> Step" where
  "convertForEachStepToStep f =
     zero_Step\<lparr>Step_Expressions := StepForEachStep_Expressions f, Step_Outputs := StepForEachStep_Outputs f,
       Step_MatchConditions := StepForEachStep_MatchConditions f, Step_Retry := StepForEachStep_Retry f,
       Step_Timeout := StepForEachStep_Timeout f, Step_FailurePolicy := StepForEachStep_FailurePolicy f,
       Step_ResourceQuery := StepForEachStep_ResourceQuery f, Step_PrometheusQuery := StepForEachStep_PrometheusQuery f,
       Step_Mutate := StepForEachStep_Mutate f, Step_AgentRef := StepForEachStep_AgentRef f,
       Step_MCPToolCall := StepForEachStep_MCPToolCall f, Step_WorkflowRef := StepForEachStep_WorkflowRef f,
       Step_ExternalAgentRef := StepForEachStep_ExternalAgentRef f, Step_OpenReport := StepForEachStep_OpenReport f\<rparr>"

definition isolate_context :: "gomap \<Rightarrow> val \<Rightarrow> string \<Rightarrow> gomap" where
  "isolate_context parentContext item itemVariable =
     (let vars = (case as_map (map_of parentContext ''variables'') of Some m \<Rightarrow> m | None \<Rightarrow> []);
          exprs = (case as_map (map_of parentContext ''expressions'') of Some m \<Rightarrow> m | None \<Rightarrow> [])
      in AList.update ''expressions'' (VMap exprs)
           (AList.update ''item'' item
             (AList.update ''variables'' (VMap (AList.update itemVariable item vars)) parentContext)))"

definition instantiateForEachStepTemplate ::
  "'w env \<Rightarrow> WorkflowRun \<Rightarrow> StepForEachTemplateRef \<Rightarrow> gomap \<Rightarrow> 'w \<Rightarrow> Step result \<times> 'w" where
  "instantiateForEachStepTemplate env run ref isolated w =
     (let ns = (if StepForEachTemplateRef_Namespace ref = [] then WorkflowRun_Namespace run
                else StepForEachTemplateRef_Namespace ref) in
      case env_getTemplate env (ns, StepForEachTemplateRef_Name ref) w of
        (Inl e, w1) \<Rightarrow> (Inl (wrapf (''failed to get StepTemplate '' @ ns @ ''/'' @ StepForEachTemplateRef_Name ref @ '': '') e), w1)
      | (Inr spec, w1) \<Rightarrow>
          (case resolve_args (env_eval env) (BuildVariableMap isolated) (StepForEachTemplateRef_Arguments ref)
                  (StepTemplateSpec_Parameters spec) w1 of
             (Inl e, w2) \<Rightarrow> (Inl e, w2)
           | (Inr args, w2) \<Rightarrow>
               (wrap_err ''failed to instantiate step template: ''
                  (instantiateStepTemplate env (StepTemplateSpec_Step spec) [] args), w2)))"

definition item_step :: "'w env \<Rightarrow> WorkflowRun \<Rightarrow> StepForEach \<Rightarrow> gomap \<Rightarrow> 'w \<Rightarrow> Step result \<times> 'w" where
  "item_step env run fe isolated w =
     (case StepForEach_Step fe of
        Some s \<Rightarrow> (Inr (convertForEachStepToStep s), w)
      | None \<Rightarrow>
          (case StepForEach_StepTemplateRef fe of
             Some ref \<Rightarrow> (case instantiateForEachStepTemplate env run ref isolated w of
                 (r, w') \<Rightarrow> (wrap_err ''failed to instantiate step template: '' r, w'))
           | None \<Rightarrow> (Inl (errorf (''forEach step must specify either '' @ quoted ''step'' @ '' or '' @
                        quoted ''stepTemplateRef'')), w)))"

type_synonym 'w step_exec = "Step \<Rightarrow> 'w xstate \<Rightarrow> outputs result \<times> 'w xstate"

text \<open>The child step runs with the isolated context in its \<^verbatim>\<open>ctx\<close>; the caller's own scope is untouched.\<close>

definition processForEachItem ::
  "'w env \<Rightarrow> 'w step_exec \<Rightarrow> StepForEach \<Rightarrow> gomap \<Rightarrow> val \<Rightarrow> string \<Rightarrow> 'w xstate \<Rightarrow> outputs result \<times> 'w xstate" where
  "processForEachItem env exec fe parentContext item itemVariable xs =
     (let isolated = isolate_context parentContext item itemVariable in
      case item_step env (xs_run xs) fe isolated (xs_world xs) of
        (Inl e, w) \<Rightarrow> (Inl e, xs\<lparr>xs_world := w\<rparr>)
      | (Inr child, w) \<Rightarrow>
          (let child' = (if Step_Name child = [] then child\<lparr>Step_Name := ''_item_''\<rparr> else child) in
           case exec child' (xs\<lparr>xs_world := w, xs_scoped := Some isolated\<rparr>) of
             (Inl e, xs') \<Rightarrow> (Inl e, xs'\<lparr>xs_scoped := xs_scoped xs\<rparr>)
           | (Inr outs, xs') \<Rightarrow> (Inr (Some (case outs of None \<Rightarrow> [] | Some m \<Rightarrow> m)), xs'\<lparr>xs_scoped := xs_scoped xs\<rparr>)))"

definition item_progress :: "'w env \<Rightarrow> Workflow option \<Rightarrow> string \<Rightarrow> nat \<Rightarrow> nat \<Rightarrow> 'w xstate \<Rightarrow> 'w xstate" where
  "item_progress env cur stepName completed n_items xs =
     (case map_of (statuses (xs_run xs)) stepName of
        Some st \<Rightarrow> if StepStatus_Phase st = StepPhaseRunning then
            (let run = set_status stepName (st\<lparr>StepStatus_Message := utoa completed @ ''/'' @ utoa n_items @ '' items''\<rparr>) (xs_run xs)
             in xs\<lparr>xs_run := run, xs_world := invokeForEachProgressCallback env cur run (xs_world xs)\<rparr>)
          else xs
      | None \<Rightarrow> xs)"

fun process_items ::
  "'w env \<Rightarrow> 'w step_exec \<Rightarrow> Workflow option \<Rightarrow> Step \<Rightarrow> StepForEach \<Rightarrow> gomap \<Rightarrow> val list \<Rightarrow> string \<Rightarrow> nat list
     \<Rightarrow> ForEachResults \<Rightarrow> 'w xstate \<Rightarrow> ForEachResults \<times> 'w xstate" where
  "process_items env exec cur step fe ctx items itemVariable [] res xs = (res, xs)"
| "process_items env exec cur step fe ctx items itemVariable (i # is) res xs =
     (case processForEachItem env exec fe ctx (items ! i) itemVariable xs of
        (r, xs1) \<Rightarrow>
          (let res' = record_item (items ! i) r res;
               xs2 = item_progress env cur (Step_Name step) (length (ForEachResults_Results res')) (length items) xs1
           in process_items env exec cur step fe ctx items itemVariable is res' xs2))"

definition processItemsConcurrently ::
  "'w env \<Rightarrow> 'w step_exec \<Rightarrow> Workflow option \<Rightarrow> Step \<Rightarrow> StepForEach \<Rightarrow> gomap \<Rightarrow> val list \<Rightarrow> string
     \<Rightarrow> 'w xstate \<Rightarrow> ForEachResults \<times> 'w xstate" where
  "processItemsConcurrently env exec cur step fe ctx items itemVariable xs =
     (case env_schedule env (length items) (xs_world xs) of (is, w) \<Rightarrow>
        process_items env exec cur step fe ctx items itemVariable (filter (\<lambda>i. i < length items) is) no_results
          (xs\<lparr>xs_world := w\<rparr>))"

subsection \<open>The step\<close>

fun items_of :: "val \<Rightarrow> val list option" where
  "items_of (VList l) = Some l"
| "items_of (VStrings l) = Some (map VString l)"
| "items_of VNil = Some []"
| "items_of _ = None"

definition first_failure :: "ForEachResults \<Rightarrow> string" where
  "first_failure res = (case ForEachResults_Failed res of [] \<Rightarrow> [] | f # _ \<Rightarrow> ItemFailure_Error f)"

definition foreach_outputs :: "'w env \<Rightarrow> Step \<Rightarrow> 'w xstate \<Rightarrow> goerror option \<times> 'w xstate" where
  "foreach_outputs env step xs =
     (if Step_Outputs step = [] then (None, xs)
      else (case read_context xs of
              Inl e \<Rightarrow> (Some (wrapf ''failed to read context: '' e), xs)
            | Inr ctx \<Rightarrow>
                (case EvaluateStepOutputs (env_eval env) step (BuildVariableMap ctx) (xs_world xs) of
                   (Inl e, w) \<Rightarrow> (Some (wrapf ''failed to evaluate step outputs: '' e), xs\<lparr>xs_world := w\<rparr>)
                 | (Inr outs, w) \<Rightarrow>
                     (case write_outputs outs (xs\<lparr>xs_world := w\<rparr>) of
                        (Some e, xs1) \<Rightarrow> (Some (wrapf ''failed to write step outputs: '' e), xs1)
                      | (None, xs1) \<Rightarrow> (None, xs1)))))"

definition foreach_tally :: "'w env \<Rightarrow> Workflow option \<Rightarrow> string \<Rightarrow> nat \<Rightarrow> nat \<Rightarrow> nat \<Rightarrow> 'w xstate \<Rightarrow> 'w xstate" where
  "foreach_tally env cur stepName succeeded n_items failed xs =
     (if failed = 0 then xs
      else (case map_of (statuses (xs_run xs)) stepName of
              Some st \<Rightarrow>
                (let run = set_status stepName (st\<lparr>StepStatus_Message := utoa succeeded @ ''/'' @ utoa n_items @
                        '' items succeeded, '' @ utoa failed @ '' failed''\<rparr>) (xs_run xs)
                 in xs\<lparr>xs_run := run, xs_world := invokeForEachProgressCallback env cur run (xs_world xs)\<rparr>)
            | None \<Rightarrow> xs))"

text \<open>What follows the loop: write the results, honour the policy, evaluate the outputs, judge.\<close>

definition foreach_finish ::
  "'w env \<Rightarrow> Workflow option \<Rightarrow> Step \<Rightarrow> string \<Rightarrow> nat \<Rightarrow> ForEachResults \<Rightarrow> 'w xstate \<Rightarrow> goerror option \<times> 'w xstate" where
  "foreach_finish env cur step policy n_items res xs =
     (let failed = length (ForEachResults_Failed res) in
      case writeForEachResults (Step_Name step) res (xs_cm xs) of
        (Some e, cm) \<Rightarrow> (Some e, xs\<lparr>xs_cm := cm\<rparr>)
      | (None, cm) \<Rightarrow>
          (let xs1 = xs\<lparr>xs_cm := cm\<rparr> in
           if 0 < failed \<and> policy = FailurePolicyFail then
             (Some (errorf (''forEach: '' @ utoa failed @
                '' item(s) failed with itemFailurePolicy=Fail; first failure to complete: '' @ first_failure res)), xs1)
           else
             (case foreach_outputs env step xs1 of
                (Some e, xs2) \<Rightarrow> (Some e, xs2)
              | (None, xs2) \<Rightarrow>
                  (let succeeded = length (ForEachResults_Results res) - failed in
                   if succeeded = 0 then (Some (foreachFailureError n_items failed policy (first_failure res)), xs2)
                   else (None, foreach_tally env cur (Step_Name step) succeeded n_items failed xs2)))))"

definition executeForEach :: "'w env \<Rightarrow> 'w step_exec \<Rightarrow> Workflow option \<Rightarrow> Step \<Rightarrow> 'w xstate \<Rightarrow> goerror option \<times> 'w xstate" where
  "executeForEach env exec cur step xs =
     (case Step_ForEach step of
        None \<Rightarrow> (Some (errorf ''forEach is nil''), xs)
      | Some fe \<Rightarrow>
          (case read_context xs of
             Inl e \<Rightarrow> (Some (wrapf ''failed to read context: '' e), xs)
           | Inr ctx \<Rightarrow>
               (case env_eval env (StepForEach_Items fe) (BuildVariableMap ctx) (xs_world xs) of
                  (Inl e, w) \<Rightarrow>
                    (Some (wrapf (''failed to evaluate items expression '' @ quoted (StepForEach_Items fe) @ '': '') e), xs\<lparr>xs_world := w\<rparr>)
                | (Inr itemsVal, w) \<Rightarrow>
                    (case items_of itemsVal of
                       None \<Rightarrow> (Some (errorf ''items expression must evaluate to a list''), xs\<lparr>xs_world := w\<rparr>)
                     | Some [] \<Rightarrow>
                         (case writeForEachResults (Step_Name step) no_results (xs_cm xs) of
                            (r, cm) \<Rightarrow> (r, xs\<lparr>xs_world := w, xs_cm := cm\<rparr>))
                     | Some items \<Rightarrow>
                         (let itemVariable = (if StepForEach_ItemVariable fe = [] then ''item'' else StepForEach_ItemVariable fe);
                              policy = (if StepForEach_ItemFailurePolicy fe = [] then FailurePolicyContinue
                                        else StepForEach_ItemFailurePolicy fe);
                              xs1 = item_progress env cur (Step_Name step) 0 (length items) (xs\<lparr>xs_world := w\<rparr>)
                          in case processItemsConcurrently env exec cur step fe ctx items itemVariable xs1 of
                               (res, xs2) \<Rightarrow> foreach_finish env cur step policy (length items) res xs2)))))"

text \<open>The number of workers: \<^verbatim>\<open>maxConcurrency\<close> or the executor's default, never less than one.\<close>

definition effective_concurrency :: "int \<Rightarrow> StepForEach \<Rightarrow> int" where
  "effective_concurrency maxWorkers fe =
     (if StepForEach_MaxConcurrency fe \<le> 0 then (if maxWorkers \<le> 0 then 5 else maxWorkers)
      else StepForEach_MaxConcurrency fe)"

subsection \<open>The worker pool\<close>

text \<open>
  One goroutine per item. \<open>Queued\<close> is waiting at the first select, \<open>Holding\<close> has the semaphore and is
  about to look at the stop channel, \<open>Working\<close> runs the item, \<open>Recorded\<close> has appended its result,
  \<open>Dropped\<close> has returned without one. \<open>n\<close> is the number of items, \<open>c\<close> the size of the semaphore,
  \<open>strict\<close> the policy Fail, \<open>fails i\<close> whether item \<open>i\<close> ends in an error.
\<close>

datatype worker = Unborn | Queued | Holding | Working | Recorded | Dropped

record pool =
  pool_workers :: "worker list"
  pool_launched :: nat
  pool_stopped :: bool
  pool_cancelled :: bool
  pool_order :: "nat list"

definition pool_init :: "nat \<Rightarrow> pool" where
  "pool_init n = \<lparr>pool_workers = replicate n Unborn, pool_launched = 0, pool_stopped = False,
     pool_cancelled = False, pool_order = []\<rparr>"

definition active :: "pool \<Rightarrow> nat" where
  "active p = length (filter (\<lambda>w. w = Holding \<or> w = Working) (pool_workers p))"

definition set_worker :: "nat \<Rightarrow> worker \<Rightarrow> pool \<Rightarrow> pool" where
  "set_worker i w p = p\<lparr>pool_workers := (pool_workers p)[i := w]\<rparr>"

definition worker_is :: "pool \<Rightarrow> nat \<Rightarrow> worker \<Rightarrow> bool" where
  "worker_is p i w \<longleftrightarrow> i < length (pool_workers p) \<and> pool_workers p ! i = w"

inductive pool_step :: "nat \<Rightarrow> bool \<Rightarrow> (nat \<Rightarrow> bool) \<Rightarrow> pool \<Rightarrow> pool \<Rightarrow> bool" for c strict fails where
  launch: "pool_launched p < length (pool_workers p) \<Longrightarrow> \<not> pool_stopped p \<Longrightarrow>
     pool_step c strict fails p (set_worker (pool_launched p) Queued (p\<lparr>pool_launched := Suc (pool_launched p)\<rparr>))"
| stop_launching: "pool_launched p < length (pool_workers p) \<Longrightarrow> pool_stopped p \<Longrightarrow>
     pool_step c strict fails p (p\<lparr>pool_launched := length (pool_workers p)\<rparr>)"
| acquire: "worker_is p i Queued \<Longrightarrow> active p < c \<Longrightarrow> pool_step c strict fails p (set_worker i Holding p)"
| give_up: "worker_is p i Queued \<Longrightarrow> pool_stopped p \<or> pool_cancelled p \<Longrightarrow>
     pool_step c strict fails p (set_worker i Dropped p)"
| release: "worker_is p i Holding \<Longrightarrow> pool_stopped p \<Longrightarrow> pool_step c strict fails p (set_worker i Dropped p)"
| start: "worker_is p i Holding \<Longrightarrow> \<not> pool_stopped p \<Longrightarrow> pool_step c strict fails p (set_worker i Working p)"
| recorded: "worker_is p i Working \<Longrightarrow> \<not> pool_cancelled p \<Longrightarrow>
     pool_step c strict fails p (set_worker i Recorded
       (p\<lparr>pool_order := pool_order p @ [i], pool_stopped := pool_stopped p \<or> (strict \<and> fails i)\<rparr>))"
| discard: "worker_is p i Working \<Longrightarrow> pool_cancelled p \<Longrightarrow> pool_step c strict fails p (set_worker i Dropped p)"
| cancel: "\<not> pool_cancelled p \<Longrightarrow> pool_step c strict fails p (p\<lparr>pool_cancelled := True\<rparr>)"

text \<open>\<^verbatim>\<open>wg.Wait()\<close> returns: the loop has ended and every started goroutine has returned.\<close>

definition pool_final :: "pool \<Rightarrow> bool" where
  "pool_final p \<longleftrightarrow> pool_launched p = length (pool_workers p) \<and>
     list_all (\<lambda>w. w \<in> {Unborn, Recorded, Dropped}) (pool_workers p)"

inductive_cases pool_stepE: "pool_step c strict fails p q"

definition pool_inv :: "nat \<Rightarrow> bool \<Rightarrow> (nat \<Rightarrow> bool) \<Rightarrow> pool \<Rightarrow> bool" where
  "pool_inv c strict fails p \<longleftrightarrow>
     active p \<le> c \<and> pool_launched p \<le> length (pool_workers p) \<and> distinct (pool_order p) \<and>
     (\<forall>i. i \<in> set (pool_order p) \<longleftrightarrow> worker_is p i Recorded) \<and>
     (pool_stopped p \<longleftrightarrow> strict \<and> (\<exists>i\<in>set (pool_order p). fails i)) \<and>
     (\<not> pool_stopped p \<and> \<not> pool_cancelled p \<longrightarrow> (\<forall>i. \<not> worker_is p i Dropped)) \<and>
     (\<forall>i < pool_launched p. \<not> pool_stopped p \<longrightarrow> \<not> worker_is p i Unborn) \<and>
     (\<forall>i. pool_launched p \<le> i \<and> i < length (pool_workers p) \<longrightarrow> worker_is p i Unborn)"

lemma filter_update_count:
  "i < length xs \<Longrightarrow> length (filter P (xs[i := y])) + (if P (xs ! i) then 1 else 0)
     = length (filter P xs) + (if P y then 1 else 0)"
proof (induction xs arbitrary: i)
  case (Cons x xs)
  then show ?case by (cases i) auto
qed simp

lemma worker_is_set_worker [simp]:
  "worker_is (set_worker i w p) j v \<longleftrightarrow> (if j = i then i < length (pool_workers p) \<and> v = w else worker_is p j v)"
  by (auto simp: worker_is_def set_worker_def)

lemma set_worker_frame [simp]:
  "pool_launched (set_worker i w p) = pool_launched p" "pool_stopped (set_worker i w p) = pool_stopped p"
  "pool_cancelled (set_worker i w p) = pool_cancelled p" "pool_order (set_worker i w p) = pool_order p"
  "length (pool_workers (set_worker i w p)) = length (pool_workers p)"
  by (simp_all add: set_worker_def)

lemma worker_is_frame [simp]:
  "worker_is (p\<lparr>pool_launched := k\<rparr>) i w = worker_is p i w" "worker_is (p\<lparr>pool_cancelled := b\<rparr>) i w = worker_is p i w"
  "worker_is (p\<lparr>pool_order := os, pool_stopped := b\<rparr>) i w = worker_is p i w"
  by (simp_all add: worker_is_def)

lemma worker_is_length: "worker_is p i w \<Longrightarrow> i < length (pool_workers p)"
  by (simp add: worker_is_def)

lemma worker_is_unique: "worker_is p i v \<Longrightarrow> worker_is p i w \<Longrightarrow> v = w"
  by (simp add: worker_is_def)

lemma active_frame [simp]:
  "active (p\<lparr>pool_launched := k\<rparr>) = active p" "active (p\<lparr>pool_cancelled := b\<rparr>) = active p"
  "active (p\<lparr>pool_order := os, pool_stopped := b\<rparr>) = active p"
  by (simp_all add: active_def)

lemma active_set_worker:
  assumes "worker_is p i v"
  shows "active (set_worker i w p) + (if v = Holding \<or> v = Working then 1 else 0) =
    active p + (if w = Holding \<or> w = Working then 1 else 0)"
  using filter_update_count [of i "pool_workers p" "\<lambda>w. w = Holding \<or> w = Working" w] assms
  by (simp add: active_def set_worker_def worker_is_def)

lemma pool_inv_init: "pool_inv c strict fails (pool_init n)"
  by (auto simp: pool_inv_def pool_init_def active_def worker_is_def filter_replicate)

lemma pool_inv_step:
  assumes "pool_step c strict fails p q" "pool_inv c strict fails p"
  shows "pool_inv c strict fails q"
  using assms
proof (cases rule: pool_step.cases)
  case launch
  have u: "worker_is p (pool_launched p) Unborn" using assms(2) launch by (simp add: pool_inv_def)
  with active_set_worker [of "p\<lparr>pool_launched := Suc (pool_launched p)\<rparr>" "pool_launched p" Unborn Queued]
  have "active q = active p" by (simp add: launch)
  with launch assms(2) u show ?thesis
    by (auto simp: pool_inv_def less_Suc_eq dest: worker_is_unique)
next
  case stop_launching
  with assms(2) show ?thesis by (auto simp: pool_inv_def worker_is_def)
next
  case (acquire i)
  with active_set_worker [of p i Queued Holding] assms(2) show ?thesis
    by (auto simp: pool_inv_def dest: worker_is_unique)
next
  case (give_up i)
  with active_set_worker [of p i Queued Dropped] assms(2) show ?thesis
    by (auto simp: pool_inv_def dest: worker_is_unique)
next
  case (release i)
  with active_set_worker [of p i Holding Dropped] assms(2) show ?thesis
    by (auto simp: pool_inv_def dest: worker_is_unique)
next
  case (start i)
  with active_set_worker [of p i Holding Working] assms(2) show ?thesis
    by (auto simp: pool_inv_def dest: worker_is_unique)
next
  case (recorded i)
  with active_set_worker [of "p\<lparr>pool_order := pool_order p @ [i], pool_stopped := pool_stopped p \<or> (strict \<and> fails i)\<rparr>"
      i Working Recorded] assms(2) show ?thesis
    by (auto simp: pool_inv_def dest: worker_is_unique worker_is_length)
next
  case (discard i)
  with active_set_worker [of p i Working Dropped] assms(2) show ?thesis
    by (auto simp: pool_inv_def dest: worker_is_unique)
next
  case cancel
  with assms(2) show ?thesis by (auto simp: pool_inv_def)
qed

text \<open>Every step makes the pool smaller, so it runs to its end.\<close>

fun worker_weight :: "worker \<Rightarrow> nat" where
  "worker_weight Unborn = 4" | "worker_weight Queued = 3" | "worker_weight Holding = 2"
| "worker_weight Working = 1" | "worker_weight Recorded = 0" | "worker_weight Dropped = 0"

definition pool_measure :: "pool \<Rightarrow> nat" where
  "pool_measure p = (length (pool_workers p) - pool_launched p) + sum_list (map worker_weight (pool_workers p)) +
     (if pool_cancelled p then 0 else 1)"

lemma weight_set_worker:
  assumes "worker_is p i v"
  shows "sum_list (map worker_weight (pool_workers (set_worker i w p))) + worker_weight v =
    sum_list (map worker_weight (pool_workers p)) + worker_weight w"
proof -
  have "sum_list (xs[i := w]) + xs ! i = sum_list xs + w" if "i < length xs" for xs :: "nat list" and w
    using that by (induction xs arbitrary: i) (auto split: nat.splits simp: nth_Cons)
  from this [of "map worker_weight (pool_workers p)" "worker_weight w"] assms show ?thesis
    by (simp add: set_worker_def worker_is_def map_update)
qed

lemma pool_measure_step:
  assumes "pool_step c strict fails p q" "pool_inv c strict fails p"
  shows "pool_measure q < pool_measure p"
  using assms(1)
proof (cases rule: pool_step.cases)
  case launch
  have "worker_is p (pool_launched p) Unborn" using assms(2) launch by (simp add: pool_inv_def)
  with weight_set_worker [of "p\<lparr>pool_launched := Suc (pool_launched p)\<rparr>" "pool_launched p" Unborn Queued] launch
  show ?thesis by (simp add: pool_measure_def)
next
  case (recorded i)
  with weight_set_worker [of "p\<lparr>pool_order := pool_order p @ [i], pool_stopped := pool_stopped p \<or> (strict \<and> fails i)\<rparr>"
      i Working Recorded] show ?thesis by (simp add: pool_measure_def)
next
  case (acquire i)
  with weight_set_worker [of p i Queued Holding] show ?thesis by (simp add: pool_measure_def)
next
  case (give_up i)
  with weight_set_worker [of p i Queued Dropped] show ?thesis by (simp add: pool_measure_def)
next
  case (release i)
  with weight_set_worker [of p i Holding Dropped] show ?thesis by (simp add: pool_measure_def)
next
  case (start i)
  with weight_set_worker [of p i Holding Working] show ?thesis by (simp add: pool_measure_def)
next
  case (discard i)
  with weight_set_worker [of p i Working Dropped] show ?thesis by (simp add: pool_measure_def)
qed (simp_all add: pool_measure_def)

lemma busy_step:
  assumes "worker_is p i Holding \<or> worker_is p i Working"
  shows "\<exists>q. pool_step c strict fails p q \<and> pool_cancelled q = pool_cancelled p"
  using assms
proof
  assume h: "worker_is p i Holding"
  show ?thesis
  proof (cases "pool_stopped p")
    case True
    from pool_step.release [OF h True, of c strict fails] show ?thesis by fastforce
  next
    case False
    from pool_step.start [OF h False, of c strict fails] show ?thesis by fastforce
  qed
next
  assume w: "worker_is p i Working"
  show ?thesis
  proof (cases "pool_cancelled p")
    case True
    from pool_step.discard [OF w True, of c strict fails] show ?thesis by fastforce
  next
    case False
    from pool_step.recorded [OF w False, of c strict fails] show ?thesis by fastforce
  qed
qed

lemma active_witness: "0 < active p \<Longrightarrow> \<exists>i. worker_is p i Holding \<or> worker_is p i Working"
proof -
  assume "0 < active p"
  then obtain w where "w \<in> set (filter (\<lambda>w. w = Holding \<or> w = Working) (pool_workers p))"
    unfolding active_def by (metis length_greater_0_conv list.set_intros(1) neq_Nil_conv)
  then show ?thesis by (auto simp: worker_is_def in_set_conv_nth)
qed

lemma pool_progress:
  assumes "pool_inv c strict fails p" "\<not> pool_final p" "0 < c"
  shows "\<exists>q. pool_step c strict fails p q \<and> pool_cancelled q = pool_cancelled p"
proof (cases "pool_launched p < length (pool_workers p)")
  case True
  show ?thesis
  proof (cases "pool_stopped p")
    case st: True
    from pool_step.stop_launching [OF True st, of c strict fails] show ?thesis by fastforce
  next
    case st: False
    from pool_step.launch [OF True st, of c strict fails] show ?thesis by fastforce
  qed
next
  case False
  have "pool_launched p \<le> length (pool_workers p)" using assms(1) by (simp add: pool_inv_def)
  with False assms(2) obtain w where w: "w \<in> set (pool_workers p)" "w \<notin> {Unborn, Recorded, Dropped}"
    unfolding pool_final_def list_all_iff by auto
  then obtain i where i: "i < length (pool_workers p)" "pool_workers p ! i = w" by (auto simp: in_set_conv_nth)
  with w(2) have i: "worker_is p i Queued \<or> worker_is p i Holding \<or> worker_is p i Working"
    by (cases w) (simp_all add: worker_is_def)
  show ?thesis
  proof (cases "0 < active p")
    case True
    with active_witness busy_step show ?thesis by blast
  next
    case none: False
    show ?thesis
    proof (cases "worker_is p i Queued")
      case True
      then have "pool_step c strict fails p (set_worker i Holding p)"
        using none assms(3) by (intro pool_step.acquire) simp_all
      then show ?thesis by (intro exI [of _ "set_worker i Holding p"]) simp
    next
      case False
      with i busy_step show ?thesis by blast
    qed
  qed
qed

lemma pool_reach:
  assumes "(pool_step c strict fails)\<^sup>*\<^sup>* (pool_init n) p"
  shows "pool_inv c strict fails p \<and> length (pool_workers p) = n"
  using assms
proof (induction rule: rtranclp_induct)
  case base
  show ?case by (simp add: pool_inv_init) (simp add: pool_init_def)
next
  case (step p q)
  moreover have "length (pool_workers q) = length (pool_workers p)"
    using step(2) by (cases rule: pool_step.cases) simp_all
  ultimately show ?case using pool_inv_step by simp
qed



subsection \<open>The verdict on the loop\<close>

definition results_ok :: "ForEachResults \<Rightarrow> bool" where
  "results_ok res \<longleftrightarrow>
     (\<forall>r\<in>set (ForEachResults_Results res). ItemResult_Status r = ''succeeded'' \<or> ItemResult_Status r = ''failed'') \<and>
     length (ForEachResults_Failed res) =
       length (filter (\<lambda>r. ItemResult_Status r = ''failed'') (ForEachResults_Results res))"

lemma results_ok_record: "results_ok res \<Longrightarrow> results_ok (record_item item r res)"
  by (auto simp: results_ok_def record_item_def split: sum.splits)

lemma length_record: "length (ForEachResults_Results (record_item item r res)) = Suc (length (ForEachResults_Results res))"
  by (simp add: record_item_def split: sum.splits)

lemma process_items_results:
  "process_items env exec cur step fe ctx items iv is res xs = (res', xs') \<Longrightarrow> results_ok res \<Longrightarrow>
     results_ok res' \<and> length (ForEachResults_Results res') = length (ForEachResults_Results res) + length is"
  by (induction env exec cur step fe ctx items iv "is" res xs rule: process_items.induct)
    (auto simp: Let_def results_ok_record length_record split: prod.splits)

lemma succeeded_exists:
  assumes "results_ok res" "length (ForEachResults_Failed res) < length (ForEachResults_Results res)"
  shows "\<exists>r\<in>set (ForEachResults_Results res). ItemResult_Status r = ''succeeded''"
proof (rule ccontr)
  assume "\<not> ?thesis"
  with assms(1) have "filter (\<lambda>r. ItemResult_Status r = ''failed'') (ForEachResults_Results res) = ForEachResults_Results res"
    by (auto simp: results_ok_def intro!: filter_True)
  with assms show False by (simp add: results_ok_def)
qed

lemma foreach_finish_None:
  assumes "foreach_finish env cur step policy n res xs = (None, xs')" "results_ok res"
  shows "\<exists>r\<in>set (ForEachResults_Results res). ItemResult_Status r = ''succeeded''"
    and "policy = FailurePolicyFail \<Longrightarrow> ForEachResults_Failed res = []"
proof -
  from assms(1) have "length (ForEachResults_Failed res) < length (ForEachResults_Results res)"
    by (auto simp: foreach_finish_def Let_def split: prod.splits option.splits if_splits)
  with assms(2) show "\<exists>r\<in>set (ForEachResults_Results res). ItemResult_Status r = ''succeeded''"
    by (rule succeeded_exists)
  show "ForEachResults_Failed res = []" if "policy = FailurePolicyFail"
    using assms(1) that by (auto simp: foreach_finish_def Let_def split: prod.splits option.splits if_splits)
qed

text \<open>
  A forEach step over a non-empty list never reports success unless at least one item succeeded,
  and with itemFailurePolicy Fail not unless every recorded item did; every scheduled item has
  exactly one result.
\<close>

theorem foreach_success:
  assumes "executeForEach env exec cur step xs = (None, xs')" "Step_ForEach step = Some fe"
    "read_context xs = Inr ctx"
    "env_eval env (StepForEach_Items fe) (BuildVariableMap ctx) (xs_world xs) = (Inr v, w)"
    "items_of v = Some items" "items \<noteq> []"
  shows "\<exists>iv xs1 res xs2. processItemsConcurrently env exec cur step fe ctx items iv xs1 = (res, xs2) \<and>
    length (ForEachResults_Results res) =
      length (filter (\<lambda>i. i < length items) (fst (env_schedule env (length items) (xs_world xs1)))) \<and>
    (\<exists>r\<in>set (ForEachResults_Results res). ItemResult_Status r = ''succeeded'') \<and>
    (StepForEach_ItemFailurePolicy fe = ''Fail'' \<longrightarrow>
       (\<forall>r\<in>set (ForEachResults_Results res). ItemResult_Status r = ''succeeded''))"
proof -
  define iv where "iv = (if StepForEach_ItemVariable fe = [] then ''item'' else StepForEach_ItemVariable fe)"
  define policy where "policy = (if StepForEach_ItemFailurePolicy fe = [] then FailurePolicyContinue
    else StepForEach_ItemFailurePolicy fe)"
  define xs1 where "xs1 = item_progress env cur (Step_Name step) 0 (length items) (xs\<lparr>xs_world := w\<rparr>)"
  obtain res xs2 where p: "processItemsConcurrently env exec cur step fe ctx items iv xs1 = (res, xs2)" by force
  have fin: "foreach_finish env cur step policy (length items) res xs2 = (None, xs')"
    using assms p by (cases items) (simp_all add: executeForEach_def Let_def iv_def policy_def xs1_def)
  have ok: "results_ok no_results" by (simp add: results_ok_def no_results_def)
  obtain sch w' where sch: "env_schedule env (length items) (xs_world xs1) = (sch, w')" by force
  with p have "process_items env exec cur step fe ctx items iv (filter (\<lambda>i. i < length items) sch) no_results
      (xs1\<lparr>xs_world := w'\<rparr>) = (res, xs2)" by (simp add: processItemsConcurrently_def)
  from process_items_results [OF this ok]
  have r: "results_ok res" "length (ForEachResults_Results res) = length (filter (\<lambda>i. i < length items) sch)"
    by (simp_all add: no_results_def)
  have "\<forall>r\<in>set (ForEachResults_Results res). ItemResult_Status r = ''succeeded''"
    if "StepForEach_ItemFailurePolicy fe = ''Fail''"
  proof -
    from that have "policy = FailurePolicyFail" by (simp add: policy_def FailurePolicyFail_def)
    from foreach_finish_None(2) [OF fin r(1) this] r(1) show ?thesis
      by (auto simp: results_ok_def filter_empty_conv)
  qed
  with p r sch foreach_finish_None(1) [OF fin r(1)] show ?thesis
    by (intro exI [of _ iv] exI [of _ xs1] exI [of _ res] exI [of _ xs2]) simp
qed

definition each_step :: Step where
  "each_step = zero_Step\<lparr>Step_Name := ''each'', Step_ForEach := Some
     \<lparr>StepForEach_Items = ''items'', StepForEach_ItemVariable = [], StepForEach_Step = Some
        \<lparr>StepForEachStep_Expressions = [], StepForEachStep_Outputs = [], StepForEachStep_MatchConditions = [],
         StepForEachStep_Retry = None, StepForEachStep_Timeout = [], StepForEachStep_FailurePolicy = [],
         StepForEachStep_ResourceQuery = None, StepForEachStep_PrometheusQuery = None, StepForEachStep_Mutate = None,
         StepForEachStep_AgentRef = None, StepForEachStep_MCPToolCall = None, StepForEachStep_WorkflowRef = None,
         StepForEachStep_ExternalAgentRef = None, StepForEachStep_OpenReport = None\<rparr>,
      StepForEach_StepTemplateRef = None, StepForEach_MaxConcurrency = 0, StepForEach_ItemFailurePolicy = ''Fail''\<rparr>\<rparr>"

definition list_env :: "unit env" where
  "list_env = idle_env\<lparr>env_eval := (\<lambda>_ _ w. (Inr (VStrings [''x'', ''y'']), w))\<rparr>"

definition each_state :: "unit xstate" where
  "each_state = (idle_state zero_WorkflowRun)\<lparr>xs_cm := ready_cm\<rparr>"

definition ok_exec :: "unit step_exec" where
  "ok_exec _ xs = (Inr (Some []), xs)"

theorem foreach_success_witness:
  "\<exists>xs' ctx iv xs1 res xs2. executeForEach list_env ok_exec None each_step each_state = (None, xs') \<and>
     processItemsConcurrently list_env ok_exec None each_step (the (Step_ForEach each_step)) ctx
       [VString ''x'', VString ''y''] iv xs1 = (res, xs2) \<and>
     (\<exists>r\<in>set (ForEachResults_Results res). ItemResult_Status r = ''succeeded'')"
proof -
  have ex: "fst (executeForEach list_env ok_exec None each_step each_state) = None" by code_simp
  then obtain xs' where run: "executeForEach list_env ok_exec None each_step each_state = (None, xs')"
    by (cases "executeForEach list_env ok_exec None each_step each_state") auto
  have fe: "Step_ForEach each_step = Some (the (Step_ForEach each_step))" by (simp add: each_step_def)
  have "\<not> isl (read_context each_state)" by code_simp
  then obtain ctx where ctx: "read_context each_state = Inr ctx" by (cases "read_context each_state") auto
  from foreach_success [OF run fe ctx, where v = "VStrings [''x'', ''y'']" and w = "()"
      and items = "[VString ''x'', VString ''y'']"] run ctx
  show ?thesis by (fastforce simp: list_env_def)
qed

subsection \<open>Frame\<close>

lemma item_progress_frame: "keeps xs (item_progress env cur n c t xs)"
  by (auto simp: keeps_def item_progress_def Let_def intro!: same_phases_set_status split: option.splits)

lemma foreach_tally_frame: "keeps xs (foreach_tally env cur n s t f xs)"
  by (auto simp: keeps_def foreach_tally_def Let_def intro!: same_phases_set_status split: option.splits)

lemma foreach_tally_keeps [simp]: "keeps ys (foreach_tally env cur n s t f xs) = keeps ys xs"
  using foreach_tally_frame [of xs env cur n s t f] by (auto simp: keeps_def same_phases_def)

lemma writeForEachResults_keeps:
  "writeForEachResults n res cm = (r, cm') \<Longrightarrow> cm_completionOrder cm' = cm_completionOrder cm"
  by (auto simp: writeForEachResults_def Let_def split: option.splits)

lemma keeps_cm: "cm_completionOrder cm = cm_completionOrder (xs_cm xs) \<Longrightarrow> keeps xs (xs\<lparr>xs_cm := cm\<rparr>)"
  by (simp add: keeps_def)

lemma foreach_outputs_keeps: "foreach_outputs env step xs = (r, xs') \<Longrightarrow> keeps xs xs'"
  by (auto simp: foreach_outputs_def split: sum.splits prod.splits option.splits if_splits dest!: write_outputs_keeps)

lemma foreach_finish_frame:
  assumes "foreach_finish env cur step policy n res xs = (r, xs')"
  shows "keeps xs xs'"
proof -
  obtain e cm where w: "writeForEachResults (Step_Name step) res (xs_cm xs) = (e, cm)" by force
  from writeForEachResults_keeps [OF w] have k: "keeps xs (xs\<lparr>xs_cm := cm\<rparr>)" by (rule keeps_cm)
  show ?thesis
  proof (cases e)
    case None
    with assms w k show ?thesis
      by (auto simp: foreach_finish_def Let_def split: prod.splits option.splits if_splits
          dest!: foreach_outputs_keeps intro: keeps_trans)
  qed (use assms w k in \<open>auto simp: foreach_finish_def Let_def\<close>)
qed

definition exec_frame :: "'w step_exec \<Rightarrow> bool" where
  "exec_frame exec \<longleftrightarrow> (\<forall>step xs r xs'. exec step xs = (r, xs') \<longrightarrow> keeps xs xs')"

lemma processForEachItem_frame:
  assumes "exec_frame exec" "processForEachItem env exec fe ctx item iv xs = (r, xs')"
  shows "keeps xs xs'"
  using assms by (fastforce simp: processForEachItem_def Let_def exec_frame_def split: prod.splits sum.splits if_splits)

lemma process_items_frame:
  "process_items env exec cur step fe ctx items iv is res xs = (res', xs') \<Longrightarrow> exec_frame exec \<Longrightarrow>
     keeps xs xs'"
proof (induction env exec cur step fe ctx items iv "is" res xs rule: process_items.induct)
  case (2 env exec cur step fe ctx items iv i "is" res xs)
  obtain r xs1 where p: "processForEachItem env exec fe ctx (items ! i) iv xs = (r, xs1)" by force
  let ?res = "record_item (items ! i) r res"
  let ?xs2 = "item_progress env cur (Step_Name step) (length (ForEachResults_Results ?res)) (length items) xs1"
  have "process_items env exec cur step fe ctx items iv is ?res ?xs2 = (res', xs')"
    using 2(2) p by (simp add: Let_def)
  from 2(1) [OF p [symmetric] refl refl this 2(3)] processForEachItem_frame [OF 2(3) p]
    item_progress_frame [of xs1 env cur "Step_Name step" "length (ForEachResults_Results ?res)" "length items"]
  show ?case by (metis keeps_trans)
qed simp

lemma executeForEach_frame:
  assumes "exec_frame exec" "executeForEach env exec cur step xs = (r, xs')"
  shows "keeps xs xs'"
proof -
  have p: "keeps ys ys'"
    if "processItemsConcurrently env exec cur step fe ctx items iv ys = (res, ys')" for fe ctx items iv ys res ys'
    using that process_items_frame [OF _ assms(1)]
    by (fastforce simp: processItemsConcurrently_def split: prod.splits)
  have w: "keeps xs (xs\<lparr>xs_world := v, xs_cm := cm\<rparr>)"
    if "writeForEachResults n res (xs_cm xs) = (e, cm)" for n res e cm v
    using writeForEachResults_keeps [OF that] by (simp add: keeps_def)
  have i: "keeps xs ys'" if "processItemsConcurrently env exec cur step fe ctx items iv
      (item_progress env cur n c t (xs\<lparr>xs_world := v\<rparr>)) = (res, ys)" "foreach_finish env cur step pol k res ys = (e, ys')"
    for fe ctx items iv n c t v res ys pol k e ys'
  proof -
    have "keeps xs (item_progress env cur n c t (xs\<lparr>xs_world := v\<rparr>))"
      using item_progress_frame [of "xs\<lparr>xs_world := v\<rparr>" env cur n c t] by simp
    also have "keeps \<dots> ys" using p [OF that(1)] .
    also have "keeps \<dots> ys'" using foreach_finish_frame [OF that(2)] .
    finally show ?thesis .
  qed
  show ?thesis
    using assms(2)
    by (auto simp: executeForEach_def Let_def split: option.splits sum.splits prod.splits list.splits dest!: w i)
qed

end
