(* ===== verification/Step_Exec.thy ===== *)
theory Step_Exec
  imports Foreach
begin

text \<open>
  The execution of one step (\<^verbatim>\<open>internal/workflow/executor/executor.go\<close>): match conditions, the step's
  expressions, the dispatch on the kind of action, sub-workflows run inline and the outputs of a
  workflow.

  \<^verbatim>\<open>executeStep\<close> calls itself for the steps of a forEach and of a template. Those are never forEach or
  template steps again, so the recursion is unfolded twice; \<open>executeStep_fixpoint\<close> shows that the
  result satisfies the recursive equation of the source. Running a sub-workflow is the parameter
  \<open>child\<close> here; theory Executor instantiates it with \<^verbatim>\<open>ExecuteWorkflow\<close> itself.

  A failed type assertion would end the process; it is an error tagged \<open>GoPanic\<close>. It needs a
  checkpoint whose "expressions" is not an object.
\<close>

subsection \<open>Match conditions\<close>

fun eval_conditions :: "'w evaluator \<Rightarrow> MatchCondition list \<Rightarrow> gomap \<Rightarrow> 'w \<Rightarrow> bool result \<times> 'w" where
  "eval_conditions ev [] vars w = (Inr True, w)"
| "eval_conditions ev (c # cs) vars w =
     (case ev (MatchCondition_Expression c) vars w of
        (Inl e, w') \<Rightarrow> (Inl (wrapf (''failed to evaluate matchCondition '' @ quoted (MatchCondition_Name c) @ '': '') e), w')
      | (Inr r, w') \<Rightarrow>
          (case as_bool r of
             None \<Rightarrow> (Inl (errorf (''matchCondition '' @ quoted (MatchCondition_Name c) @ '' did not evaluate to boolean'')), w')
           | Some b \<Rightarrow> if \<not> b then (Inr False, w') else eval_conditions ev cs vars w'))"

definition checkMatchConditions :: "'w env \<Rightarrow> Step \<Rightarrow> 'w xstate \<Rightarrow> bool result \<times> 'w xstate" where
  "checkMatchConditions env step xs =
     (if Step_MatchConditions step = [] then (Inr True, xs)
      else (case read_context xs of
              Inl e \<Rightarrow> (Inl e, xs)
            | Inr ctx \<Rightarrow>
                (case eval_conditions (env_eval env) (Step_MatchConditions step) (BuildVariableMap ctx) (xs_world xs) of
                   (r, w) \<Rightarrow> (r, xs\<lparr>xs_world := w\<rparr>))))"

subsection \<open>The step's own expressions\<close>

text \<open>
  \<^verbatim>\<open>contextData\<close> is the live scoped map, or a shallow copy of the shared one; in both the inner
  "expressions" map is the live one, and \<^verbatim>\<open>vars\<close> holds it too. So each result is in the live map as
  soon as it is computed. When there is no such map, the one that is created stays in
  \<^verbatim>\<open>contextData\<close>: it survives the call only if that is the scoped map.
\<close>

definition store_expressions :: "gomap \<Rightarrow> 'w xstate \<Rightarrow> 'w xstate" where
  "store_expressions m xs =
     (case GetContextFrom (xs_scoped xs) (xs_cm xs) of
        None \<Rightarrow> xs
      | Some live \<Rightarrow> put_context (AList.update ''expressions'' (VMap m) live) xs)"

definition panic_conversion :: goerror where
  "panic_conversion = GoError [GoPanic] ''panic: interface conversion''"

definition step_expressions :: "'w env \<Rightarrow> Step \<Rightarrow> gomap \<Rightarrow> 'w xstate \<Rightarrow> gomap result \<times> 'w xstate" where
  "step_expressions env step ctx xs =
     (if Step_Expressions step = [] then (Inr (BuildVariableMap ctx), xs)
      else (case EvaluateStepExpressions (env_eval env) step (BuildVariableMap ctx) (xs_world xs) of
              (r, vars, w) \<Rightarrow>
                (let xs1 = xs\<lparr>xs_world := w\<rparr>; live = as_map (map_of ctx ''expressions'');
                     written = (case as_map (map_of vars ''expressions'') of Some m \<Rightarrow> m | None \<Rightarrow> [])
                 in case r of
                      Inl e \<Rightarrow> (Inl (wrapf ''failed to evaluate expressions: '' e),
                               if live = None then xs1 else store_expressions written xs1)
                    | Inr results \<Rightarrow>
                        (let exprs = put_all (case live of Some m \<Rightarrow> m | None \<Rightarrow> []) results;
                             vars' = BuildVariableMap (AList.update ''expressions'' (VMap exprs) ctx)
                         in case map_of ctx ''expressions'' of
                              Some (VMap _) \<Rightarrow> (Inr vars', store_expressions exprs xs1)
                            | None \<Rightarrow> (Inr vars', if xs_scoped xs = None then xs1 else store_expressions exprs xs1)
                            | Some VNil \<Rightarrow> (Inr vars', if xs_scoped xs = None then xs1 else store_expressions exprs xs1)
                            | Some _ \<Rightarrow> (Inl panic_conversion, xs1)))))"

subsection \<open>Sub-workflows\<close>

type_synonym 'w child = "'w env \<Rightarrow> Workflow \<Rightarrow> WorkflowRun \<Rightarrow> 'w \<Rightarrow> goerror option \<times> WorkflowRun \<times> 'w"

definition newChildExecutor :: "'w env \<Rightarrow> 'w env result" where
  "newChildExecutor env =
     (case env_newCEL env of
        Inl e \<Rightarrow> Inl (wrapf ''failed to create CEL evaluator: '' e)
      | Inr mk \<Rightarrow> Inr (env\<lparr>env_eval := mk DefaultCELCostLimit, env_celWithLimit := mk\<rparr>))"

definition input_text :: "'w env \<Rightarrow> string \<Rightarrow> val \<Rightarrow> string result" where
  "input_text env name v =
     (case v of
        VString s \<Rightarrow> Inr s
      | _ \<Rightarrow> (case marshal v of
               None \<Rightarrow> Inl (errorf (''failed to marshal input '' @ quoted name @ '': json: unsupported value''))
             | Some _ \<Rightarrow> Inr (env_jsonText env v)))"

fun eval_inputs ::
  "'w env \<Rightarrow> gomap \<Rightarrow> (string \<times> string) list \<Rightarrow> (string \<times> string) list \<Rightarrow> 'w \<Rightarrow> (string \<times> string) list result \<times> 'w" where
  "eval_inputs env vars [] acc w = (Inr acc, w)"
| "eval_inputs env vars ((name, expr) # rest) acc w =
     (case env_eval env expr vars w of
        (Inl e, w') \<Rightarrow> (Inl (wrapf (''failed to evaluate input '' @ quoted name @ '': '') e), w')
      | (Inr v, w') \<Rightarrow>
          (case input_text env name v of
             Inl e \<Rightarrow> (Inl e, w')
           | Inr s \<Rightarrow> eval_inputs env vars rest (AList.update name s acc) w'))"

definition child_run :: "WorkflowRun \<Rightarrow> Step \<Rightarrow> StepWorkflowRef \<Rightarrow> string \<Rightarrow> (string \<times> string) list \<Rightarrow> WorkflowRun" where
  "child_run run step ref ns inputValues =
     \<lparr>WorkflowRun_Meta = zero_ObjectMeta\<lparr>ObjectMeta_Name := WorkflowRun_Name run @ ''-'' @ Step_Name step @ ''-inline'',
        ObjectMeta_Namespace := ns\<rparr>,
      WorkflowRun_Spec = \<lparr>WorkflowRunSpec_WorkflowRef = \<lparr>WorkflowRef_Name = StepWorkflowRef_Name ref, WorkflowRef_Namespace = ns\<rparr>,
        WorkflowRunSpec_InputValues = inputValues, WorkflowRunSpec_ClusterRef = WorkflowRunSpec_ClusterRef (WorkflowRun_Spec run),
        WorkflowRunSpec_Events = None, WorkflowRunSpec_Execution = WorkflowRunSpec_Execution (WorkflowRun_Spec run)\<rparr>,
      WorkflowRun_Status = zero_Status\<lparr>Status_Phase := WorkflowRunPhasePending\<rparr>\<rparr>"

text \<open>The outputs that decode, as the parent's step outputs.\<close>

definition decoded_outputs :: "(string \<times> raw_json) list \<Rightarrow> gomap" where
  "decoded_outputs outs = List.map_filter (\<lambda>(k, raw). map_option (\<lambda>v. (k, v)) (unmarshal raw)) outs"

definition child_outputs :: "WorkflowRun \<Rightarrow> 'w xstate \<Rightarrow> outputs result \<times> 'w xstate" where
  "child_outputs childRun xs =
     (let outs = Status_Outputs (WorkflowRun_Status childRun); out = decoded_outputs outs in
      if outs = [] then (Inr None, xs)
      else if out = [] then (Inr (Some []), xs)
      else (case write_outputs out xs of
              (Some e, xs1) \<Rightarrow> (Inl (wrapf ''failed to write step outputs: '' e), xs1)
            | (None, xs1) \<Rightarrow> (Inr (Some out), xs1)))"

definition run_child ::
  "'w child \<Rightarrow> 'w env \<Rightarrow> Workflow \<Rightarrow> WorkflowRun \<Rightarrow> 'w xstate \<Rightarrow> outputs result \<times> 'w xstate" where
  "run_child child env subWorkflow childRun xs =
     (case newChildExecutor env of
        Inl e \<Rightarrow> (Inl (wrapf ''failed to create executor for sub-workflow: '' e), xs)
      | Inr childEnv \<Rightarrow>
          (case child childEnv subWorkflow childRun (xs_world xs) of
             (Some e, _, w) \<Rightarrow> (Inl (wrapf ''sub-workflow failed: '' e), xs\<lparr>xs_world := w\<rparr>)
           | (None, childRun', w) \<Rightarrow> child_outputs childRun' (xs\<lparr>xs_world := w\<rparr>)))"

definition executeWorkflowReference :: "'w child \<Rightarrow> 'w env \<Rightarrow> Step \<Rightarrow> 'w xstate \<Rightarrow> outputs result \<times> 'w xstate" where
  "executeWorkflowReference child env step xs =
     (case Step_WorkflowRef step of
        None \<Rightarrow> (Inl (errorf ''WorkflowRef is nil''), xs)
      | Some ref \<Rightarrow>
          (case read_context xs of
             Inl e \<Rightarrow> (Inl (wrapf ''failed to read context: '' e), xs)
           | Inr ctx \<Rightarrow>
               (case eval_inputs env (BuildVariableMap ctx) (StepWorkflowRef_Inputs ref) [] (xs_world xs) of
                  (Inl e, w) \<Rightarrow> (Inl e, xs\<lparr>xs_world := w\<rparr>)
                | (Inr inputValues, w) \<Rightarrow>
                    (let ns = (if StepWorkflowRef_Namespace ref = [] then WorkflowRun_Namespace (xs_run xs)
                               else StepWorkflowRef_Namespace ref);
                         name = StepWorkflowRef_Name ref
                     in case env_getWorkflow env (ns, name) w of
                          (Inl e, w1) \<Rightarrow> (Inl (wrapf (''failed to get sub-workflow '' @ ns @ ''/'' @ name @ '': '') e), xs\<lparr>xs_world := w1\<rparr>)
                        | (Inr subWorkflow, w1) \<Rightarrow>
                            run_child child env subWorkflow (child_run (xs_run xs) step ref ns inputValues) (xs\<lparr>xs_world := w1\<rparr>)))))"

subsection \<open>One step\<close>

definition step_kind_of :: "Step \<Rightarrow> step_kind" where
  "step_kind_of s =
     (if Step_ForEach s \<noteq> None then KForEach
      else if Step_StepTemplateRef s \<noteq> None then KStepTemplateRef
      else if Step_WorkflowRef s \<noteq> None then KWorkflowRef
      else if Step_AgentRef s \<noteq> None then KAgentRef
      else if Step_MCPToolCall s \<noteq> None then KMCPToolCall
      else if Step_ExternalAgentRef s \<noteq> None then KExternalAgentRef
      else if Step_ResourceQuery s \<noteq> None then KResourceQuery
      else if Step_PrometheusQuery s \<noteq> None then KPrometheusQuery
      else if Step_Mutate s \<noteq> None then KMutate
      else if Step_OpenReport s \<noteq> None then KOpenReport
      else if Step_WaitForCallback s \<noteq> None then KWaitForCallback
      else KExpression)"

text \<open>The value of the attribute \<^verbatim>\<open>workflow.step.type\<close>; it has no case for waitForCallback.\<close>

fun kind_name :: "step_kind \<Rightarrow> string" where
  "kind_name KForEach = ''forEach''"
| "kind_name KStepTemplateRef = ''stepTemplateRef''"
| "kind_name KWorkflowRef = ''workflowRef''"
| "kind_name KAgentRef = ''agentRef''"
| "kind_name KMCPToolCall = ''mcpToolCall''"
| "kind_name KExternalAgentRef = ''externalAgentRef''"
| "kind_name KResourceQuery = ''resourceQuery''"
| "kind_name KPrometheusQuery = ''prometheusQuery''"
| "kind_name KMutate = ''mutate''"
| "kind_name KOpenReport = ''openReport''"
| "kind_name KWaitForCallback = ''expression''"
| "kind_name KExpression = ''expression''"

definition stepType :: "Step \<Rightarrow> string" where
  "stepType s = kind_name (step_kind_of s)"

definition call_handler :: "'w env \<Rightarrow> step_kind \<Rightarrow> Step \<Rightarrow> 'w xstate \<Rightarrow> outputs result \<times> 'w xstate" where
  "call_handler env k step xs =
     (case env_handler env k (env_eval env) (xs_run xs) step (xs_scoped xs) (xs_cm xs) (xs_world xs) of
        (r, sc, c, w) \<Rightarrow> (r, xs\<lparr>xs_scoped := (case xs_scoped xs of None \<Rightarrow> None | Some _ \<Rightarrow> sc),
                               xs_cm := (xs_cm xs)\<lparr>cm_inMemoryContext := c\<rparr>, xs_world := w\<rparr>))"

definition expression_outputs :: "'w env \<Rightarrow> Step \<Rightarrow> gomap \<Rightarrow> 'w xstate \<Rightarrow> outputs result \<times> 'w xstate" where
  "expression_outputs env step vars xs =
     (case EvaluateStepOutputs (env_eval env) step vars (xs_world xs) of
        (Inl e, w) \<Rightarrow> (Inl (wrapf ''failed to evaluate outputs: '' e), xs\<lparr>xs_world := w\<rparr>)
      | (Inr outs, w) \<Rightarrow>
          (case write_outputs outs (xs\<lparr>xs_world := w\<rparr>) of
             (Some e, xs1) \<Rightarrow> (Inl (wrapf ''failed to write step outputs: '' e), xs1)
           | (None, xs1) \<Rightarrow> (Inr (Some outs), xs1)))"

definition execute_template :: "'w step_exec \<Rightarrow> 'w env \<Rightarrow> Step \<Rightarrow> 'w xstate \<Rightarrow> outputs result \<times> 'w xstate" where
  "execute_template inner env step xs =
     (case Step_StepTemplateRef step of
        None \<Rightarrow> (Inl panic_conversion, xs)
      | Some ref \<Rightarrow>
          (case template_step env step ref xs of
             (Inl e, xs1) \<Rightarrow> (Inl e, xs1)
           | (Inr s, xs1) \<Rightarrow> inner s xs1))"

definition dispatch ::
  "'w step_exec \<Rightarrow> 'w child \<Rightarrow> 'w env \<Rightarrow> Workflow option \<Rightarrow> Step \<Rightarrow> gomap \<Rightarrow> 'w xstate \<Rightarrow> outputs result \<times> 'w xstate" where
  "dispatch inner child env cur step vars xs =
     (case step_kind_of step of
        KForEach \<Rightarrow> (case executeForEach env inner cur step xs of
            (Some e, xs1) \<Rightarrow> (Inl e, xs1) | (None, xs1) \<Rightarrow> (Inr None, xs1))
      | KStepTemplateRef \<Rightarrow> execute_template inner env step xs
      | KWorkflowRef \<Rightarrow> executeWorkflowReference child env step xs
      | KWaitForCallback \<Rightarrow> executeWaitForCallback env step xs
      | KExpression \<Rightarrow> expression_outputs env step vars xs
      | k \<Rightarrow> call_handler env k step xs)"

definition executeStep_with ::
  "'w step_exec \<Rightarrow> 'w child \<Rightarrow> 'w env \<Rightarrow> Workflow option \<Rightarrow> 'w step_exec" where
  "executeStep_with inner child env cur step xs =
     (case read_context xs of
        Inl e \<Rightarrow> (Inl (wrapf ''failed to read context: '' e), xs)
      | Inr ctx \<Rightarrow>
          (case step_expressions env step ctx xs of
             (Inl e, xs1) \<Rightarrow> (Inl e, xs1)
           | (Inr vars, xs1) \<Rightarrow> dispatch inner child env cur step vars xs1))"

definition no_inner :: "'w step_exec" where
  "no_inner step xs = (Inl (GoError [GoStackOverflow] ''stack overflow''), xs)"

definition executeStep :: "'w child \<Rightarrow> 'w env \<Rightarrow> Workflow option \<Rightarrow> 'w step_exec" where
  "executeStep child env cur = executeStep_with (executeStep_with no_inner child env cur) child env cur"

subsection \<open>Frame\<close>

lemma store_expressions_keeps [simp]: "keeps ys (store_expressions m xs) = keeps ys xs"
proof -
  have "keeps xs (store_expressions m xs)"
    by (simp add: store_expressions_def split: option.splits)
  then show ?thesis by (auto simp: keeps_def same_phases_def)
qed

lemma step_expressions_keeps: "step_expressions env step ctx xs = (r, xs') \<Longrightarrow> keeps xs xs'"
  by (auto simp: step_expressions_def Let_def split: prod.splits sum.splits if_splits option.splits val.splits)

lemma child_outputs_keeps: "child_outputs run xs = (r, xs') \<Longrightarrow> keeps xs xs'"
  by (auto simp: child_outputs_def Let_def split: prod.splits option.splits if_splits dest!: write_outputs_keeps)

lemma run_child_keeps: "run_child child env sub run xs = (r, xs') \<Longrightarrow> keeps xs xs'"
  by (auto simp: run_child_def split: prod.splits sum.splits option.splits dest!: child_outputs_keeps)

lemma executeWorkflowReference_keeps: "executeWorkflowReference child env step xs = (r, xs') \<Longrightarrow> keeps xs xs'"
  by (auto simp: executeWorkflowReference_def Let_def split: prod.splits sum.splits option.splits dest!: run_child_keeps)

lemma call_handler_keeps: "call_handler env k step xs = (r, xs') \<Longrightarrow> keeps xs xs'"
  by (auto simp: call_handler_def keeps_def split: prod.splits)

lemma expression_outputs_keeps: "expression_outputs env step vars xs = (r, xs') \<Longrightarrow> keeps xs xs'"
  by (auto simp: expression_outputs_def split: prod.splits sum.splits option.splits dest!: write_outputs_keeps)

lemma template_step_keeps: "template_step env step ref xs = (r, xs') \<Longrightarrow> keeps xs xs'"
  using template_step_run [of env step ref xs r xs'] by (simp add: keeps_def)

lemma execute_template_keeps:
  assumes "exec_frame inner" "execute_template inner env step xs = (r, xs')"
  shows "keeps xs xs'"
proof (cases "Step_StepTemplateRef step")
  case (Some ref)
  obtain t xs1 where t: "template_step env step ref xs = (t, xs1)" by force
  show ?thesis
  proof (cases t)
    case (Inr s)
    with assms(2) Some t have "inner s xs1 = (r, xs')" by (simp add: execute_template_def)
    with assms(1) template_step_keeps [OF t] show ?thesis by (auto simp: exec_frame_def intro: keeps_trans)
  qed (use assms(2) Some t template_step_keeps [OF t] in \<open>simp add: execute_template_def\<close>)
qed (use assms(2) in \<open>simp add: execute_template_def\<close>)

lemmas handlers_keep = executeWorkflowReference_keeps executeWaitForCallback_frame
  expression_outputs_keeps call_handler_keeps

lemma dispatch_keeps:
  assumes "exec_frame inner" "dispatch inner child env cur step vars xs = (r, xs')"
  shows "keeps xs xs'"
  using assms executeForEach_frame [OF assms(1)] execute_template_keeps [OF assms(1)]
  by (auto simp: dispatch_def split: step_kind.splits prod.splits option.splits dest: handlers_keep)

lemma executeStep_with_frame:
  assumes "exec_frame inner"
  shows "exec_frame (executeStep_with inner child env cur)"
  unfolding exec_frame_def
proof (intro allI impI)
  fix step xs r xs'
  assume "executeStep_with inner child env cur step xs = (r, xs')"
  then show "keeps xs xs'"
    by (auto simp: executeStep_with_def split: sum.splits prod.splits
        dest!: step_expressions_keeps dispatch_keeps [OF assms] intro: keeps_trans)
qed

lemma executeStep_frame: "exec_frame (executeStep child env cur)"
proof -
  have "exec_frame no_inner" by (simp add: exec_frame_def no_inner_def)
  then show ?thesis unfolding executeStep_def by (intro executeStep_with_frame)
qed

subsection \<open>The recursion of the source\<close>

text \<open>Two executors that agree on leaf steps behave alike under a forEach and under a template.\<close>

definition agree_on_leaves :: "'w step_exec \<Rightarrow> 'w step_exec \<Rightarrow> bool" where
  "agree_on_leaves f g \<longleftrightarrow> (\<forall>s xs. leaf_step s \<longrightarrow> f s xs = g s xs)"

lemma item_step_leaf: "item_step env run fe ctx w = (Inr s, w') \<Longrightarrow> leaf_step s"
  by (auto simp: item_step_def instantiateForEachStepTemplate_def Let_def convertForEachStepToStep_def
      leaf_step_def zero_Step_def split: option.splits prod.splits sum.splits dest!: instantiate_leaf)

lemma processForEachItem_agree:
  assumes "agree_on_leaves f g"
  shows "processForEachItem env f fe ctx item iv xs = processForEachItem env g fe ctx item iv xs"
proof -
  have "f (if Step_Name s = [] then s\<lparr>Step_Name := ''_item_''\<rparr> else s) ys =
        g (if Step_Name s = [] then s\<lparr>Step_Name := ''_item_''\<rparr> else s) ys"
    if "item_step env run fe c w = (Inr s, w')" for s w w' c run ys
    using item_step_leaf [OF that] assms by (simp add: agree_on_leaves_def leaf_step_def)
  then show ?thesis
    by (auto simp: processForEachItem_def Let_def split: prod.splits sum.splits)
qed

lemma process_items_agree:
  assumes "agree_on_leaves f g"
  shows "process_items env f cur step fe ctx items iv is res xs = process_items env g cur step fe ctx items iv is res xs"
  by (induction "is" arbitrary: res xs)
    (simp_all add: processForEachItem_agree [OF assms] Let_def split: prod.splits)

lemma executeForEach_agree:
  assumes "agree_on_leaves f g"
  shows "executeForEach env f cur step xs = executeForEach env g cur step xs"
  unfolding executeForEach_def processItemsConcurrently_def process_items_agree [OF assms] ..

lemma execute_template_agree:
  assumes "agree_on_leaves f g"
  shows "execute_template f env step xs = execute_template g env step xs"
proof -
  have "f s ys = g s ys" if "template_step env step ref xs = (Inr s, ys')" for s ys ys' ref
    using template_step_leaf [OF that] assms by (simp add: agree_on_leaves_def)
  then show ?thesis
    by (auto simp: execute_template_def split: option.splits prod.splits sum.splits)
qed

lemma executeStep_with_agree:
  assumes "agree_on_leaves f g"
  shows "executeStep_with f child env cur = executeStep_with g child env cur"
proof -
  have "dispatch f child env cur step vars xs = dispatch g child env cur step vars xs" for step vars xs
    unfolding dispatch_def executeForEach_agree [OF assms] execute_template_agree [OF assms] ..
  then have "dispatch f child env cur = dispatch g child env cur" by (intro ext)
  then show ?thesis unfolding executeStep_with_def by (simp only:)
qed

lemma leaf_independent: "agree_on_leaves (executeStep_with f child env cur) (executeStep_with g child env cur)"
  by (auto simp: agree_on_leaves_def executeStep_with_def dispatch_def step_kind_of_def leaf_step_def
      split: sum.splits prod.splits)

subsection \<open>Properties\<close>

text \<open>
  \<^verbatim>\<open>executeStep\<close> satisfies the recursive equation of the source: executing a step calls
  \<^verbatim>\<open>executeStep\<close> again for the items of a forEach and for an instantiated template. So the recursion
  never nests deeper than once, whatever the workflow.
\<close>

theorem executeStep_fixpoint:
  "executeStep child env cur = executeStep_with (executeStep child env cur) child env cur"
  unfolding executeStep_def by (rule executeStep_with_agree [OF leaf_independent])

abbreviation holds :: "(MatchCondition \<Rightarrow> val result) \<Rightarrow> MatchCondition \<Rightarrow> bool" where
  "holds f c \<equiv> f c = Inr (VBool True)"

lemma eval_conditions_steady:
  assumes "\<And>c. c \<in> set cs \<Longrightarrow> ev (MatchCondition_Expression c) vars w = (f c, w)"
  shows "\<exists>r. eval_conditions ev cs vars w = (r, w) \<and> (r = Inr True \<longleftrightarrow> (\<forall>c\<in>set cs. holds f c)) \<and>
    (r = Inr False \<longleftrightarrow> (\<exists>c rest. dropWhile (holds f) cs = c # rest \<and> f c = Inr (VBool False)))"
  using assms
proof (induction cs)
  case (Cons c cs)
  have ev: "ev (MatchCondition_Expression c) vars w = (f c, w)" using Cons.prems by simp
  have IH: "\<exists>r. eval_conditions ev cs vars w = (r, w) \<and> (r = Inr True \<longleftrightarrow> (\<forall>c\<in>set cs. holds f c)) \<and>
    (r = Inr False \<longleftrightarrow> (\<exists>c rest. dropWhile (holds f) cs = c # rest \<and> f c = Inr (VBool False)))"
    using Cons.IH Cons.prems by simp
  consider e where "f c = Inl e" | x where "f c = Inr (VBool x)" | v where "f c = Inr v" "as_bool v = None"
  proof (cases "f c")
    case (Inr v)
    then show ?thesis using that by (cases v) auto
  qed (use that in blast)
  then show ?case
  proof cases
    case 2
    then show ?thesis using ev IH by (cases x) simp_all
  next
    case 3
    then have "v \<noteq> VBool x" for x by auto
    with 3 show ?thesis using ev by simp
  qed (use ev in simp)
qed simp

text \<open>
  A step's match conditions decide as documented. When evaluating them has no effect on the
  world, the step runs iff every one is true; it is skipped iff one is false and all before it are
  true (the later ones are not looked at); otherwise, for a condition that fails or is no boolean,
  the check is an error. The state is not changed.
\<close>

theorem checkMatchConditions_decides:
  assumes "read_context xs = Inr ctx"
    and "\<forall>c\<in>set (Step_MatchConditions step).
      env_eval env (MatchCondition_Expression c) (BuildVariableMap ctx) (xs_world xs) = (f c, xs_world xs)"
  shows "snd (checkMatchConditions env step xs) = xs \<and>
    (fst (checkMatchConditions env step xs) = Inr True \<longleftrightarrow> (\<forall>c\<in>set (Step_MatchConditions step). holds f c)) \<and>
    (fst (checkMatchConditions env step xs) = Inr False \<longleftrightarrow>
       (\<exists>c rest. dropWhile (holds f) (Step_MatchConditions step) = c # rest \<and> f c = Inr (VBool False)))"
proof -
  obtain r where r: "eval_conditions (env_eval env) (Step_MatchConditions step) (BuildVariableMap ctx) (xs_world xs) = (r, xs_world xs)"
    "r = Inr True \<longleftrightarrow> (\<forall>c\<in>set (Step_MatchConditions step). holds f c)"
    "r = Inr False \<longleftrightarrow> (\<exists>c rest. dropWhile (holds f) (Step_MatchConditions step) = c # rest \<and> f c = Inr (VBool False))"
    using eval_conditions_steady [of "Step_MatchConditions step" "env_eval env" "BuildVariableMap ctx" "xs_world xs" f] assms(2)
    by blast
  show ?thesis
  proof (cases "Step_MatchConditions step = []")
    case False
    then have "checkMatchConditions env step xs = (r, xs)" using assms(1) r(1) by (simp add: checkMatchConditions_def)
    with r(2,3) show ?thesis by simp
  qed (simp add: checkMatchConditions_def)
qed

definition guarded_step :: Step where
  "guarded_step = zero_Step\<lparr>Step_Name := ''guarded'', Step_MatchConditions :=
     [\<lparr>MatchCondition_Name = ''ready'', MatchCondition_Expression = ''variables.ready''\<rparr>]\<rparr>"

theorem checkMatchConditions_decides_witness:
  "fst (checkMatchConditions idle_env guarded_step each_state) = Inr True"
proof -
  obtain ctx where "read_context each_state = Inr ctx"
    by (auto simp: read_context_def ReadContext_def each_state_def idle_state_def ready_cm_def)
  from checkMatchConditions_decides [of each_state ctx guarded_step idle_env "\<lambda>_. Inr (VBool True)", OF this]
  show ?thesis by (simp add: idle_env_def)
qed

text \<open>The variables of a context, as \<^verbatim>\<open>BuildVariableMap\<close> reads them.\<close>

definition variables_of :: "gomap \<Rightarrow> gomap" where
  "variables_of ctx = (case as_map (map_of ctx ''variables'') of Some m \<Rightarrow> m | None \<Rightarrow> [])"

lemma eval_outputs_wf: "eval_outputs ev ds outs vars w = (Inr outs', w') \<Longrightarrow> wf_map outs \<Longrightarrow> wf_map outs'"
  by (induction ev ds outs vars w rule: eval_outputs.induct) (auto split: prod.splits sum.splits)

lemma variables_of_update [simp]: "k \<noteq> ''variables'' \<Longrightarrow> variables_of (AList.update k v m) = variables_of m"
  by (simp add: variables_of_def)

lemma variables_of_write:
  "wf_map outs \<Longrightarrow> map_of (variables_of (write_variables outs m)) = map_of (variables_of m) ++ map_of outs"
  by (simp add: write_variables_def variables_of_def map_of_put_all split: option.splits)

lemma read_after_write:
  assumes "write_outputs outs xs = (None, xs')" "read_context xs = Inr ctx" "wf_map outs"
  shows "\<exists>ctx'. read_context xs' = Inr ctx' \<and> map_of (variables_of ctx') = map_of (variables_of ctx) ++ map_of outs"
proof (cases "xs_scoped xs")
  case (Some m)
  then show ?thesis using assms
    by (clarsimp simp: write_outputs_def WriteStepOutputs_def read_context_def ReadContext_def variables_of_write)
next
  case None
  then obtain m where m: "cm_inMemoryContext (xs_cm xs) = Some m" "cm_contextInitialized (xs_cm xs)"
    using assms(2) by (cases "cm_inMemoryContext (xs_cm xs)") (auto simp: read_context_def ReadContext_def split: if_splits)
  with None assms show ?thesis
    by (clarsimp simp: write_outputs_def WriteStepOutputs_def read_context_def ReadContext_def variables_of_write)
qed

lemma step_expressions_state:
  assumes "step_expressions env step ctx xs = (r, xs')"
  shows "(\<exists>w. xs' = xs\<lparr>xs_world := w\<rparr>) \<or> (\<exists>w m. xs' = store_expressions m (xs\<lparr>xs_world := w\<rparr>))"
proof (cases "Step_Expressions step = []")
  case True
  with assms have "xs' = xs\<lparr>xs_world := xs_world xs\<rparr>" by (simp add: step_expressions_def)
  then show ?thesis by blast
next
  case False
  obtain q vars w where q: "EvaluateStepExpressions (env_eval env) step (BuildVariableMap ctx) (xs_world xs) = (q, vars, w)"
    by (metis prod_cases3)
  have "xs' = xs\<lparr>xs_world := w\<rparr> \<or> (\<exists>m. xs' = store_expressions m (xs\<lparr>xs_world := w\<rparr>))"
    using assms False q by (simp add: step_expressions_def Let_def split: sum.splits if_splits option.splits val.splits) blast+
  then show ?thesis by blast
qed

lemma store_expressions_variables:
  assumes "read_context xs = Inr ctx"
  shows "\<exists>ctx'. read_context (store_expressions m xs) = Inr ctx' \<and> variables_of ctx' = variables_of ctx"
  using assms
  by (auto simp: store_expressions_def GetContextFrom_def put_context_def read_context_def ReadContext_def
      variables_of_def split: option.splits if_splits)

lemma step_expressions_variables:
  assumes "step_expressions env step ctx xs = (r, xs')" "read_context xs = Inr ctx"
  shows "\<exists>ctx'. read_context xs' = Inr ctx' \<and> variables_of ctx' = variables_of ctx"
proof -
  have w: "read_context (xs\<lparr>xs_world := w\<rparr>) = Inr ctx" for w
    using assms(2) by (simp add: read_context_def)
  from step_expressions_state [OF assms(1)] show ?thesis
    using w store_expressions_variables [OF w] by blast
qed

text \<open>
  When a step without an action succeeds, its outputs are in the context that the following
  steps read: every output is the variable of that name, and no other variable has changed.
\<close>

theorem step_outputs_visible:
  assumes "step_kind_of step = KExpression" "read_context xs = Inr ctx"
    and "executeStep child env cur step xs = (Inr (Some outs), xs')"
  shows "\<exists>ctx'. read_context xs' = Inr ctx' \<and> map_of (variables_of ctx') = map_of (variables_of ctx) ++ map_of outs"
proof -
  obtain vars xs1 where e: "step_expressions env step ctx xs = (Inr vars, xs1)"
    and o: "expression_outputs env step vars xs1 = (Inr (Some outs), xs')"
    using assms by (auto simp: executeStep_def executeStep_with_def dispatch_def split: prod.splits sum.splits)
  obtain ctx1 where c: "read_context xs1 = Inr ctx1" "variables_of ctx1 = variables_of ctx"
    using step_expressions_variables [OF e assms(2)] by blast
  obtain w where ev: "eval_outputs (env_eval env) (Step_Outputs step) [] vars (xs_world xs1) = (Inr outs, w)"
    and wr: "write_outputs outs (xs1\<lparr>xs_world := w\<rparr>) = (None, xs')"
    using o by (auto simp: expression_outputs_def EvaluateStepOutputs_def split: prod.splits sum.splits option.splits)
  have "wf_map outs" using eval_outputs_wf [OF ev] by simp
  from read_after_write [OF wr _ this, of ctx1] c show ?thesis by (simp add: read_context_def)
qed

definition plain_step :: Step where
  "plain_step = zero_Step\<lparr>Step_Name := ''plain'', Step_Outputs :=
     [\<lparr>Output_Name = ''ok'', Output_Expression = ''1 == 1'', Output_Value = None, Output_Metric = None, Output_Sensitive = False\<rparr>]\<rparr>"

definition idle_child :: "unit child" where
  "idle_child _ _ run w = (None, run, w)"

theorem step_outputs_visible_witness:
  "\<exists>xs' ctx'. executeStep idle_child idle_env None plain_step each_state = (Inr (Some [(''ok'', VBool True)]), xs') \<and>
     read_context xs' = Inr ctx' \<and> map_of (variables_of ctx') ''ok'' = Some (VBool True)"
proof -
  have k: "step_kind_of plain_step = KExpression" by (simp add: step_kind_of_def plain_step_def zero_Step_def)
  obtain ctx where c: "read_context each_state = Inr ctx"
    by (auto simp: read_context_def ReadContext_def each_state_def idle_state_def ready_cm_def)
  have "fst (executeStep idle_child idle_env None plain_step each_state) = Inr (Some [(''ok'', VBool True)])"
    by code_simp
  then obtain xs' where x: "executeStep idle_child idle_env None plain_step each_state = (Inr (Some [(''ok'', VBool True)]), xs')"
    by (metis prod.collapse)
  from step_outputs_visible [OF k c x] x show ?thesis by auto
qed

end
