(* ===== verification/Dag.thy ===== *)
theory Dag
  imports Api_Types
begin

text \<open>
  The dependency graph of a workflow (\<^verbatim>\<open>internal/workflow/executor/dag.go\<close>): its construction from
  the steps' \<^verbatim>\<open>dependsOn\<close> lists, the depth-first cycle check, and the choice of the steps that are
  ready. A dereference of a missing node, which would panic, is \<open>None\<close>; the order in which the
  runtime ranges over the node map is the argument \<open>ks\<close>.
\<close>

subsection \<open>Operations\<close>

record Node =
  Node_Name :: string
  Node_Step :: Step
  Node_Dependencies :: "string list"
  Node_Dependents :: "string list"

record DAG =
  DAG_nodes :: "(string \<times> Node) list"
  DAG_edges :: "(string \<times> string list) list"

definition NewDAG :: DAG where
  "NewDAG = \<lparr>DAG_nodes = [], DAG_edges = []\<rparr>"

definition GetNode :: "DAG \<Rightarrow> string \<Rightarrow> Node option" where
  "GetNode d name = map_of (DAG_nodes d) name"

definition AddNode :: "Step \<Rightarrow> DAG \<Rightarrow> DAG" where
  "AddNode step d =
     (if GetNode d (Step_Name step) = None
      then d\<lparr>DAG_nodes := AList.update (Step_Name step)
               \<lparr>Node_Name = Step_Name step, Node_Step = step, Node_Dependencies = [],
                Node_Dependents = []\<rparr> (DAG_nodes d)\<rparr>
      else d)"

text \<open>Append unless already there: the two search loops of \<^verbatim>\<open>AddEdge\<close>.\<close>

definition append_new :: "'a \<Rightarrow> 'a list \<Rightarrow> 'a list" where
  "append_new x xs = (if x \<in> set xs then xs else xs @ [x])"

definition add_dependent :: "string \<Rightarrow> string \<Rightarrow> DAG \<Rightarrow> DAG" where
  "add_dependent fromStep toStep d =
     (case GetNode d fromStep of None \<Rightarrow> d
      | Some nd \<Rightarrow> d\<lparr>DAG_nodes := AList.update fromStep
                       (nd\<lparr>Node_Dependents := append_new toStep (Node_Dependents nd)\<rparr>) (DAG_nodes d)\<rparr>)"

definition add_dependency :: "string \<Rightarrow> string \<Rightarrow> DAG \<Rightarrow> DAG" where
  "add_dependency fromStep toStep d =
     (case GetNode d toStep of None \<Rightarrow> d
      | Some nd \<Rightarrow> d\<lparr>DAG_nodes := AList.update toStep
                       (nd\<lparr>Node_Dependencies := append_new fromStep (Node_Dependencies nd)\<rparr>) (DAG_nodes d)\<rparr>)"

definition AddEdge :: "string \<Rightarrow> string \<Rightarrow> DAG \<Rightarrow> DAG" where
  "AddEdge fromStep toStep d =
     (if GetNode d fromStep = None \<or> GetNode d toStep = None then d
      else (let d' = add_dependency fromStep toStep (add_dependent fromStep toStep d)
            in d'\<lparr>DAG_edges := AList.update fromStep
                      (get_or [] (DAG_edges d') fromStep @ [toStep]) (DAG_edges d')\<rparr>))"

definition GetAllNodes :: "string list \<Rightarrow> DAG \<Rightarrow> Node list" where
  "GetAllNodes ks d = List.map_filter (GetNode d) ks"

definition unvisited :: "DAG \<Rightarrow> (string \<Rightarrow> bool) \<Rightarrow> nat" where
  "unvisited d vis = card {n \<in> set (map fst (DAG_nodes d)). \<not> vis n}"

type_synonym dfs_result = "(bool \<times> (string \<Rightarrow> bool) \<times> (string \<Rightarrow> bool)) option"

text \<open>
  \<open>hasCycleDFS\<close> is the method, \<open>dependents_loop\<close> its loop over \<^verbatim>\<open>node.Dependents\<close>. Both return the
  updated \<^verbatim>\<open>visited\<close> and \<^verbatim>\<open>recStack\<close> maps, which the Go code mutates.
\<close>

function hasCycleDFS :: "DAG \<Rightarrow> string \<Rightarrow> (string \<Rightarrow> bool) \<Rightarrow> (string \<Rightarrow> bool) \<Rightarrow> dfs_result"
  and dependents_loop :: "DAG \<Rightarrow> string list \<Rightarrow> (string \<Rightarrow> bool) \<Rightarrow> (string \<Rightarrow> bool) \<Rightarrow> dfs_result" where
  "hasCycleDFS d nodeName visited recStack =
     (case GetNode d nodeName of None \<Rightarrow> None
      | Some node \<Rightarrow>
          (case dependents_loop d (Node_Dependents node)
                  (visited(nodeName := True)) (recStack(nodeName := True)) of
             None \<Rightarrow> None
           | Some (True, v, r) \<Rightarrow> Some (True, v, r)
           | Some (False, v, r) \<Rightarrow> Some (False, v, r(nodeName := False))))"
| "dependents_loop d [] visited recStack = Some (False, visited, recStack)"
| "dependents_loop d (dependent # rest) visited recStack =
     (if \<not> visited dependent then
        (case hasCycleDFS d dependent visited recStack of
           None \<Rightarrow> None
         | Some (True, v, r) \<Rightarrow> Some (True, v, r)
         | Some (False, v, r) \<Rightarrow> dependents_loop d rest v r)
      else if recStack dependent then Some (True, visited, recStack)
      else dependents_loop d rest visited recStack)"
  by pat_completeness auto

lemma unvisited_mono: "(\<And>n. vis n \<Longrightarrow> vis' n) \<Longrightarrow> unvisited d vis' \<le> unvisited d vis"
  unfolding unvisited_def by (rule card_mono) auto

lemma unvisited_visit:
  assumes "GetNode d n \<noteq> None" "\<not> vis n"
  shows "unvisited d (vis(n := True)) < unvisited d vis"
  unfolding unvisited_def
proof (rule psubset_card_mono)
  from assms(1) have "n \<in> set (map fst (DAG_nodes d))"
    by (auto simp: GetNode_def map_of_eq_None_iff)
  with assms(2) show "{k \<in> set (map fst (DAG_nodes d)). \<not> (vis(n := True)) k}
      \<subset> {k \<in> set (map fst (DAG_nodes d)). \<not> vis k}"
    by auto
qed simp

text \<open>The loop never unmarks a visited node: needed for the termination of the nested call.\<close>

lemma dfs_visited_partial:
  "hasCycleDFS_dependents_loop_dom (Inl (d, n, vis, rec)) \<Longrightarrow>
     hasCycleDFS d n vis rec = Some (b, v, r) \<Longrightarrow> vis m \<Longrightarrow> v m"
  "hasCycleDFS_dependents_loop_dom (Inr (d, xs, vis, rec)) \<Longrightarrow>
     dependents_loop d xs vis rec = Some (b, v, r) \<Longrightarrow> vis m \<Longrightarrow> v m"
proof (induction d n vis rec and d xs vis rec arbitrary: b v r and b v r
    rule: hasCycleDFS_dependents_loop.pinduct)
  case (1 d n vis rec)
  from "1.prems"(1) "1.hyps" obtain nd b' v' r' where nd: "GetNode d n = Some nd"
    and l: "dependents_loop d (Node_Dependents nd) (vis(n := True)) (rec(n := True)) = Some (b', v', r')"
    and v: "v = v'"
    by (simp add: hasCycleDFS.psimps split: option.splits bool.splits prod.splits)
  have "(vis(n := True)) m" using "1.prems"(2) by simp
  from "1.IH" [OF nd l this] v show ?case by simp
next
  case (2 d vis rec)
  then show ?case by (simp add: dependents_loop.psimps)
next
  case (3 d x xs vis rec)
  show ?case
  proof (cases "vis x")
    case True
    with "3.prems" "3.hyps" "3.IH"(3) show ?thesis
      by (auto simp: dependents_loop.psimps split: if_splits)
  next
    case False
    with "3.prems"(1) "3.hyps" obtain b' v' r' where h: "hasCycleDFS d x vis rec = Some (b', v', r')"
      by (simp add: dependents_loop.psimps split: option.splits prod.splits)
    from "3.IH"(1) [OF False h "3.prems"(2)] have "v' m" .
    with "3.prems"(1) "3.hyps" False h "3.IH"(2) show ?thesis
      by (cases b') (auto simp: dependents_loop.psimps)
  qed
qed

termination hasCycleDFS
proof (relation "measures
    [case_sum (\<lambda>(d, n, vis, rec). if GetNode d n = None then 0 else unvisited d (vis(n := True)))
              (\<lambda>(d, xs, vis, rec). unvisited d vis),
     case_sum (\<lambda>(d, n, vis, rec). if GetNode d n = None then 0 else 1) (\<lambda>_. 0),
     case_sum (\<lambda>_. 0) (\<lambda>(d, xs, vis, rec). length xs)]", goal_cases)
  case 1
  then show ?case by simp
next
  case (2 d n vis rec node)
  then show ?case by simp
next
  case (3 d x xs vis rec)
  then show ?case using unvisited_visit [of d x vis] by auto
next
  case (4 d x xs vis rec p b q v r)
  then have "\<And>m. vis m \<Longrightarrow> v m"
    using dfs_visited_partial(1) [of d x vis rec] by (auto simp: fun_eq_iff)
  then have "unvisited d v \<le> unvisited d vis" by (rule unvisited_mono)
  then show ?case by auto
next
  case (5 d x xs vis rec)
  then show ?case by simp
qed

declare hasCycleDFS.simps [simp del] dependents_loop.simps [simp del]

fun nodes_loop :: "DAG \<Rightarrow> string list \<Rightarrow> (string \<Rightarrow> bool) \<Rightarrow> (string \<Rightarrow> bool) \<Rightarrow> bool option" where
  "nodes_loop d [] visited recStack = Some False"
| "nodes_loop d (name # rest) visited recStack =
     (if \<not> visited name then
        (case hasCycleDFS d name visited recStack of
           None \<Rightarrow> None
         | Some (True, v, r) \<Rightarrow> Some True
         | Some (False, v, r) \<Rightarrow> nodes_loop d rest v r)
      else nodes_loop d rest visited recStack)"

definition HasCycle :: "string list \<Rightarrow> DAG \<Rightarrow> bool option" where
  "HasCycle ks d = nodes_loop d ks (\<lambda>_. False) (\<lambda>_. False)"

definition step_ready :: "DAG \<Rightarrow> (string \<Rightarrow> bool) \<Rightarrow> string \<Rightarrow> bool" where
  "step_ready d completed name =
     (\<not> completed name \<and>
      (case GetNode d name of None \<Rightarrow> False | Some node \<Rightarrow> list_all completed (Node_Dependencies node)))"

definition GetReadySteps :: "string list \<Rightarrow> DAG \<Rightarrow> (string \<Rightarrow> bool) \<Rightarrow> string list" where
  "GetReadySteps ks d completedSteps = filter (step_ready d completedSteps) ks"

definition missing_dep_error :: "string \<Rightarrow> string \<Rightarrow> goerror" where
  "missing_dep_error name depName =
     errorf (''step '' @ name @ '' depends on non-existent step '' @ depName)"

fun add_step_deps :: "string \<Rightarrow> string list \<Rightarrow> DAG \<Rightarrow> DAG result" where
  "add_step_deps name [] d = Inr d"
| "add_step_deps name (depName # rest) d =
     (if GetNode d depName = None
      then Inl (missing_dep_error name depName)
      else add_step_deps name rest (AddEdge depName name d))"

fun add_all_deps :: "Step list \<Rightarrow> DAG \<Rightarrow> DAG result" where
  "add_all_deps [] d = Inr d"
| "add_all_deps (step # rest) d =
     (case add_step_deps (Step_Name step) (Step_DependsOn step) d of
        Inl e \<Rightarrow> Inl e | Inr d' \<Rightarrow> add_all_deps rest d')"

definition BuildDAG :: "string list \<Rightarrow> Step list \<Rightarrow> DAG result option" where
  "BuildDAG ks steps =
     (case add_all_deps steps (fold AddNode steps NewDAG) of
        Inl e \<Rightarrow> Some (Inl e)
      | Inr dag \<Rightarrow> map_option (\<lambda>cyclic. if cyclic
                     then Inl (errorf ''workflow contains circular dependencies'') else Inr dag)
                   (HasCycle ks dag))"

subsection \<open>The graph and its invariant\<close>

definition dependents_of :: "DAG \<Rightarrow> string \<Rightarrow> string set" where
  "dependents_of d a = (case GetNode d a of None \<Rightarrow> {} | Some nd \<Rightarrow> set (Node_Dependents nd))"

definition dependencies_of :: "DAG \<Rightarrow> string \<Rightarrow> string set" where
  "dependencies_of d a = (case GetNode d a of None \<Rightarrow> {} | Some nd \<Rightarrow> set (Node_Dependencies nd))"

definition dag_rel :: "DAG \<Rightarrow> (string \<times> string) set" where
  "dag_rel d = {(a, b). b \<in> dependents_of d a}"

definition dag_keys :: "DAG \<Rightarrow> string set" where
  "dag_keys d = {n. GetNode d n \<noteq> None}"

definition dag_wf :: "DAG \<Rightarrow> bool" where
  "dag_wf d \<longleftrightarrow> wf_map (DAG_nodes d)
     \<and> (\<forall>a nd. GetNode d a = Some nd \<longrightarrow> Node_Name nd = a)
     \<and> (\<forall>a b. b \<in> dependents_of d a \<longrightarrow> b \<in> dag_keys d)
     \<and> (\<forall>a b. b \<in> dependents_of d a \<longleftrightarrow> a \<in> dependencies_of d b)"

lemma dag_keys_finite [simp]: "finite (dag_keys d)"
proof -
  have "dag_keys d = dom (map_of (DAG_nodes d))" by (auto simp: dag_keys_def GetNode_def)
  then show ?thesis by (simp add: finite_dom_map_of)
qed

lemma set_append_new [simp]: "set (append_new x xs) = insert x (set xs)"
  by (auto simp: append_new_def)

lemma GetNode_NewDAG [simp]: "GetNode NewDAG n = None"
  by (simp add: GetNode_def NewDAG_def)

lemma GetNode_AddNode:
  "GetNode (AddNode s d) n =
     (if n = Step_Name s \<and> GetNode d n = None
      then Some \<lparr>Node_Name = n, Node_Step = s, Node_Dependencies = [], Node_Dependents = []\<rparr>
      else GetNode d n)"
  by (auto simp: AddNode_def GetNode_def)

lemma GetNode_AddEdge:
  assumes "GetNode d a \<noteq> None" "GetNode d b \<noteq> None"
  shows "GetNode (AddEdge a b d) n =
    map_option (\<lambda>nd. nd\<lparr>Node_Dependents := (if n = a then append_new b (Node_Dependents nd) else Node_Dependents nd),
                       Node_Dependencies := (if n = b then append_new a (Node_Dependencies nd) else Node_Dependencies nd)\<rparr>)
      (GetNode d n)"
  using assms
  by (auto simp: AddEdge_def add_dependency_def add_dependent_def GetNode_def Let_def
      option.map_ident split: option.splits)

lemma AddEdge_keys [simp]: "dag_keys (AddEdge a b d) = dag_keys d"
proof (cases "GetNode d a \<noteq> None \<and> GetNode d b \<noteq> None")
  case True
  then show ?thesis by (simp add: dag_keys_def GetNode_AddEdge)
next
  case False
  then show ?thesis by (auto simp: AddEdge_def)
qed

lemma AddEdge_dependents:
  assumes "a \<in> dag_keys d" "b \<in> dag_keys d"
  shows "dependents_of (AddEdge a b d) n = dependents_of d n \<union> (if n = a then {b} else {})"
    and "dependencies_of (AddEdge a b d) n = dependencies_of d n \<union> (if n = b then {a} else {})"
  using assms
  by (auto simp: dependents_of_def dependencies_of_def dag_keys_def GetNode_AddEdge split: option.splits)

lemma AddNode_dependents [simp]:
  "dependents_of (AddNode s d) n = dependents_of d n"
  "dependencies_of (AddNode s d) n = dependencies_of d n"
  by (auto simp: dependents_of_def dependencies_of_def GetNode_AddNode)

lemma AddNode_keys [simp]: "dag_keys (AddNode s d) = insert (Step_Name s) (dag_keys d)"
  by (auto simp: dag_keys_def GetNode_AddNode)

lemma dag_wf_NewDAG [simp]: "dag_wf NewDAG"
  by (simp add: dag_wf_def dependents_of_def dependencies_of_def) (simp add: NewDAG_def)

lemma dag_wf_AddNode [simp]: "dag_wf d \<Longrightarrow> dag_wf (AddNode s d)"
  by (auto simp: dag_wf_def GetNode_AddNode) (simp add: AddNode_def)

lemma wf_map_AddEdge: "wf_map (DAG_nodes d) \<Longrightarrow> wf_map (DAG_nodes (AddEdge a b d))"
  by (simp add: AddEdge_def add_dependency_def add_dependent_def Let_def split: option.splits)

lemma dag_wf_AddEdge [simp]: "dag_wf d \<Longrightarrow> dag_wf (AddEdge a b d)"
proof (cases "a \<in> dag_keys d \<and> b \<in> dag_keys d")
  case True
  assume wf: "dag_wf d"
  from True have "\<And>n nd. GetNode (AddEdge a b d) n = Some nd \<Longrightarrow> Node_Name nd = n"
    using wf by (auto simp: dag_keys_def GetNode_AddEdge dag_wf_def)
  with True wf show ?thesis
    by (auto simp: dag_wf_def AddEdge_dependents wf_map_AddEdge split: if_splits)
next
  case False
  then have "AddEdge a b d = d" by (auto simp: AddEdge_def dag_keys_def)
  then show "dag_wf d \<Longrightarrow> dag_wf (AddEdge a b d)" by simp
qed

subsection \<open>Cycle detection\<close>

text \<open>How a call that returned got its result.\<close>

lemma hasCycleDFS_SomeD:
  assumes "hasCycleDFS d n vis rec = Some (b, v, r)"
  obtains nd r' where "GetNode d n = Some nd"
    "dependents_loop d (Node_Dependents nd) (vis(n := True)) (rec(n := True)) = Some (b, v, r')"
    "\<not> b \<Longrightarrow> r = r'(n := False)"
  using assms by (auto simp: hasCycleDFS.simps [of d n] split: option.splits bool.splits)

lemma dependents_loop_SomeD:
  assumes "dependents_loop d (x # xs) vis rec = Some (b, v, r)"
  obtains (found) v' r' where "\<not> vis x" "hasCycleDFS d x vis rec = Some (True, v', r')" "b"
  | (fresh) v' r' where "\<not> vis x" "hasCycleDFS d x vis rec = Some (False, v', r')"
      "dependents_loop d xs v' r' = Some (b, v, r)"
  | (stacked) "vis x" "rec x" "b"
  | (finished) "vis x" "\<not> rec x" "dependents_loop d xs vis rec = Some (b, v, r)"
  using assms by (auto simp: dependents_loop.simps split: option.splits bool.splits if_splits)

text \<open>Computation induction for the two functions on one graph.\<close>

lemma dfs_induct [case_names dfs nil cons]:
  assumes "\<And>n vis rec. (\<And>nd. GetNode d n = Some nd \<Longrightarrow>
             Q (Node_Dependents nd) (vis(n := True)) (rec(n := True))) \<Longrightarrow> P n vis rec"
    and "\<And>vis rec. Q [] vis rec"
    and "\<And>x xs vis rec. (\<not> vis x \<Longrightarrow> P x vis rec) \<Longrightarrow>
           (\<And>v r. \<not> vis x \<Longrightarrow> hasCycleDFS d x vis rec = Some (False, v, r) \<Longrightarrow> Q xs v r) \<Longrightarrow>
           (vis x \<Longrightarrow> \<not> rec x \<Longrightarrow> Q xs vis rec) \<Longrightarrow> Q (x # xs) vis rec"
  shows "P n vis rec" "Q xs vis rec"
proof -
  have "(d' = d \<longrightarrow> P n vis rec)" "(d'' = d \<longrightarrow> Q xs vis rec)" for d' d''
  proof (induction d' n vis rec and d'' xs vis rec rule: hasCycleDFS_dependents_loop.induct)
    case (1 d' n vis rec)
    then show ?case using assms(1) by blast
  next
    case (2 d' vis rec)
    then show ?case using assms(2) by blast
  next
    case (3 d' x xs vis rec)
    show ?case
    proof
      assume d': "d' = d"
      show "Q (x # xs) vis rec"
      proof (rule assms(3))
        fix v r
        assume "\<not> vis x" "hasCycleDFS d x vis rec = Some (False, v, r)"
        with "3.IH"(2) [of "(False, v, r)" False "(v, r)" v r] d' show "Q xs v r" by blast
      qed (use "3.IH"(1,3) d' in blast)+
    qed
  qed
  then show "P n vis rec" "Q xs vis rec" by blast+
qed

text \<open>The calls never panic on a well-formed graph, visiting is monotone, and the stack is restored.\<close>

lemma dependents_in_keys:
  "dag_wf d \<Longrightarrow> GetNode d n = Some nd \<Longrightarrow> set (Node_Dependents nd) \<subseteq> dag_keys d"
  unfolding dag_wf_def by (metis dependents_of_def option.simps(5) subsetI)

lemma dfs_no_panic:
  assumes wf: "dag_wf d"
  shows "n \<in> dag_keys d \<longrightarrow> hasCycleDFS d n vis rec \<noteq> None"
    and "set xs \<subseteq> dag_keys d \<longrightarrow> dependents_loop d xs vis rec \<noteq> None"
proof (induction n vis rec and xs vis rec rule: dfs_induct [where d = d])
  case (dfs n vis rec)
  show ?case
  proof
    assume "n \<in> dag_keys d"
    then obtain nd where nd: "GetNode d n = Some nd" by (auto simp: dag_keys_def)
    with dfs [OF nd] dependents_in_keys [OF wf nd] obtain b v r where
      "dependents_loop d (Node_Dependents nd) (vis(n := True)) (rec(n := True)) = Some (b, v, r)"
      by (metis not_None_eq prod_cases3)
    with nd show "hasCycleDFS d n vis rec \<noteq> None"
      by (cases b) (simp_all add: hasCycleDFS.simps [of d n])
  qed
next
  case (nil vis rec)
  then show ?case by (simp add: dependents_loop.simps)
next
  case (cons x xs vis rec)
  then show ?case
    by (cases "vis x"; cases "hasCycleDFS d x vis rec")
      (auto simp: dependents_loop.simps split: bool.splits)
qed

lemma dfs_visited: "hasCycleDFS d n vis rec = Some (b, v, r) \<Longrightarrow> vis m \<Longrightarrow> v m"
  and loop_visited: "dependents_loop d xs vis rec = Some (b, v, r) \<Longrightarrow> vis m \<Longrightarrow> v m"
proof (induction n vis rec and xs vis rec arbitrary: b v r and b v r rule: dfs_induct [where d = d])
  case (dfs n vis rec)
  from dfs.prems(1) show ?case
  proof (rule hasCycleDFS_SomeD)
    fix nd r'
    assume "GetNode d n = Some nd"
      "dependents_loop d (Node_Dependents nd) (vis(n := True)) (rec(n := True)) = Some (b, v, r')"
    from dfs.IH [OF this] dfs.prems(2) show ?thesis by simp
  qed
next
  case (nil vis rec)
  then show ?case by (simp add: dependents_loop.simps)
next
  case (cons x xs vis rec)
  from cons.prems(1) show ?case
  proof (cases rule: dependents_loop_SomeD)
    case (found v' r')
    with cons show ?thesis by (simp add: dependents_loop.simps)
  next
    case (fresh v' r')
    then show ?thesis using cons.IH(2) cons.IH(1) [OF fresh(1,2) cons.prems(2)] by blast
  next
    case stacked
    with cons show ?thesis by (simp add: dependents_loop.simps)
  next
    case finished
    then show ?thesis using cons.IH(3) cons.prems(2) by blast
  qed
qed

lemma dfs_stack:
  "hasCycleDFS d n vis rec = Some (False, v, r) \<Longrightarrow> \<forall>m. rec m \<longrightarrow> vis m \<Longrightarrow> \<not> vis n \<Longrightarrow> r = rec"
  and loop_stack:
  "dependents_loop d xs vis rec = Some (False, v, r) \<Longrightarrow> \<forall>m. rec m \<longrightarrow> vis m \<Longrightarrow> r = rec"
proof (induction n vis rec and xs vis rec arbitrary: v r and v r rule: dfs_induct [where d = d])
  case (dfs n vis rec)
  from dfs.prems(1) show ?case
  proof (rule hasCycleDFS_SomeD)
    fix nd r'
    assume nd: "GetNode d n = Some nd"
      and l: "dependents_loop d (Node_Dependents nd) (vis(n := True)) (rec(n := True)) = Some (False, v, r')"
      and r: "\<not> False \<Longrightarrow> r = r'(n := False)"
    have "r' = rec(n := True)" by (rule dfs.IH [OF nd l]) (use dfs.prems(2) in simp)
    with r dfs.prems show ?thesis by (simp add: fun_eq_iff) blast
  qed
next
  case (nil vis rec)
  then show ?case by (simp add: dependents_loop.simps)
next
  case (cons x xs vis rec)
  from cons.prems(1) show ?case
  proof (cases rule: dependents_loop_SomeD)
    case (fresh v' r')
    have r': "r' = rec" by (rule cons.IH(1) [OF fresh(1,2) cons.prems(2) fresh(1)])
    have "\<forall>m. rec m \<longrightarrow> v' m" using dfs_visited [OF fresh(2)] cons.prems(2) by blast
    with cons.IH(2) [OF fresh(1,2)] fresh(3) r' show ?thesis by simp
  next
    case finished
    with cons.IH(3) cons.prems(2) show ?thesis by simp
  qed simp_all
qed

text \<open>A reported cycle exists: every node of the recursion stack reaches the node being visited.\<close>

lemma dfs_True:
  "hasCycleDFS d n vis rec = Some (True, v, r) \<Longrightarrow> \<forall>m. rec m \<longrightarrow> vis m \<Longrightarrow> \<not> vis n \<Longrightarrow>
     \<forall>m. rec m \<longrightarrow> (m, n) \<in> (dag_rel d)\<^sup>+ \<Longrightarrow> \<not> acyclic (dag_rel d)"
  and loop_True:
  "dependents_loop d xs vis rec = Some (True, v, r) \<Longrightarrow> \<forall>m. rec m \<longrightarrow> vis m \<Longrightarrow>
     \<forall>m x. rec m \<longrightarrow> x \<in> set xs \<longrightarrow> (m, x) \<in> (dag_rel d)\<^sup>+ \<Longrightarrow> \<not> acyclic (dag_rel d)"
proof (induction n vis rec and xs vis rec arbitrary: v r and v r rule: dfs_induct [where d = d])
  case (dfs n vis rec)
  from dfs.prems(1) show ?case
  proof (rule hasCycleDFS_SomeD)
    fix nd r'
    assume nd: "GetNode d n = Some nd"
      and l: "dependents_loop d (Node_Dependents nd) (vis(n := True)) (rec(n := True)) = Some (True, v, r')"
    have edge: "(n, x) \<in> dag_rel d" if "x \<in> set (Node_Dependents nd)" for x
      using that nd by (simp add: dag_rel_def dependents_of_def)
    have "(m, x) \<in> (dag_rel d)\<^sup>+" if "(rec(n := True)) m" "x \<in> set (Node_Dependents nd)" for m x
      using that edge [OF that(2)] dfs.prems(4) by (cases "m = n") (auto intro: trancl_into_trancl)
    then show ?thesis by (intro dfs.IH [OF nd l]) (use dfs.prems(2) in simp_all)
  qed
next
  case (nil vis rec)
  then show ?case by (simp add: dependents_loop.simps)
next
  case (cons x xs vis rec)
  from cons.prems(1) show ?case
  proof (cases rule: dependents_loop_SomeD)
    case (found v' r')
    from cons.IH(1) [OF found(1,2) cons.prems(2) found(1)] cons.prems(3) show ?thesis by simp
  next
    case (fresh v' r')
    have r': "r' = rec" by (rule dfs_stack [OF fresh(2) cons.prems(2) fresh(1)])
    have "\<forall>m. rec m \<longrightarrow> v' m" using dfs_visited [OF fresh(2)] cons.prems(2) by blast
    with cons.IH(2) [OF fresh(1,2)] fresh(3) r' cons.prems(3) show ?thesis by simp
  next
    case stacked
    with cons.prems(3) have "(x, x) \<in> (dag_rel d)\<^sup>+" by simp
    then show ?thesis by (auto simp: acyclic_def)
  next
    case finished
    from cons.IH(3) [OF finished cons.prems(2)] cons.prems(3) show ?thesis by simp
  qed
qed

text \<open>
  A negative answer is right too: the finished nodes (visited, off the stack) are closed under the
  edges and lie on no cycle.
\<close>

definition finished_ok :: "DAG \<Rightarrow> (string \<Rightarrow> bool) \<Rightarrow> (string \<Rightarrow> bool) \<Rightarrow> bool" where
  "finished_ok d vis rec \<longleftrightarrow>
     (\<forall>x. vis x \<and> \<not> rec x \<longrightarrow>
        (\<forall>y. (x, y) \<in> dag_rel d \<longrightarrow> vis y \<and> \<not> rec y) \<and> (x, x) \<notin> (dag_rel d)\<^sup>+)"

lemma finished_okD:
  assumes "finished_ok d vis rec" "vis x" "\<not> rec x"
  shows "(x, y) \<in> dag_rel d \<Longrightarrow> vis y \<and> \<not> rec y" and "(x, x) \<notin> (dag_rel d)\<^sup>+"
  using assms unfolding finished_ok_def by blast+

lemma finished_closed:
  assumes "finished_ok d vis rec" "vis x" "\<not> rec x" "(x, y) \<in> (dag_rel d)\<^sup>*"
  shows "vis y \<and> \<not> rec y"
  using assms(4)
proof (induction rule: rtrancl_induct)
  case base
  show ?case using assms(2,3) by blast
next
  case (step y z)
  then show ?case using finished_okD(1) [OF assms(1)] by blast
qed

lemma finished_ok_finish:
  assumes ok: "finished_ok d v (rec(n := True))" and "v n"
    and deps: "\<And>x. (n, x) \<in> dag_rel d \<Longrightarrow> v x \<and> \<not> (rec(n := True)) x"
  shows "finished_ok d v (rec(n := False))"
  unfolding finished_ok_def
proof (intro allI impI)
  fix x
  assume x: "v x \<and> \<not> (rec(n := False)) x"
  have "(n, n) \<notin> (dag_rel d)\<^sup>+"
  proof
    assume "(n, n) \<in> (dag_rel d)\<^sup>+"
    then obtain y where "(n, y) \<in> dag_rel d" "(y, n) \<in> (dag_rel d)\<^sup>*"
      by (meson tranclD)
    with deps [of y] finished_closed [OF ok, of y n] show False by simp
  qed
  moreover have "(x, x) \<notin> (dag_rel d)\<^sup>+" if "x \<noteq> n"
    by (rule finished_okD(2) [OF ok]) (use that x in simp_all)
  moreover have "v y \<and> \<not> (rec(n := True)) y" if "(x, y) \<in> dag_rel d" for y
  proof (cases "x = n")
    case True
    with deps that show ?thesis by blast
  next
    case False
    show ?thesis by (rule finished_okD(1) [OF ok _ _ that]) (use False x in simp_all)
  qed
  then have "v y \<and> \<not> (rec(n := False)) y" if "(x, y) \<in> dag_rel d" for y
    using that by (metis fun_upd_apply)
  ultimately show "(\<forall>y. (x, y) \<in> dag_rel d \<longrightarrow> v y \<and> \<not> (rec(n := False)) y) \<and> (x, x) \<notin> (dag_rel d)\<^sup>+"
    by blast
qed

lemma finished_ok_enter:
  assumes "finished_ok d vis rec" "\<not> vis n"
  shows "finished_ok d (vis(n := True)) (rec(n := True))"
  unfolding finished_ok_def
proof (intro allI impI)
  fix x
  assume "(vis(n := True)) x \<and> \<not> (rec(n := True)) x"
  then have x: "x \<noteq> n" "vis x" "\<not> rec x" by (simp_all split: if_splits)
  have "(vis(n := True)) y \<and> \<not> (rec(n := True)) y" if "(x, y) \<in> dag_rel d" for y
    using finished_okD(1) [OF assms(1) x(2,3) that] assms(2) by auto
  with finished_okD(2) [OF assms(1) x(2,3)]
  show "(\<forall>y. (x, y) \<in> dag_rel d \<longrightarrow> (vis(n := True)) y \<and> \<not> (rec(n := True)) y) \<and>
      (x, x) \<notin> (dag_rel d)\<^sup>+" by blast
qed

lemma dfs_False:
  "hasCycleDFS d n vis rec = Some (False, v, r) \<Longrightarrow> \<forall>m. rec m \<longrightarrow> vis m \<Longrightarrow> \<not> vis n \<Longrightarrow>
     finished_ok d vis rec \<Longrightarrow> finished_ok d v r \<and> v n \<and> \<not> r n"
  and loop_False:
  "dependents_loop d xs vis rec = Some (False, v, r) \<Longrightarrow> \<forall>m. rec m \<longrightarrow> vis m \<Longrightarrow>
     finished_ok d vis rec \<Longrightarrow> finished_ok d v r \<and> (\<forall>x\<in>set xs. v x \<and> \<not> r x)"
proof (induction n vis rec and xs vis rec arbitrary: v r and v r rule: dfs_induct [where d = d])
  case (dfs n vis rec)
  from dfs.prems(1) show ?case
  proof (rule hasCycleDFS_SomeD)
    fix nd r'
    assume nd: "GetNode d n = Some nd"
      and l: "dependents_loop d (Node_Dependents nd) (vis(n := True)) (rec(n := True)) = Some (False, v, r')"
      and r: "\<not> False \<Longrightarrow> r = r'(n := False)"
    have sub: "\<forall>m. (rec(n := True)) m \<longrightarrow> (vis(n := True)) m" using dfs.prems(2) by simp
    have r': "r' = rec(n := True)" by (rule loop_stack [OF l sub])
    note ok = dfs.IH [OF nd l sub finished_ok_enter [OF dfs.prems(4,3)], unfolded r']
    have "v n" using loop_visited [OF l, of n] by simp
    moreover have "finished_ok d v (rec(n := False))"
      by (rule finished_ok_finish [OF conjunct1 [OF ok] \<open>v n\<close>])
        (use conjunct2 [OF ok] nd in \<open>auto simp: dag_rel_def dependents_of_def\<close>)
    moreover have "r = rec(n := False)" using r by (simp add: r')
    ultimately show ?thesis by (metis fun_upd_same)
  qed
next
  case (nil vis rec)
  then show ?case by (simp add: dependents_loop.simps)
next
  case (cons x xs vis rec)
  from cons.prems(1) show ?case
  proof (cases rule: dependents_loop_SomeD)
    case (fresh v' r')
    have r': "r' = rec" by (rule dfs_stack [OF fresh(2) cons.prems(2) fresh(1)])
    have sub: "\<forall>m. rec m \<longrightarrow> v' m" using dfs_visited [OF fresh(2)] cons.prems(2) by blast
    note ok = cons.IH(1) [OF fresh(1,2) cons.prems(2) fresh(1) cons.prems(3), unfolded r']
    note rest = fresh(3) [unfolded r']
    have "r = rec" by (rule loop_stack [OF rest sub])
    moreover have "v x" by (rule loop_visited [OF rest]) (use ok in simp)
    ultimately show ?thesis
      using cons.IH(2) [OF fresh(1,2), unfolded r', OF rest sub] ok by simp
  next
    case finished
    have "r = rec" by (rule loop_stack [OF finished(3) cons.prems(2)])
    moreover have "v x" by (rule loop_visited [OF finished(3,1)])
    ultimately show ?thesis using cons.IH(3) [OF finished cons.prems(2,3)] finished(2) by simp
  qed simp_all
qed

text \<open>The outer loop of \<^verbatim>\<open>HasCycle\<close>, and its answer for every order of the node map.\<close>

lemma nodes_loop_correct:
  assumes wf: "dag_wf d"
  shows "set ks \<subseteq> dag_keys d \<Longrightarrow> finished_ok d vis (\<lambda>_. False) \<Longrightarrow>
    \<exists>b. nodes_loop d ks vis (\<lambda>_. False) = Some b \<and> (b \<longrightarrow> \<not> acyclic (dag_rel d)) \<and>
       (\<not> b \<longrightarrow> (\<exists>v. finished_ok d v (\<lambda>_. False) \<and> (\<forall>n. vis n \<or> n \<in> set ks \<longrightarrow> v n)))"
proof (induction ks arbitrary: vis)
  case (Cons k ks)
  show ?case
  proof (cases "vis k")
    case True
    with Cons.IH [of vis] Cons.prems show ?thesis by (simp, metis)
  next
    case False
    from dfs_no_panic(1) [OF wf, of k vis "\<lambda>_. False"] Cons.prems(1)
    obtain b v r where h: "hasCycleDFS d k vis (\<lambda>_. False) = Some (b, v, r)" by auto
    show ?thesis
    proof (cases b)
      case True
      with h dfs_True [of d k vis "\<lambda>_. False" v r] False show ?thesis
        by (intro exI [of _ True]) simp
    next
      case b: False
      note h = h [unfolded b [THEN Eq_FalseI]]
      have r: "r = (\<lambda>_. False)" using dfs_stack [OF h _ False] by blast
      have ok: "finished_ok d v (\<lambda>_. False) \<and> v k"
        using dfs_False [OF h _ False Cons.prems(2)] r by blast
      have "nodes_loop d (k # ks) vis (\<lambda>_. False) = nodes_loop d ks v (\<lambda>_. False)"
        using False h r by simp
      with Cons.IH [of v] Cons.prems(1) ok dfs_visited [OF h] show ?thesis
        by (simp, metis)
    qed
  qed
qed auto

lemma HasCycle_acyclic:
  assumes wf: "dag_wf d" and keys: "set ks = dag_keys d"
  shows "HasCycle ks d = Some (\<not> acyclic (dag_rel d))"
proof -
  have "finished_ok d (\<lambda>_. False) (\<lambda>_. False)" by (simp add: finished_ok_def)
  from nodes_loop_correct [OF wf _ this, of ks] keys obtain b where
    b: "HasCycle ks d = Some b" "b \<Longrightarrow> \<not> acyclic (dag_rel d)"
    "\<not> b \<Longrightarrow> \<exists>v. finished_ok d v (\<lambda>_. False) \<and> (\<forall>n\<in>dag_keys d. v n)"
    unfolding HasCycle_def by blast
  have "acyclic (dag_rel d)" if "\<not> b"
    unfolding acyclic_def
  proof (intro allI notI)
    fix x
    assume x: "(x, x) \<in> (dag_rel d)\<^sup>+"
    then obtain y where "(x, y) \<in> dag_rel d" by (meson tranclD)
    then have "x \<in> dag_keys d"
      by (auto simp: dag_rel_def dependents_of_def dag_keys_def split: option.splits)
    with b(3) [OF that] x show False using finished_okD(2) by blast
  qed
  with b show ?thesis by auto
qed

subsection \<open>Construction\<close>

text \<open>The graph the steps declare: an edge from a dependency to each step that names it.\<close>

definition declared_rel :: "Step list \<Rightarrow> (string \<times> string) set" where
  "declared_rel steps = {(dep, Step_Name s) |dep s. s \<in> set steps \<and> dep \<in> set (Step_DependsOn s)}"

definition missing_dep :: "Step list \<Rightarrow> bool" where
  "missing_dep steps \<longleftrightarrow> (\<exists>s\<in>set steps. \<exists>dep\<in>set (Step_DependsOn s). dep \<notin> Step_Name ` set steps)"

lemma fold_AddNode:
  "dag_keys (fold AddNode steps d) = Step_Name ` set steps \<union> dag_keys d"
  "dependents_of (fold AddNode steps d) n = dependents_of d n"
  "dag_wf d \<Longrightarrow> dag_wf (fold AddNode steps d)"
  by (induction steps arbitrary: d) auto

lemma dag_rel_iff [simp]: "(a, b) \<in> dag_rel d \<longleftrightarrow> b \<in> dependents_of d a"
  by (simp add: dag_rel_def)

lemma AddEdge_rel:
  "a \<in> dag_keys d \<Longrightarrow> b \<in> dag_keys d \<Longrightarrow> dag_rel (AddEdge a b d) = insert (a, b) (dag_rel d)"
  by (auto simp: AddEdge_dependents(1) split: if_splits)

lemma add_step_deps_spec:
  assumes "name \<in> dag_keys d" "dag_wf d"
  shows "case add_step_deps name deps d of
      Inl e \<Rightarrow> \<exists>dep\<in>set deps. dep \<notin> dag_keys d \<and> e = missing_dep_error name dep
    | Inr d' \<Rightarrow> set deps \<subseteq> dag_keys d \<and> dag_wf d' \<and> dag_keys d' = dag_keys d \<and>
        dag_rel d' = dag_rel d \<union> (\<lambda>dep. (dep, name)) ` set deps"
  using assms
proof (induction deps arbitrary: d)
  case (Cons dep deps)
  show ?case
  proof (cases "dep \<in> dag_keys d")
    case True
    then have "add_step_deps name (dep # deps) d = add_step_deps name deps (AddEdge dep name d)"
      by (auto simp: dag_keys_def)
    with True Cons.IH [of "AddEdge dep name d"] Cons.prems show ?thesis
      by (simp add: AddEdge_rel split: sum.splits)
  next
    case False
    then show ?thesis by (simp add: dag_keys_def)
  qed
qed simp

lemma add_all_deps_spec:
  assumes "Step_Name ` set steps \<subseteq> dag_keys d" "dag_wf d"
  shows "case add_all_deps steps d of
      Inl e \<Rightarrow> \<exists>s\<in>set steps. \<exists>dep\<in>set (Step_DependsOn s). dep \<notin> dag_keys d \<and>
        e = missing_dep_error (Step_Name s) dep
    | Inr d' \<Rightarrow> (\<forall>s\<in>set steps. set (Step_DependsOn s) \<subseteq> dag_keys d) \<and> dag_wf d' \<and>
        dag_keys d' = dag_keys d \<and> dag_rel d' = dag_rel d \<union> declared_rel steps"
  using assms
proof (induction steps arbitrary: d)
  case Nil
  then show ?case by (simp add: declared_rel_def)
next
  case (Cons s steps)
  have s: "Step_Name s \<in> dag_keys d" using Cons.prems by simp
  show ?case
  proof (cases "add_step_deps (Step_Name s) (Step_DependsOn s) d")
    case (Inl e)
    with add_step_deps_spec [OF s Cons.prems(2), of "Step_DependsOn s"] show ?thesis by simp
  next
    case (Inr d')
    with add_step_deps_spec [OF s Cons.prems(2), of "Step_DependsOn s"]
    have d': "set (Step_DependsOn s) \<subseteq> dag_keys d" "dag_wf d'" "dag_keys d' = dag_keys d"
      "dag_rel d' = dag_rel d \<union> (\<lambda>dep. (dep, Step_Name s)) ` set (Step_DependsOn s)" by simp_all
    have "declared_rel (s # steps) =
        (\<lambda>dep. (dep, Step_Name s)) ` set (Step_DependsOn s) \<union> declared_rel steps"
      by (auto simp: declared_rel_def)
    with Cons.IH [of d'] Cons.prems d' Inr show ?thesis
      by (simp add: Un_assoc split: sum.splits)
  qed
qed

text \<open>The graph before the cycle check, with its properties.\<close>

lemma build_edges:
  obtains (missing) s dep where "s \<in> set steps" "dep \<in> set (Step_DependsOn s)"
    "dep \<notin> Step_Name ` set steps"
    "add_all_deps steps (fold AddNode steps NewDAG) =
       Inl (missing_dep_error (Step_Name s) dep)"
  | (built) d where "\<not> missing_dep steps" "add_all_deps steps (fold AddNode steps NewDAG) = Inr d"
    "dag_wf d" "dag_keys d = Step_Name ` set steps" "dag_rel d = declared_rel steps"
proof -
  have keys: "dag_keys (fold AddNode steps NewDAG) = Step_Name ` set steps"
    by (simp add: fold_AddNode(1)) (simp add: dag_keys_def)
  have rel: "dag_rel (fold AddNode steps NewDAG) = {}"
    by (simp add: dag_rel_def fold_AddNode(2)) (simp add: dependents_of_def)
  note spec = add_all_deps_spec [of steps "fold AddNode steps NewDAG"]
  show ?thesis
  proof (cases "add_all_deps steps (fold AddNode steps NewDAG)")
    case (Inl e)
    with spec keys fold_AddNode(3) missing show ?thesis by auto
  next
    case (Inr d)
    have "dag_wf (fold AddNode steps NewDAG)" by (rule fold_AddNode(3)) simp
    with spec keys rel Inr have d: "\<forall>s\<in>set steps. set (Step_DependsOn s) \<subseteq> Step_Name ` set steps"
      "dag_wf d" "dag_keys d = Step_Name ` set steps" "dag_rel d = declared_rel steps" by simp_all
    show ?thesis by (rule built [OF _ Inr d(2-4)]) (use d(1) in \<open>auto simp: missing_dep_def\<close>)
  qed
qed

lemma BuildDAG_InrD:
  assumes ks: "set ks = Step_Name ` set steps" and d: "BuildDAG ks steps = Some (Inr d)"
  shows "dag_wf d" "dag_keys d = Step_Name ` set steps" "dag_rel d = declared_rel steps"
    "acyclic (dag_rel d)" "\<not> missing_dep steps"
proof -
  show wf: "dag_wf d" and keys: "dag_keys d = Step_Name ` set steps"
    and "dag_rel d = declared_rel steps"
    "\<not> missing_dep steps"
    using d by (cases rule: build_edges [of steps]; auto simp: BuildDAG_def split: if_splits)+
  have "HasCycle ks d = Some False"
    using d by (cases rule: build_edges [of steps]; auto simp: BuildDAG_def split: if_splits)
  moreover have "HasCycle ks d = Some (\<not> acyclic (dag_rel d))"
    by (rule HasCycle_acyclic [OF wf]) (simp add: ks keys)
  ultimately show "acyclic (dag_rel d)" by simp
qed

lemma BuildDAG_total:
  assumes "distinct ks" "set ks = Step_Name ` set steps"
  shows "\<exists>b. BuildDAG ks steps = Some b"
proof (cases rule: build_edges [of steps])
  case (built d)
  with HasCycle_acyclic [OF built(3), of ks] assms(2) show ?thesis by (simp add: BuildDAG_def)
qed (simp add: BuildDAG_def)

lemma dependencies_declared:
  assumes "dag_wf d" "dag_rel d = declared_rel steps"
  shows "dependencies_of d n = (\<Union>s \<in> {s \<in> set steps. Step_Name s = n}. set (Step_DependsOn s))"
proof -
  have "a \<in> dependencies_of d n \<longleftrightarrow> (a, n) \<in> declared_rel steps" for a
    using assms by (simp add: dag_wf_def flip: assms(2))
  then show ?thesis by (auto simp: declared_rel_def)
qed

text \<open>Progress: in an acyclic graph with an unfinished node, some unfinished node has only finished
  dependencies.\<close>

lemma acyclic_progress:
  assumes "acyclic r" "finite r" "x \<in> S"
  shows "\<exists>m\<in>S. \<forall>y. (y, m) \<in> r \<longrightarrow> y \<notin> S"
  using finite_acyclic_wf [OF assms(2,1)] assms(3) by (meson wf_eq_minimal)

lemma declared_rel_finite [simp]: "finite (declared_rel steps)"
proof -
  have "declared_rel steps = (\<Union>s\<in>set steps. (\<lambda>dep. (dep, Step_Name s)) ` set (Step_DependsOn s))"
    by (auto simp: declared_rel_def)
  then show ?thesis by simp
qed

lemma step_ready_iff:
  "step_ready d completed n \<longleftrightarrow>
     n \<in> dag_keys d \<and> \<not> completed n \<and> (\<forall>a\<in>dependencies_of d n. completed a)"
  by (auto simp: step_ready_def dag_keys_def dependencies_of_def list_all_iff split: option.splits)

subsection \<open>The interface of the graph\<close>

text \<open>
  What the executor needs to know of a graph: which steps it reports as ready. That a run can always
  go on follows.
\<close>

locale ready_graph =
  fixes built :: "Step list \<Rightarrow> 'g \<Rightarrow> bool"
    and ready :: "'g \<Rightarrow> (string \<Rightarrow> bool) \<Rightarrow> string list"
  assumes ready_iff: "built steps g \<Longrightarrow> n \<in> set (ready g completed) \<longleftrightarrow>
      n \<in> Step_Name ` set steps \<and> \<not> completed n \<and>
      (\<forall>s\<in>set steps. Step_Name s = n \<longrightarrow> (\<forall>dep\<in>set (Step_DependsOn s). completed dep))"
    and ready_distinct: "built steps g \<Longrightarrow> distinct (ready g completed)"
    and built_acyclic: "built steps g \<Longrightarrow> acyclic (declared_rel steps)"
    and built_closed: "built steps g \<Longrightarrow> \<not> missing_dep steps"
begin

lemma progress:
  assumes "built steps g" "s \<in> set steps" "\<not> completed (Step_Name s)"
  shows "ready g completed \<noteq> []"
proof -
  let ?S = "{n \<in> Step_Name ` set steps. \<not> completed n}"
  from assms(2,3) have "Step_Name s \<in> ?S" by simp
  with acyclic_progress [of "declared_rel steps" "Step_Name s" ?S] built_acyclic [OF assms(1)]
  obtain m where m: "m \<in> ?S" "\<And>y. (y, m) \<in> declared_rel steps \<Longrightarrow> y \<notin> ?S" by auto
  have "completed dep" if "s' \<in> set steps" "Step_Name s' = m" "dep \<in> set (Step_DependsOn s')" for s' dep
  proof -
    from that have "(dep, m) \<in> declared_rel steps" by (auto simp: declared_rel_def)
    moreover from that built_closed [OF assms(1)] have "dep \<in> Step_Name ` set steps" by (auto simp: missing_dep_def)
    ultimately show ?thesis using m(2) [of dep] by blast
  qed
  with m(1) ready_iff [OF assms(1), of m completed] show ?thesis by fastforce
qed

lemma nothing_ready_iff:
  "built steps g \<Longrightarrow> ready g completed = [] \<longleftrightarrow> (\<forall>s\<in>set steps. completed (Step_Name s))"
  using progress [of steps g _ completed] ready_iff [of steps g "hd (ready g completed)" completed]
  by (metis (no_types, lifting) image_iff list.set_sel(1))

end

definition built_dag :: "Step list \<Rightarrow> string list \<times> DAG \<Rightarrow> bool" where
  "built_dag steps g \<longleftrightarrow> distinct (fst g) \<and> set (fst g) = Step_Name ` set steps \<and>
     (\<exists>ks. set ks = Step_Name ` set steps \<and> BuildDAG ks steps = Some (Inr (snd g)))"

interpretation graph: ready_graph built_dag "\<lambda>g. GetReadySteps (fst g) (snd g)"
proof
  fix steps g n completed
  assume b: "built_dag steps g"
  then obtain ks where ks: "set ks = Step_Name ` set steps" "BuildDAG ks steps = Some (Inr (snd g))"
    by (auto simp: built_dag_def)
  note d = BuildDAG_InrD [OF ks]
  show "n \<in> set (GetReadySteps (fst g) (snd g) completed) \<longleftrightarrow> n \<in> Step_Name ` set steps \<and> \<not> completed n \<and>
      (\<forall>s\<in>set steps. Step_Name s = n \<longrightarrow> (\<forall>dep\<in>set (Step_DependsOn s). completed dep))"
    using b d(2) by (auto simp: built_dag_def GetReadySteps_def step_ready_iff dependencies_declared [OF d(1,3)])
  show "distinct (GetReadySteps (fst g) (snd g) completed)"
    using b by (simp add: built_dag_def GetReadySteps_def)
  show "acyclic (declared_rel steps)" "\<not> missing_dep steps" using d(3-5) by simp_all
qed

subsection \<open>Properties\<close>

text \<open>
  C5: \<^verbatim>\<open>BuildDAG\<close> returns for every list of steps and every order in which the runtime ranges over
  the node map: it never panics and always terminates. It refuses a step that depends on a name that
  is no step, and otherwise refuses exactly the workflows whose declared dependencies are cyclic.
  When it succeeds the graph is well formed, its nodes are the step names, and the dependencies of a
  node are those its steps declare.
\<close>

theorem BuildDAG_correct:
  assumes "distinct ks" "set ks = Step_Name ` set steps"
  shows "\<exists>r. BuildDAG ks steps = Some r \<and>
    (case r of
       Inl e \<Rightarrow> (\<exists>s\<in>set steps. \<exists>dep\<in>set (Step_DependsOn s). dep \<notin> Step_Name ` set steps \<and>
                  e = errorf (''step '' @ Step_Name s @ '' depends on non-existent step '' @ dep))
               \<or> (\<not> missing_dep steps \<and> \<not> acyclic (declared_rel steps) \<and>
                  e = errorf ''workflow contains circular dependencies'')
     | Inr d \<Rightarrow> \<not> missing_dep steps \<and> acyclic (declared_rel steps) \<and> dag_wf d \<and>
                dag_keys d = Step_Name ` set steps \<and>
                (\<forall>n. dependencies_of d n =
                       (\<Union>s \<in> {s \<in> set steps. Step_Name s = n}. set (Step_DependsOn s))))"
proof (cases rule: build_edges [of steps])
  case (missing s dep)
  then show ?thesis unfolding missing_dep_error_def [symmetric]
    by (intro exI [of _ "Inl (missing_dep_error (Step_Name s) dep)"]) (auto simp: BuildDAG_def)
next
  case (built d)
  from HasCycle_acyclic [OF built(3), of ks] assms(2) built(4) have "HasCycle ks d = Some (\<not> acyclic (declared_rel steps))"
    by (simp add: built(5))
  with built dependencies_declared [OF built(3,5)] show ?thesis
    by (cases "acyclic (declared_rel steps)") (simp_all add: BuildDAG_def)
qed

text \<open>
  C6: In a graph that \<^verbatim>\<open>BuildDAG\<close> built, \<^verbatim>\<open>GetReadySteps\<close> returns, without duplicates, exactly the
  steps not yet completed all of whose declared dependencies are completed; and while some step is
  not completed there is such a step, so a run can always make progress.
\<close>

theorem GetReadySteps_progress:
  assumes ks: "distinct ks" "set ks = Step_Name ` set steps"
    and d: "BuildDAG ks' steps = Some (Inr d)" "set ks' = Step_Name ` set steps"
  shows "distinct (GetReadySteps ks d completed) \<and>
    (\<forall>n. n \<in> set (GetReadySteps ks d completed) \<longleftrightarrow>
       n \<in> Step_Name ` set steps \<and> \<not> completed n \<and>
       (\<forall>s\<in>set steps. Step_Name s = n \<longrightarrow> (\<forall>dep\<in>set (Step_DependsOn s). completed dep))) \<and>
    ((\<exists>s\<in>set steps. \<not> completed (Step_Name s)) \<longrightarrow> GetReadySteps ks d completed \<noteq> [])"
proof -
  have g: "built_dag steps (ks, d)" using ks d by (auto simp: built_dag_def)
  show ?thesis
    using graph.ready_distinct [OF g] graph.ready_iff [OF g] graph.progress [OF g] by auto
qed

definition step_a :: Step where
  "step_a = zero_Step\<lparr>Step_Name := ''a''\<rparr>"

definition step_b :: Step where
  "step_b = zero_Step\<lparr>Step_Name := ''b'', Step_DependsOn := [''a'']\<rparr>"

lemma step_ab_names [simp]:
  "Step_Name step_a = ''a''" "Step_Name step_b = ''b''"
  "Step_DependsOn step_a = []" "Step_DependsOn step_b = [''a'']"
  by (simp_all add: step_a_def step_b_def zero_Step_def)

lemma build_ab: "\<exists>d. BuildDAG [''b'', ''a''] [step_a, step_b] = Some (Inr d)"
proof -
  have "\<not> isl (the (BuildDAG [''b'', ''a''] [step_a, step_b]))"
    "BuildDAG [''b'', ''a''] [step_a, step_b] \<noteq> None" by code_simp+
  then show ?thesis by (metis isl_def not_Some_eq obj_sumE option.sel)
qed

theorem BuildDAG_correct_witness:
  "\<exists>d. BuildDAG [''b'', ''a''] [step_a, step_b] = Some (Inr d) \<and> dependencies_of d ''b'' = {''a''}"
proof -
  obtain d where d: "BuildDAG [''b'', ''a''] [step_a, step_b] = Some (Inr d)" using build_ab by blast
  have "dependencies_of d ''b'' = (\<Union>s \<in> {s \<in> set [step_a, step_b]. Step_Name s = ''b''}. set (Step_DependsOn s))"
    using BuildDAG_correct [of "[''b'', ''a'']" "[step_a, step_b]"] d by (auto simp: insert_commute)
  also have "{s \<in> set [step_a, step_b]. Step_Name s = ''b''} = {step_b}" by auto
  finally show ?thesis using d by simp
qed

theorem GetReadySteps_progress_witness:
  "\<exists>d. BuildDAG [''b'', ''a''] [step_a, step_b] = Some (Inr d) \<and>
     GetReadySteps [''a'', ''b''] d (\<lambda>n. n = ''a'') \<noteq> []"
proof -
  obtain d where d: "BuildDAG [''b'', ''a''] [step_a, step_b] = Some (Inr d)" using build_ab by blast
  with GetReadySteps_progress [of "[''a'', ''b'']" "[step_a, step_b]" "[''b'', ''a'']" d "\<lambda>n. n = ''a''"]
  show ?thesis by auto
qed

end
