(* ===== verification/Executor.thy ===== *)
theory Executor
  imports Step_Exec Dag
begin

text \<open>
  The run of a workflow (\<^verbatim>\<open>internal/workflow/executor/executor.go\<close>): restoring a checkpoint, the scheduling
  loop with its bookkeeping of step statuses, the outcome of the run and its outputs, the deferred
  clean-up with the audit snapshot.

  The run of the executor's context manager and the one that is passed are the same object. Spans,
  log lines and the outbound rate limiter leave no trace in the state and are left out. A panic and
  the exhaustion of the stack end the process: their errors are passed up as they are. The depth of
  nested sub-workflows is the first argument of \<open>ExecuteWorkflow\<close>; the source bounds it only by the
  stack.
\<close>

subsection \<open>Bookkeeping\<close>

definition isStepDone :: "Step \<Rightarrow> StepStatus \<Rightarrow> bool" where
  "isStepDone step status \<longleftrightarrow>
     StepStatus_Phase status = StepPhaseSucceeded \<or> StepStatus_Phase status = StepPhaseSkipped \<or>
     (StepStatus_Phase status = StepPhaseFailed \<and> Step_FailurePolicy step = FailurePolicyContinue)"

definition findStepByName :: "Step list \<Rightarrow> string \<Rightarrow> Step option" where
  "findStepByName steps name = find (\<lambda>s. Step_Name s = name) steps"

definition on_run :: "(WorkflowRun \<Rightarrow> WorkflowRun) \<Rightarrow> 'w xstate \<Rightarrow> 'w xstate" where
  "on_run f xs = xs\<lparr>xs_run := f (xs_run xs)\<rparr>"

definition on_world :: "(WorkflowRun \<Rightarrow> 'w \<Rightarrow> 'w) \<Rightarrow> 'w xstate \<Rightarrow> 'w xstate" where
  "on_world f xs = xs\<lparr>xs_world := f (xs_run xs) (xs_world xs)\<rparr>"

definition set_step :: "string \<Rightarrow> (StepStatus \<Rightarrow> StepStatus) \<Rightarrow> 'w xstate \<Rightarrow> 'w xstate" where
  "set_step name f = on_run (\<lambda>r. set_status name (f (get_status r name)) r)"

definition recordWorkflowFailure :: "'w env \<Rightarrow> Workflow \<Rightarrow> string \<Rightarrow> 'w xstate \<Rightarrow> 'w xstate" where
  "recordWorkflowFailure env workflow message xs =
     on_world (\<lambda>r. emitWorkflowLevelEvent env workflow r ''WorkflowFailed'' ''Warning'' message)
       (on_run (upd_status (\<lambda>s. s\<lparr>Status_Phase := WorkflowRunPhaseFailed, Status_Message := message\<rparr>)) xs)"

definition set_completion :: "'w env \<Rightarrow> 'w xstate \<Rightarrow> 'w xstate" where
  "set_completion env xs =
     (case env_now env (xs_world xs) of (now, w) \<Rightarrow>
        on_run (upd_status (\<lambda>s. s\<lparr>Status_CompletionTime := Some now\<rparr>)) (xs\<lparr>xs_world := w\<rparr>))"

definition failBeforeSteps :: "'w env \<Rightarrow> Workflow \<Rightarrow> goerror \<Rightarrow> 'w xstate \<Rightarrow> goerror option \<times> 'w xstate" where
  "failBeforeSteps env workflow e xs =
     (Some e, set_completion env (recordWorkflowFailure env workflow (err_msg e) xs))"

definition saveCheckpoint :: "'w env \<Rightarrow> CheckpointManager option \<Rightarrow> string \<Rightarrow> 'w xstate \<Rightarrow> 'w xstate" where
  "saveCheckpoint env cpm stepName xs =
     (case cpm of
        None \<Rightarrow> xs
      | Some m \<Rightarrow> xs\<lparr>xs_world := SaveAsync (env_client env) (env_retry env) m
           \<lparr>Snapshot_Version = 1, Snapshot_WorkflowRunUID = WorkflowRun_UID (xs_run xs),
            Snapshot_LastCompletedStep = stepName, Snapshot_StepStatuses = statuses (xs_run xs),
            Snapshot_Context = GetContext (xs_cm xs), Snapshot_CompletionOrder = CompletionOrder (xs_cm xs)\<rparr>
           (xs_world xs)\<rparr>)"

subsection \<open>Outputs of the workflow\<close>

definition redacted_json :: raw_json where
  "redacted_json = RawDoc (VMap [(''_ottoflow_redacted'', VBool True), (''reason'', VString ''sensitive'')])"

text \<open>The value of an output, or \<open>None\<close> where the source prints a warning and goes on.\<close>

definition workflow_output :: "'w env \<Rightarrow> Output \<Rightarrow> gomap \<Rightarrow> 'w \<Rightarrow> val option \<times> 'w" where
  "workflow_output env d vars w =
     (case Output_Value d of
        Some raw \<Rightarrow>
          (case unmarshal raw of
             None \<Rightarrow> (None, w)
           | Some v \<Rightarrow> (case EvaluateOutputValue (env_eval env) vars v w of
                         (Inl _, w') \<Rightarrow> (None, w') | (Inr r, w') \<Rightarrow> (Some r, w')))
      | None \<Rightarrow>
          if Output_Expression d \<noteq> [] then
            (case env_eval env (Output_Expression d) vars w of (Inl _, w') \<Rightarrow> (None, w') | (Inr r, w') \<Rightarrow> (Some r, w'))
          else (None, w))"

definition output_json :: "Output \<Rightarrow> val \<Rightarrow> raw_json option" where
  "output_json d r = (if Output_Sensitive d then Some redacted_json else marshal r)"

text \<open>\<open>base\<close> is \<^verbatim>\<open>evalContext\<close> without its "outputs", which is the live \<^verbatim>\<open>outputsMap\<close>.\<close>

fun eval_workflow_outputs ::
  "'w env \<Rightarrow> string \<Rightarrow> string \<Rightarrow> gomap \<Rightarrow> Output list \<Rightarrow> gomap \<Rightarrow> (string \<times> raw_json) list \<Rightarrow> 'w
     \<Rightarrow> gomap \<times> (string \<times> raw_json) list \<times> 'w" where
  "eval_workflow_outputs env name ns base [] outputsMap outputs w = (outputsMap, outputs, w)"
| "eval_workflow_outputs env name ns base (d # ds) outputsMap outputs w =
     (case workflow_output env d (BuildVariableMap (AList.update ''outputs'' (VMap outputsMap) base)) w of
        (None, w') \<Rightarrow> eval_workflow_outputs env name ns base ds outputsMap outputs w'
      | (Some r, w') \<Rightarrow>
          (let outputsMap' = AList.update (Output_Name d) r outputsMap in
           case output_json d r of
             None \<Rightarrow> eval_workflow_outputs env name ns base ds outputsMap' outputs w'
           | Some raw \<Rightarrow>
               (let w'' = (if Output_Metric d = None then w'
                           else env_metric env r d name ns
                                  (BuildVariableMap (AList.update ''outputs'' (VMap outputsMap') base)) w')
                in eval_workflow_outputs env name ns base ds outputsMap' (AList.update (Output_Name d) raw outputs) w'')))"

definition evaluateWorkflowOutputs :: "'w env \<Rightarrow> Workflow \<Rightarrow> 'w xstate \<Rightarrow> goerror option \<times> 'w xstate" where
  "evaluateWorkflowOutputs env workflow xs =
     (let defs = WorkflowSpec_Outputs (Workflow_Spec workflow); run = xs_run xs in
      if defs = [] then (None, xs)
      else (case GetContext (xs_cm xs) of
              None \<Rightarrow> (Some (errorf ''context not available''), xs)
            | Some ctx \<Rightarrow>
                (let base = AList.update ''stepStatus'' (VMap (stepStatusProjection (Some (statuses run)))) ctx in
                 case eval_workflow_outputs env (WorkflowRef_Name (WorkflowRunSpec_WorkflowRef (WorkflowRun_Spec run)))
                        (WorkflowRun_Namespace run) base defs [] [] (xs_world xs) of
                   (outputsMap, outputs, w) \<Rightarrow>
                     (None, xs\<lparr>xs_run := (if outputs = [] then run
                                         else upd_status (\<lambda>s. s\<lparr>Status_Outputs := outputs\<rparr>) run),
                              xs_cm := (xs_cm xs)\<lparr>cm_inMemoryContext := Some (AList.update ''outputs'' (VMap outputsMap) ctx)\<rparr>,
                              xs_world := w\<rparr>))))"

definition recordWorkflowSuccess :: "'w env \<Rightarrow> Workflow \<Rightarrow> 'w xstate \<Rightarrow> 'w xstate" where
  "recordWorkflowSuccess env workflow xs =
     (let xs1 = set_completion env (on_run (upd_status (\<lambda>s. s\<lparr>Status_Phase := WorkflowRunPhaseSucceeded\<rparr>)) xs);
          xs2 = on_world (\<lambda>r. emitWorkflowLevelEvent env workflow r ''WorkflowSucceeded'' ''Normal''
                                ''Workflow run completed successfully'') xs1;
          xs3 = snd (evaluateWorkflowOutputs env workflow xs2)
      in on_world (\<lambda>r. invokeProgressCallback env r workflow) xs3)"

subsection \<open>One ready step\<close>

definition fatal :: "goerror \<Rightarrow> bool" where
  "fatal e \<longleftrightarrow> errors_is e GoPanic \<or> errors_is e GoStackOverflow"

definition notify :: "('w env \<Rightarrow> Workflow \<Rightarrow> WorkflowRun \<Rightarrow> string \<Rightarrow> 'w \<Rightarrow> 'w) \<Rightarrow> 'w env \<Rightarrow> Workflow \<Rightarrow> string \<Rightarrow> 'w xstate \<Rightarrow> 'w xstate" where
  "notify emit env workflow message xs =
     on_world (\<lambda>r w. invokeProgressCallback env r workflow (emit env workflow r message w)) xs"

definition condition_failed :: "'w env \<Rightarrow> Workflow \<Rightarrow> Step \<Rightarrow> goerror \<Rightarrow> 'w xstate \<Rightarrow> goerror option \<times> 'w xstate" where
  "condition_failed env workflow step e xs =
     (let name = Step_Name step;
          xs1 = notify emitStepEventWarning env workflow (''Step '' @ quote name @ '' failed: '' @ err_msg e)
                  (set_step name (\<lambda>s. s\<lparr>StepStatus_Phase := StepPhaseFailed,
                     StepStatus_Error := ''matchCondition evaluation failed: '' @ err_msg e\<rparr>) xs)
      in if Step_FailurePolicy step = FailurePolicyContinue then (None, xs1)
         else (Some (wrapf (''matchCondition evaluation failed for step '' @ name @ '': '') e),
               recordWorkflowFailure env workflow (''Step '' @ name @ '' failed: '' @ err_msg e) xs1))"

definition step_skipped :: "'w env \<Rightarrow> CheckpointManager option \<Rightarrow> Workflow \<Rightarrow> Step \<Rightarrow> 'w xstate \<Rightarrow> 'w xstate" where
  "step_skipped env cpm workflow step xs =
     saveCheckpoint env cpm (Step_Name step)
       (notify emitStepEvent env workflow (''Step '' @ quote (Step_Name step) @ '' skipped (conditions not met)'')
         (set_step (Step_Name step) (\<lambda>s. s\<lparr>StepStatus_Phase := StepPhaseSkipped\<rparr>) xs))"

definition step_started :: "'w env \<Rightarrow> Workflow \<Rightarrow> Step \<Rightarrow> 'w xstate \<Rightarrow> 'w xstate" where
  "step_started env workflow step xs =
     (case env_now env (xs_world xs) of (now, w) \<Rightarrow>
        notify emitStepEvent env workflow (''Step '' @ quote (Step_Name step) @ '' started'')
          (set_step (Step_Name step) (\<lambda>s. s\<lparr>StepStatus_Phase := StepPhaseRunning, StepStatus_StartTime := Some now\<rparr>)
            (xs\<lparr>xs_world := w\<rparr>)))"

definition waiting_message :: "'w env \<Rightarrow> Step \<Rightarrow> WorkflowRun \<Rightarrow> StepStatus \<Rightarrow> string" where
  "waiting_message env step run s =
     (case Step_WaitForCallback step of
        Some wfc \<Rightarrow>
          if WaitForCallbackStep_Message wfc \<noteq> [] then WaitForCallbackStep_Message wfc
          else (case pending run of Some cb \<Rightarrow> ''Awaiting callback, expires at '' @ env_rfc3339 env (CallbackState_ExpiresAt cb)
                | None \<Rightarrow> StepStatus_Message s)
      | None \<Rightarrow>
          (case pending run of Some cb \<Rightarrow> ''Awaiting callback, expires at '' @ env_rfc3339 env (CallbackState_ExpiresAt cb)
           | None \<Rightarrow> StepStatus_Message s))"

definition step_waiting :: "'w env \<Rightarrow> Workflow \<Rightarrow> Step \<Rightarrow> 'w xstate \<Rightarrow> 'w xstate" where
  "step_waiting env workflow step xs =
     on_world (\<lambda>r. invokeProgressCallback env r workflow)
       (set_step (Step_Name step) (\<lambda>s. s\<lparr>StepStatus_Phase := StepPhaseWaiting,
          StepStatus_Message := waiting_message env step (xs_run xs) s\<rparr>) xs)"

definition step_failed ::
  "'w env \<Rightarrow> CheckpointManager option \<Rightarrow> Workflow \<Rightarrow> Step \<Rightarrow> goerror \<Rightarrow> 'w xstate \<Rightarrow> goerror option \<times> 'w xstate" where
  "step_failed env cpm workflow step e xs =
     (case env_now env (xs_world xs) of (now, w) \<Rightarrow>
        (let name = Step_Name step;
             xs1 = notify emitStepEventWarning env workflow (''Step '' @ quote name @ '' failed: '' @ err_msg e)
                     (set_step name (\<lambda>s. s\<lparr>StepStatus_Phase := StepPhaseFailed, StepStatus_Error := err_msg e,
                        StepStatus_Message := err_msg e, StepStatus_CompletionTime := Some now\<rparr>) (xs\<lparr>xs_world := w\<rparr>))
         in if Step_FailurePolicy step = FailurePolicyContinue then (None, saveCheckpoint env cpm name xs1)
            else (Some e, recordWorkflowFailure env workflow (''Step '' @ name @ '' failed: '' @ err_msg e) xs1)))"

definition step_succeeded :: "'w env \<Rightarrow> CheckpointManager option \<Rightarrow> Workflow \<Rightarrow> Step \<Rightarrow> 'w xstate \<Rightarrow> 'w xstate" where
  "step_succeeded env cpm workflow step xs =
     (case env_now env (xs_world xs) of (now, w) \<Rightarrow>
        (let name = Step_Name step;
             xs1 = notify emitStepEvent env workflow (''Step '' @ quote name @ '' succeeded'')
                     (set_step name (\<lambda>s. s\<lparr>StepStatus_Phase := StepPhaseSucceeded, StepStatus_CompletionTime := Some now\<rparr>)
                       (xs\<lparr>xs_world := w\<rparr>))
         in saveCheckpoint env cpm name (xs1\<lparr>xs_cm := RecordStepCompletion name (xs_cm xs1)\<rparr>)))"

definition run_step ::
  "'w step_exec \<Rightarrow> 'w env \<Rightarrow> CheckpointManager option \<Rightarrow> Workflow \<Rightarrow> Step \<Rightarrow> 'w xstate \<Rightarrow> goerror option \<times> 'w xstate" where
  "run_step exec env cpm workflow step xs =
     (case exec step (step_started env workflow step xs) of
        (Inl e, xs1) \<Rightarrow>
          if fatal e then (Some e, xs1)
          else if errors_is e ErrAwaitingCallback then (Some e, step_waiting env workflow step xs1)
          else step_failed env cpm workflow step e xs1
      | (Inr _, xs1) \<Rightarrow> (None, step_succeeded env cpm workflow step xs1))"

definition process_step ::
  "'w step_exec \<Rightarrow> 'w env \<Rightarrow> CheckpointManager option \<Rightarrow> Workflow \<Rightarrow> Step \<Rightarrow> 'w xstate \<Rightarrow> goerror option \<times> 'w xstate" where
  "process_step exec env cpm workflow step xs =
     (case checkMatchConditions env step xs of
        (Inl e, xs1) \<Rightarrow> condition_failed env workflow step e xs1
      | (Inr False, xs1) \<Rightarrow> (None, step_skipped env cpm workflow step xs1)
      | (Inr True, xs1) \<Rightarrow> run_step exec env cpm workflow step xs1)"

subsection \<open>The loop\<close>

text \<open>The ready steps of one iteration; the middle component is \<^verbatim>\<open>executedAny\<close>.\<close>

fun run_ready ::
  "'w step_exec \<Rightarrow> 'w env \<Rightarrow> CheckpointManager option \<Rightarrow> Workflow \<Rightarrow> string list \<Rightarrow> bool \<Rightarrow> 'w xstate
     \<Rightarrow> goerror option \<times> bool \<times> 'w xstate" where
  "run_ready exec env cpm workflow [] executedAny xs = (None, executedAny, xs)"
| "run_ready exec env cpm workflow (name # names) executedAny xs =
     (case findStepByName (Workflow_Steps workflow) name of
        None \<Rightarrow> (Some (errorf (''step '' @ name @ '' not found'')), executedAny, xs)
      | Some step \<Rightarrow>
          if StepStatus_Phase (get_status (xs_run xs) name) \<noteq> StepPhasePending
          then run_ready exec env cpm workflow names executedAny xs
          else (case process_step exec env cpm workflow step xs of
                  (Some e, xs1) \<Rightarrow> (Some e, True, xs1)
                | (None, xs1) \<Rightarrow> run_ready exec env cpm workflow names True xs1))"

text \<open>The map \<^verbatim>\<open>completedSteps\<close>: a later step of the same name overwrites the entry of an earlier one.\<close>

definition completed_steps :: "Step list \<Rightarrow> WorkflowRun \<Rightarrow> string \<Rightarrow> bool" where
  "completed_steps steps run =
     fold (\<lambda>s m. m(Step_Name s := isStepDone s (get_status run (Step_Name s)))) steps (\<lambda>_. False)"

definition all_done :: "Step list \<Rightarrow> WorkflowRun \<Rightarrow> bool" where
  "all_done steps run \<longleftrightarrow> list_all (\<lambda>s. isStepDone s (get_status run (Step_Name s))) steps"

definition max_concurrent :: "Workflow \<Rightarrow> int" where
  "max_concurrent workflow =
     (case WorkflowSpec_ExecutionLimits (Workflow_Spec workflow) of
        None \<Rightarrow> 0
      | Some l \<Rightarrow> (case ExecutionLimits_MaxConcurrentSteps l of
                    None \<Rightarrow> 0 | Some n \<Rightarrow> if 0 < n then n else 0))"

definition limit_ready :: "int \<Rightarrow> string list \<Rightarrow> string list" where
  "limit_ready n ready = (if 0 < n \<and> n < int (length ready) then take (nat n) ready else ready)"

definition nothing_ready :: "'w env \<Rightarrow> Workflow \<Rightarrow> 'w xstate \<Rightarrow> goerror option \<times> 'w xstate" where
  "nothing_ready env workflow xs =
     (if all_done (Workflow_Steps workflow) (xs_run xs) then (None, recordWorkflowSuccess env workflow xs)
      else (case find (\<lambda>s. StepStatus_Phase (get_status (xs_run xs) (Step_Name s)) = StepPhaseFailed) (Workflow_Steps workflow) of
              Some s \<Rightarrow>
                (Some (errorf (''workflow failed: step '' @ Step_Name s @ '' failed'')),
                 recordWorkflowFailure env workflow (''Step '' @ Step_Name s @ '' failed: '' @
                   StepStatus_Error (get_status (xs_run xs) (Step_Name s))) xs)
            | None \<Rightarrow> (None, xs)))"

definition after_loop :: "'w env \<Rightarrow> Workflow \<Rightarrow> 'w xstate \<Rightarrow> goerror option \<times> 'w xstate" where
  "after_loop env workflow xs =
     (None, if all_done (Workflow_Steps workflow) (xs_run xs) then recordWorkflowSuccess env workflow xs else xs)"

text \<open>\<open>k\<close> is the number of iterations left.\<close>

primrec step_loop ::
  "nat \<Rightarrow> 'w step_exec \<Rightarrow> 'w env \<Rightarrow> CheckpointManager option \<Rightarrow> Workflow \<Rightarrow> DAG \<Rightarrow> 'w xstate \<Rightarrow> goerror option \<times> 'w xstate" where
  "step_loop 0 exec env cpm workflow d xs = after_loop env workflow xs"
| "step_loop (Suc k) exec env cpm workflow d xs =
     (let ready = limit_ready (max_concurrent workflow)
            (GetReadySteps (env_order env (Suc k) (map fst (DAG_nodes d))) d
              (completed_steps (Workflow_Steps workflow) (xs_run xs)))
      in if ready = [] then nothing_ready env workflow xs
         else (case run_ready exec env cpm workflow ready False xs of
                 (Some e, _, xs1) \<Rightarrow> (Some e, xs1)
               | (None, executedAny, xs1) \<Rightarrow>
                   if \<not> executedAny then after_loop env workflow xs1
                   else step_loop k exec env cpm workflow d xs1))"

subsection \<open>Before and after the loop\<close>

definition store_variable :: "string \<Rightarrow> val \<Rightarrow> 'w xstate \<Rightarrow> 'w xstate" where
  "store_variable name v xs =
     (case GetContext (xs_cm xs) of
        None \<Rightarrow> xs
      | Some m \<Rightarrow> xs\<lparr>xs_cm := (xs_cm xs)\<lparr>cm_inMemoryContext := Some (write_variables [(name, v)] m)\<rparr>\<rparr>)"

fun eval_variables :: "'w env \<Rightarrow> Variable list \<Rightarrow> gomap \<Rightarrow> 'w xstate \<Rightarrow> goerror option \<times> 'w xstate" where
  "eval_variables env [] vars xs = (None, xs)"
| "eval_variables env (v # vs) vars xs =
     (case env_eval env (Variable_Expression v) vars (xs_world xs) of
        (Inl e, w) \<Rightarrow> (Some (wrapf (''failed to evaluate variable '' @ quoted (Variable_Name v) @ '': '') e), xs\<lparr>xs_world := w\<rparr>)
      | (Inr r, w) \<Rightarrow>
          (let xs1 = store_variable (Variable_Name v) r (xs\<lparr>xs_world := w\<rparr>) in
           case read_context xs1 of
             Inl e \<Rightarrow> (Some (wrapf (''failed to re-read context after variable '' @ quote (Variable_Name v) @ '': '') e), xs1)
           | Inr ctx \<Rightarrow> eval_variables env vs (BuildVariableMap ctx) xs1))"

definition evaluateWorkflowVariables :: "'w env \<Rightarrow> Workflow \<Rightarrow> 'w xstate \<Rightarrow> goerror option \<times> 'w xstate" where
  "evaluateWorkflowVariables env workflow xs =
     (let vs = WorkflowSpec_Variables (Workflow_Spec workflow) in
      if vs = [] then (None, xs)
      else (case read_context xs of
              Inl e \<Rightarrow> (Some (wrapf ''failed to read context: '' e), xs)
            | Inr ctx \<Rightarrow>
                if as_map (map_of ctx ''variables'') = None then (Some panic_conversion, xs)
                else eval_variables env vs (BuildVariableMap ctx) xs))"

definition is_restart :: "WorkflowRun \<Rightarrow> bool" where
  "is_restart run \<longleftrightarrow> run_phase run = WorkflowRunPhaseRunning \<or>
     (case Status_Execution (WorkflowRun_Status run) of None \<Rightarrow> False | Some x \<Rightarrow> 0 < ExecutionStatus_Attempts x)"

definition restore_snapshot :: "CheckpointSnapshot \<Rightarrow> 'w xstate \<Rightarrow> 'w xstate" where
  "restore_snapshot snap xs =
     (let cm = RestoreContext (Snapshot_Context snap) (xs_cm xs);
          cm' = (if Snapshot_CompletionOrder snap \<noteq> [] then SetCompletionOrder (Snapshot_CompletionOrder snap) cm
                 else RestoreCompletionOrder (Snapshot_StepStatuses snap) cm)
      in on_run (upd_status (\<lambda>s. s\<lparr>Status_StepStatuses := Snapshot_StepStatuses snap\<rparr>)) (xs\<lparr>xs_cm := cm'\<rparr>))"

definition loadCheckpointIfNeeded :: "'w env \<Rightarrow> CheckpointManager option \<Rightarrow> 'w xstate \<Rightarrow> bool result \<times> 'w xstate" where
  "loadCheckpointIfNeeded env cpm xs =
     (if IsInitialized (xs_cm xs) then (Inr False, xs)
      else if \<not> is_restart (xs_run xs) then (Inr False, xs)
      else (case cpm of
              None \<Rightarrow> (Inr False, xs)
            | Some m \<Rightarrow>
                if \<not> cpm_enabled m then (Inr False, xs)
                else (case Load (env_client env) m (xs_world xs) of
                        (Inl e, w) \<Rightarrow> (Inl (wrapf ''failed to load checkpoint: '' e), xs\<lparr>xs_world := w\<rparr>)
                      | (Inr None, w) \<Rightarrow> (Inr False, xs\<lparr>xs_world := w\<rparr>)
                      | (Inr (Some snap), w) \<Rightarrow> (Inr True, restore_snapshot snap (xs\<lparr>xs_world := w\<rparr>)))))"

definition audit_of :: "Workflow \<Rightarrow> 'w xstate \<Rightarrow> CheckpointSnapshot" where
  "audit_of workflow xs =
     \<lparr>Snapshot_Version = 1, Snapshot_WorkflowRunUID = WorkflowRun_UID (xs_run xs), Snapshot_LastCompletedStep = [],
      Snapshot_StepStatuses = statuses (xs_run xs),
      Snapshot_Context = Some (redactSensitiveContext (case GetContext (xs_cm xs) of None \<Rightarrow> [] | Some c \<Rightarrow> c)
        (sensitiveOutputNames workflow)),
      Snapshot_CompletionOrder = []\<rparr>"

definition checkpointCleanup :: "'w env \<Rightarrow> CheckpointManager option \<Rightarrow> Workflow \<Rightarrow> 'w xstate \<Rightarrow> 'w xstate" where
  "checkpointCleanup env cpm workflow xs =
     (case cpm of
        None \<Rightarrow> xs
      | Some m \<Rightarrow>
          if \<not> IsTerminal (run_phase (xs_run xs)) then xs
          else (let w = (if cpm_enabled m then snd (Delete (env_client env) m (xs_world xs)) else xs_world xs) in
                case SaveAuditSnapshot (env_client env) (env_retry env) (env_jsonSize env) m (audit_of workflow xs) w of
                  (Inl e, w1) \<Rightarrow>
                    on_world (\<lambda>r w. case env_recorder env of None \<Rightarrow> w
                        | Some emit \<Rightarrow> emit r ''Warning'' ''AuditSnapshotFailed'' (''Failed to persist run audit snapshot: '' @ err_msg e) w)
                      (on_run (upd_status (\<lambda>s. s\<lparr>Status_AuditSnapshotError := err_msg e\<rparr>)) (xs\<lparr>xs_world := w1\<rparr>))
                | (Inr name, w1) \<Rightarrow>
                    on_run (upd_status (\<lambda>s. s\<lparr>Status_AuditSnapshotConfigMap := name, Status_AuditSnapshotError := []\<rparr>))
                      (xs\<lparr>xs_world := w1\<rparr>)))"

definition init_statuses :: "Step list \<Rightarrow> step_statuses \<Rightarrow> step_statuses" where
  "init_statuses steps sts =
     fold (\<lambda>s m. if has_key m (Step_Name s) then m
                else AList.update (Step_Name s) (zero_StepStatus\<lparr>StepStatus_Phase := StepPhasePending\<rparr>) m) steps sts"

definition start_run :: "'w env \<Rightarrow> Workflow \<Rightarrow> 'w xstate \<Rightarrow> 'w xstate" where
  "start_run env workflow xs =
     (if run_phase (xs_run xs) = WorkflowRunPhaseNone \<or> run_phase (xs_run xs) = WorkflowRunPhasePending
      then (case env_now env (xs_world xs) of (now, w) \<Rightarrow>
              on_world (\<lambda>r. emitWorkflowLevelEvent env workflow r ''WorkflowRunning'' ''Normal'' ''Workflow run started'')
                (on_run (upd_status (\<lambda>s. s\<lparr>Status_Phase := WorkflowRunPhaseRunning, Status_StartTime := Some now\<rparr>))
                  (xs\<lparr>xs_world := w\<rparr>)))
      else xs)"

definition begin_steps :: "'w env \<Rightarrow> Workflow \<Rightarrow> 'w xstate \<Rightarrow> 'w xstate" where
  "begin_steps env workflow xs =
     start_run env workflow
       (on_run (upd_status (\<lambda>s. s\<lparr>Status_StepStatuses := init_statuses (Workflow_Steps workflow) (Status_StepStatuses s)\<rparr>)) xs)"

definition run_steps ::
  "'w step_exec \<Rightarrow> 'w env \<Rightarrow> CheckpointManager option \<Rightarrow> Workflow \<Rightarrow> 'w xstate \<Rightarrow> goerror option \<times> 'w xstate" where
  "run_steps exec env cpm workflow xs =
     (let steps = Workflow_Steps workflow in
      if steps = [] then failBeforeSteps env workflow (errorf ''workflow has no steps'') xs
      else (case BuildDAG (env_order env 0 (remdups (map Step_Name steps))) steps of
              None \<Rightarrow> (Some (GoError [GoPanic] ''panic: nil pointer dereference''), xs)
            | Some (Inl e) \<Rightarrow> failBeforeSteps env workflow (wrapf ''failed to build DAG: '' e) xs
            | Some (Inr d) \<Rightarrow> step_loop (2 * length steps) exec env cpm workflow d (begin_steps env workflow xs)))"

text \<open>\<^verbatim>\<open>ExecuteWorkflow\<close> for a given way to run sub-workflows, then its recursion on the nesting depth.\<close>

definition ExecuteWorkflow_with ::
  "'w child \<Rightarrow> 'w env \<Rightarrow> CheckpointManager option \<Rightarrow> Workflow \<Rightarrow> 'w xstate \<Rightarrow> goerror option \<times> 'w xstate" where
  "ExecuteWorkflow_with child env0 cpm workflow xs =
     (let env = env0\<lparr>env_eval := env_celWithLimit env0 (ResolveCELCostLimit (Some (Workflow_Spec workflow)))\<rparr> in
      case loadCheckpointIfNeeded env cpm xs of
        (Inl e, xs1) \<Rightarrow> (Some e, xs1)
      | (Inr restored, xs1) \<Rightarrow>
          (case InitializeContext workflow (WorkflowRunSpec_InputValues (WorkflowRun_Spec (xs_run xs1))) (xs_cm xs1) of
             Inl e \<Rightarrow> failBeforeSteps env workflow (wrapf ''failed to initialize context: '' e) xs1
           | Inr cm \<Rightarrow>
               (case (if restored then (None, xs1\<lparr>xs_cm := cm\<rparr>)
                      else evaluateWorkflowVariables env workflow (xs1\<lparr>xs_cm := cm\<rparr>)) of
                  (Some e, xs2) \<Rightarrow> (Some e, xs2)
                | (None, xs2) \<Rightarrow>
                    (case run_steps (executeStep child env (Some workflow)) env cpm workflow xs2 of
                       (r, xs3) \<Rightarrow> (r, checkpointCleanup env cpm workflow xs3)))))"

definition fresh_state :: "WorkflowRun \<Rightarrow> 'w \<Rightarrow> 'w xstate" where
  "fresh_state run w = \<lparr>xs_run = run, xs_cm = NewContextManager, xs_scoped = None, xs_world = w\<rparr>"

primrec child_at :: "nat \<Rightarrow> 'w child" where
  "child_at 0 env workflow run w = (Some (GoError [GoStackOverflow] ''stack overflow''), run, w)"
| "child_at (Suc n) env workflow run w =
     (case ExecuteWorkflow_with (child_at n) env None workflow (fresh_state run w) of (r, xs) \<Rightarrow> (r, xs_run xs, xs_world xs))"

definition ExecuteWorkflow ::
  "nat \<Rightarrow> 'w env \<Rightarrow> CheckpointManager option \<Rightarrow> Workflow \<Rightarrow> 'w xstate \<Rightarrow> goerror option \<times> 'w xstate" where
  "ExecuteWorkflow depth env cpm workflow xs = ExecuteWorkflow_with (child_at depth) env cpm workflow xs"

end
