(* ===== verification/Scheduler_Spec.thy ===== *)
theory Scheduler_Spec
  imports Executor
begin

text \<open>
  What the executor promises, as an abstract machine, and the proof that \<^verbatim>\<open>ExecuteWorkflow\<close> implements
  it. A state of the machine is the phase of each step, the phase of the run and the order in which
  steps succeeded. A transition takes one pending step all of whose dependencies are done and
  gives it its outcome. The invariants are proved on the machine.
\<close>

subsection \<open>The machine\<close>

record sched =
  sched_phase :: "string \<Rightarrow> StepPhase option"
  sched_run_phase :: WorkflowRunPhase
  sched_order :: "string list"

definition done_phase :: "Step \<Rightarrow> StepPhase option \<Rightarrow> bool" where
  "done_phase s p \<longleftrightarrow> p = Some StepPhaseSucceeded \<or> p = Some StepPhaseSkipped \<or>
     (p = Some StepPhaseFailed \<and> Step_FailurePolicy s = FailurePolicyContinue)"

text \<open>How a step can end, and what that means for the run: the result is the error that stops it.\<close>

inductive step_outcome :: "Step \<Rightarrow> WorkflowRunPhase \<Rightarrow> goerror option \<Rightarrow> StepPhase \<Rightarrow> WorkflowRunPhase \<Rightarrow> bool" where
  skipped: "step_outcome s ph None StepPhaseSkipped ph"
| succeeded: "step_outcome s ph None StepPhaseSucceeded ph"
| continued: "Step_FailurePolicy s = FailurePolicyContinue \<Longrightarrow> step_outcome s ph None StepPhaseFailed ph"
| failed: "Step_FailurePolicy s \<noteq> FailurePolicyContinue \<Longrightarrow> step_outcome s ph (Some e) StepPhaseFailed WorkflowRunPhaseFailed"
| waiting: "errors_is e ErrAwaitingCallback \<Longrightarrow> step_outcome s ph (Some e) StepPhaseWaiting ph"
| crashed: "fatal e \<Longrightarrow> step_outcome s ph (Some e) StepPhaseRunning ph"

inductive_cases step_outcome_NoneE: "step_outcome s ph None p ph'"
inductive_cases step_outcome_SomeE: "step_outcome s ph (Some e) p ph'"

inductive_simps step_outcome_iff: "step_outcome s ph r p ph'"

definition sched_done :: "Step list \<Rightarrow> sched \<Rightarrow> string \<Rightarrow> bool" where
  "sched_done steps m n \<longleftrightarrow> (\<exists>s\<in>set steps. Step_Name s = n \<and> done_phase s (sched_phase m n))"

definition take_step :: "string \<Rightarrow> StepPhase \<Rightarrow> WorkflowRunPhase \<Rightarrow> sched \<Rightarrow> sched" where
  "take_step n p ph m = \<lparr>sched_phase = (sched_phase m)(n \<mapsto> p), sched_run_phase = ph,
     sched_order = sched_order m @ (if p = StepPhaseSucceeded then [n] else [])\<rparr>"

inductive sched_run :: "Step list \<Rightarrow> sched \<Rightarrow> goerror option \<Rightarrow> sched \<Rightarrow> bool" for steps where
  stop: "sched_run steps m None m"
| more: "\<lbrakk>s \<in> set steps; sched_phase m (Step_Name s) = Some StepPhasePending;
     \<forall>dep\<in>set (Step_DependsOn s). sched_done steps m dep;
     step_outcome s (sched_run_phase m) None p ph;
     sched_run steps (take_step (Step_Name s) p ph m) r m'\<rbrakk> \<Longrightarrow> sched_run steps m r m'"
| halt: "\<lbrakk>s \<in> set steps; sched_phase m (Step_Name s) = Some StepPhasePending;
     \<forall>dep\<in>set (Step_DependsOn s). sched_done steps m dep;
     step_outcome s (sched_run_phase m) (Some e) p ph\<rbrakk>
     \<Longrightarrow> sched_run steps m (Some e) (take_step (Step_Name s) p ph m)"

lemma sched_run_append:
  "sched_run steps m None m' \<Longrightarrow> sched_run steps m' r m'' \<Longrightarrow> sched_run steps m r m''"
  by (induction m "None :: goerror option" m' rule: sched_run.induct) (auto intro: sched_run.more)

lemma take_step_simps [simp]:
  "sched_phase (take_step n p ph m) = (sched_phase m)(n \<mapsto> p)" "sched_run_phase (take_step n p ph m) = ph"
  by (simp_all add: take_step_def)

subsection \<open>Invariants of the machine\<close>

text \<open>Only pending steps change.\<close>

lemma sched_run_keeps:
  "sched_run steps m r m' \<Longrightarrow> sched_phase m n \<noteq> Some StepPhasePending \<Longrightarrow> sched_phase m' n = sched_phase m n"
  by (induction rule: sched_run.induct) (auto simp: fun_upd_def split: if_splits elim!: step_outcome.cases)

lemma sched_done_take:
  assumes "distinct (map Step_Name steps)" "sched_phase m n = Some StepPhasePending" "sched_done steps m a"
  shows "sched_done steps (take_step n p ph m) a"
  using assms by (auto simp: sched_done_def done_phase_def)

text \<open>No step has left the state pending unless all its dependencies are done.\<close>

definition dependencies_first :: "Step list \<Rightarrow> sched \<Rightarrow> bool" where
  "dependencies_first steps m \<longleftrightarrow> (\<forall>s\<in>set steps. sched_phase m (Step_Name s) \<noteq> Some StepPhasePending \<longrightarrow>
     (\<forall>dep\<in>set (Step_DependsOn s). sched_done steps m dep))"

lemma dependencies_first_take:
  assumes "distinct (map Step_Name steps)" "dependencies_first steps m"
    and "s \<in> set steps" "sched_phase m (Step_Name s) = Some StepPhasePending"
    and "\<forall>dep\<in>set (Step_DependsOn s). sched_done steps m dep"
  shows "dependencies_first steps (take_step (Step_Name s) p ph m)"
  unfolding dependencies_first_def
proof (intro ballI impI)
  fix t dep
  assume t: "t \<in> set steps" "sched_phase (take_step (Step_Name s) p ph m) (Step_Name t) \<noteq> Some StepPhasePending"
    "dep \<in> set (Step_DependsOn t)"
  have "sched_done steps m dep"
  proof (cases "Step_Name t = Step_Name s")
    case True
    with assms(1,3) t(1) have "t = s" by (auto simp: distinct_map inj_on_def)
    with assms(5) t(3) show ?thesis by simp
  next
    case False
    with assms(2) t show ?thesis by (auto simp: dependencies_first_def)
  qed
  then show "sched_done steps (take_step (Step_Name s) p ph m) dep"
    by (rule sched_done_take [OF assms(1,4)])
qed

lemma sched_run_dependencies_first:
  assumes "distinct (map Step_Name steps)"
  shows "sched_run steps m r m' \<Longrightarrow> dependencies_first steps m \<Longrightarrow> dependencies_first steps m'"
  by (induction rule: sched_run.induct) (auto intro: dependencies_first_take [OF assms])

text \<open>The order of completion lists the steps that succeeded, each once and after its dependencies.\<close>

definition order_ok :: "Step list \<Rightarrow> sched \<Rightarrow> bool" where
  "order_ok steps m \<longleftrightarrow> distinct (sched_order m) \<and>
     (\<forall>n. n \<in> set (sched_order m) \<longleftrightarrow> sched_phase m n = Some StepPhaseSucceeded) \<and>
     (\<forall>i<length (sched_order m). \<forall>s\<in>set steps. Step_Name s = sched_order m ! i \<longrightarrow>
        (\<forall>dep\<in>set (Step_DependsOn s). sched_phase m dep = Some StepPhaseSucceeded \<longrightarrow> dep \<in> set (take i (sched_order m))))"

lemma order_ok_take:
  assumes d: "distinct (map Step_Name steps)" and f: "dependencies_first steps m" and o: "order_ok steps m"
    and s: "s \<in> set steps" "sched_phase m (Step_Name s) = Some StepPhasePending"
    and deps: "\<forall>dep\<in>set (Step_DependsOn s). sched_done steps m dep" and p: "p \<noteq> StepPhasePending"
  shows "order_ok steps (take_step (Step_Name s) p ph m)"
proof -
  let ?n = "Step_Name s" and ?m = "take_step (Step_Name s) p ph m"
  have mem: "k \<in> set (sched_order m) \<longleftrightarrow> sched_phase m k = Some StepPhaseSucceeded" for k
    using o by (simp add: order_ok_def)
  have fresh: "?n \<notin> set (sched_order m)" using mem s(2) by simp
  have not_dep: "dep \<noteq> ?n" if "sched_done steps m dep" for dep
    using that s(2) by (auto simp: sched_done_def done_phase_def)
  have same: "t = s" if "t \<in> set steps" "Step_Name t = ?n" for t
    using that s(1) d by (auto simp: distinct_map inj_on_def)
  have fin: "sched_done steps m dep" if "t \<in> set steps" "Step_Name t \<in> set (sched_order m)" "dep \<in> set (Step_DependsOn t)" for t dep
    using f that mem by (auto simp: dependencies_first_def)
  have "dep \<in> set (take i (sched_order ?m))"
    if i: "i < length (sched_order ?m)" and t: "t \<in> set steps" "Step_Name t = sched_order ?m ! i"
      and dep: "dep \<in> set (Step_DependsOn t)" "sched_phase ?m dep = Some StepPhaseSucceeded" for i t dep
  proof (cases "i < length (sched_order m)")
    case True
    then have at: "Step_Name t = sched_order m ! i" using t(2) by (simp add: take_step_def nth_append split: if_splits)
    with True have "Step_Name t \<in> set (sched_order m)" by simp
    from fin [OF t(1) this dep(1)] have "dep \<noteq> ?n" by (rule not_dep)
    with dep(2) have "sched_phase m dep = Some StepPhaseSucceeded" by simp
    with o True t(1) at dep(1) have "dep \<in> set (take i (sched_order m))" by (auto simp: order_ok_def)
    with True show ?thesis by (simp add: take_step_def)
  next
    case False
    with i have new: "i = length (sched_order m)" "p = StepPhaseSucceeded" by (auto simp: take_step_def split: if_splits)
    with t same have "t = s" by (auto simp: take_step_def)
    with deps dep(1) have "sched_done steps m dep" by simp
    then have "dep \<noteq> ?n" by (rule not_dep)
    with dep(2) mem have "dep \<in> set (sched_order m)" by simp
    with new show ?thesis by (simp add: take_step_def)
  qed
  moreover have "distinct (sched_order ?m)" using o fresh by (simp add: order_ok_def take_step_def)
  moreover have "k \<in> set (sched_order ?m) \<longleftrightarrow> sched_phase ?m k = Some StepPhaseSucceeded" for k
    using mem [of k] s(2) by (auto simp: take_step_def)
  ultimately show ?thesis unfolding order_ok_def by blast
qed

lemma outcome_not_pending: "step_outcome s ph r p ph' \<Longrightarrow> p \<noteq> StepPhasePending"
  by (auto elim: step_outcome.cases)

lemma sched_run_order_ok:
  assumes "distinct (map Step_Name steps)"
  shows "sched_run steps m r m' \<Longrightarrow> dependencies_first steps m \<Longrightarrow> order_ok steps m \<Longrightarrow> order_ok steps m'"
proof (induction rule: sched_run.induct)
  case (more s m p ph r m')
  then show ?case
    using dependencies_first_take [OF assms] order_ok_take [OF assms] outcome_not_pending by blast
next
  case (halt s m e p ph)
  then show ?case using order_ok_take [OF assms] outcome_not_pending by blast
qed simp

text \<open>When a run of the machine stops with an error, the run has failed, or a step waits, or the process died.\<close>

lemma sched_run_error:
  "sched_run steps m (Some e) m' \<Longrightarrow>
     sched_run_phase m' = WorkflowRunPhaseFailed \<and> (\<exists>s\<in>set steps. sched_phase m' (Step_Name s) = Some StepPhaseFailed \<and>
        Step_FailurePolicy s \<noteq> FailurePolicyContinue) \<or>
     errors_is e ErrAwaitingCallback \<and> (\<exists>s\<in>set steps. sched_phase m' (Step_Name s) = Some StepPhaseWaiting) \<or>
     fatal e"
  by (induction m "Some e" m' rule: sched_run.induct) (auto elim!: step_outcome_SomeE)

subsection \<open>From states of the executor to states of the machine\<close>

definition sched_of :: "'w xstate \<Rightarrow> sched" where
  "sched_of xs = \<lparr>sched_phase = step_phase (xs_run xs), sched_run_phase = run_phase (xs_run xs),
     sched_order = cm_completionOrder (xs_cm xs)\<rparr>"

lemma sched_of_keeps: "keeps xs xs' \<Longrightarrow> sched_of xs' = sched_of xs"
  by (auto simp: sched_of_def keeps_def same_phases_def fun_eq_iff)

lemma sched_of_world [simp]: "sched_of (xs\<lparr>xs_world := w\<rparr>) = sched_of xs" "sched_of (on_world f xs) = sched_of xs"
  by (simp_all add: sched_of_def on_world_def)

lemma sched_of_notify [simp]: "sched_of (notify emit env workflow msg xs) = sched_of xs"
  by (simp add: notify_def)

lemma sched_of_saveCheckpoint [simp]: "sched_of (saveCheckpoint env cpm n xs) = sched_of xs"
  by (simp add: saveCheckpoint_def split: option.splits)

lemma sched_of_set_step: "sched_of (set_step n f xs) =
    (sched_of xs)\<lparr>sched_phase := (sched_phase (sched_of xs))(n \<mapsto> StepStatus_Phase (f (get_status (xs_run xs) n)))\<rparr>"
  by (auto simp: sched_of_def set_step_def on_run_def fun_eq_iff)

lemma sched_of_status:
  assumes "\<And>s. Status_Phase (f s) = g (Status_Phase s) \<and> Status_StepStatuses (f s) = Status_StepStatuses s"
  shows "sched_of (on_run (upd_status f) xs) = (sched_of xs)\<lparr>sched_run_phase := g (sched_run_phase (sched_of xs))\<rparr>"
  using assms by (simp add: sched_of_def on_run_def step_phase_def fun_eq_iff)

lemma sched_of_recordWorkflowFailure [simp]:
  "sched_of (recordWorkflowFailure env workflow msg xs) = (sched_of xs)\<lparr>sched_run_phase := WorkflowRunPhaseFailed\<rparr>"
  by (simp add: recordWorkflowFailure_def sched_of_status [where g = "\<lambda>_. WorkflowRunPhaseFailed"])

lemma sched_of_set_completion [simp]: "sched_of (set_completion env xs) = sched_of xs"
  by (simp add: set_completion_def sched_of_status [where g = "\<lambda>p. p"] split: prod.splits)

lemma sched_of_evaluateWorkflowOutputs [simp]: "sched_of (snd (evaluateWorkflowOutputs env workflow xs)) = sched_of xs"
  by (auto simp: evaluateWorkflowOutputs_def Let_def sched_of_def step_phase_def fun_eq_iff split: option.splits prod.splits)

lemma sched_of_recordWorkflowSuccess [simp]:
  "sched_of (recordWorkflowSuccess env workflow xs) = (sched_of xs)\<lparr>sched_run_phase := WorkflowRunPhaseSucceeded\<rparr>"
  by (simp add: recordWorkflowSuccess_def Let_def sched_of_status [where g = "\<lambda>_. WorkflowRunPhaseSucceeded"])

lemma sched_of_conditions: "checkMatchConditions env step xs = (r, xs') \<Longrightarrow> sched_of xs' = sched_of xs"
  by (auto simp: checkMatchConditions_def split: if_splits sum.splits prod.splits)

lemma sched_of_started: "sched_of (step_started env workflow step xs) =
    (sched_of xs)\<lparr>sched_phase := (sched_phase (sched_of xs))(Step_Name step \<mapsto> StepPhaseRunning)\<rparr>"
  by (simp add: step_started_def sched_of_set_step split: prod.splits)

subsection \<open>The executor implements the machine\<close>

lemma findStepByName_Some:
  assumes "distinct (map Step_Name steps)" "s \<in> set steps"
  shows "findStepByName steps (Step_Name s) = Some s"
proof -
  obtain t where t: "findStepByName steps (Step_Name s) = Some t"
    using assms(2) by (cases "findStepByName steps (Step_Name s)") (auto simp: findStepByName_def find_None_iff)
  then have "t \<in> set steps" "Step_Name t = Step_Name s" by (auto simp: findStepByName_def find_Some_iff)
  with assms have "t = s" by (auto simp: distinct_map inj_on_def)
  with t show ?thesis by simp
qed

lemma isStepDone_iff: "isStepDone s (get_status run n) \<longleftrightarrow> done_phase s (step_phase run n)"
  by (auto simp: isStepDone_def done_phase_def get_status_def get_or_def step_phase_def zero_StepStatus_def
      split: option.splits)

lemma completed_steps_iff:
  assumes "distinct (map Step_Name steps)"
  shows "completed_steps steps (xs_run xs) n \<longleftrightarrow> sched_done steps (sched_of xs) n"
proof -
  have "fold (\<lambda>s m. m(Step_Name s := g s)) ss f n =
      (if n \<in> Step_Name ` set ss then \<exists>s\<in>set ss. Step_Name s = n \<and> g s else f n)"
    if "distinct (map Step_Name ss)" for ss f and g :: "Step \<Rightarrow> bool"
    using that by (induction ss arbitrary: f) (auto simp: image_iff)
  from this [OF assms] show ?thesis
    by (auto simp: completed_steps_def sched_done_def sched_of_def isStepDone_iff)
qed

lemma all_done_iff: "all_done steps (xs_run xs) \<longleftrightarrow> (\<forall>s\<in>set steps. done_phase s (sched_phase (sched_of xs) (Step_Name s)))"
  by (simp add: all_done_def sched_of_def isStepDone_iff list_all_iff)

definition enabled :: "Step list \<Rightarrow> sched \<Rightarrow> Step \<Rightarrow> bool" where
  "enabled steps m s \<longleftrightarrow> s \<in> set steps \<and> sched_phase m (Step_Name s) = Some StepPhasePending \<and>
     (\<forall>dep\<in>set (Step_DependsOn s). sched_done steps m dep)"

lemma enabled_take:
  assumes "distinct (map Step_Name steps)" "enabled steps m s" "enabled steps m t" "Step_Name t \<noteq> Step_Name s"
  shows "enabled steps (take_step (Step_Name s) p ph m) t"
  using assms by (auto simp: enabled_def intro: sched_done_take)

lemma outcomeI:
  "step_outcome s (sched_run_phase m) r p ph \<Longrightarrow> m' = take_step n p ph m \<Longrightarrow>
     \<exists>p ph. step_outcome s (sched_run_phase m) r p ph \<and> m' = take_step n p ph m"
  by blast

lemma step_failed_refines:
  assumes "step_failed env cpm workflow step e xs = (r, xs')"
  shows "\<exists>p ph. step_outcome step (sched_run_phase (sched_of xs)) r p ph \<and> sched_of xs' = take_step (Step_Name step) p ph (sched_of xs)"
proof (cases "Step_FailurePolicy step = FailurePolicyContinue")
  case True
  with assms show ?thesis
    by (intro outcomeI [where p = StepPhaseFailed and ph = "sched_run_phase (sched_of xs)"])
      (auto simp: step_outcome_iff step_failed_def Let_def take_step_def sched_of_set_step split: prod.splits)
next
  case False
  with assms show ?thesis
    by (intro outcomeI [where p = StepPhaseFailed and ph = WorkflowRunPhaseFailed])
      (auto simp: step_outcome_iff step_failed_def Let_def take_step_def sched_of_set_step split: prod.splits)
qed

lemma condition_failed_refines:
  assumes "condition_failed env workflow step e xs = (r, xs')"
  shows "\<exists>p ph. step_outcome step (sched_run_phase (sched_of xs)) r p ph \<and> sched_of xs' = take_step (Step_Name step) p ph (sched_of xs)"
proof (cases "Step_FailurePolicy step = FailurePolicyContinue")
  case True
  with assms show ?thesis
    by (intro outcomeI [where p = StepPhaseFailed and ph = "sched_run_phase (sched_of xs)"])
      (auto simp: step_outcome_iff condition_failed_def Let_def take_step_def sched_of_set_step)
next
  case False
  with assms show ?thesis
    by (intro outcomeI [where p = StepPhaseFailed and ph = WorkflowRunPhaseFailed])
      (auto simp: step_outcome_iff condition_failed_def Let_def take_step_def sched_of_set_step)
qed

text \<open>The contract of what executes a step: it leaves phases and the record of completions alone.\<close>

locale step_executor =
  fixes exec :: "'w step_exec"
  assumes frame: "exec_frame exec"
begin

lemma run_step_refines:
  assumes "run_step exec env cpm workflow step xs = (r, xs')"
  shows "\<exists>p ph. step_outcome step (sched_run_phase (sched_of xs)) r p ph \<and> sched_of xs' = take_step (Step_Name step) p ph (sched_of xs)"
proof -
  obtain res xs1 where e: "exec step (step_started env workflow step xs) = (res, xs1)" by force
  have a: "sched_of xs1 = (sched_of xs)\<lparr>sched_phase := (sched_phase (sched_of xs))(Step_Name step \<mapsto> StepPhaseRunning)\<rparr>"
    using sched_of_keeps [of "step_started env workflow step xs" xs1] frame e by (simp add: exec_frame_def sched_of_started)
  show ?thesis
  proof (cases res)
    case (Inl err)
    consider "fatal err" | "\<not> fatal err" "errors_is err ErrAwaitingCallback" | "\<not> fatal err" "\<not> errors_is err ErrAwaitingCallback"
      by blast
    then show ?thesis
    proof cases
      case 1
      with assms Inl e have "r = Some err" "xs' = xs1" by (simp_all add: run_step_def)
      with 1 a show ?thesis by (intro outcomeI [where p = StepPhaseRunning and ph = "sched_run_phase (sched_of xs)"]) (simp_all add: step_outcome_iff take_step_def)
    next
      case 2
      with assms Inl e have "r = Some err" "xs' = step_waiting env workflow step xs1" by (simp_all add: run_step_def)
      with 2 a show ?thesis
        by (intro outcomeI [where p = StepPhaseWaiting and ph = "sched_run_phase (sched_of xs)"]) (simp_all add: step_outcome_iff take_step_def step_waiting_def sched_of_set_step)
    next
      case 3
      with assms Inl e have "step_failed env cpm workflow step err xs1 = (r, xs')" by (simp add: run_step_def)
      from step_failed_refines [OF this] a show ?thesis by (simp add: take_step_def)
    qed
  next
    case (Inr outs)
    with assms e have r: "r = None" "xs' = step_succeeded env cpm workflow step xs1" by (simp_all add: run_step_def)
    have c: "sched_of (ys\<lparr>xs_cm := RecordStepCompletion n (xs_cm ys)\<rparr>) = (sched_of ys)\<lparr>sched_order := sched_order (sched_of ys) @ [n]\<rparr>"
      for ys :: "'w xstate" and n
      by (simp add: sched_of_def RecordStepCompletion_def)
    have "sched_of xs' = take_step (Step_Name step) StepPhaseSucceeded (sched_run_phase (sched_of xs)) (sched_of xs)"
      unfolding r(2) using a by (simp add: step_succeeded_def Let_def take_step_def sched_of_set_step c split: prod.splits)
    with r(1) show ?thesis by (intro outcomeI [where p = StepPhaseSucceeded and ph = "sched_run_phase (sched_of xs)"]) (simp_all add: step_outcome_iff)
  qed
qed

lemma process_step_refines:
  assumes "process_step exec env cpm workflow step xs = (r, xs')"
  shows "\<exists>p ph. step_outcome step (sched_run_phase (sched_of xs)) r p ph \<and> sched_of xs' = take_step (Step_Name step) p ph (sched_of xs)"
proof -
  obtain c xs1 where c: "checkMatchConditions env step xs = (c, xs1)" by force
  note a = sched_of_conditions [OF c]
  consider e where "c = Inl e" | "c = Inr False" | "c = Inr True" by (cases c) auto
  then show ?thesis
  proof cases
    case 1
    with assms c have "condition_failed env workflow step e xs1 = (r, xs')" by (simp add: process_step_def)
    from condition_failed_refines [OF this] a show ?thesis by simp
  next
    case 2
    with assms c have "r = None" "xs' = step_skipped env cpm workflow step xs1" by (simp_all add: process_step_def)
    then show ?thesis using a
      by (intro outcomeI [where p = StepPhaseSkipped and ph = "sched_run_phase (sched_of xs)"]) (simp_all add: step_outcome_iff step_skipped_def take_step_def sched_of_set_step)
  next
    case 3
    with assms c have "run_step exec env cpm workflow step xs1 = (r, xs')" by (simp add: process_step_def)
    from run_step_refines [OF this] a show ?thesis by simp
  qed
qed

end

text \<open>What the ready steps of one iteration leave behind when none of them stops the run.\<close>

definition all_handled :: "Step list \<Rightarrow> string list \<Rightarrow> sched \<Rightarrow> sched \<Rightarrow> bool" where
  "all_handled steps names m m' \<longleftrightarrow> (\<forall>s\<in>set steps.
     if Step_Name s \<in> set names then done_phase s (sched_phase m' (Step_Name s))
     else sched_phase m' (Step_Name s) = sched_phase m (Step_Name s))"

lemma outcome_done: "step_outcome s ph None p ph' \<Longrightarrow> done_phase s (Some p)"
  by (auto simp: done_phase_def elim: step_outcome_NoneE)

lemma all_handled_Cons:
  assumes "distinct (map Step_Name steps)" "s \<in> set steps" "step_outcome s ph None p ph'" "Step_Name s \<notin> set names"
    and "all_handled steps names (take_step (Step_Name s) p ph' m) m'"
  shows "all_handled steps (Step_Name s # names) m m'"
  unfolding all_handled_def
proof
  fix t assume t: "t \<in> set steps"
  show "if Step_Name t \<in> set (Step_Name s # names) then done_phase t (sched_phase m' (Step_Name t))
    else sched_phase m' (Step_Name t) = sched_phase m (Step_Name t)"
  proof (cases "Step_Name t = Step_Name s")
    case True
    with assms(1,2) t have "t = s" by (auto simp: distinct_map inj_on_def)
    moreover have "sched_phase m' (Step_Name s) = Some p" using assms(2,4,5) by (auto simp: all_handled_def)
    ultimately show ?thesis using outcome_done [OF assms(3)] by simp
  qed (use assms(5) t in \<open>auto simp: all_handled_def\<close>)
qed

context step_executor
begin

lemma run_ready_refines:
  assumes names: "distinct (map Step_Name (Workflow_Steps workflow))"
  shows "run_ready exec env cpm workflow ns any xs = (r, any', xs') \<Longrightarrow> distinct ns \<Longrightarrow>
    \<forall>n\<in>set ns. \<exists>s. Step_Name s = n \<and> enabled (Workflow_Steps workflow) (sched_of xs) s \<Longrightarrow>
    sched_run (Workflow_Steps workflow) (sched_of xs) r (sched_of xs') \<and>
    (r = None \<longrightarrow> any' = (any \<or> ns \<noteq> []) \<and> all_handled (Workflow_Steps workflow) ns (sched_of xs) (sched_of xs'))"
proof (induction ns arbitrary: any xs)
  case Nil
  then show ?case by (auto simp: all_handled_def intro: sched_run.stop)
next
  case (Cons n ns)
  let ?steps = "Workflow_Steps workflow"
  obtain s where s: "Step_Name s = n" "enabled ?steps (sched_of xs) s" using Cons.prems(3) by auto
  then have en: "s \<in> set ?steps" "sched_phase (sched_of xs) (Step_Name s) = Some StepPhasePending"
    "\<forall>dep\<in>set (Step_DependsOn s). sched_done ?steps (sched_of xs) dep" by (simp_all add: enabled_def)
  have f: "findStepByName ?steps n = Some s" using findStepByName_Some [OF names en(1)] s(1) by simp
  have pend: "StepStatus_Phase (get_status (xs_run xs) n) = StepPhasePending"
    using en(2) s(1) by (intro get_status_Some) (simp add: sched_of_def)
  obtain q xs1 where q: "process_step exec env cpm workflow s xs = (q, xs1)" by force
  obtain p ph where o: "step_outcome s (sched_run_phase (sched_of xs)) q p ph"
    "sched_of xs1 = take_step (Step_Name s) p ph (sched_of xs)" using process_step_refines [OF q] by blast
  show ?case
  proof (cases q)
    case (Some e)
    with Cons.prems(1) f pend q have "r = Some e" "xs' = xs1" by simp_all
    moreover have "sched_run ?steps (sched_of xs) (Some e) (sched_of xs1)"
      unfolding o(2) by (rule sched_run.halt [OF en]) (use o(1) Some in simp)
    ultimately show ?thesis by simp
  next
    case None
    with Cons.prems(1) f pend q have rest: "run_ready exec env cpm workflow ns True xs1 = (r, any', xs')" by simp
    have "\<exists>t. Step_Name t = k \<and> enabled ?steps (sched_of xs1) t" if k: "k \<in> set ns" for k
    proof -
      obtain t where t: "Step_Name t = k" "enabled ?steps (sched_of xs) t" using Cons.prems(3) k by auto
      moreover have "Step_Name t \<noteq> Step_Name s" using Cons.prems(2) k t(1) s(1) by auto
      ultimately show ?thesis using enabled_take [OF names s(2) t(2)] o(2) by auto
    qed
    with Cons.IH [OF rest] Cons.prems(2)
    have IH: "sched_run ?steps (sched_of xs1) r (sched_of xs')"
      "r = None \<longrightarrow> any' = (True \<or> ns \<noteq> []) \<and> all_handled ?steps ns (sched_of xs1) (sched_of xs')" by auto
    have "sched_run ?steps (sched_of xs) r (sched_of xs')"
      using sched_run.more [OF en] o None IH(1) by simp
    moreover have "all_handled ?steps (n # ns) (sched_of xs) (sched_of xs')" if "r = None"
      using all_handled_Cons [OF names en(1), of "sched_run_phase (sched_of xs)" p ph ns "sched_of xs" "sched_of xs'"]
        o None IH(2) that s(1) Cons.prems(2) by simp
    ultimately show ?thesis using IH(2) by auto
  qed
qed

end

text \<open>The orders in which the runtime may range over the node map.\<close>

definition orders_keys :: "'w env \<Rightarrow> bool" where
  "orders_keys env \<longleftrightarrow> (\<forall>i ks. distinct ks \<longrightarrow> distinct (env_order env i ks) \<and> set (env_order env i ks) = set ks)"

definition settled :: "Step list \<Rightarrow> sched \<Rightarrow> bool" where
  "settled steps m \<longleftrightarrow> (\<forall>s\<in>set steps. sched_phase m (Step_Name s) = Some StepPhasePending \<or>
     done_phase s (sched_phase m (Step_Name s)))"

definition unfinished :: "Step list \<Rightarrow> sched \<Rightarrow> nat" where
  "unfinished steps m = length (filter (\<lambda>s. \<not> done_phase s (sched_phase m (Step_Name s))) steps)"

lemma limit_ready_props:
  "limit_ready k ns = [] \<longleftrightarrow> ns = []" "set (limit_ready k ns) \<subseteq> set ns" "distinct ns \<Longrightarrow> distinct (limit_ready k ns)"
  by (auto simp: limit_ready_def dest: in_set_takeD)

lemma all_handled_progress:
  assumes "all_handled steps names m m'" "settled steps m"
  shows "settled steps m'" "unfinished steps m' \<le> unfinished steps m"
    "s \<in> set steps \<Longrightarrow> Step_Name s \<in> set names \<Longrightarrow> \<not> done_phase s (sched_phase m (Step_Name s)) \<Longrightarrow>
       unfinished steps m' < unfinished steps m"
proof -
  have keep: "done_phase t (sched_phase m' (Step_Name t))"
    if "t \<in> set steps" "done_phase t (sched_phase m (Step_Name t))" for t
    using that assms(1) by (auto simp: all_handled_def split: if_splits)
  show "settled steps m'"
    unfolding settled_def
  proof
    fix t assume t: "t \<in> set steps"
    with assms(1) have h: "if Step_Name t \<in> set names then done_phase t (sched_phase m' (Step_Name t))
        else sched_phase m' (Step_Name t) = sched_phase m (Step_Name t)" by (simp add: all_handled_def)
    with assms(2) t show "sched_phase m' (Step_Name t) = Some StepPhasePending \<or> done_phase t (sched_phase m' (Step_Name t))"
      by (auto simp: settled_def split: if_splits)
  qed
  have le: "length (filter (\<lambda>t. \<not> done_phase t (sched_phase m' (Step_Name t))) ts) \<le>
      length (filter (\<lambda>t. \<not> done_phase t (sched_phase m (Step_Name t))) ts)" if "set ts \<subseteq> set steps" for ts
    using that keep by (induction ts) auto
  then show "unfinished steps m' \<le> unfinished steps m" by (simp add: unfinished_def)
  assume s: "s \<in> set steps" "Step_Name s \<in> set names" "\<not> done_phase s (sched_phase m (Step_Name s))"
  then have "done_phase s (sched_phase m' (Step_Name s))" using assms(1) by (auto simp: all_handled_def)
  moreover obtain us vs where split: "steps = us @ s # vs" using s(1) by (auto simp: in_set_conv_decomp)
  moreover have "set us \<subseteq> set steps" "set vs \<subseteq> set steps" using split by auto
  ultimately show "unfinished steps m' < unfinished steps m"
    using s(3) le [of us] le [of vs] by (simp add: unfinished_def)
qed

text \<open>A graph that was built, with any order of its keys.\<close>

lemma built_dag_order:
  assumes "orders_keys env" "BuildDAG ks steps = Some (Inr d)" "set ks = Step_Name ` set steps"
  shows "built_dag steps (env_order env i (map fst (DAG_nodes d)), d)"
proof -
  note b = BuildDAG_InrD [OF assms(3,2)]
  have "distinct (map fst (DAG_nodes d))" using b(1) by (simp add: dag_wf_def wf_map_def)
  moreover have "set (map fst (DAG_nodes d)) = Step_Name ` set steps"
    using b(2) by (auto simp: dag_keys_def GetNode_def map_of_eq_None_iff set_eq_iff domIff)
  ultimately show ?thesis using assms by (auto simp: built_dag_def orders_keys_def)
qed

text \<open>The ready steps of an iteration, from a settled state.\<close>

definition ready_of :: "'w env \<Rightarrow> Workflow \<Rightarrow> DAG \<Rightarrow> nat \<Rightarrow> 'w xstate \<Rightarrow> string list" where
  "ready_of env workflow d k xs = limit_ready (max_concurrent workflow)
     (GetReadySteps (env_order env k (map fst (DAG_nodes d))) d
       (completed_steps (Workflow_Steps workflow) (xs_run xs)))"

lemma ready_of_props:
  assumes names: "distinct (map Step_Name (Workflow_Steps workflow))"
    and b: "built_dag (Workflow_Steps workflow) (env_order env k (map fst (DAG_nodes d)), d)"
    and m: "settled (Workflow_Steps workflow) (sched_of xs)"
  shows "ready_of env workflow d k xs = [] \<longleftrightarrow> all_done (Workflow_Steps workflow) (xs_run xs)"
    "distinct (ready_of env workflow d k xs)"
    "\<forall>n\<in>set (ready_of env workflow d k xs). \<exists>s. Step_Name s = n \<and> enabled (Workflow_Steps workflow) (sched_of xs) s"
proof -
  let ?steps = "Workflow_Steps workflow"
  note c = completed_steps_iff [OF names, of xs]
  have own: "sched_done ?steps (sched_of xs) (Step_Name s) \<longleftrightarrow> done_phase s (sched_phase (sched_of xs) (Step_Name s))"
    if "s \<in> set ?steps" for s
    using that names by (auto simp: sched_done_def distinct_map inj_on_def)
  show "ready_of env workflow d k xs = [] \<longleftrightarrow> all_done ?steps (xs_run xs)"
    using graph.nothing_ready_iff [OF b] own by (auto simp: ready_of_def limit_ready_props c all_done_iff)
  show "distinct (ready_of env workflow d k xs)"
    using graph.ready_distinct [OF b] by (simp add: ready_of_def limit_ready_props)
  show "\<forall>n\<in>set (ready_of env workflow d k xs). \<exists>s. Step_Name s = n \<and> enabled ?steps (sched_of xs) s"
  proof
    fix n assume "n \<in> set (ready_of env workflow d k xs)"
    then have "n \<in> set (GetReadySteps (env_order env k (map fst (DAG_nodes d))) d (completed_steps ?steps (xs_run xs)))"
      using limit_ready_props(2) unfolding ready_of_def by (rule set_mp [rotated])
    with graph.ready_iff [OF b, of n "completed_steps ?steps (xs_run xs)"] obtain s where
      s: "s \<in> set ?steps" "Step_Name s = n" "\<not> sched_done ?steps (sched_of xs) n"
        "\<forall>dep\<in>set (Step_DependsOn s). sched_done ?steps (sched_of xs) dep"
      by (auto simp: c)
    with m own [of s] have "enabled ?steps (sched_of xs) s" by (auto simp: enabled_def settled_def)
    with s(2) show "\<exists>s. Step_Name s = n \<and> enabled ?steps (sched_of xs) s" by blast
  qed
qed

context step_executor
begin

lemma step_loop_refines:
  assumes names: "distinct (map Step_Name (Workflow_Steps workflow))"
    and b: "\<And>i. built_dag (Workflow_Steps workflow) (env_order env i (map fst (DAG_nodes d)), d)"
  shows "step_loop k exec env cpm workflow d xs = (r, xs') \<Longrightarrow> settled (Workflow_Steps workflow) (sched_of xs) \<Longrightarrow>
    unfinished (Workflow_Steps workflow) (sched_of xs) < k \<Longrightarrow>
    \<exists>m. sched_run (Workflow_Steps workflow) (sched_of xs) r m \<and>
      (case r of None \<Rightarrow> (\<forall>s\<in>set (Workflow_Steps workflow). done_phase s (sched_phase m (Step_Name s))) \<and>
                          sched_of xs' = m\<lparr>sched_run_phase := WorkflowRunPhaseSucceeded\<rparr>
       | Some e \<Rightarrow> sched_of xs' = m)"
proof (induction k arbitrary: xs)
  case (Suc k)
  let ?steps = "Workflow_Steps workflow"
  let ?ready = "ready_of env workflow d (Suc k) xs"
  note ready = ready_of_props [OF names b Suc.prems(2), of "Suc k"]
  show ?case
  proof (cases "?ready = []")
    case True
    with ready(1) Suc.prems(1) have "r = None" "xs' = recordWorkflowSuccess env workflow xs"
      by (simp_all add: ready_of_def [symmetric] nothing_ready_def)
    with True ready(1) show ?thesis by (auto simp: all_done_iff intro!: exI [of _ "sched_of xs"] sched_run.stop)
  next
    case False
    obtain q any xs1 where q: "run_ready exec env cpm workflow ?ready False xs = (q, any, xs1)" by (metis prod_cases3)
    note rr = run_ready_refines [OF names q ready(2,3)]
    show ?thesis
    proof (cases q)
      case (Some e)
      with Suc.prems(1) False q have "r = Some e" "xs' = xs1" by (simp_all add: ready_of_def [symmetric])
      with rr Some show ?thesis by auto
    next
      case None
      with rr False have h: "any" "all_handled ?steps ?ready (sched_of xs) (sched_of xs1)"
        "sched_run ?steps (sched_of xs) None (sched_of xs1)" by auto
      with Suc.prems(1) None False q have rest: "step_loop k exec env cpm workflow d xs1 = (r, xs')"
        by (simp add: ready_of_def [symmetric])
      obtain s where s: "Step_Name s \<in> set ?ready" "enabled ?steps (sched_of xs) s"
        using ready(3) False by (metis list.set_intros(1) neq_Nil_conv)
      then have "\<not> done_phase s (sched_phase (sched_of xs) (Step_Name s))" "s \<in> set ?steps"
        by (auto simp: enabled_def done_phase_def)
      with all_handled_progress(3) [OF h(2) Suc.prems(2), of s] s(1) Suc.prems(3)
      have "unfinished ?steps (sched_of xs1) < k" by simp
      from Suc.IH [OF rest all_handled_progress(1) [OF h(2) Suc.prems(2)] this]
      show ?thesis using sched_run_append [OF h(3)] by blast
    qed
  qed
qed simp

end

interpretation run: step_executor "executeStep child env cur" for child :: "'w child" and env cur
  by unfold_locales (rule executeStep_frame)

subsection \<open>The whole run\<close>

lemma init_statuses_phase:
  "map_option StepStatus_Phase (map_of (init_statuses steps sts) n) =
     (case map_of sts n of Some st \<Rightarrow> Some (StepStatus_Phase st)
      | None \<Rightarrow> if n \<in> Step_Name ` set steps then Some StepPhasePending else None)"
  unfolding init_statuses_def
  by (induction steps arbitrary: sts) (auto simp: has_key_def split: option.splits)

lemma sched_of_begin_steps:
  "sched_phase (sched_of (begin_steps env workflow xs)) n =
     (case step_phase (xs_run xs) n of Some p \<Rightarrow> Some p
      | None \<Rightarrow> if n \<in> Step_Name ` set (Workflow_Steps workflow) then Some StepPhasePending else None)"
  "sched_order (sched_of (begin_steps env workflow xs)) = cm_completionOrder (xs_cm xs)"
proof -
  have "sched_phase (sched_of (start_run env workflow ys)) = sched_phase (sched_of ys) \<and>
      sched_order (sched_of (start_run env workflow ys)) = sched_order (sched_of ys)" for ys :: "'a xstate"
    by (auto simp: start_run_def sched_of_status [where g = "\<lambda>_. WorkflowRunPhaseRunning"] split: prod.splits)
  then show "sched_phase (sched_of (begin_steps env workflow xs)) n =
     (case step_phase (xs_run xs) n of Some p \<Rightarrow> Some p
      | None \<Rightarrow> if n \<in> Step_Name ` set (Workflow_Steps workflow) then Some StepPhasePending else None)"
    "sched_order (sched_of (begin_steps env workflow xs)) = cm_completionOrder (xs_cm xs)"
    by (auto simp: begin_steps_def sched_of_def on_run_def step_phase_def init_statuses_phase split: option.splits)
qed

text \<open>The statuses a run may start from: each step is unknown, pending or done.\<close>

definition startable :: "Workflow \<Rightarrow> WorkflowRun \<Rightarrow> bool" where
  "startable workflow run \<longleftrightarrow> (\<forall>s\<in>set (Workflow_Steps workflow).
     step_phase run (Step_Name s) = None \<or> step_phase run (Step_Name s) = Some StepPhasePending \<or>
     done_phase s (step_phase run (Step_Name s)))"

lemma settled_begin_steps: "startable workflow (xs_run xs) \<Longrightarrow> settled (Workflow_Steps workflow) (sched_of (begin_steps env workflow xs))"
  unfolding startable_def settled_def sched_of_begin_steps by (auto split: option.splits)

lemma run_steps_cases:
  assumes "run_steps exec env cpm workflow xs = (r, xs')" "orders_keys env"
  obtains (no_graph) e where "r = Some e" "sched_of xs' = (sched_of xs)\<lparr>sched_run_phase := WorkflowRunPhaseFailed\<rparr>"
  | (graph) d where "Workflow_Steps workflow \<noteq> []"
      "\<And>i. built_dag (Workflow_Steps workflow) (env_order env i (map fst (DAG_nodes d)), d)"
      "step_loop (2 * length (Workflow_Steps workflow)) exec env cpm workflow d (begin_steps env workflow xs) = (r, xs')"
proof -
  let ?steps = "Workflow_Steps workflow" and ?ks = "env_order env 0 (remdups (map Step_Name (Workflow_Steps workflow)))"
  have f: "sched_of (snd (failBeforeSteps env workflow e xs)) = (sched_of xs)\<lparr>sched_run_phase := WorkflowRunPhaseFailed\<rparr>" for e
    by (simp add: failBeforeSteps_def)
  have ks: "distinct ?ks" "set ?ks = Step_Name ` set ?steps" using assms(2) by (simp_all add: orders_keys_def)
  show thesis
  proof (cases "?steps = []")
    case True
    with assms(1) have "failBeforeSteps env workflow (errorf ''workflow has no steps'') xs = (r, xs')" by (simp add: run_steps_def)
    with f show thesis by (intro no_graph) (auto simp: failBeforeSteps_def)
  next
    case steps: False
    obtain b where b: "BuildDAG ?ks ?steps = Some b" using BuildDAG_total [OF ks] by blast
    show thesis
    proof (cases b)
      case (Inl e)
      with assms(1) steps b have "failBeforeSteps env workflow (wrapf ''failed to build DAG: '' e) xs = (r, xs')"
        by (simp add: run_steps_def)
      with f show thesis by (intro no_graph) (auto simp: failBeforeSteps_def)
    next
      case (Inr d)
      with assms(1) steps b show thesis
        by (intro graph [OF steps built_dag_order [OF assms(2) _ ks(2)]]) (simp_all add: run_steps_def)
    qed
  qed
qed

text \<open>What a run of the steps is, on the machine.\<close>

definition run_ok :: "Step list \<Rightarrow> sched \<Rightarrow> goerror option \<Rightarrow> sched \<Rightarrow> bool" where
  "run_ok steps m0 r m' \<longleftrightarrow> (\<exists>m. sched_run steps m0 r m \<and>
     (case r of None \<Rightarrow> (\<forall>s\<in>set steps. done_phase s (sched_phase m (Step_Name s))) \<and>
                         m' = m\<lparr>sched_run_phase := WorkflowRunPhaseSucceeded\<rparr>
      | Some e \<Rightarrow> m' = m))"

lemma unfinished_le: "unfinished steps m \<le> length steps"
  by (simp add: unfinished_def)

context step_executor
begin

lemma run_steps_refines:
  assumes "run_steps exec env cpm workflow xs = (r, xs')" "orders_keys env"
    and "distinct (map Step_Name (Workflow_Steps workflow))" "startable workflow (xs_run xs)"
  shows "(\<exists>e. r = Some e \<and> sched_of xs' = (sched_of xs)\<lparr>sched_run_phase := WorkflowRunPhaseFailed\<rparr>) \<or>
    run_ok (Workflow_Steps workflow) (sched_of (begin_steps env workflow xs)) r (sched_of xs')"
  using assms(1,2)
proof (cases rule: run_steps_cases)
  case (graph d)
  have "unfinished (Workflow_Steps workflow) (sched_of (begin_steps env workflow xs)) < 2 * length (Workflow_Steps workflow)"
    using unfinished_le [of "Workflow_Steps workflow" "sched_of (begin_steps env workflow xs)"] graph(1)
    by (cases "Workflow_Steps workflow") auto
  from step_loop_refines [OF assms(3) graph(2,3) settled_begin_steps [OF assms(4)] this]
  show ?thesis by (simp add: run_ok_def)
qed blast

end

end
