(* ===== verification/Run_Properties.thy ===== *)
theory Run_Properties
  imports Scheduler_Spec
begin

text \<open>
  The properties of \<^verbatim>\<open>ExecuteWorkflow\<close> as a whole: what a run that returns has done, the order in which
  steps ran, what a resumed run keeps, and what the outputs reveal. They rest on the refinement of
  theory Scheduler_Spec.
\<close>

subsection \<open>The parts of a run\<close>

lemma store_variable_run [simp]:
  "xs_run (store_variable n v xs) = xs_run xs"
  "cm_completionOrder (xs_cm (store_variable n v xs)) = cm_completionOrder (xs_cm xs)"
  by (simp_all add: store_variable_def split: option.splits)

lemma eval_variables_run: "eval_variables env vs vars xs = (r, xs') \<Longrightarrow> xs_run xs' = xs_run xs \<and>
    cm_completionOrder (xs_cm xs') = cm_completionOrder (xs_cm xs)"
proof (induction vs arbitrary: vars xs)
  case (Cons v vs)
  obtain q w where q: "env_eval env (Variable_Expression v) vars (xs_world xs) = (q, w)" by force
  show ?case
  proof (cases q)
    case (Inr x)
    let ?xs = "store_variable (Variable_Name v) x (xs\<lparr>xs_world := w\<rparr>)"
    show ?thesis
    proof (cases "read_context ?xs")
      case ctx: (Inr ctx)
      with Cons.prems q Inr have "eval_variables env vs (BuildVariableMap ctx) ?xs = (r, xs')" by (simp add: Let_def)
      from Cons.IH [OF this] show ?thesis by simp
    qed (use Cons.prems q Inr in \<open>auto simp: Let_def\<close>)
  qed (use Cons.prems q in \<open>auto\<close>)
qed simp

lemma evaluateWorkflowVariables_run:
  "evaluateWorkflowVariables env workflow xs = (r, xs') \<Longrightarrow> xs_run xs' = xs_run xs \<and>
     cm_completionOrder (xs_cm xs') = cm_completionOrder (xs_cm xs)"
  by (auto simp: evaluateWorkflowVariables_def Let_def split: if_splits sum.splits dest: eval_variables_run)

lemma InitializeContext_order:
  "InitializeContext workflow inputs cm = Inr cm' \<Longrightarrow> cm_completionOrder cm' = cm_completionOrder cm"
  by (auto simp: InitializeContext_def split: if_splits sum.splits)

lemma sched_of_cleanup [simp]: "sched_of (checkpointCleanup env cpm workflow xs) = sched_of xs"
  by (auto simp: checkpointCleanup_def Let_def sched_of_status [where g = "\<lambda>p. p"] split: option.splits prod.splits sum.splits)

definition with_limit :: "'w env \<Rightarrow> Workflow \<Rightarrow> 'w env" where
  "with_limit env workflow = env\<lparr>env_eval := env_celWithLimit env (ResolveCELCostLimit (Some (Workflow_Spec workflow)))\<rparr>"

lemma orders_keys_limit [simp]: "orders_keys (with_limit env workflow) = orders_keys env"
  by (simp add: orders_keys_def with_limit_def)

text \<open>What \<^verbatim>\<open>loadCheckpointIfNeeded\<close> leaves: the run as it was, or the snapshot that was loaded.\<close>

lemma load_cases:
  assumes "loadCheckpointIfNeeded env cpm xs = (q, xs1)"
  obtains (failed) e where "q = Inl e" "xs_run xs1 = xs_run xs" "xs_cm xs1 = xs_cm xs" "is_restart (xs_run xs)" "cpm \<noteq> None"
  | (absent) "q = Inr False" "xs_run xs1 = xs_run xs" "xs_cm xs1 = xs_cm xs"
  | (restored) snap m w where "q = Inr True" "is_restart (xs_run xs)" "cpm = Some m" "cpm_enabled m"
      "Load (env_client env) m (xs_world xs) = (Inr (Some snap), w)" "xs1 = restore_snapshot snap (xs\<lparr>xs_world := w\<rparr>)"
proof (cases "IsInitialized (xs_cm xs) \<or> \<not> is_restart (xs_run xs) \<or> cpm = None \<or> \<not> cpm_enabled (the cpm)")
  case True
  with assms have "q = Inr False" "xs1 = xs" by (auto simp: loadCheckpointIfNeeded_def split: option.splits if_splits)
  then show thesis by (simp add: absent)
next
  case False
  then obtain m where m: "cpm = Some m" "cpm_enabled m" by auto
  obtain l w where l: "Load (env_client env) m (xs_world xs) = (l, w)" by force
  consider e where "l = Inl e" | "l = Inr None" | snap where "l = Inr (Some snap)" by (cases l) auto
  then show thesis
  proof cases
    case 1
    with assms False m l show thesis by (intro failed) (auto simp: loadCheckpointIfNeeded_def)
  next
    case 2
    with assms False m l have "q = Inr False" "xs1 = xs\<lparr>xs_world := w\<rparr>" by (auto simp: loadCheckpointIfNeeded_def)
    then show thesis by (simp add: absent)
  next
    case 3
    with assms False m l show thesis by (intro restored) (auto simp: loadCheckpointIfNeeded_def)
  qed
qed

lemma ExecuteWorkflow_cases:
  assumes "ExecuteWorkflow depth env cpm workflow xs = (r, xs')"
  obtains (not_loaded) e where "r = Some e" "xs_run xs' = xs_run xs" "sched_of xs' = sched_of xs" "is_restart (xs_run xs)" "cpm \<noteq> None"
      "\<nexists>b ys. loadCheckpointIfNeeded (with_limit env workflow) cpm xs = (Inr b, ys)"
  | (no_context) e restored xs1 where "loadCheckpointIfNeeded (with_limit env workflow) cpm xs = (Inr restored, xs1)"
      "r = Some e" "sched_of xs' = (sched_of xs1)\<lparr>sched_run_phase := WorkflowRunPhaseFailed\<rparr>"
  | (no_variables) e where "r = Some e" "xs_run xs' = xs_run xs" "sched_of xs' = sched_of xs" "WorkflowSpec_Variables (Workflow_Spec workflow) \<noteq> []"
      "\<nexists>ys. loadCheckpointIfNeeded (with_limit env workflow) cpm xs = (Inr True, ys)"
  | (steps) restored xs1 xs2 xs3 where "loadCheckpointIfNeeded (with_limit env workflow) cpm xs = (Inr restored, xs1)"
      "xs_run xs2 = xs_run xs1" "cm_completionOrder (xs_cm xs2) = cm_completionOrder (xs_cm xs1)"
      "run_steps (executeStep (child_at depth) (with_limit env workflow) (Some workflow)) (with_limit env workflow) cpm workflow xs2 = (r, xs3)"
      "sched_of xs' = sched_of xs3"
proof -
  let ?env = "with_limit env workflow"
  obtain q xs1 where q: "loadCheckpointIfNeeded ?env cpm xs = (q, xs1)" by force
  note ew = assms [unfolded ExecuteWorkflow_def ExecuteWorkflow_with_def Let_def with_limit_def [symmetric] q]
  show thesis
  proof (cases q)
    case (Inl e)
    with ew have "r = Some e" "xs' = xs1" by simp_all
    moreover from q Inl have "xs_run xs1 = xs_run xs \<and> xs_cm xs1 = xs_cm xs \<and> is_restart (xs_run xs) \<and> cpm \<noteq> None"
      by (cases rule: load_cases) auto
    ultimately show thesis using q Inl by (intro not_loaded) (simp_all add: sched_of_def)
  next
    case (Inr restored)
    let ?init = "InitializeContext workflow (WorkflowRunSpec_InputValues (WorkflowRun_Spec (xs_run xs1))) (xs_cm xs1)"
    show thesis
    proof (cases ?init)
      case (Inl e)
      with ew Inr have f: "failBeforeSteps ?env workflow (wrapf ''failed to initialize context: '' e) xs1 = (r, xs')" by simp
      then show thesis using q Inr by (intro no_context [of restored xs1]) (auto simp: failBeforeSteps_def)
    next
      case cm: (Inr cm)
      obtain v xs2 where v: "(if restored then (None, xs1\<lparr>xs_cm := cm\<rparr>)
          else evaluateWorkflowVariables ?env workflow (xs1\<lparr>xs_cm := cm\<rparr>)) = (v, xs2)" by force
      have run: "xs_run xs2 = xs_run xs1" "cm_completionOrder (xs_cm xs2) = cm_completionOrder (xs_cm xs1)"
        using v evaluateWorkflowVariables_run [of ?env workflow "xs1\<lparr>xs_cm := cm\<rparr>" v xs2] InitializeContext_order [OF cm]
        by (auto split: if_splits)
      show thesis
      proof (cases v)
        case (Some e)
        with v have vars: "\<not> restored" "WorkflowSpec_Variables (Workflow_Spec workflow) \<noteq> []"
          by (auto simp: evaluateWorkflowVariables_def Let_def split: if_splits)
        with q Inr have "xs_run xs1 = xs_run xs" "xs_cm xs1 = xs_cm xs" by (cases rule: load_cases; auto)+
        with q ew Inr cm v Some run vars show thesis by (intro no_variables [of e]) (auto simp: sched_of_def split: if_splits)
      next
        case None
        obtain xs3 where "run_steps (executeStep (child_at depth) ?env (Some workflow)) ?env cpm workflow xs2 = (r, xs3)"
          "xs' = checkpointCleanup ?env cpm workflow xs3"
          using ew Inr cm v None by (auto split: prod.splits)
        with q Inr run show thesis by (intro steps) simp_all
      qed
    qed
  qed
qed

lemma not_restored:
  assumes "loadCheckpointIfNeeded env cpm xs = (Inr b, xs1)" "\<not> is_restart (xs_run xs) \<or> cpm = None"
  shows "xs_run xs1 = xs_run xs" "xs_cm xs1 = xs_cm xs"
  using assms(1) by (cases rule: load_cases; use assms(2) in auto)+

lemma run_ok_None:
  "run_ok steps m0 None m' \<Longrightarrow> sched_run_phase m' = WorkflowRunPhaseSucceeded \<and>
     (\<forall>s\<in>set steps. done_phase s (sched_phase m' (Step_Name s)))"
  by (auto simp: run_ok_def)

lemma run_ok_phases: "run_ok steps m0 r m' \<Longrightarrow> \<exists>m. sched_run steps m0 r m \<and> sched_phase m' = sched_phase m \<and> sched_order m' = sched_order m"
  by (auto simp: run_ok_def split: option.splits)

subsection \<open>Properties\<close>

text \<open>
  C1: A run that is not a restart and finds every step unknown, pending or done always returns with
  an outcome. If \<^verbatim>\<open>ExecuteWorkflow\<close> returns nil the run has succeeded and every step is done; it never
  returns nil with steps left, so twice the number of steps is enough iterations. If it returns an
  error the run is marked failed, or a step waits for its callback, or the process died, or the
  evaluation of the workflow's variables failed, which alone leaves the run as it was.
\<close>

theorem ExecuteWorkflow_outcome:
  assumes "orders_keys env" "distinct (map Step_Name (Workflow_Steps workflow))" "startable workflow (xs_run xs)"
    and "\<not> is_restart (xs_run xs) \<or> cpm = None"
    and exec: "ExecuteWorkflow depth env cpm workflow xs = (r, xs')"
  shows "case r of
      None \<Rightarrow> run_phase (xs_run xs') = WorkflowRunPhaseSucceeded \<and> all_done (Workflow_Steps workflow) (xs_run xs')
    | Some e \<Rightarrow> run_phase (xs_run xs') = WorkflowRunPhaseFailed \<or> fatal e \<or>
        (errors_is e ErrAwaitingCallback \<and>
          (\<exists>s\<in>set (Workflow_Steps workflow). step_phase (xs_run xs') (Step_Name s) = Some StepPhaseWaiting)) \<or>
        (WorkflowSpec_Variables (Workflow_Spec workflow) \<noteq> [] \<and> xs_run xs' = xs_run xs)"
  using exec
proof (cases rule: ExecuteWorkflow_cases)
  case (steps restored xs1 xs2 xs3)
  let ?steps = "Workflow_Steps workflow"
  have run: "xs_run xs2 = xs_run xs" using not_restored(1) [OF steps(1) assms(4)] steps(2) by simp
  with run.run_steps_refines [OF steps(4) _ assms(2)] assms(1,3) consider
    (early) e where "r = Some e" "sched_run_phase (sched_of xs') = WorkflowRunPhaseFailed"
    | (ran) "run_ok ?steps (sched_of (begin_steps (with_limit env workflow) workflow xs2)) r (sched_of xs')"
    using steps(5) by auto
  then show ?thesis
  proof cases
    case early
    then show ?thesis by (simp add: sched_of_def)
  next
    case ran
    show ?thesis
    proof (cases r)
      case None
      with ran have "sched_run_phase (sched_of xs') = WorkflowRunPhaseSucceeded"
        "\<forall>s\<in>set ?steps. done_phase s (sched_phase (sched_of xs') (Step_Name s))" using run_ok_None by blast+
      with None show ?thesis by (simp add: all_done_iff) (simp add: sched_of_def)
    next
      case (Some e)
      with ran have "sched_run ?steps (sched_of (begin_steps (with_limit env workflow) workflow xs2)) (Some e) (sched_of xs')"
        by (auto simp: run_ok_def)
      from sched_run_error [OF this] Some show ?thesis by (auto simp: sched_of_def)
    qed
  qed
next
  case (no_context e restored xs1)
  then show ?thesis by (simp add: sched_of_def)
qed (use assms(4) in auto)

text \<open>A run that starts afresh ends with the dependencies of every started step done, or has started none.\<close>

lemma fresh_run_order:
  assumes "orders_keys env" "distinct (map Step_Name (Workflow_Steps workflow))"
    and fresh: "statuses (xs_run xs) = []" "cm_completionOrder (xs_cm xs) = []" "\<not> is_restart (xs_run xs)"
    and exec: "ExecuteWorkflow depth env cpm workflow xs = (r, xs')"
  shows "dependencies_first (Workflow_Steps workflow) (sched_of xs') \<and> order_ok (Workflow_Steps workflow) (sched_of xs') \<or>
    sched_phase (sched_of xs') = (\<lambda>_. None) \<and> sched_order (sched_of xs') = []"
proof -
  let ?steps = "Workflow_Steps workflow"
  have nr: "\<not> is_restart (xs_run xs) \<or> cpm = None" using fresh(3) by simp
  have none: "sched_phase (sched_of xs) = (\<lambda>_. None)" "sched_order (sched_of xs) = []"
    using fresh(1,2) by (simp_all add: sched_of_def step_phase_def fun_eq_iff)
  show ?thesis
    using exec
  proof (cases rule: ExecuteWorkflow_cases)
    case (steps restored xs1 xs2 xs3)
    have run: "xs_run xs2 = xs_run xs" "cm_completionOrder (xs_cm xs2) = []"
      using not_restored [OF steps(1) nr] steps(2,3) fresh(2) by simp_all
    let ?m0 = "sched_of (begin_steps (with_limit env workflow) workflow xs2)"
    have st: "startable workflow (xs_run xs2)" using run(1) fresh(1) by (simp add: startable_def step_phase_def)
    from run.run_steps_refines [OF steps(4) _ assms(2) st] assms(1) consider
      (early) "sched_of xs' = (sched_of xs2)\<lparr>sched_run_phase := WorkflowRunPhaseFailed\<rparr>" | (ran) "run_ok ?steps ?m0 r (sched_of xs')"
      using steps(5) by auto
    then show ?thesis
    proof cases
      case early
      then show ?thesis using run fresh(1) by (simp add: sched_of_def step_phase_def fun_eq_iff)
    next
      case ran
      then obtain m where m: "sched_run ?steps ?m0 r m" "sched_phase (sched_of xs') = sched_phase m" "sched_order (sched_of xs') = sched_order m"
        using run_ok_phases by blast
      have "dependencies_first ?steps ?m0" "order_ok ?steps ?m0"
        using run fresh(1) by (simp_all add: dependencies_first_def order_ok_def sched_of_begin_steps step_phase_def split: if_splits)
      with m(1) have "dependencies_first ?steps m" "order_ok ?steps m"
        using sched_run_dependencies_first [OF assms(2)] sched_run_order_ok [OF assms(2)] by blast+
      with m(2,3) show ?thesis by (simp add: dependencies_first_def order_ok_def sched_done_def)
    qed
  next
    case (no_context e restored xs1)
    then show ?thesis using not_restored [OF no_context(1) nr] none by (simp add: sched_of_def)
  qed (use none in simp_all)
qed

text \<open>
  C2: In a run that starts afresh no step is started before its dependencies are done: at every
  return, a step that has left the pending state has only dependencies that succeeded, were skipped,
  or failed with policy Continue. The recorded completion order lists exactly the steps that
  succeeded, each once, and each after those of its dependencies that succeeded.
\<close>

theorem ExecuteWorkflow_order:
  assumes "orders_keys env" "distinct (map Step_Name (Workflow_Steps workflow))"
    and fresh: "statuses (xs_run xs) = []" "cm_completionOrder (xs_cm xs) = []" "\<not> is_restart (xs_run xs)"
    and exec: "ExecuteWorkflow depth env cpm workflow xs = (r, xs')"
  defines "finished n \<equiv> \<exists>s\<in>set (Workflow_Steps workflow). Step_Name s = n \<and> isStepDone s (get_status (xs_run xs') n)"
    and "order \<equiv> cm_completionOrder (xs_cm xs')"
  shows "(\<forall>s\<in>set (Workflow_Steps workflow).
      step_phase (xs_run xs') (Step_Name s) \<notin> {None, Some StepPhasePending} \<longrightarrow> (\<forall>dep\<in>set (Step_DependsOn s). finished dep)) \<and>
    distinct order \<and> (\<forall>n. n \<in> set order \<longleftrightarrow> step_phase (xs_run xs') n = Some StepPhaseSucceeded) \<and>
    (\<forall>i<length order. \<forall>s\<in>set (Workflow_Steps workflow). Step_Name s = order ! i \<longrightarrow>
       (\<forall>dep\<in>set (Step_DependsOn s). step_phase (xs_run xs') dep = Some StepPhaseSucceeded \<longrightarrow> dep \<in> set (take i order)))"
proof -
  from fresh_run_order [OF assms(1,2) fresh exec] show ?thesis
    unfolding finished_def order_def isStepDone_iff
    by (auto simp: dependencies_first_def order_ok_def sched_done_def) (auto simp: sched_of_def)
qed

text \<open>
  C3: The executor implements the abstract scheduler: what it does to the steps from the moment it
  starts them until it returns is a run of the machine of theory Scheduler_Spec, in which a step
  leaves the pending state only when its dependencies are done and only into one of the documented
  outcomes; a run that ends without error has every step done. Only a workflow with no steps or with
  a bad graph fails before the machine starts, and then no step has changed.
\<close>

theorem run_steps_implements_machine:
  assumes "run_steps (executeStep child env cur) env cpm workflow xs = (r, xs')" "orders_keys env"
    and "distinct (map Step_Name (Workflow_Steps workflow))" "startable workflow (xs_run xs)"
  shows "(\<exists>e. r = Some e \<and> sched_of xs' = (sched_of xs)\<lparr>sched_run_phase := WorkflowRunPhaseFailed\<rparr>) \<or>
    run_ok (Workflow_Steps workflow) (sched_of (begin_steps env workflow xs)) r (sched_of xs')"
  using assms by (rule run.run_steps_refines)

lemma sched_run_order_grows:
  "sched_run steps m r m' \<Longrightarrow> \<exists>rest. sched_order m' = sched_order m @ rest \<and>
     (\<forall>n\<in>set rest. sched_phase m n = Some StepPhasePending)"
proof (induction rule: sched_run.induct)
  case (more s m p ph r m')
  then obtain rest where rest: "sched_order m' = sched_order (take_step (Step_Name s) p ph m) @ rest"
    "\<forall>n\<in>set rest. sched_phase (take_step (Step_Name s) p ph m) n = Some StepPhasePending" by blast
  from rest(2) outcome_not_pending [OF more(4)] more(2) have "\<forall>n\<in>set rest. sched_phase m n = Some StepPhasePending"
    by (auto split: if_splits)
  with rest(1) more(2) show ?case by (auto simp: take_step_def)
next
  case (halt s m e p ph)
  then show ?case by (auto simp: take_step_def)
qed simp

text \<open>
  C4: A run resumed from a checkpoint does not run again what the checkpoint has settled: every step
  whose status in the snapshot is not pending has that phase when \<^verbatim>\<open>ExecuteWorkflow\<close> returns, and the
  completion order continues the snapshot's, adding only steps that were pending in it.
\<close>

theorem resume_keeps_settled_steps:
  assumes "orders_keys env" "distinct (map Step_Name (Workflow_Steps workflow))"
    and restart: "is_restart (xs_run xs)" "cm_contextInitialized (xs_cm xs) = False" "cpm_enabled m"
    and load: "Load (env_client env) m (xs_world xs) = (Inr (Some snap), w)"
    and snap: "startable workflow (upd_status (\<lambda>s. s\<lparr>Status_StepStatuses := Snapshot_StepStatuses snap\<rparr>) (xs_run xs))"
    and exec: "ExecuteWorkflow depth env (Some m) workflow xs = (r, xs')"
  shows "(\<forall>n st. map_of (Snapshot_StepStatuses snap) n = Some st \<longrightarrow> StepStatus_Phase st \<noteq> StepPhasePending \<longrightarrow>
      step_phase (xs_run xs') n = Some (StepStatus_Phase st)) \<and>
    (Snapshot_CompletionOrder snap \<noteq> [] \<longrightarrow> (\<exists>rest. cm_completionOrder (xs_cm xs') = Snapshot_CompletionOrder snap @ rest \<and>
      (\<forall>n\<in>set rest. \<forall>st. map_of (Snapshot_StepStatuses snap) n = Some st \<longrightarrow> StepStatus_Phase st = StepPhasePending)))"
proof -
  let ?steps = "Workflow_Steps workflow" and ?env = "with_limit env workflow"
  let ?xs = "restore_snapshot snap (xs\<lparr>xs_world := w\<rparr>)"
  have ld: "loadCheckpointIfNeeded ?env (Some m) xs = (Inr True, ?xs)"
    using restart load by (simp add: loadCheckpointIfNeeded_def IsInitialized_def with_limit_def)
  have phase: "step_phase (xs_run ?xs) n = map_option StepStatus_Phase (map_of (Snapshot_StepStatuses snap) n)" for n
    by (simp add: restore_snapshot_def Let_def on_run_def step_phase_def)
  have order: "Snapshot_CompletionOrder snap \<noteq> [] \<Longrightarrow> cm_completionOrder (xs_cm ?xs) = Snapshot_CompletionOrder snap"
    by (simp add: restore_snapshot_def Let_def on_run_def SetCompletionOrder_def)
  have same: "(\<forall>n. step_phase (xs_run xs') n = step_phase (xs_run ?xs) n) \<and>
      cm_completionOrder (xs_cm xs') = cm_completionOrder (xs_cm ?xs) \<or>
    (\<exists>m0 q. sched_run ?steps m0 r q \<and> sched_phase q = sched_phase (sched_of xs') \<and> sched_order q = sched_order (sched_of xs') \<and>
       (\<forall>n. step_phase (xs_run ?xs) n \<noteq> None \<longrightarrow> sched_phase m0 n = step_phase (xs_run ?xs) n) \<and>
       sched_order m0 = cm_completionOrder (xs_cm ?xs))"
    using exec
  proof (cases rule: ExecuteWorkflow_cases)
    case (steps restored xs1 xs2 xs3)
    with ld have x: "xs_run xs2 = xs_run ?xs" "cm_completionOrder (xs_cm xs2) = cm_completionOrder (xs_cm ?xs)" by simp_all
    have "startable workflow (xs_run xs2)" using snap x(1) by (simp add: restore_snapshot_def Let_def on_run_def)
    from run.run_steps_refines [OF steps(4) _ assms(2) this] assms(1) steps(5)
    consider (early) "sched_of xs' = (sched_of xs2)\<lparr>sched_run_phase := WorkflowRunPhaseFailed\<rparr>"
      | (ran) "run_ok ?steps (sched_of (begin_steps ?env workflow xs2)) r (sched_of xs')" by auto
    then show ?thesis
    proof cases
      case ran
      from run_ok_phases [OF this] obtain q where
        "sched_run ?steps (sched_of (begin_steps ?env workflow xs2)) r q"
        "sched_phase (sched_of xs') = sched_phase q" "sched_order (sched_of xs') = sched_order q" by blast
      then show ?thesis using x
        by (intro disjI2 exI [of _ "sched_of (begin_steps ?env workflow xs2)"] exI [of _ q])
          (auto simp: sched_of_begin_steps split: option.splits)
    qed (use x in \<open>simp add: sched_of_def\<close>)
  next
    case (no_context e restored xs1)
    with ld show ?thesis by (simp add: sched_of_def)
  qed (use ld in auto)
  then show ?thesis
  proof
    assume eq: "(\<forall>n. step_phase (xs_run xs') n = step_phase (xs_run ?xs) n) \<and>
      cm_completionOrder (xs_cm xs') = cm_completionOrder (xs_cm ?xs)"
    with phase order show ?thesis by auto
  next
    assume "\<exists>m0 q. sched_run ?steps m0 r q \<and> sched_phase q = sched_phase (sched_of xs') \<and> sched_order q = sched_order (sched_of xs') \<and>
       (\<forall>n. step_phase (xs_run ?xs) n \<noteq> None \<longrightarrow> sched_phase m0 n = step_phase (xs_run ?xs) n) \<and>
       sched_order m0 = cm_completionOrder (xs_cm ?xs)"
    then obtain m0 q where q: "sched_run ?steps m0 r q" "sched_phase q = step_phase (xs_run xs')" "sched_order q = cm_completionOrder (xs_cm xs')"
      and m0: "\<And>n. step_phase (xs_run ?xs) n \<noteq> None \<Longrightarrow> sched_phase m0 n = step_phase (xs_run ?xs) n"
        "sched_order m0 = cm_completionOrder (xs_cm ?xs)" by (auto simp: sched_of_def)
    have m0': "sched_phase m0 n = Some (StepStatus_Phase st)" if "map_of (Snapshot_StepStatuses snap) n = Some st" for n st
      using m0(1) [of n] that by (simp add: phase)
    have "step_phase (xs_run xs') n = Some (StepStatus_Phase st)"
      if "map_of (Snapshot_StepStatuses snap) n = Some st" "StepStatus_Phase st \<noteq> StepPhasePending" for n st
      using sched_run_keeps [OF q(1), of n] m0' [OF that(1)] that(2) q(2) by simp
    moreover obtain rest where rest: "cm_completionOrder (xs_cm xs') = cm_completionOrder (xs_cm ?xs) @ rest"
      "\<forall>n\<in>set rest. sched_phase m0 n = Some StepPhasePending"
      using sched_run_order_grows [OF q(1)] q(3) m0(2) by auto
    ultimately show ?thesis using m0' order by fastforce
  qed
qed

subsection \<open>Outputs\<close>

text \<open>The loop over the outputs keeps any relation between the two maps that each output keeps.\<close>

lemma eval_workflow_outputs_keeps:
  assumes step: "\<And>d v raw om os. d \<in> set ds \<Longrightarrow> P om os \<Longrightarrow> P (AList.update (Output_Name d) v om)
      (case output_json d v of None \<Rightarrow> os | Some raw \<Rightarrow> AList.update (Output_Name d) raw os)"
    and "eval_workflow_outputs env name ns base ds om os w = (om', os', w')" "P om os"
  shows "P om' os'"
  using assms
proof (induction ds arbitrary: om os w)
  case (Cons d ds)
  obtain v w1 where v: "workflow_output env d (BuildVariableMap (AList.update ''outputs'' (VMap om) base)) w = (v, w1)" by force
  have tl: "\<And>e v raw om os. e \<in> set ds \<Longrightarrow> P om os \<Longrightarrow> P (AList.update (Output_Name e) v om)
      (case output_json e v of None \<Rightarrow> os | Some raw \<Rightarrow> AList.update (Output_Name e) raw os)" using Cons.prems(1) by simp
  show ?case
  proof (cases v)
    case None
    with Cons.IH [OF tl] Cons.prems(2,3) v show ?thesis by simp
  next
    case (Some r)
    let ?om = "AList.update (Output_Name d) r om"
    let ?os = "case output_json d r of None \<Rightarrow> os | Some raw \<Rightarrow> AList.update (Output_Name d) raw os"
    have p: "P ?om ?os" using Cons.prems(1) [of d om os r] Cons.prems(3) by simp
    obtain w2 where "eval_workflow_outputs env name ns base ds ?om ?os w2 = (om', os', w')"
      using Cons.prems(2) v Some by (auto simp: Let_def split: option.splits)
    from Cons.IH [OF tl this p] show ?thesis .
  qed
qed simp

lemma evaluateWorkflowOutputs_status:
  assumes "\<And>d v raw om os. d \<in> set (WorkflowSpec_Outputs (Workflow_Spec workflow)) \<Longrightarrow> P om os \<Longrightarrow>
      P (AList.update (Output_Name d) v om) (case output_json d v of None \<Rightarrow> os | Some raw \<Rightarrow> AList.update (Output_Name d) raw os)"
    and "P [] []" "evaluateWorkflowOutputs env workflow xs = (None, xs')" "Status_Outputs (WorkflowRun_Status (xs_run xs)) = []"
    and "WorkflowSpec_Outputs (Workflow_Spec workflow) \<noteq> []"
  shows "\<exists>ctx om. GetContext (xs_cm xs') = Some ctx \<and> map_of ctx ''outputs'' = Some (VMap om) \<and>
    P om (Status_Outputs (WorkflowRun_Status (xs_run xs')))"
proof -
  obtain ctx where ctx: "GetContext (xs_cm xs) = Some ctx"
    using assms(3,5) by (auto simp: evaluateWorkflowOutputs_def Let_def split: option.splits)
  obtain om os w where o: "eval_workflow_outputs env (WorkflowRef_Name (WorkflowRunSpec_WorkflowRef (WorkflowRun_Spec (xs_run xs))))
      (WorkflowRun_Namespace (xs_run xs))
      (AList.update ''stepStatus'' (VMap (stepStatusProjection (Some (statuses (xs_run xs))))) ctx)
      (WorkflowSpec_Outputs (Workflow_Spec workflow)) [] [] (xs_world xs) = (om, os, w)" by (metis prod_cases3)
  have "P om os" by (rule eval_workflow_outputs_keeps [OF assms(1) o assms(2)])
  then show ?thesis using assms(3-5) ctx o by (auto simp: evaluateWorkflowOutputs_def Let_def GetContext_def)
qed

text \<open>
  C11: A workflow output marked sensitive never reaches the status of the run: under a name all of
  whose definitions are sensitive the status has the fixed redaction marker or nothing. The status
  has nothing under other names than those of the outputs, and under the name of an output that is
  not sensitive the JSON of a value.
\<close>

definition may_show :: "Output \<Rightarrow> raw_json \<Rightarrow> bool" where
  "may_show d raw \<longleftrightarrow> (if Output_Sensitive d then raw = redacted_json else \<exists>v. marshal v = Some raw)"

lemma output_json_may_show: "output_json d v = Some raw \<Longrightarrow> may_show d raw"
  by (auto simp: output_json_def may_show_def split: if_splits)

theorem sensitive_outputs_not_in_status:
  assumes "evaluateWorkflowOutputs env workflow xs = (None, xs')" "Status_Outputs (WorkflowRun_Status (xs_run xs)) = []"
    and "WorkflowSpec_Outputs (Workflow_Spec workflow) \<noteq> []"
  shows "\<forall>k raw. map_of (Status_Outputs (WorkflowRun_Status (xs_run xs'))) k = Some raw \<longrightarrow>
    (\<exists>d\<in>set (WorkflowSpec_Outputs (Workflow_Spec workflow)). Output_Name d = k \<and>
       (if Output_Sensitive d then raw = redacted_json else \<exists>v. marshal v = Some raw))"
proof -
  let ?P = "\<lambda>(om :: gomap) os. \<forall>k raw. map_of os k = Some raw \<longrightarrow>
    (\<exists>d\<in>set (WorkflowSpec_Outputs (Workflow_Spec workflow)). Output_Name d = k \<and> may_show d raw)"
  have step: "?P (AList.update (Output_Name d) v om) (case output_json d v of None \<Rightarrow> os | Some raw \<Rightarrow> AList.update (Output_Name d) raw os)"
    if "d \<in> set (WorkflowSpec_Outputs (Workflow_Spec workflow))" "?P om os" for d v om os
    using that output_json_may_show by (auto split: option.splits if_splits)
  have "\<exists>ctx om. GetContext (xs_cm xs') = Some ctx \<and> map_of ctx ''outputs'' = Some (VMap om) \<and>
      ?P om (Status_Outputs (WorkflowRun_Status (xs_run xs')))"
    by (rule evaluateWorkflowOutputs_status [where P = ?P, OF step _ assms]) simp_all
  then show ?thesis unfolding may_show_def by blast
qed

text \<open>The in-memory context, on the other hand, has the value itself: it must be redacted before it is stored.\<close>

subsection \<open>Concrete runs\<close>

definition two_steps :: Workflow where
  "two_steps = zero_Workflow\<lparr>Workflow_Spec := zero_WorkflowSpec\<lparr>WorkflowSpec_Steps := [step_a, step_b]\<rparr>\<rparr>"

lemma two_steps_simps [simp]:
  "Workflow_Steps two_steps = [step_a, step_b]" "WorkflowSpec_Variables (Workflow_Spec two_steps) = []"
  by (simp_all add: two_steps_def zero_Workflow_def zero_WorkflowSpec_def)

lemma idle_orders [simp]: "orders_keys idle_env"
  by (simp add: orders_keys_def idle_env_def)

definition first_run :: "goerror option \<times> unit xstate" where
  "first_run = ExecuteWorkflow 0 idle_env None two_steps (idle_state zero_WorkflowRun)"

lemma idle_fresh [simp]:
  "statuses zero_WorkflowRun = []" "cm_completionOrder (xs_cm (idle_state r)) = []"
  "\<not> is_restart zero_WorkflowRun" "xs_run (idle_state r) = r"
  by (simp_all add: idle_state_def NewContextManager_def is_restart_def zero_WorkflowRun_def zero_Status_def)

lemma idle_startable [simp]: "startable two_steps zero_WorkflowRun"
  by (simp add: startable_def step_phase_def zero_WorkflowRun_def zero_Status_def)

lemma two_steps_names [simp]: "distinct (map Step_Name (Workflow_Steps two_steps))"
  by simp

theorem ExecuteWorkflow_outcome_witness:
  "case fst first_run of
      None \<Rightarrow> run_phase (xs_run (snd first_run)) = WorkflowRunPhaseSucceeded \<and> all_done [step_a, step_b] (xs_run (snd first_run))
    | Some e \<Rightarrow> run_phase (xs_run (snd first_run)) = WorkflowRunPhaseFailed \<or> fatal e \<or>
        (errors_is e ErrAwaitingCallback \<and> (\<exists>s\<in>{step_a, step_b}. step_phase (xs_run (snd first_run)) (Step_Name s) = Some StepPhaseWaiting))"
  using ExecuteWorkflow_outcome [of idle_env two_steps "idle_state zero_WorkflowRun" None 0 "fst first_run" "snd first_run"]
  by (simp add: first_run_def split: option.splits)

theorem ExecuteWorkflow_order_witness:
  "distinct (cm_completionOrder (xs_cm (snd first_run))) \<and>
   (\<forall>n. n \<in> set (cm_completionOrder (xs_cm (snd first_run))) \<longleftrightarrow> step_phase (xs_run (snd first_run)) n = Some StepPhaseSucceeded)"
  using ExecuteWorkflow_order [of idle_env two_steps "idle_state zero_WorkflowRun" 0 None "fst first_run" "snd first_run"]
  by (simp add: first_run_def)

theorem run_steps_implements_machine_witness:
  "\<exists>r xs'. run_steps (executeStep idle_child idle_env None) idle_env None two_steps (idle_state zero_WorkflowRun) = (r, xs') \<and>
    ((\<exists>e. r = Some e \<and> sched_run_phase (sched_of xs') = WorkflowRunPhaseFailed) \<or>
     run_ok [step_a, step_b] (sched_of (begin_steps idle_env two_steps (idle_state zero_WorkflowRun))) r (sched_of xs'))"
proof -
  obtain r xs' where e: "run_steps (executeStep idle_child idle_env None) idle_env None two_steps (idle_state zero_WorkflowRun) = (r, xs')"
    by force
  from run_steps_implements_machine [OF e] e show ?thesis by auto
qed

definition resumed_env :: "unit env" where
  "resumed_env = idle_env\<lparr>env_client := (env_client idle_env)\<lparr>Client_Get := (\<lambda>_ w. (Inr example_cm, w))\<rparr>\<rparr>"

definition resumed_state :: "unit xstate" where
  "resumed_state = idle_state (upd_status (\<lambda>s. s\<lparr>Status_Phase := WorkflowRunPhaseRunning\<rparr>) zero_WorkflowRun)"

theorem resume_keeps_settled_steps_witness:
  "step_phase (xs_run (snd (ExecuteWorkflow 0 resumed_env (Some example_manager) two_steps resumed_state))) ''a'' = Some StepPhaseSucceeded"
proof -
  let ?snap = "encode_snapshot example_snapshot"
  have l: "Load (env_client resumed_env) example_manager (xs_world resumed_state) = (Inr (Some ?snap), ())"
    by (simp add: Load_def resumed_env_def idle_env_def example_manager_def example_cm_def checkpoint_cm_def
        encode_snapshot_def example_snapshot_def resumed_state_def idle_state_def)
  have st: "map_of (Snapshot_StepStatuses ?snap) = [''a'' \<mapsto> encode_status (zero_StepStatus\<lparr>StepStatus_Phase := StepPhaseSucceeded\<rparr>)]"
    by (simp add: encode_snapshot_def example_snapshot_def fun_eq_iff)
  have "startable two_steps (upd_status (\<lambda>s. s\<lparr>Status_StepStatuses := Snapshot_StepStatuses ?snap\<rparr>) (xs_run resumed_state))"
    by (auto simp: startable_def step_phase_def st encode_status_def done_phase_def)
  then show ?thesis
    using resume_keeps_settled_steps [of resumed_env two_steps resumed_state example_manager ?snap "()" 0
        "fst (ExecuteWorkflow 0 resumed_env (Some example_manager) two_steps resumed_state)"
        "snd (ExecuteWorkflow 0 resumed_env (Some example_manager) two_steps resumed_state)"] l
    by (simp add: st encode_status_def)
      (simp add: resumed_env_def orders_keys_def idle_env_def resumed_state_def is_restart_def idle_state_def
        NewContextManager_def example_manager_def)
qed

definition secret_state :: "unit xstate" where
  "secret_state = (idle_state zero_WorkflowRun)\<lparr>xs_cm := NewContextManager\<lparr>cm_inMemoryContext := Some [], cm_contextInitialized := True\<rparr>\<rparr>"

theorem sensitive_outputs_not_in_status_witness:
  "map_of (Status_Outputs (WorkflowRun_Status (xs_run (snd (evaluateWorkflowOutputs idle_env sensitive_workflow secret_state))))) ''token''
     \<in> {None, Some redacted_json}"
proof -
  have e: "fst (evaluateWorkflowOutputs idle_env sensitive_workflow secret_state) = None"
    by (simp add: evaluateWorkflowOutputs_def Let_def secret_state_def GetContext_def sensitive_workflow_def split: prod.splits)
  have o: "Status_Outputs (WorkflowRun_Status (xs_run secret_state)) = []"
    by (simp add: secret_state_def zero_WorkflowRun_def zero_Status_def)
  have d: "WorkflowSpec_Outputs (Workflow_Spec sensitive_workflow) \<noteq> []" by (simp add: sensitive_workflow_def)
  from sensitive_outputs_not_in_status [OF _ o d, of idle_env "snd (evaluateWorkflowOutputs idle_env sensitive_workflow secret_state)"] e
  show ?thesis
    by (cases "map_of (Status_Outputs (WorkflowRun_Status (xs_run (snd (evaluateWorkflowOutputs idle_env sensitive_workflow secret_state))))) ''token''")
      (auto simp: prod_eq_iff sensitive_workflow_def)
qed

end
