(* ===== verification/Admission.thy ===== *)
theory Admission
  imports Cel_Refs Run_Properties
begin

text \<open>
  The admission webhooks, \<^verbatim>\<open>internal/webhook/workflow_validator.go\<close> and \<^verbatim>\<open>workflowrun_validator.go\<close>, with the
  transport policy of external agents (\<^verbatim>\<open>executor/a2a_url.go\<close>) and the scope of event triggers
  (\<^verbatim>\<open>EventResourceInScope\<close> of \<^verbatim>\<open>controller/trigger_manager.go\<close>).

  \<^verbatim>\<open>url.Parse\<close>, \<^verbatim>\<open>time.ParseDuration\<close>, the name checks of apimachinery and the order in which the graph is
  visited are fields of \<open>web_env\<close>; what the client of the cluster answers is a \<open>web_client\<close>. The message
  of a field error is its path and its detail, without the offending value.
\<close>

subsection \<open>External agents\<close>

record URL =
  URL_Scheme :: string
  URL_Host :: string
  URL_User :: "string option"

record web_env =
  web_lib :: web_lib
  web_nodes :: "Step list \<Rightarrow> string list"
  web_parseURL :: "string \<Rightarrow> URL result"
  web_parseDuration :: "string \<Rightarrow> int result"
  web_parseGroupVersion :: "string \<Rightarrow> (string \<times> string) result"
  web_dns1035Label :: "string \<Rightarrow> bool"
  web_dns1123Subdomain :: "string \<Rightarrow> bool"

record web_client =
  client_workflow :: "string \<times> string \<Rightarrow> goerror option"
  client_agent :: "string \<times> string \<Rightarrow> goerror option"
  client_rootScoped :: "string \<times> string \<times> string \<Rightarrow> bool result"

definition has_suffix :: "string \<Rightarrow> string \<Rightarrow> bool" where
  [go_defs]: "has_suffix s x \<longleftrightarrow> length x \<le> length s \<and> drop (length s - length x) s = x"

text \<open>\<^verbatim>\<open>URL.Hostname\<close> of net/url: the host without its port and without the brackets of an IPv6 address.\<close>

definition valid_optional_port :: "string \<Rightarrow> bool" where
  "valid_optional_port p = (case p of [] \<Rightarrow> True | c # ds \<Rightarrow> c = CHR '':'' \<and> list_all (\<lambda>d. d \<in> set ''0123456789'') ds)"

definition split_last_colon :: "string \<Rightarrow> string \<times> string" where
  "split_last_colon h =
     (if CHR '':'' \<in> set h
      then let port = rev (takeWhile (\<lambda>c. c \<noteq> CHR '':'') (rev h)) in (take (length h - length port - 1) h, CHR '':'' # port)
      else (h, []))"

definition Hostname :: "URL \<Rightarrow> string" where
  "Hostname u =
     (case split_last_colon (URL_Host u) of (h, port) \<Rightarrow>
        let host = (if valid_optional_port port then h else URL_Host u)
        in if has_prefix host ''['' \<and> has_suffix host '']'' then butlast (tl host) else host)"

definition isClusterLocalHTTPHost :: "string \<Rightarrow> bool" where
  "isClusterLocalHTTPHost host =
     (let h = to_lower (trim_suffix host ''.'')
      in h = ''localhost'' \<or> h = ''127.0.0.1'' \<or> h = ''::1'' \<or> has_suffix h ''.svc'' \<or> has_suffix h ''.svc.cluster.local'')"

definition ValidateExternalAgentTransport :: "web_env \<Rightarrow> StepExternalAgentRef \<Rightarrow> URL result" where
  "ValidateExternalAgentTransport env step =
     (let url = StepExternalAgentRef_URL step;
          bad = Inl (errorf (''externalAgentRef URL must be a valid URL with no embedded credentials, got '' @ quote url))
      in case web_parseURL env url of
           Inl e \<Rightarrow> bad
         | Inr u \<Rightarrow>
             if URL_Host u = [] \<or> URL_User u \<noteq> None then bad
             else if URL_Scheme u = ''https'' then Inr u
             else if URL_Scheme u = ''http''
             then (if \<not> StepExternalAgentRef_AllowInsecureHTTP step
                   then Inl (errorf (''externalAgentRef URL must use HTTPS, got '' @ quote url @ '' (allowInsecureHTTP is false on this step as evaluated; if your manifest sets allowInsecureHTTP, the installed Workflow or StepTemplate CRD may predate the field and the API server dropped it: update the CRDs, then re-apply the Workflow or StepTemplate)''))
                   else if (case StepExternalAgentRef_Auth step of None \<Rightarrow> False | Some a \<Rightarrow> ExternalAgentAuth_SecretRef a \<noteq> None)
                   then Inl (errorf ''allowInsecureHTTP cannot be combined with auth.secretRef (a bearer token must not be sent over cleartext http)'')
                   else if StepExternalAgentRef_CASecretRef step \<noteq> None
                   then Inl (errorf ''externalAgentRef: allowInsecureHTTP cannot be combined with caSecretRef (a CA bundle has no effect over plaintext http)'')
                   else if \<not> isClusterLocalHTTPHost (Hostname u)
                   then Inl (errorf (''externalAgentRef URL with allowInsecureHTTP must target a cluster-local host (ending in .svc or .svc.cluster.local, or localhost/127.0.0.1/::1), got '' @ quote url))
                   else Inr u)
             else Inl (errorf (''externalAgentRef URL scheme '' @ quote (URL_Scheme u) @ '' is not supported'')))"

definition step_error :: "string \<Rightarrow> string \<Rightarrow> goerror" where
  "step_error stepName s = errorf (''workflow step '' @ quote stepName @ '': '' @ s)"

definition validateExternalAgentRef :: "web_env \<Rightarrow> string \<Rightarrow> StepExternalAgentRef option \<Rightarrow> goerror option" where
  "validateExternalAgentRef env stepName p =
     (case p of None \<Rightarrow> None
      | Some ref \<Rightarrow>
          if StepExternalAgentRef_URL ref = [] then None
          else (case ValidateExternalAgentTransport env ref of
                  Inl e \<Rightarrow> Some (wrapf (''workflow step '' @ quote stepName @ '': '') e)
                | Inr u \<Rightarrow>
                    if StepExternalAgentRef_Protocol ref \<noteq> [] \<and> StepExternalAgentRef_Protocol ref \<noteq> ''a2a''
                    then Some (step_error stepName (''externalAgentRef protocol '' @ quote (StepExternalAgentRef_Protocol ref) @
                           '' is not supported (only '' @ quote ''a2a'' @ '' is supported)''))
                    else None))"

subsection \<open>One step\<close>

definition validateOpenReport :: "string \<Rightarrow> StepOpenReport option \<Rightarrow> goerror option" where
  "validateOpenReport stepName p =
     (case p of None \<Rightarrow> None
      | Some ref \<Rightarrow>
          if StepOpenReport_ReportName ref = [] then Some (step_error stepName ''openReport reportName must not be empty'')
          else if StepOpenReport_ResultsExpression ref = []
          then Some (step_error stepName ''openReport resultsExpression must not be empty'')
          else None)"

definition set_count :: "bool list \<Rightarrow> nat" where
  "set_count bs = length (filter (\<lambda>b. b) bs)"

definition exclusive_error :: "string \<Rightarrow> nat \<Rightarrow> goerror option" where
  "exclusive_error stepName n =
     (if 1 < n then Some (step_error stepName (''exactly one action field must be set, found '' @ utoa n)) else None)"

definition validateStepExclusiveAction :: "string \<Rightarrow> Step \<Rightarrow> goerror option" where
  "validateStepExclusiveAction stepName step = exclusive_error stepName (set_count
     [Step_WorkflowRef step \<noteq> None, Step_AgentRef step \<noteq> None, Step_MCPToolCall step \<noteq> None,
      Step_ResourceQuery step \<noteq> None, Step_PrometheusQuery step \<noteq> None, Step_Mutate step \<noteq> None,
      Step_StepTemplateRef step \<noteq> None, Step_ForEach step \<noteq> None, Step_ExternalAgentRef step \<noteq> None,
      Step_OpenReport step \<noteq> None, Step_WaitForCallback step \<noteq> None])"

definition validateForEachStepExclusiveAction :: "string \<Rightarrow> StepForEachStep option \<Rightarrow> goerror option" where
  "validateForEachStepExclusiveAction stepName p =
     (case p of None \<Rightarrow> None
      | Some inner \<Rightarrow> exclusive_error stepName (set_count
          [StepForEachStep_ResourceQuery inner \<noteq> None, StepForEachStep_PrometheusQuery inner \<noteq> None,
           StepForEachStep_Mutate inner \<noteq> None, StepForEachStep_AgentRef inner \<noteq> None,
           StepForEachStep_MCPToolCall inner \<noteq> None, StepForEachStep_WorkflowRef inner \<noteq> None,
           StepForEachStep_ExternalAgentRef inner \<noteq> None, StepForEachStep_OpenReport inner \<noteq> None]))"

definition validateWaitForCallback :: "web_env \<Rightarrow> string \<Rightarrow> WaitForCallbackStep option \<Rightarrow> StepForEach option \<Rightarrow> goerror option" where
  "validateWaitForCallback env stepName p forEach =
     (case p of None \<Rightarrow> None
      | Some wfc \<Rightarrow>
          if forEach \<noteq> None
          then Some (step_error stepName ''waitForCallback is not supported inside forEach (single PendingCallback slot cannot handle parallel callbacks)'')
          else if WaitForCallbackStep_Timeout wfc = [] then Some (step_error stepName ''waitForCallback.timeout is required'')
          else (case web_parseDuration env (WaitForCallbackStep_Timeout wfc) of
                  Inl e \<Rightarrow> Some (step_error stepName (''waitForCallback.timeout '' @ quote (WaitForCallbackStep_Timeout wfc) @
                    '' is not a valid duration: '' @ err_msg e))
                | Inr d \<Rightarrow> None))"

definition validate_step :: "web_env \<Rightarrow> Step \<Rightarrow> goerror option" where
  "validate_step env step =
     (let name = Step_Name step in
      and_then (validateStepExclusiveAction name step)
     (and_then (validateExternalAgentRef env name (Step_ExternalAgentRef step))
     (and_then (validateOpenReport name (Step_OpenReport step))
     (and_then (validateWaitForCallback env name (Step_WaitForCallback step) (Step_ForEach step))
        (case inner_step step of None \<Rightarrow> None
         | Some inner \<Rightarrow>
             and_then (validateForEachStepExclusiveAction (name @ '' (forEach)'') (Some inner))
            (and_then (validateExternalAgentRef env (name @ '' (forEach)'') (StepForEachStep_ExternalAgentRef inner))
               (validateOpenReport (name @ '' (forEach)'') (StepForEachStep_OpenReport inner))))))))"

subsection \<open>Triggers\<close>

definition field_invalid :: "string \<Rightarrow> string \<Rightarrow> goerror" where
  "field_invalid path detail = errorf (path @ '': Invalid value: '' @ detail)"

definition trigger_path :: "nat \<Rightarrow> string \<Rightarrow> string" where
  "trigger_path i rest = ''spec.triggers['' @ utoa i @ '']'' @ rest"

definition hour :: int where
  "hour = 3600 * 1000000000"

fun validate_webhooks :: "Workflow \<Rightarrow> nat \<Rightarrow> nat \<Rightarrow> Trigger list \<Rightarrow> goerror option" where
  "validate_webhooks w count i [] = None"
| "validate_webhooks w count i (t # ts) =
     (case Trigger_Webhook t of
        None \<Rightarrow> validate_webhooks w count (Suc i) ts
      | Some wt \<Rightarrow>
          if 1 < Suc count
          then Some (field_invalid (trigger_path i ''.webhook'') ''at most one webhook trigger is allowed per Workflow; the path /webhooks/{namespace}/{name} is unique per workflow'')
          else if WebhookSecretRef_Namespace (WebhookTrigger_SecretRef wt) \<noteq> [] \<and>
            WebhookSecretRef_Namespace (WebhookTrigger_SecretRef wt) \<noteq> Workflow_Namespace w
          then Some (field_invalid (trigger_path i ''.webhook.secretRef.namespace'')
                 (''secretRef.namespace must equal the Workflow namespace '' @ quote (Workflow_Namespace w) @
                  ''; cross-namespace secret references are not supported in v1''))
          else if (case WebhookTrigger_DedupWindow wt of None \<Rightarrow> False | Some d \<Rightarrow> hour < d)
          then Some (field_invalid (trigger_path i ''.webhook.dedupWindow'') ''dedupWindow must not exceed 1 hour; longer windows silently suppress all requests after the first one within the window'')
          else validate_webhooks w (Suc count) (Suc i) ts)"

definition validateWebhookTriggers :: "Workflow \<Rightarrow> goerror option" where
  "validateWebhookTriggers w = validate_webhooks w 0 0 (WorkflowSpec_Triggers (Workflow_Spec w))"

definition EventResourceInScope :: "web_env \<Rightarrow> web_client option \<Rightarrow> string \<Rightarrow> EventResource \<Rightarrow> string list \<Rightarrow> bool" where
  "EventResourceInScope env c workflowNS r allowed =
     (if workflowNS \<in> set allowed then True
      else if EventResource_Namespace r = [] \<or> EventResource_Namespace r \<noteq> workflowNS then False
      else (case web_parseGroupVersion env (EventResource_APIVersion r) of
              Inl e \<Rightarrow> False
            | Inr (grp, version) \<Rightarrow>
                if \<not> web_dns1035Label env (to_lower (EventResource_Kind r)) \<or> \<not> web_dns1035Label env version \<or>
                   (grp \<noteq> [] \<and> \<not> web_dns1123Subdomain env grp) then False
                else (case c of None \<Rightarrow> True
                      | Some cl \<Rightarrow> client_rootScoped cl (grp, EventResource_Kind r, version) = Inr False)))"

subsection \<open>Workflows\<close>

record WorkflowValidator =
  WorkflowValidator_Client :: "web_client option"
  WorkflowValidator_EventTriggerAllowedNamespaces :: "string list"

definition check_event_resource :: "web_env \<Rightarrow> WorkflowValidator \<Rightarrow> Workflow \<Rightarrow> nat \<Rightarrow> nat \<times> EventResource \<Rightarrow> goerror option" where
  "check_event_resource env v w i jr =
     (if EventResourceInScope env (WorkflowValidator_Client v) (Workflow_Namespace w) (snd jr) (WorkflowValidator_EventTriggerAllowedNamespaces v)
      then None
      else Some (field_invalid (trigger_path i (''.event.resources['' @ utoa (fst jr) @ ''].namespace''))
        (''event trigger resources must be well-formed, resolvable namespaced kinds in the Workflow namespace '' @ quote (Workflow_Namespace w) @
         '' unless it is listed in the controller's --event-trigger-allowed-source-namespaces (Helm controller.eventTriggerAllowedSourceNamespaces)'')))"

definition check_event_trigger :: "web_env \<Rightarrow> WorkflowValidator \<Rightarrow> Workflow \<Rightarrow> nat \<times> Trigger \<Rightarrow> goerror option" where
  "check_event_trigger env v w it =
     (case Trigger_Event (snd it) of None \<Rightarrow> None
      | Some ev \<Rightarrow> first_error (check_event_resource env v w (fst it)) (enumerate 0 (EventTrigger_Resources ev)))"

definition validateEventScope :: "web_env \<Rightarrow> WorkflowValidator \<Rightarrow> Workflow option \<Rightarrow> goerror option" where
  "validateEventScope env v p =
     (case p of None \<Rightarrow> None
      | Some w \<Rightarrow> first_error (check_event_trigger env v w) (enumerate 0 (WorkflowSpec_Triggers (Workflow_Spec w))))"

definition namespaceOr :: "string \<Rightarrow> string \<Rightarrow> string" where
  "namespaceOr ns fallback = (if ns \<noteq> [] then ns else fallback)"

definition is_not_found :: "goerror \<Rightarrow> bool" where
  "is_not_found e \<longleftrightarrow> errors_is e ApiNotFound"

definition verify_workflow_ref :: "web_client \<Rightarrow> string \<Rightarrow> Step \<Rightarrow> StepWorkflowRef \<Rightarrow> string list \<Rightarrow> string list result" where
  "verify_workflow_ref c ns step ref warnings =
     (let name = StepWorkflowRef_Name ref; refNs = namespaceOr (StepWorkflowRef_Namespace ref) ns
      in case client_workflow c (refNs, name) of
           None \<Rightarrow> Inr warnings
         | Some e \<Rightarrow>
             if is_not_found e
             then Inl (errorf (''workflow step '' @ quote (Step_Name step) @ '' references workflow '' @ quote name @
                    '' not found in namespace '' @ quote refNs))
             else Inr (warnings @ [''could not verify WorkflowRef '' @ quote name @ '': '' @ err_msg e]))"

definition verify_agent_ref ::
  "web_client \<Rightarrow> string \<Rightarrow> Step \<Rightarrow> string list \<Rightarrow> string list \<Rightarrow> (string list \<times> string list) result" where
  "verify_agent_ref c ns step seen warnings =
     (case Step_AgentRef step of
        None \<Rightarrow> Inr (seen, warnings)
      | Some ref \<Rightarrow>
          let name = StepAgentRef_Name ref; key = ''agent/'' @ name in
          if name = [] \<or> key \<in> set seen then Inr (seen, warnings)
          else (case client_agent c (namespaceOr (StepAgentRef_Namespace ref) ns, name) of
                  None \<Rightarrow> Inr (key # seen, warnings)
                | Some e \<Rightarrow>
                    if is_not_found e
                    then Inl (errorf (''workflow step '' @ quote (Step_Name step) @ '' references agent '' @ quote name @
                           '' not found in namespace '' @ quote ns))
                    else Inr (key # seen, warnings @ [''could not verify AgentRef '' @ quote name @ '': '' @ err_msg e])))"

fun verify_refs :: "web_client \<Rightarrow> string \<Rightarrow> Step list \<Rightarrow> string list \<Rightarrow> string list \<Rightarrow> string list result" where
  "verify_refs c ns [] seen warnings = Inr warnings"
| "verify_refs c ns (step # rest) seen warnings =
     (let go_on = (\<lambda>seen warnings.
            case verify_agent_ref c ns step seen warnings of
              Inl e \<Rightarrow> Inl e | Inr (seen', warnings') \<Rightarrow> verify_refs c ns rest seen' warnings')
      in case Step_WorkflowRef step of
           None \<Rightarrow> go_on seen warnings
         | Some ref \<Rightarrow>
             if StepWorkflowRef_Name ref = [] then go_on seen warnings
             else if StepWorkflowRef_Name ref \<in> set seen then verify_refs c ns rest seen warnings
             else (case verify_workflow_ref c ns step ref warnings of
                     Inl e \<Rightarrow> Inl e | Inr warnings' \<Rightarrow> go_on (StepWorkflowRef_Name ref # seen) warnings'))"

definition build_check :: "web_env \<Rightarrow> Workflow \<Rightarrow> goerror option" where
  "build_check env w =
     (case BuildDAG (web_nodes env (Workflow_Steps w)) (Workflow_Steps w) of
        None \<Rightarrow> Some (GoError [GoPanic] ''nil pointer dereference'')
      | Some (Inl e) \<Rightarrow> Some e
      | Some (Inr d) \<Rightarrow> None)"

definition invalid_workflow :: "Workflow \<Rightarrow> goerror option \<Rightarrow> goerror option" where
  "invalid_workflow w x = map_option (wrapf (''workflow '' @ quote (Workflow_Name w) @ '' invalid: '')) x"

definition structural_checks :: "web_env \<Rightarrow> Workflow \<Rightarrow> goerror option" where
  "structural_checks env w =
     and_then (invalid_workflow w (build_check env w))
    (and_then (invalid_workflow w (ValidateStepDependencies (web_lib env) (Some (Workflow_Spec w))))
    (and_then (invalid_workflow w (ValidateInputRefs (web_lib env) (Some (Workflow_Spec w))))
    (and_then (validateWebhookTriggers w)
       (first_error (validate_step env) (Workflow_Steps w)))))"

definition validate :: "web_env \<Rightarrow> WorkflowValidator \<Rightarrow> Workflow option \<Rightarrow> string list result" where
  "validate env v p =
     (case p of None \<Rightarrow> Inr []
      | Some w \<Rightarrow>
          if Workflow_Steps w = [] then Inr []
          else (case structural_checks env w of
                  Some e \<Rightarrow> Inl e
                | None \<Rightarrow>
                    (case WorkflowValidator_Client v of
                       None \<Rightarrow> Inr []
                     | Some c \<Rightarrow>
                         verify_refs c (if Workflow_Namespace w = [] then ''default'' else Workflow_Namespace w) (Workflow_Steps w) [] [])))"

definition ValidateCreate :: "web_env \<Rightarrow> WorkflowValidator \<Rightarrow> Workflow option \<Rightarrow> string list result" where
  "ValidateCreate env v w = (case validateEventScope env v w of Some e \<Rightarrow> Inl e | None \<Rightarrow> validate env v w)"

text \<open>The new object of an update request is never nil.\<close>

definition ValidateUpdate :: "web_env \<Rightarrow> WorkflowValidator \<Rightarrow> Workflow option \<Rightarrow> Workflow \<Rightarrow> string list result" where
  "ValidateUpdate env v oldW w =
     (if (case oldW of None \<Rightarrow> True
          | Some x \<Rightarrow> WorkflowSpec_Triggers (Workflow_Spec x) \<noteq> WorkflowSpec_Triggers (Workflow_Spec w))
      then (case validateEventScope env v (Some w) of Some e \<Rightarrow> Inl e | None \<Rightarrow> validate env v (Some w))
      else validate env v (Some w))"

subsection \<open>WorkflowRuns\<close>

definition validate_run :: "WorkflowRun option \<Rightarrow> goerror option" where
  "validate_run p =
     (case p of None \<Rightarrow> None
      | Some run \<Rightarrow>
          let subject = ''WorkflowRun '' @ quote (WorkflowRun_Name run) in
          if WorkflowRef_Name (WorkflowRunSpec_WorkflowRef (WorkflowRun_Spec run)) = []
          then Some (errorf (subject @ '' spec.workflowRef.name is required''))
          else (case Option.bind (WorkflowRunSpec_Execution (WorkflowRun_Spec run)) WorkflowRunExecutionSpec_LLMCredentialsSecret of
                  None \<Rightarrow> None
                | Some ref \<Rightarrow>
                    if LLMCredentialsSecretRef_Name ref = []
                    then Some (errorf (subject @ '' spec.execution.llmCredentialsSecret.name is required when llmCredentialsSecret is set''))
                    else if LLMCredentialsSecretRef_Namespace ref \<noteq> [] \<and> LLMCredentialsSecretRef_Namespace ref \<noteq> WorkflowRun_Namespace run
                    then Some (errorf (subject @ '' spec.execution.llmCredentialsSecret.namespace must be empty or match the WorkflowRun namespace '' @
                           quote (WorkflowRun_Namespace run) @ ''; cross-namespace Secret references are not supported because SecretKeyRef is namespace-scoped to the runner pod''))
                    else None))"

subsection \<open>Agents\<close>

text \<open>
  \<^verbatim>\<open>validateAgentConfig\<close> only warns. The map \<^verbatim>\<open>spec.config\<close> comes with the order in which it is visited; \<^verbatim>\<open>%v\<close> prints
  a slice in brackets.
\<close>

definition agentConfigKeysReadByDefaultExecutor :: "string list" where
  "agentConfigKeysReadByDefaultExecutor = [''endpoint'', ''skipVerifySSL'']"

definition config_warning :: "string \<times> string \<Rightarrow> string list" where
  "config_warning e = (case e of (k, val) \<Rightarrow>
     if k = ''skipVerifySSL'' \<and> val = ''true''
     then [''spec.config.skipVerifySSL='' @ quote ''true'' @ '' is no longer honored: the agent run will FAIL. To reach an endpoint with a private CA, set SSL_CERT_FILE or SSL_CERT_DIR on the agent-executor, which keeps TLS verification on.'']
     else if k = ''skipVerifySSL'' \<and> val \<noteq> ''false''
     then [''spec.config.skipVerifySSL must be '' @ quote ''true'' @ '' or '' @ quote ''false'' @ ''; got '' @ quote val @ '', which is treated as false'']
     else if k = ''endpoint'' \<and> val \<noteq> []
     then [''spec.config.endpoint is honored only for providers that read it (anthropic, azure-openai), and only if it is origin-only (no path, query or fragment) and the agent-executor operator has allowlisted its origin (AGENT_LLM_ENDPOINT_ALLOWLIST / Helm agentExecutor.llmEndpointAllowlist). Otherwise the agent run will FAIL. google, gemini and nirmata always FAIL when it is set; openai and local ignore it.'']
     else [])"

definition validateAgentConfig :: "(string \<times> string) list \<Rightarrow> string list" where
  "validateAgentConfig config =
     (let known = filter (\<lambda>(k, v). k \<in> set agentConfigKeysReadByDefaultExecutor) config;
          unknown = map fst (filter (\<lambda>(k, v). k \<notin> set agentConfigKeysReadByDefaultExecutor) config)
      in concat (map config_warning known) @
         (if unknown = [] then []
          else [''spec.config keys ['' @ join_with '' '' (sort unknown) @ ''] are not read by the built-in agent executor (it reads only endpoint, skipVerifySSL); they will be ignored unless a custom executor consumes them'']))"

subsection \<open>What is admitted\<close>

text \<open>The laws of the parameters: every map is visited completely, the nodes of the graph each once.\<close>

definition web_orders :: "web_env \<Rightarrow> bool" where
  "web_orders env \<longleftrightarrow> visits_all (web_order (web_lib env)) \<and>
     (\<forall>steps. distinct (web_nodes env steps) \<and> set (web_nodes env steps) = Step_Name ` set steps)"

lemma invalid_workflow_None [simp]: "invalid_workflow w x = None \<longleftrightarrow> x = None"
  by (simp add: invalid_workflow_def)

lemma build_check_None:
  assumes "web_orders env" "build_check env w = None" "distinct ks" "set ks = Step_Name ` set (Workflow_Steps w)"
  shows "\<exists>d. BuildDAG ks (Workflow_Steps w) = Some (Inr d)"
proof -
  let ?steps = "Workflow_Steps w"
  from assms(2) obtain d where d: "BuildDAG (web_nodes env ?steps) ?steps = Some (Inr d)"
    by (auto simp: build_check_def split: option.splits sum.splits)
  have "set (web_nodes env ?steps) = Step_Name ` set ?steps" using assms(1) by (simp add: web_orders_def)
  note ok = BuildDAG_InrD [OF this d]
  show ?thesis
  proof (cases rule: build_edges [of ?steps])
    case (missing s dep)
    with ok(5) show ?thesis by (auto simp: missing_dep_def)
  next
    case (built d')
    with ok(3,4) HasCycle_acyclic [OF built(3), of ks] assms(4) show ?thesis by (simp add: BuildDAG_def)
  qed
qed

lemma structural_checks_None:
  assumes "web_orders env" "structural_checks env w = None"
  shows "build_check env w = None"
    "\<forall>s\<in>set (Workflow_Steps w). \<forall>e\<in>set (all_cel_strings (web_lib env) s). refs_covered (Workflow_Spec w) s e"
    "\<forall>s\<in>set (Workflow_Steps w). validate_step env s = None"
    "validateWebhookTriggers w = None"
  using assms by (auto simp: structural_checks_def web_orders_def ValidateStepDependencies_iff first_error_None)

lemma validate_admits: "validate env v (Some w) = Inr ws \<Longrightarrow> Workflow_Steps w = [] \<or> structural_checks env w = None"
  by (auto simp: validate_def split: if_splits option.splits)

lemma ValidateCreate_admits:
  "ValidateCreate env v (Some w) = Inr ws \<Longrightarrow> validateEventScope env v (Some w) = None \<and> validate env v (Some w) = Inr ws"
  by (auto simp: ValidateCreate_def split: option.splits)

text \<open>The action of each kind that a step has.\<close>

fun has_action :: "Step \<Rightarrow> step_kind \<Rightarrow> bool" where
  "has_action s KForEach = (Step_ForEach s \<noteq> None)"
| "has_action s KStepTemplateRef = (Step_StepTemplateRef s \<noteq> None)"
| "has_action s KWorkflowRef = (Step_WorkflowRef s \<noteq> None)"
| "has_action s KAgentRef = (Step_AgentRef s \<noteq> None)"
| "has_action s KMCPToolCall = (Step_MCPToolCall s \<noteq> None)"
| "has_action s KExternalAgentRef = (Step_ExternalAgentRef s \<noteq> None)"
| "has_action s KResourceQuery = (Step_ResourceQuery s \<noteq> None)"
| "has_action s KPrometheusQuery = (Step_PrometheusQuery s \<noteq> None)"
| "has_action s KMutate = (Step_Mutate s \<noteq> None)"
| "has_action s KOpenReport = (Step_OpenReport s \<noteq> None)"
| "has_action s KWaitForCallback = (Step_WaitForCallback s \<noteq> None)"
| "has_action s KExpression = False"

lemma exclusive_kind: "validateStepExclusiveAction n s = None \<Longrightarrow> has_action s k \<Longrightarrow> step_kind_of s = k"
  by (cases k) (auto simp: validateStepExclusiveAction_def exclusive_error_def set_count_def step_kind_of_def split: if_splits)

text \<open>The transport policy, as its documentation has it.\<close>

definition transport_allowed :: "StepExternalAgentRef \<Rightarrow> URL \<Rightarrow> bool" where
  "transport_allowed ref u \<longleftrightarrow> URL_Host u \<noteq> [] \<and> URL_User u = None \<and>
     (URL_Scheme u = ''https'' \<or>
      URL_Scheme u = ''http'' \<and> StepExternalAgentRef_AllowInsecureHTTP ref \<and> isClusterLocalHTTPHost (Hostname u) \<and>
      StepExternalAgentRef_CASecretRef ref = None \<and> Option.bind (StepExternalAgentRef_Auth ref) ExternalAgentAuth_SecretRef = None)"

lemma ValidateExternalAgentTransport_iff:
  "ValidateExternalAgentTransport env ref = Inr u \<longleftrightarrow>
     web_parseURL env (StepExternalAgentRef_URL ref) = Inr u \<and> transport_allowed ref u"
  by (auto simp: ValidateExternalAgentTransport_def transport_allowed_def Let_def split: sum.splits if_splits option.splits)

subsection \<open>Isolation of namespaces\<close>

text \<open>
  The triggers of a workflow stay in its namespace: an event trigger watches only there unless the
  namespace is on the controller's list, and the one webhook trigger takes its secret from there.
\<close>

definition events_isolated :: "string list \<Rightarrow> Workflow \<Rightarrow> bool" where
  "events_isolated allowed w \<longleftrightarrow> Workflow_Namespace w \<in> set allowed \<or>
     (\<forall>t\<in>set (WorkflowSpec_Triggers (Workflow_Spec w)). \<forall>ev. Trigger_Event t = Some ev \<longrightarrow>
        (\<forall>r\<in>set (EventTrigger_Resources ev). EventResource_Namespace r = Workflow_Namespace w))"

definition webhook_isolated :: "Workflow \<Rightarrow> WebhookTrigger \<Rightarrow> bool" where
  "webhook_isolated w wt \<longleftrightarrow> WebhookSecretRef_Namespace (WebhookTrigger_SecretRef wt) \<in> {[], Workflow_Namespace w} \<and>
     (\<forall>d. WebhookTrigger_DedupWindow wt = Some d \<longrightarrow> d \<le> hour)"

definition webhooks :: "Workflow \<Rightarrow> WebhookTrigger list" where
  "webhooks w = List.map_filter Trigger_Webhook (WorkflowSpec_Triggers (Workflow_Spec w))"

definition isolated :: "string list \<Rightarrow> Workflow \<Rightarrow> bool" where
  "isolated allowed w \<longleftrightarrow> events_isolated allowed w \<and>
     (Workflow_Steps w \<noteq> [] \<longrightarrow> length (webhooks w) \<le> 1 \<and> list_all (webhook_isolated w) (webhooks w))"

lemma validate_webhooks_None:
  "validate_webhooks w count i ts = None \<Longrightarrow> count \<le> 1 \<Longrightarrow>
     count + length (List.map_filter Trigger_Webhook ts) \<le> 1 \<and> list_all (webhook_isolated w) (List.map_filter Trigger_Webhook ts)"
proof (induction ts arbitrary: count i)
  case (Cons t ts)
  show ?case
  proof (cases "Trigger_Webhook t")
    case None
    with Cons show ?thesis by (auto simp: List.map_filter_simps)
  next
    case (Some wt)
    with Cons.prems have "count = 0" "validate_webhooks w (Suc count) (Suc i) ts = None" "webhook_isolated w wt"
      by (auto simp: webhook_isolated_def split: if_splits option.splits)
    with Cons.IH [of "Suc count" "Suc i"] Some show ?thesis by (simp add: List.map_filter_simps)
  qed
qed (simp add: List.map_filter_simps)

lemma in_enumerate: "x \<in> set xs \<Longrightarrow> \<exists>i. (i, x) \<in> set (enumerate n xs)"
  using map_snd_enumerate [of n xs] by (metis imageE prod.collapse set_map)

lemma event_resource_ok:
  assumes "check_event_resource env v w i (j, r) = None"
    "Workflow_Namespace w \<notin> set (WorkflowValidator_EventTriggerAllowedNamespaces v)"
  shows "EventResource_Namespace r = Workflow_Namespace w"
proof -
  have "EventResourceInScope env (WorkflowValidator_Client v) (Workflow_Namespace w) r (WorkflowValidator_EventTriggerAllowedNamespaces v)"
    using assms(1) unfolding check_event_resource_def snd_conv by (metis option.distinct(1))
  with assms(2) show ?thesis unfolding EventResourceInScope_def by metis
qed

lemma validateEventScope_None:
  assumes "validateEventScope env v (Some w) = None"
  shows "events_isolated (WorkflowValidator_EventTriggerAllowedNamespaces v) w"
  unfolding events_isolated_def disj_imp
proof (intro ballI allI impI)
  fix t ev r
  assume na: "Workflow_Namespace w \<notin> set (WorkflowValidator_EventTriggerAllowedNamespaces v)"
  assume t: "t \<in> set (WorkflowSpec_Triggers (Workflow_Spec w))" and ev: "Trigger_Event t = Some ev" and r: "r \<in> set (EventTrigger_Resources ev)"
  obtain i where "(i, t) \<in> set (enumerate 0 (WorkflowSpec_Triggers (Workflow_Spec w)))"
    using in_enumerate [OF t, of 0] by blast
  with assms have c: "check_event_trigger env v w (i, t) = None" unfolding validateEventScope_def option.case first_error_None by blast
  obtain j where "(j, r) \<in> set (enumerate 0 (EventTrigger_Resources ev))"
    using in_enumerate [OF r, of 0] by blast
  with c ev have "check_event_resource env v w i (j, r) = None"
    unfolding check_event_trigger_def snd_conv ev option.case first_error_None fst_conv by blast
  with na show "EventResource_Namespace r = Workflow_Namespace w" by (rule event_resource_ok [rotated])
qed

lemma validate_isolated:
  assumes "web_orders env" "validate env v (Some w) = Inr ws" "events_isolated allowed w"
  shows "isolated allowed w"
proof -
  have "Workflow_Steps w \<noteq> [] \<Longrightarrow> validateWebhookTriggers w = None"
    using validate_admits [OF assms(2)] structural_checks_None(4) [OF assms(1)] by blast
  with validate_webhooks_None [of w 0 0] assms(3) show ?thesis
    by (simp add: isolated_def validateWebhookTriggers_def webhooks_def)
qed

text \<open>The workflows of a cluster under requests that the webhook admits. An update keeps namespace and name.\<close>

inductive admits :: "web_env \<Rightarrow> WorkflowValidator \<Rightarrow> (string \<times> string \<Rightarrow> Workflow option) \<Rightarrow> (string \<times> string \<Rightarrow> Workflow option) \<Rightarrow> bool"
  for env v where
  create: "st (Workflow_Namespace w, Workflow_Name w) = None \<Longrightarrow> ValidateCreate env v (Some w) = Inr ws \<Longrightarrow>
     admits env v st (st((Workflow_Namespace w, Workflow_Name w) \<mapsto> w))"
| update: "st (Workflow_Namespace w, Workflow_Name w) = Some old \<Longrightarrow> Workflow_Namespace old = Workflow_Namespace w \<Longrightarrow>
     ValidateUpdate env v (Some old) w = Inr ws \<Longrightarrow> admits env v st (st((Workflow_Namespace w, Workflow_Name w) \<mapsto> w))"
| delete: "admits env v st (st(k := None))"

lemma admits_isolated:
  assumes "web_orders env" "admits env v st st'" "\<forall>k w. st k = Some w \<longrightarrow> isolated (WorkflowValidator_EventTriggerAllowedNamespaces v) w"
  shows "\<forall>k w. st' k = Some w \<longrightarrow> isolated (WorkflowValidator_EventTriggerAllowedNamespaces v) w"
  using assms(2,3)
proof cases
  case (create w ws)
  from ValidateCreate_admits [OF create(3)] validate_isolated [OF assms(1)] validateEventScope_None
  have "isolated (WorkflowValidator_EventTriggerAllowedNamespaces v) w" by blast
  with create(1) assms(3) show ?thesis by auto
next
  case (update w old ws)
  from assms(3) update(2) have "events_isolated (WorkflowValidator_EventTriggerAllowedNamespaces v) old" by (auto simp: isolated_def)
  with update(3,4) have "events_isolated (WorkflowValidator_EventTriggerAllowedNamespaces v) w" "validate env v (Some w) = Inr ws"
    by (auto simp: ValidateUpdate_def events_isolated_def dest: validateEventScope_None [unfolded events_isolated_def] split: if_splits option.splits)
  with validate_isolated [OF assms(1)] update(1) assms(3) show ?thesis by auto
next
  case (delete k)
  with assms(3) show ?thesis by auto
qed

subsection \<open>Properties\<close>

lemma started_dependency_done:
  assumes "orders_keys xenv" "distinct (map Step_Name (Workflow_Steps w))"
    "statuses (xs_run xs) = []" "cm_completionOrder (xs_cm xs) = []" "\<not> is_restart (xs_run xs)"
    "ExecuteWorkflow depth xenv cpm w xs = (r, xs')"
    "s \<in> set (Workflow_Steps w)" "step_phase (xs_run xs') (Step_Name s) \<notin> {None, Some StepPhasePending}" "n \<in> set (Step_DependsOn s)"
  shows "\<exists>t\<in>set (Workflow_Steps w). Step_Name t = n \<and> isStepDone t (get_status (xs_run xs') n)"
  using fresh_run_order [OF assms(1-6)] assms(7-9)
  unfolding isStepDone_iff dependencies_first_def sched_done_def by (auto simp: sched_of_def)


text \<open>
  C23: Every step of an admitted workflow is one the executor can dispatch without a choice: it has at
  most one action, and that is the one that is executed, whatever the order in which the executor
  asks for them. An external agent, of the step or of its inline step, is reached over https, or over
  http only with the explicit permission, a host inside the cluster and no secrets to send; and the
  timeout of a callback is a duration.
\<close>

theorem admitted_steps_executable:
  assumes "web_orders env" "ValidateCreate env v (Some w) = Inr warnings" "s \<in> set (Workflow_Steps w)"
  shows "(\<forall>k. has_action s k \<longrightarrow> step_kind_of s = k) \<and>
    (\<forall>ref. (Step_ExternalAgentRef s = Some ref \<or> Option.bind (inner_step s) StepForEachStep_ExternalAgentRef = Some ref) \<and>
        StepExternalAgentRef_URL ref \<noteq> [] \<longrightarrow>
      (\<exists>u. web_parseURL env (StepExternalAgentRef_URL ref) = Inr u \<and> transport_allowed ref u)) \<and>
    (\<forall>wfc. Step_WaitForCallback s = Some wfc \<longrightarrow>
      Step_ForEach s = None \<and> (\<exists>d. web_parseDuration env (WaitForCallbackStep_Timeout wfc) = Inr d))"
proof -
  have "structural_checks env w = None"
    using validate_admits ValidateCreate_admits [OF assms(2)] assms(3) by fastforce
  then have ok: "validate_step env s = None" using structural_checks_None(3) [OF assms(1)] assms(3) by blast
  have ext: "\<exists>u. web_parseURL env (StepExternalAgentRef_URL ref) = Inr u \<and> transport_allowed ref u"
    if "validateExternalAgentRef env n (Some ref) = None" "StepExternalAgentRef_URL ref \<noteq> []" for n ref
  proof (cases "ValidateExternalAgentTransport env ref")
    case (Inl e)
    with that show ?thesis unfolding validateExternalAgentRef_def by simp
  next
    case (Inr u)
    then show ?thesis unfolding ValidateExternalAgentTransport_iff by blast
  qed
  have wait: "validateWaitForCallback env n (Some wfc) fe = None \<Longrightarrow>
      fe = None \<and> (\<exists>d. web_parseDuration env (WaitForCallbackStep_Timeout wfc) = Inr d)" for n wfc fe
    by (auto simp: validateWaitForCallback_def split: if_splits sum.splits)
  show ?thesis
    using ok ext wait exclusive_kind unfolding validate_step_def Let_def and_then_None
    by (cases "inner_step s") (auto simp: bind_eq_Some_conv)
qed

text \<open>
  C24: Whatever sequence of requests the webhook admits, every stored workflow stays in its namespace:
  unless the namespace is on the controller's list, its event triggers watch nothing outside of it,
  and its webhook trigger, of which there is at most one, takes its secret from there. An update that
  keeps the triggers is not checked again, and need not be.
\<close>

theorem admission_isolates_namespaces:
  assumes "web_orders env" "(admits env v)\<^sup>*\<^sup>* (\<lambda>_. None) st" "st k = Some w"
  shows "isolated (WorkflowValidator_EventTriggerAllowedNamespaces v) w"
proof -
  have "\<forall>k w. st k = Some w \<longrightarrow> isolated (WorkflowValidator_EventTriggerAllowedNamespaces v) w"
    using assms(2) by (induction rule: rtranclp_induct) (simp, rule admits_isolated [OF assms(1)])
  with assms(3) show ?thesis by blast
qed

subsection \<open>Witnesses\<close>

definition demo_web :: web_env where
  "demo_web = \<lparr>web_lib = \<lparr>web_order = (\<lambda>xs. xs), web_parses = (\<lambda>_. True), web_text = (\<lambda>_. [])\<rparr>,
     web_nodes = (\<lambda>steps. remdups (map Step_Name steps)), web_parseURL = (\<lambda>_. Inl (errorf [])), web_parseDuration = (\<lambda>_. Inr 1),
     web_parseGroupVersion = (\<lambda>_. Inr ([], ''v1'')), web_dns1035Label = (\<lambda>_. True), web_dns1123Subdomain = (\<lambda>_. True)\<rparr>"

definition demo_validator :: WorkflowValidator where
  "demo_validator = \<lparr>WorkflowValidator_Client = None, WorkflowValidator_EventTriggerAllowedNamespaces = []\<rparr>"

definition reading_step :: Step where
  "reading_step = step_b\<lparr>Step_Expressions := [\<lparr>Expression_Name = ''x'', Expression_Expression = ''steps.a.x''\<rparr>]\<rparr>"

definition reading_workflow :: Workflow where
  "reading_workflow = zero_Workflow\<lparr>Workflow_Meta := zero_ObjectMeta\<lparr>ObjectMeta_Name := ''w'', ObjectMeta_Namespace := ''ns''\<rparr>,
     Workflow_Spec := zero_WorkflowSpec\<lparr>WorkflowSpec_Steps := [step_a, reading_step],
       WorkflowSpec_Triggers := [\<lparr>Trigger_Cron = None, Trigger_Event = Some
         \<lparr>EventTrigger_Resources = [\<lparr>EventResource_APIVersion = ''v1'', EventResource_Kind = ''Pod'', EventResource_Namespace = ''ns''\<rparr>],
          EventTrigger_Operations = [], EventTrigger_LabelSelector = None, EventTrigger_FieldSelector = [], EventTrigger_InputMapping = [],
          EventTrigger_CELFilter = [], EventTrigger_DedupKey = [], EventTrigger_DedupWindow = None\<rparr>, Trigger_Webhook = None\<rparr>]\<rparr>\<rparr>"

lemma demo_web_orders: "web_orders demo_web"
  by (simp add: web_orders_def visits_all_def demo_web_def)

lemma reading_admitted: "ValidateCreate demo_web demo_validator (Some reading_workflow) = Inr []"
  by code_simp

lemma reading_refers: "refers_step ''steps.a.x'' ''a''"
proof -
  have "''a'' \<in> set (FindAll stepsRefRe None (strip_literals ''steps.a.x''))" by code_simp
  then show ?thesis unfolding refers_step_def FindAll_steps .
qed

lemma reading_simps [simp]:
  "Workflow_Steps reading_workflow = [step_a, reading_step]" "Step_Name reading_step = ''b''"
  "Workflow_Namespace reading_workflow = ''ns''" "Workflow_Name reading_workflow = ''w''"
  by (simp_all add: reading_workflow_def reading_step_def)

lemma reading_expressions: "''steps.a.x'' \<in> set (all_cel_strings (web_lib demo_web) reading_step)"
  by code_simp

definition reading_run :: "goerror option \<times> unit xstate" where
  "reading_run = ExecuteWorkflow 0 idle_env None reading_workflow (idle_state zero_WorkflowRun)"


definition waiting_step :: Step where
  "waiting_step = zero_Step\<lparr>Step_Name := ''wait'', Step_WaitForCallback := Some \<lparr>WaitForCallbackStep_Timeout = ''1h'',
     WaitForCallbackStep_CallbackRef = [], WaitForCallbackStep_OutputSchema = None, WaitForCallbackStep_Message = [],
     WaitForCallbackStep_FailurePolicy = []\<rparr>\<rparr>"

definition waiting_workflow :: Workflow where
  "waiting_workflow = zero_Workflow\<lparr>Workflow_Spec := zero_WorkflowSpec\<lparr>WorkflowSpec_Steps := [waiting_step]\<rparr>\<rparr>"

theorem admitted_steps_executable_witness:
  "step_kind_of waiting_step = KWaitForCallback \<and> Step_ForEach waiting_step = None"
proof -
  have "ValidateCreate demo_web demo_validator (Some waiting_workflow) = Inr []" by code_simp
  moreover have "waiting_step \<in> set (Workflow_Steps waiting_workflow)" by (simp add: waiting_workflow_def)
  ultimately have "(has_action waiting_step KWaitForCallback \<longrightarrow> step_kind_of waiting_step = KWaitForCallback) \<and>
      (\<forall>wfc. Step_WaitForCallback waiting_step = Some wfc \<longrightarrow> Step_ForEach waiting_step = None)"
    using admitted_steps_executable [OF demo_web_orders] by blast
  moreover have "Step_WaitForCallback waiting_step \<noteq> None" by (simp add: waiting_step_def)
  ultimately show ?thesis by auto
qed

theorem admission_isolates_namespaces_witness: "isolated [] reading_workflow"
proof -
  have "admits demo_web demo_validator (\<lambda>_. None) ((\<lambda>_. None)((''ns'', ''w'') \<mapsto> reading_workflow))"
    using admits.create [OF _ reading_admitted, of "\<lambda>_. None"] by simp
  then have "(admits demo_web demo_validator)\<^sup>*\<^sup>* (\<lambda>_. None) ((\<lambda>_. None)((''ns'', ''w'') \<mapsto> reading_workflow))" by blast
  from admission_isolates_namespaces [OF demo_web_orders this, of "(''ns'', ''w'')"] show ?thesis
    by (simp add: demo_validator_def)
qed

end
