(* ===== verification/Event_Triggers.thy ===== *)
theory Event_Triggers
  imports Cron_Scheduler Admission
begin

text \<open>
  The trigger manager, \<^verbatim>\<open>controller/trigger_manager.go\<close>: the registration of cron and event triggers, and the
  creation of a run for an event of a watched object or for a webhook request.

  A watch is a request to the API server, opened by \<open>tl_open\<close>; the goroutine that reads it is an entry of
  \<open>tm_goroutines\<close> under the number of its context, and ends when that is cancelled. The object of an
  event is read through the accessors of \<^verbatim>\<open>unstructured.Unstructured\<close>. The CEL programs of triggers, the
  printing with \<^verbatim>\<open>%v\<close>, the selectors and the mapping of kinds to resources are parameters. A locked section
  is one step; \<^verbatim>\<open>reopenWatch\<close>, which opens a closed watch again, is part of the watch.
\<close>

subsection \<open>State\<close>

record dedupEntry =
  dedupEntry_key :: string
  dedupEntry_createdAt :: "int option"

definition zero_dedupEntry :: dedupEntry where
  "zero_dedupEntry = \<lparr>dedupEntry_key = [], dedupEntry_createdAt = None\<rparr>"

record Unstructured =
  Unstructured_Object :: gomap
  Unstructured_Group :: string
  Unstructured_Version :: string
  Unstructured_Kind :: string
  Unstructured_Namespace :: string
  Unstructured_Name :: string
  Unstructured_UID :: string
  Unstructured_Labels :: "(string \<times> string) list"
  Unstructured_OwnerReferences :: "OwnerReference list"

datatype EventType = Added | Modified | Deleted | OtherEvent string

record watch_request =
  watch_Resource :: "string \<times> string \<times> string"
  watch_Namespace :: string
  watch_LabelSelector :: string
  watch_FieldSelector :: string

record 'w trigger_lib =
  tl_client :: "'w tclient"
  tl_env :: web_env
  tl_web :: web_client
  tl_mapping :: "string \<times> string \<times> string \<Rightarrow> (string \<times> string \<times> string) result"
  tl_labelSelector :: "val \<Rightarrow> string result"
  tl_fieldSelector :: "string \<Rightarrow> goerror option"
  tl_open :: "watch_request \<Rightarrow> 'w \<Rightarrow> nat result \<times> 'w"
  tl_compile :: "string \<Rightarrow> goerror option"
  tl_program :: "string \<Rightarrow> (gomap \<Rightarrow> val result) result"
  tl_format :: "val \<Rightarrow> string"
  tl_decode :: "string \<Rightarrow> raw_json"
  tl_sha256 :: "string \<Rightarrow> string"

record 'c TriggerManager =
  tm_scheduler :: "'c Scheduler option"
  tm_eventWatchers :: "(string \<times> nat) list"
  tm_stopCancels :: "(string \<times> nat) list"
  tm_eventWorkflowMap :: "(string \<times> Workflow) list"
  tm_eventSpecMap :: "(string \<times> EventTrigger) list"
  tm_dedupState :: "(string \<times> (string \<times> dedupEntry) list) list"
  tm_eventTriggerAllowedNamespaces :: "string list"
  tm_goroutines :: "(nat \<times> string \<times> Workflow \<times> EventTrigger) list"
  tm_nextContext :: nat

definition NewTriggerManager :: "'c Scheduler option \<Rightarrow> 'c TriggerManager" where
  "NewTriggerManager s = \<lparr>tm_scheduler = s, tm_eventWatchers = [], tm_stopCancels = [], tm_eventWorkflowMap = [],
     tm_eventSpecMap = [], tm_dedupState = [], tm_eventTriggerAllowedNamespaces = [], tm_goroutines = [], tm_nextContext = 0\<rparr>"

definition SetEventTriggerAllowedNamespaces :: "string list \<Rightarrow> 'c TriggerManager \<Rightarrow> 'c TriggerManager" where
  "SetEventTriggerAllowedNamespaces ns tm = tm\<lparr>tm_eventTriggerAllowedNamespaces := ns\<rparr>"

subsection \<open>Keys\<close>

definition isDigits :: "string \<Rightarrow> bool" where
  "isDigits s \<longleftrightarrow> s \<noteq> [] \<and> list_all (\<lambda>c. c \<in> set ''0123456789'') s"

text \<open>\<^verbatim>\<open>strconv.Atoi\<close> of a string of digits: none when it does not fit into an int.\<close>

definition digits_value :: "string \<Rightarrow> nat" where
  "digits_value s = foldl (\<lambda>n c. 10 * n + (of_char c - 48)) 0 s"

definition atoi_digits :: "string \<Rightarrow> nat option" where
  "atoi_digits s = (if digits_value s < 2 ^ 63 then Some (digits_value s) else None)"

definition staleTriggerKey :: "string \<Rightarrow> string \<Rightarrow> Trigger list \<Rightarrow> (Trigger \<Rightarrow> bool) \<Rightarrow> bool" where
  "staleTriggerKey key prefix triggers want =
     (case cut_prefix key prefix of
        None \<Rightarrow> False
      | Some idx \<Rightarrow>
          if \<not> isDigits idx then False
          else (case atoi_digits idx of None \<Rightarrow> True | Some i \<Rightarrow> length triggers \<le> i \<or> \<not> want (triggers ! i)))"

definition workflow_key :: "Workflow \<Rightarrow> string" where
  "workflow_key workflow = Workflow_Namespace workflow @ ''/'' @ Workflow_Name workflow"

definition cron_key :: "string \<Rightarrow> nat \<Rightarrow> string" where
  "cron_key workflowKey i = workflowKey @ ''-cron-'' @ utoa i"

definition event_key :: "string \<Rightarrow> nat \<Rightarrow> string" where
  "event_key workflowKey i = workflowKey @ ''-event-'' @ utoa i"

subsection \<open>Watches\<close>

definition stop_watcher :: "string \<Rightarrow> 'c TriggerManager \<Rightarrow> 'c TriggerManager" where
  "stop_watcher k tm =
     (let tm1 = (case map_of (tm_stopCancels tm) k of
                   None \<Rightarrow> tm
                 | Some ctx \<Rightarrow> tm\<lparr>tm_goroutines := AList.delete ctx (tm_goroutines tm), tm_stopCancels := AList.delete k (tm_stopCancels tm)\<rparr>)
      in tm1\<lparr>tm_eventWatchers := AList.delete k (tm_eventWatchers tm1)\<rparr>)"

definition resource_key_of :: "string \<Rightarrow> string \<Rightarrow> bool" where
  "resource_key_of key k = (case cut_prefix k (key @ ''-resource-'') of None \<Rightarrow> False | Some idx \<Rightarrow> isDigits idx)"

definition stopWatchersForKey :: "string \<Rightarrow> 'c TriggerManager \<Rightarrow> 'c TriggerManager" where
  "stopWatchersForKey key tm = fold stop_watcher (filter (resource_key_of key) (map fst (tm_eventWatchers tm))) tm"

definition runnerManagedLabel :: string where
  "runnerManagedLabel = ''ottoflow.nirmata.io/workflowrun''"

definition is_workflow_run_kind :: "string \<Rightarrow> string \<Rightarrow> bool" where
  "is_workflow_run_kind grp kind \<longleftrightarrow> grp = ''ottoflow.nirmata.io'' \<and> kind = ''WorkflowRun''"

definition watch_label_selector :: "Workflow \<Rightarrow> string \<Rightarrow> string \<Rightarrow> string \<Rightarrow> string" where
  "watch_label_selector workflow grp kind selector =
     (let excluded = (if selector = [] then ''!'' @ runnerManagedLabel else selector @ '',!'' @ runnerManagedLabel)
      in if is_workflow_run_kind grp kind then excluded @ '','' @ WorkflowLabelKey @ ''!='' @ Workflow_Name workflow else excluded)"

text \<open>The request of a watch: selectors and kind are checked in the order of the source.\<close>

definition build_watch :: "'w trigger_lib \<Rightarrow> Workflow \<Rightarrow> EventResource \<Rightarrow> EventTrigger \<Rightarrow> watch_request result" where
  "build_watch lib workflow resource eventSpec =
     (case web_parseGroupVersion (tl_env lib) (EventResource_APIVersion resource) of
        Inl e \<Rightarrow> Inl (wrapf (''invalid API version '' @ EventResource_APIVersion resource @ '': '') e)
      | Inr (grp, version) \<Rightarrow>
          (case (case EventTrigger_LabelSelector eventSpec of None \<Rightarrow> Inr [] | Some ls \<Rightarrow> tl_labelSelector lib ls) of
             Inl e \<Rightarrow> Inl (wrapf ''invalid label selector: '' e)
           | Inr selector \<Rightarrow>
               (case (if EventTrigger_FieldSelector eventSpec = [] then None else tl_fieldSelector lib (EventTrigger_FieldSelector eventSpec)) of
                  Some e \<Rightarrow> Inl (wrapf ''invalid field selector: '' e)
                | None \<Rightarrow>
                    Inr \<lparr>watch_Resource = (case tl_mapping lib (grp, EventResource_Kind resource, version) of
                            Inr gvr \<Rightarrow> gvr | Inl e \<Rightarrow> (grp, version, to_lower (EventResource_Kind resource) @ ''s'')),
                         watch_Namespace = EventResource_Namespace resource,
                         watch_LabelSelector = watch_label_selector workflow grp (EventResource_Kind resource) selector,
                         watch_FieldSelector = EventTrigger_FieldSelector eventSpec\<rparr>)))"

definition start_watch :: "string \<Rightarrow> string \<Rightarrow> Workflow \<Rightarrow> EventTrigger \<Rightarrow> nat \<Rightarrow> 'c TriggerManager \<Rightarrow> 'c TriggerManager" where
  "start_watch key eventKey workflow eventSpec watcher tm =
     tm\<lparr>tm_eventWatchers := AList.update key watcher (tm_eventWatchers tm),
        tm_stopCancels := AList.update key (tm_nextContext tm) (tm_stopCancels tm),
        tm_goroutines := (tm_nextContext tm, eventKey, workflow, eventSpec) # tm_goroutines tm,
        tm_nextContext := Suc (tm_nextContext tm)\<rparr>"

definition watchResource ::
  "'w trigger_lib \<Rightarrow> string \<Rightarrow> string \<Rightarrow> Workflow \<Rightarrow> EventResource \<Rightarrow> EventTrigger \<Rightarrow> 'c TriggerManager \<Rightarrow> 'w \<Rightarrow>
     goerror option \<times> 'c TriggerManager \<times> 'w" where
  "watchResource lib key eventKey workflow resource eventSpec tm w =
     (case build_watch lib workflow resource eventSpec of
        Inl e \<Rightarrow> (Some e, tm, w)
      | Inr request \<Rightarrow>
          (case tl_open lib request w of
             (Inl e, w1) \<Rightarrow> (Some (wrapf ''failed to create watcher: '' e), tm, w1)
           | (Inr watcher, w1) \<Rightarrow> (None, start_watch key eventKey workflow eventSpec watcher tm, w1)))"

fun watch_resources ::
  "'w trigger_lib \<Rightarrow> string \<Rightarrow> Workflow \<Rightarrow> EventTrigger \<Rightarrow> nat \<Rightarrow> EventResource list \<Rightarrow> goerror option \<Rightarrow> 'c TriggerManager \<Rightarrow> 'w \<Rightarrow>
     goerror option \<times> 'c TriggerManager \<times> 'w" where
  "watch_resources lib key workflow eventSpec i [] watchErr tm w = (watchErr, tm, w)"
| "watch_resources lib key workflow eventSpec i (resource # rest) watchErr tm w =
     (if \<not> EventResourceInScope (tl_env lib) (Some (tl_web lib)) (Workflow_Namespace workflow) resource (tm_eventTriggerAllowedNamespaces tm) \<or>
         watchErr \<noteq> None
      then watch_resources lib key workflow eventSpec (Suc i) rest watchErr tm w
      else (case watchResource lib (key @ ''-resource-'' @ utoa i) key workflow resource eventSpec tm w of
              (e, tm1, w1) \<Rightarrow> watch_resources lib key workflow eventSpec (Suc i) rest e tm1 w1))"

definition registerEventTrigger ::
  "'w trigger_lib \<Rightarrow> string \<Rightarrow> Workflow \<Rightarrow> EventTrigger \<Rightarrow> 'c TriggerManager \<Rightarrow> 'w \<Rightarrow> goerror option \<times> 'c TriggerManager \<times> 'w" where
  "registerEventTrigger lib key workflow eventSpec tm w =
     (let tm1 = stopWatchersForKey key tm;
          tm2 = tm1\<lparr>tm_eventWorkflowMap := AList.update key workflow (tm_eventWorkflowMap tm1),
                    tm_eventSpecMap := AList.update key eventSpec (tm_eventSpecMap tm1)\<rparr>
      in watch_resources lib key workflow eventSpec 0 (EventTrigger_Resources eventSpec) None tm2 w)"

definition unregisterEventTrigger :: "string \<Rightarrow> 'c TriggerManager \<Rightarrow> 'c TriggerManager" where
  "unregisterEventTrigger key tm =
     (let tm1 = stopWatchersForKey key tm
      in tm1\<lparr>tm_eventWorkflowMap := AList.delete key (tm_eventWorkflowMap tm1),
             tm_eventSpecMap := AList.delete key (tm_eventSpecMap tm1),
             tm_dedupState := AList.delete key (tm_dedupState tm1)\<rparr>)"

subsection \<open>Registration\<close>

definition prune_events :: "string \<Rightarrow> Trigger list \<Rightarrow> 'c TriggerManager \<Rightarrow> 'c TriggerManager" where
  "prune_events workflowKey triggers tm =
     fold unregisterEventTrigger
       (filter (\<lambda>key. staleTriggerKey key (workflowKey @ ''-event-'') triggers (\<lambda>t. Trigger_Event t \<noteq> None)) (map fst (tm_eventSpecMap tm))) tm"

definition prune_crons :: "'c cron \<Rightarrow> string \<Rightarrow> Trigger list \<Rightarrow> 'c Scheduler \<Rightarrow> 'c Scheduler" where
  "prune_crons eng workflowKey triggers s =
     fold (RemoveSchedule eng)
       (filter (\<lambda>key. staleTriggerKey key (workflowKey @ ''-cron-'') triggers (\<lambda>t. Trigger_Cron t \<noteq> None)) (scheduleKeys s)) s"

definition pruneTriggers :: "'c cron \<Rightarrow> string \<Rightarrow> Trigger list \<Rightarrow> 'c TriggerManager \<Rightarrow> 'c TriggerManager" where
  "pruneTriggers eng workflowKey triggers tm =
     (let tm1 = prune_events workflowKey triggers tm
      in tm1\<lparr>tm_scheduler := map_option (prune_crons eng workflowKey triggers) (tm_scheduler tm1)\<rparr>)"

definition register_cron ::
  "'c cron \<Rightarrow> string \<Rightarrow> nat \<Rightarrow> Workflow \<Rightarrow> Trigger \<Rightarrow> 'c TriggerManager \<Rightarrow> goerror option \<times> 'c TriggerManager" where
  "register_cron eng workflowKey i workflow trigger tm =
     (case (Trigger_Cron trigger, tm_scheduler tm) of
        (Some cronSpec, Some s) \<Rightarrow>
          (case AddSchedule eng (cron_key workflowKey i) workflow cronSpec s of (e, s') \<Rightarrow> (e, tm\<lparr>tm_scheduler := Some s'\<rparr>))
      | _ \<Rightarrow> (None, tm))"

definition register_event ::
  "'w trigger_lib \<Rightarrow> string \<Rightarrow> nat \<Rightarrow> Workflow \<Rightarrow> Trigger \<Rightarrow> 'c TriggerManager \<Rightarrow> 'w \<Rightarrow> goerror option \<times> 'c TriggerManager \<times> 'w" where
  "register_event lib workflowKey i workflow trigger tm w =
     (case Trigger_Event trigger of
        None \<Rightarrow> (None, tm, w)
      | Some eventSpec \<Rightarrow> registerEventTrigger lib (event_key workflowKey i) workflow eventSpec tm w)"

fun register_triggers ::
  "'w trigger_lib \<Rightarrow> 'c cron \<Rightarrow> Workflow \<Rightarrow> nat \<Rightarrow> Trigger list \<Rightarrow> 'c TriggerManager \<Rightarrow> 'w \<Rightarrow> goerror option \<times> 'c TriggerManager \<times> 'w" where
  "register_triggers lib eng workflow i [] tm w = (None, tm, w)"
| "register_triggers lib eng workflow i (t # ts) tm w =
     (case register_cron eng (workflow_key workflow) i workflow t tm of
        (Some e, tm1) \<Rightarrow> (Some e, tm1, w)
      | (None, tm1) \<Rightarrow>
          (case register_event lib (workflow_key workflow) i workflow t tm1 w of
             (Some e, tm2, w2) \<Rightarrow> (Some e, tm2, w2)
           | (None, tm2, w2) \<Rightarrow> register_triggers lib eng workflow (Suc i) ts tm2 w2))"

definition RegisterWorkflow ::
  "'w trigger_lib \<Rightarrow> 'c cron \<Rightarrow> Workflow \<Rightarrow> 'c TriggerManager \<Rightarrow> 'w \<Rightarrow> goerror option \<times> 'c TriggerManager \<times> 'w" where
  "RegisterWorkflow lib eng workflow tm w =
     (let triggers = WorkflowSpec_Triggers (Workflow_Spec workflow)
      in register_triggers lib eng workflow 0 triggers (pruneTriggers eng (workflow_key workflow) triggers tm) w)"

definition UnregisterWorkflow :: "'c cron \<Rightarrow> Workflow \<Rightarrow> 'c TriggerManager \<Rightarrow> 'c TriggerManager" where
  "UnregisterWorkflow eng workflow tm = pruneTriggers eng (workflow_key workflow) [] tm"

definition CleanupWebhookDedup :: "string \<Rightarrow> 'c TriggerManager \<Rightarrow> 'c TriggerManager" where
  "CleanupWebhookDedup workflowKey tm = tm\<lparr>tm_dedupState := AList.delete (workflowKey @ ''-webhook'') (tm_dedupState tm)\<rparr>"

subsection \<open>Registries\<close>

text \<open>
  What schedules, event triggers and watchers have in common: entries under string keys that are removed one at a
  time while a list of the keys is walked.
\<close>

locale trigger_registry =
  fixes view :: "'s \<Rightarrow> string \<Rightarrow> 'v option"
    and listed :: "'s \<Rightarrow> string list"
    and remove :: "string \<Rightarrow> 's \<Rightarrow> 's"
  assumes listed_dom: "dom (view s) \<subseteq> set (listed s)"
    and remove_view: "view (remove k s) = (view s)(k := None)"
begin

lemma fold_remove: "view (fold remove ks s) k = (if k \<in> set ks then None else view s k)"
  by (induction ks arbitrary: s) (auto simp: remove_view)

lemma prune_view: "view (fold remove (filter P (listed s)) s) k = (if P k then None else view s k)"
  by (cases "view s k") (auto simp: fold_remove dest: subsetD [OF listed_dom, OF domI])

end

text \<open>What is scheduled and what is watched under a key: the workflow and its trigger.\<close>

definition scheduled :: "'c Scheduler \<Rightarrow> string \<Rightarrow> (Workflow \<times> CronTrigger) option" where
  "scheduled s k = (case (map_of (Scheduler_entries s) k, map_of (Scheduler_workflows s) k, map_of (Scheduler_cronSpecs s) k) of
     (Some i, Some workflow, Some spec) \<Rightarrow> Some (workflow, spec) | _ \<Rightarrow> None)"

definition watched :: "'c TriggerManager \<Rightarrow> string \<Rightarrow> (Workflow \<times> EventTrigger) option" where
  "watched tm k = (case (map_of (tm_eventWorkflowMap tm) k, map_of (tm_eventSpecMap tm) k) of
     (Some workflow, Some spec) \<Rightarrow> Some (workflow, spec) | _ \<Rightarrow> None)"

definition watcher_view :: "'c TriggerManager \<Rightarrow> string \<Rightarrow> nat option" where
  "watcher_view tm = map_of (tm_eventWatchers tm)"

interpretation watchers: trigger_registry watcher_view "\<lambda>tm. map fst (tm_eventWatchers tm)" stop_watcher
  by unfold_locales (simp_all add: watcher_view_def dom_map_of_conv_image_fst stop_watcher_def Let_def split: option.split)

lemma stop_watcher_keep [simp]:
  "tm_eventSpecMap (stop_watcher k tm) = tm_eventSpecMap tm" "tm_eventWorkflowMap (stop_watcher k tm) = tm_eventWorkflowMap tm"
  "tm_scheduler (stop_watcher k tm) = tm_scheduler tm" "tm_dedupState (stop_watcher k tm) = tm_dedupState tm"
  "tm_nextContext (stop_watcher k tm) = tm_nextContext tm"
  by (simp_all add: stop_watcher_def Let_def split: option.split)

lemma fold_keep:
  assumes "\<And>k tm. f (g k tm) = f tm"
  shows "f (fold g ks tm) = f tm"
  using assms by (induction ks arbitrary: tm) simp_all

lemma stopWatchersForKey_keep [simp]:
  "tm_eventSpecMap (stopWatchersForKey key tm) = tm_eventSpecMap tm" "tm_eventWorkflowMap (stopWatchersForKey key tm) = tm_eventWorkflowMap tm"
  "tm_scheduler (stopWatchersForKey key tm) = tm_scheduler tm" "tm_dedupState (stopWatchersForKey key tm) = tm_dedupState tm"
  "tm_nextContext (stopWatchersForKey key tm) = tm_nextContext tm"
  unfolding stopWatchersForKey_def by (rule fold_keep; simp)+

interpretation events: trigger_registry watched "\<lambda>tm. map fst (tm_eventSpecMap tm)" unregisterEventTrigger
proof unfold_locales
  show "dom (watched s) \<subseteq> set (map fst (tm_eventSpecMap s))" for s :: "'a TriggerManager"
    by (auto simp: watched_def dom_def split: option.splits dest: map_of_SomeD image_eqI [of _ fst] intro: rev_image_eqI)
  show "watched (unregisterEventTrigger k s) = (watched s)(k := None)" for k and s :: "'a TriggerManager"
    by (rule ext) (simp add: watched_def unregisterEventTrigger_def Let_def)
qed

interpretation schedules: trigger_registry scheduled scheduleKeys "RemoveSchedule eng" for eng
proof unfold_locales
  show "dom (scheduled s) \<subseteq> set (scheduleKeys s)" for s :: "'a Scheduler"
  proof (rule subsetI, rule ccontr)
    fix k
    assume k: "k \<in> dom (scheduled s)" "k \<notin> set (scheduleKeys s)"
    then have "map_of (Scheduler_entries s) k = None" by (simp add: scheduleKeys_def map_of_eq_None_iff)
    with k(1) show False by (simp add: scheduled_def dom_def)
  qed
  show "scheduled (RemoveSchedule eng k s) = (scheduled s)(k := None)" for k and s :: "'a Scheduler"
    by (rule ext) (auto simp: scheduled_def RemoveSchedule_def split: option.splits)
qed

subsection \<open>Keys of a workflow\<close>

lemma digit_chars: "list_all (\<lambda>n. digit_char n \<in> set ''0123456789'' \<and> of_char (digit_char n) = 48 + n) [0..<10]"
  by code_simp

lemma digit_char_digit: "n < 10 \<Longrightarrow> digit_char n \<in> set ''0123456789'' \<and> of_char (digit_char n) = 48 + n"
  using digit_chars unfolding list_all_iff set_upt by (metis atLeastLessThan_iff le0)

lemma isDigits_append: "xs \<noteq> [] \<Longrightarrow> ys \<noteq> [] \<Longrightarrow> isDigits (xs @ ys) \<longleftrightarrow> isDigits xs \<and> isDigits ys"
  by (simp add: isDigits_def)

lemma digits_value_snoc: "digits_value (ds @ [c]) = 10 * digits_value ds + (of_char c - 48)"
  by (simp add: digits_value_def)

lemma digits_base_10:
  "isDigits (digits_base 10 n) \<and> digits_value (digits_base 10 n) = n"
proof (induction n rule: less_induct)
  case (less n)
  show ?case
  proof (cases "n < 10")
    case True
    then show ?thesis using digit_char_digit [OF True]
      by (simp add: digits_base.simps [of 10 n] isDigits_def digits_value_def)
  next
    case False
    then have "n div 10 < n" by simp
    from less [OF this] False digit_char_digit [of "n mod 10"] show ?thesis
      by (simp add: digits_base.simps [of 10 n] isDigits_append digits_value_snoc isDigits_def)
  qed
qed

lemma utoa_digits [simp]: "isDigits (utoa n)" "digits_value (utoa n) = n"
  using digits_base_10 [of n] by (simp_all add: utoa_def)

lemma utoa_inj [simp]: "utoa m = utoa n \<longleftrightarrow> m = n"
  by (metis utoa_digits(2))

text \<open>A suffix of digits is determined by the string: the separator before it ends in a dash.\<close>

lemma isDigits_no_dash: "isDigits d \<Longrightarrow> CHR ''-'' \<notin> set d"
proof -
  have "CHR ''-'' \<notin> set ''0123456789''" by simp
  then show "isDigits d \<Longrightarrow> CHR ''-'' \<notin> set d" unfolding isDigits_def list_all_iff by metis
qed

lemma separator_unique:
  assumes "a @ d # b = a' @ d # b'" "d \<notin> set a" "d \<notin> set a'"
  shows "a = a' \<and> b = b'"
proof -
  have "takeWhile (\<lambda>c. c \<noteq> d) (a @ d # b) = a" "takeWhile (\<lambda>c. c \<noteq> d) (a' @ d # b') = a'"
    using assms(2,3) by (auto simp: takeWhile_append)
  with assms(1) show ?thesis by auto
qed

lemma digit_suffix_unique:
  assumes "a @ sep @ ''-'' @ d = a' @ sep @ ''-'' @ d'" "isDigits d" "isDigits d'"
  shows "a = a' \<and> d = d'"
proof -
  have "rev d @ CHR ''-'' # rev sep @ rev a = rev d' @ CHR ''-'' # rev sep @ rev a'"
    using arg_cong [OF assms(1), of rev] by simp
  from separator_unique [OF this] assms(2,3) isDigits_no_dash show ?thesis by auto
qed

lemma keys_unique:
  "cron_key wk i = cron_key wk' j \<longleftrightarrow> wk = wk' \<and> i = j" "event_key wk i = event_key wk' j \<longleftrightarrow> wk = wk' \<and> i = j"
  using digit_suffix_unique [of wk "''-cron''" "utoa i" wk' "utoa j"] digit_suffix_unique [of wk "''-event''" "utoa i" wk' "utoa j"]
  by (auto simp: cron_key_def event_key_def)

lemma stale_key:
  assumes "length triggers < 2 ^ 63"
  shows "staleTriggerKey (wk' @ sep @ ''-'' @ utoa i) (wk @ sep @ ''-'') triggers want \<longleftrightarrow>
    wk' = wk \<and> (length triggers \<le> i \<or> \<not> want (triggers ! i))"
proof (cases "wk' = wk")
  case True
  have "cut_prefix (wk @ sep @ ''-'' @ utoa i) (wk @ sep @ ''-'') = Some (utoa i)" by (simp add: cut_prefix_Some)
  with True assms show ?thesis by (auto simp: staleTriggerKey_def atoi_digits_def)
next
  case False
  have "\<not> isDigits idx" if "cut_prefix (wk' @ sep @ ''-'' @ utoa i) (wk @ sep @ ''-'') = Some idx" for idx
    using digit_suffix_unique [of wk' sep "utoa i" wk idx] that False by (auto simp: cut_prefix_Some)
  with False show ?thesis by (auto simp: staleTriggerKey_def split: option.splits)
qed

lemma stale_cron_key:
  "length triggers < 2 ^ 63 \<Longrightarrow> staleTriggerKey (cron_key wk' i) (wk @ ''-cron-'') triggers want \<longleftrightarrow>
     wk' = wk \<and> (length triggers \<le> i \<or> \<not> want (triggers ! i))"
  using stale_key [of triggers wk' "''-cron''" i wk want] by (simp add: cron_key_def)

lemma stale_event_key:
  "length triggers < 2 ^ 63 \<Longrightarrow> staleTriggerKey (event_key wk' i) (wk @ ''-event-'') triggers want \<longleftrightarrow>
     wk' = wk \<and> (length triggers \<le> i \<or> \<not> want (triggers ! i))"
  using stale_key [of triggers wk' "''-event''" i wk want] by (simp add: event_key_def)

subsection \<open>Registering a workflow\<close>

text \<open>The entries that a workflow asks for, from its trigger number \<open>i\<close> on.\<close>

fun trigger_table :: "(nat \<Rightarrow> string) \<Rightarrow> (Trigger \<Rightarrow> 'a option) \<Rightarrow> Workflow \<Rightarrow> nat \<Rightarrow> Trigger list \<Rightarrow> (string \<times> Workflow \<times> 'a) list" where
  "trigger_table key want workflow i [] = []"
| "trigger_table key want workflow i (t # ts) =
     (case want t of None \<Rightarrow> [] | Some spec \<Rightarrow> [(key i, workflow, spec)]) @ trigger_table key want workflow (Suc i) ts"

lemma trigger_table_at:
  assumes "inj key"
  shows "map_of (trigger_table key want workflow i ts) (key j) =
    (if i \<le> j \<and> j < i + length ts then map_option (\<lambda>spec. (workflow, spec)) (want (ts ! (j - i))) else None)"
proof (induction ts arbitrary: i)
  case (Cons t ts)
  show ?case
  proof (cases "j = i")
    case True
    with Cons show ?thesis by (simp add: map_add_def split: option.splits)
  next
    case False
    then have "key j \<noteq> key i" using assms by (simp add: inj_eq)
    with Cons False show ?thesis by (auto simp: map_add_def nth_Cons' split: option.splits)
  qed
qed auto

lemma trigger_table_other: "\<forall>j. k \<noteq> key j \<Longrightarrow> map_of (trigger_table key want workflow i ts) k = None"
  by (induction ts arbitrary: i) (auto simp: map_add_def split: option.splits)

lemma scheduled_AddSchedule:
  "AddSchedule eng key workflow spec s = (e, s') \<Longrightarrow> scheduled s' = (scheduled s)(key := (if e = None then Some (workflow, spec) else None))"
proof (rule ext)
  fix k
  assume "AddSchedule eng key workflow spec s = (e, s')"
  from AddSchedule_entries [OF this] show "scheduled s' k = ((scheduled s)(key := (if e = None then Some (workflow, spec) else None))) k"
    by (cases "k = key"; cases e) (auto simp: scheduled_def split: option.splits)
qed

lemma watch_resources_keep:
  "watch_resources lib key workflow spec i rs err tm w = (e, tm', w') \<Longrightarrow>
     tm_eventSpecMap tm' = tm_eventSpecMap tm \<and> tm_eventWorkflowMap tm' = tm_eventWorkflowMap tm \<and>
     tm_scheduler tm' = tm_scheduler tm \<and> tm_dedupState tm' = tm_dedupState tm"
proof (induction rs arbitrary: i err tm w)
  case (Cons r rs)
  show ?case
  proof (cases "watchResource lib (key @ ''-resource-'' @ utoa i) key workflow r spec tm w")
    case (fields e1 tm1 w1)
    then have "tm_eventSpecMap tm1 = tm_eventSpecMap tm \<and> tm_eventWorkflowMap tm1 = tm_eventWorkflowMap tm \<and>
        tm_scheduler tm1 = tm_scheduler tm \<and> tm_dedupState tm1 = tm_dedupState tm"
      by (auto simp: watchResource_def start_watch_def split: sum.splits prod.splits)
    with Cons.prems Cons.IH fields show ?thesis by (auto split: if_splits)
  qed
qed simp

lemma registerEventTrigger_view:
  assumes "registerEventTrigger lib key workflow spec tm w = (e, tm', w')"
  shows "watched tm' = (watched tm)(key \<mapsto> (workflow, spec))" "tm_scheduler tm' = tm_scheduler tm"
  using watch_resources_keep [OF assms [unfolded registerEventTrigger_def Let_def]] by (auto simp: watched_def)

lemma register_triggers_view:
  assumes "register_triggers lib eng workflow i ts tm w = (None, tm', w')" "tm_scheduler tm = Some s"
  shows "\<exists>s'. tm_scheduler tm' = Some s' \<and>
    scheduled s' = scheduled s ++ map_of (trigger_table (cron_key (workflow_key workflow)) Trigger_Cron workflow i ts) \<and>
    watched tm' = watched tm ++ map_of (trigger_table (event_key (workflow_key workflow)) Trigger_Event workflow i ts)"
  using assms
proof (induction ts arbitrary: i tm w s)
  case (Cons t ts)
  let ?wk = "workflow_key workflow"
  let ?crons = "map_of (trigger_table (cron_key ?wk) Trigger_Cron workflow (Suc i) ts)"
  let ?events = "map_of (trigger_table (event_key ?wk) Trigger_Event workflow (Suc i) ts)"
  have inj: "inj (cron_key ?wk)" "inj (event_key ?wk)" by (auto simp: inj_def keys_unique)
  have fresh: "cron_key ?wk i \<notin> dom ?crons" "event_key ?wk i \<notin> dom ?events"
    by (auto simp: trigger_table_at [OF inj(1)] trigger_table_at [OF inj(2)])
  from Cons.prems obtain tm1 where c: "register_cron eng ?wk i workflow t tm = (None, tm1)"
    by (auto split: prod.splits option.splits)
  with Cons.prems obtain tm2 w2 where e: "register_event lib ?wk i workflow t tm1 w = (None, tm2, w2)"
    and rest: "register_triggers lib eng workflow (Suc i) ts tm2 w2 = (None, tm', w')"
    by (auto split: prod.splits option.splits)
  from c Cons.prems(2) obtain s1 where s1: "tm_scheduler tm1 = Some s1" "watched tm1 = watched tm"
    "scheduled s1 = (case Trigger_Cron t of None \<Rightarrow> scheduled s | Some spec \<Rightarrow> (scheduled s)(cron_key ?wk i \<mapsto> (workflow, spec)))"
    by (auto simp: register_cron_def watched_def fun_eq_iff split: option.splits prod.splits dest: scheduled_AddSchedule)
  from e have s2: "tm_scheduler tm2 = tm_scheduler tm1"
    "watched tm2 = (case Trigger_Event t of None \<Rightarrow> watched tm1 | Some spec \<Rightarrow> (watched tm1)(event_key ?wk i \<mapsto> (workflow, spec)))"
    by (auto simp: register_event_def split: option.splits dest: registerEventTrigger_view)
  from Cons.IH [OF rest] s1(1) s2(1) obtain s' where s': "tm_scheduler tm' = Some s'" "scheduled s' = scheduled s1 ++ ?crons"
    "watched tm' = watched tm2 ++ ?events" by auto
  moreover have "scheduled s1 ++ ?crons = scheduled s ++ map_of (trigger_table (cron_key ?wk) Trigger_Cron workflow i (t # ts))"
    using s1(3) fresh(1) by (simp add: map_add_upd_left map_add_assoc split: option.splits)
  moreover have "watched tm2 ++ ?events = watched tm ++ map_of (trigger_table (event_key ?wk) Trigger_Event workflow i (t # ts))"
    using s2(2) s1(2) fresh(2) by (simp add: map_add_upd_left split: option.splits)
  ultimately show ?case by auto
qed simp

end
