(* ===== verification/Secret_Mounts.thy ===== *)
theory Secret_Mounts
  imports Workflow_Reach Event_Triggers
begin

text \<open>
  How the Secrets of a run reach its runner: the policy on namespaces and the volumes of the runner Job
  (\<^verbatim>\<open>validateSecretRefPolicy\<close> and \<^verbatim>\<open>buildSecretMounts\<close> of \<^verbatim>\<open>internal/workflow/controller/secret_refs.go\<close>), and the package
  both sides share, \<^verbatim>\<open>internal/secretmount/mounts.go\<close>.

  A \<^verbatim>\<open>map[string]struct{}\<close> is a list without duplicates. \<open>dns1123\<close> is \<^verbatim>\<open>validation.IsDNS1123Subdomain\<close>, the list of what is
  wrong with a name; \<open>readFile\<close> is \<^verbatim>\<open>os.ReadFile\<close>. The value of \<^verbatim>\<open>OTTOFLOW_SECRET_MOUNTS\<close> is a \<open>raw_json\<close>, the unset variable
  its empty document.
\<close>

subsection \<open>The shared package\<close>

definition secretmount_EnvVar :: string where
  "secretmount_EnvVar = ''OTTOFLOW_SECRET_MOUNTS''"

definition KubeconfigDir :: string where
  "KubeconfigDir = ''/etc/ottoflow/secrets/kubeconfig''"

definition data_key_char :: "char \<Rightarrow> bool" where
  "data_key_char ch \<longleftrightarrow> ch \<in> {CHR ''-'', CHR ''.'', CHR ''_''} \<or>
     (let n = (of_char ch :: nat) in 48 \<le> n \<and> n \<le> 57 \<or> 65 \<le> n \<and> n \<le> 90 \<or> 97 \<le> n \<and> n \<le> 122)"

definition invalid_key :: "string \<Rightarrow> string \<Rightarrow> goerror" where
  "invalid_key key why = errorf (''secret data key '' @ quote key @ '' is not a valid Secret data key ('' @ why @ '')'')"

definition charset_hint :: string where
  "charset_hint = ''must consist only of alphanumeric characters, '' @ [CHR 0x27] @ ''-'' @ [CHR 0x27] @ '', '' @
     [CHR 0x27] @ ''_'' @ [CHR 0x27] @ '' or '' @ [CHR 0x27] @ ''.'' @ [CHR 0x27] @
     ''; a path separator can never appear in a Secret data key''"

definition ValidateDataKey :: "string \<Rightarrow> goerror option" where
  "ValidateDataKey key =
     (if key = [] then Some (errorf ''secret data key is empty'')
      else if key = ''.'' \<or> key = ''..'' then Some (invalid_key key (''must not be '' @ quote key))
      else if has_prefix key ''..'' then Some (invalid_key key (''must not start with '' @ quote ''..''))
      else if \<not> list_all data_key_char key then Some (invalid_key key charset_hint)
      else None)"

type_synonym Mounts = "(string \<times> string) list"

definition mount_Key :: "string \<Rightarrow> string \<Rightarrow> string \<Rightarrow> string" where
  "mount_Key namespace name key = namespace @ ''/'' @ name @ ''/'' @ key"

text \<open>\<^verbatim>\<open>json.Unmarshal\<close> into a \<^verbatim>\<open>map[string]string\<close>; a null leaves the zero value.\<close>

fun string_entries :: "gomap \<Rightarrow> Mounts option" where
  "string_entries [] = Some []"
| "string_entries ((k, v) # m) =
     (case (case v of VString s \<Rightarrow> Some s | VNil \<Rightarrow> Some [] | _ \<Rightarrow> None) of None \<Rightarrow> None
      | Some s \<Rightarrow> map_option ((#) (k, s)) (string_entries m))"

definition loadMountsFromEnv :: "raw_json \<Rightarrow> Mounts result" where
  "loadMountsFromEnv raw =
     (if raw = RawEmpty then Inr []
      else (case Option.bind (unmarshal_map raw) string_entries of
              None \<Rightarrow> Inl (errorf (''parsing '' @ secretmount_EnvVar @ '': invalid JSON''))
            | Some m \<Rightarrow> Inr m))"

definition ReadFile :: "(string \<Rightarrow> string result) \<Rightarrow> Mounts \<Rightarrow> string \<Rightarrow> string \<Rightarrow> string \<Rightarrow> string result" where
  "ReadFile readFile m namespace name key =
     (let what = namespace @ ''/'' @ name @ '' key '' @ quote key in
      case map_of m (mount_Key namespace name key) of
        None \<Rightarrow> Inl (GoError [ErrSecretValueNotFound] (''secret '' @ what @ '' is not mounted into the runner (not in '' @
          secretmount_EnvVar @ ''): secret value not found''))
      | Some path \<Rightarrow>
          (case readFile path of
             Inr b \<Rightarrow> Inr b
           | Inl e \<Rightarrow>
               if errors_is e OsNotExist
               then Inl (GoError [ErrSecretValueNotFound] (''reading mounted secret '' @ what @ '' at '' @ path @ '': '' @ err_msg e @
                  '': secret value not found''))
               else Inl (wrapf (''reading mounted secret '' @ what @ '' at '' @ path @ '': '') e)))"

text \<open>\<^verbatim>\<open>Load\<close> parses the variable once; it does not change while the process runs.\<close>

definition Resolve ::
  "(object_key \<Rightarrow> (string \<times> string) list result) \<Rightarrow> raw_json \<Rightarrow> (string \<Rightarrow> string result) \<Rightarrow> bool \<Rightarrow>
   string \<Rightarrow> string \<Rightarrow> string \<Rightarrow> string result" where
  "Resolve getSecret env readFile useAPI namespace name key =
     (if useAPI then
        (case getSecret (namespace, name) of
           Inl e \<Rightarrow>
             if not_found e
             then Inl (GoError [ErrSecretValueNotFound] (''getting secret '' @ namespace @ ''/'' @ name @ '': '' @ err_msg e @ '': secret value not found''))
             else Inl (wrapf (''getting secret '' @ namespace @ ''/'' @ name @ '': '') e)
         | Inr secretData \<Rightarrow>
             (case map_of secretData key of
                None \<Rightarrow> Inl (GoError [ErrSecretValueNotFound] (''key '' @ quote key @ '' not found in secret '' @ namespace @ ''/'' @ name @ '': secret value not found''))
              | Some v \<Rightarrow> Inr v))
      else bindr (wrap_err ''loading secret mounts: '' (loadMountsFromEnv env))
             (\<lambda>m. ReadFile readFile m namespace name key))"

subsection \<open>The policy\<close>

definition em_dash :: string where
  "em_dash = [CHR 0x20, CHR 0xE2, CHR 0x80, CHR 0x94, CHR 0x20]"

definition ref_policy :: "string \<Rightarrow> string list \<Rightarrow> resolvedSecretRef \<Rightarrow> goerror option" where
  "ref_policy runNamespace allowed ref =
     (let differs = ''secret ref '' @ ref_Origin ref @ '' points to namespace '' @ quote (ref_Namespace ref) @
            '', which differs from the WorkflowRun'' @ [CHR 0x27] @ ''s namespace '' @ quote runNamespace in
      if ref_Namespace ref = runNamespace then None
      else if ref_NeedsRunnerMount ref
      then Some (errorf (differs @ ''; this reference is mounted into the runner Job as a native Kubernetes Secret volume, which can only '' @
        ''reach a Secret in the runner pod'' @ [CHR 0x27] @ ''s own namespace'' @ em_dash @ ''--secret-ref-allowed-namespaces '' @
        ''cannot make this work for this reference kind. Move the secret into namespace '' @ quote runNamespace @
        '', or (if this reference came from a workflowRef step) move the sub-workflow into namespace '' @ quote runNamespace @
        '' so its Secret references resolve there instead'' @ em_dash @ ''a workflowRef sub-workflow executes inline '' @
        ''in the same runner Job/pod as its parent, not a separate one in its own namespace''))
      else if ref_Namespace ref \<in> set allowed then None
      else Some (errorf (differs @ '' and is not in the operator-configured allowlist. This reference is resolved by the agent-executor '' @
        ''service (under agent-executor'' @ [CHR 0x27] @ ''s own RBAC), not by the workflow runner; the allowlist is what gates it. Either move '' @
        ''the secret into namespace '' @ quote runNamespace @ '', or have an operator add namespace '' @ quote (ref_Namespace ref) @
        '' to --secret-ref-allowed-namespaces and confirm agent-executor'' @ [CHR 0x27] @ ''s RBAC can read Secrets there'')))"

definition validateSecretRefPolicy :: "resolvedSecretRef list \<Rightarrow> string \<Rightarrow> string list \<Rightarrow> goerror option" where
  "validateSecretRefPolicy refs runNamespace allowed = first_error (ref_policy runNamespace allowed) refs"

subsection \<open>Volumes\<close>

definition secretMountBaseDir :: string where
  "secretMountBaseDir = ''/etc/ottoflow/secrets''"

definition appendOrigin :: "string list \<Rightarrow> string \<Rightarrow> string list" where
  "appendOrigin origins origin = (if origin \<in> set origins then origins else origins @ [origin])"

record secretKeys =
  sk_namespace :: string
  sk_name :: string
  sk_keys :: "string list"
  sk_optionalKeys :: "string list"
  sk_mandatoryOrigins :: "string list"
  sk_optionalOrigins :: "string list"

type_synonym by_secret = "(string \<times> secretKeys) list"

definition secret_id :: "resolvedSecretRef \<Rightarrow> string" where
  "secret_id ref = ref_Namespace ref @ ''/'' @ ref_Name ref"

definition add_secret_key :: "by_secret \<Rightarrow> resolvedSecretRef \<Rightarrow> by_secret" where
  "add_secret_key bySecret ref =
     (let entry = (case map_of bySecret (secret_id ref) of Some e \<Rightarrow> e
            | None \<Rightarrow> \<lparr>sk_namespace = ref_Namespace ref, sk_name = ref_Name ref, sk_keys = [], sk_optionalKeys = [],
                        sk_mandatoryOrigins = [], sk_optionalOrigins = []\<rparr>) in
      AList.update (secret_id ref)
        (if ref_Optional ref
         then entry\<lparr>sk_optionalKeys := List.insert (ref_Key ref) (sk_optionalKeys entry),
                    sk_optionalOrigins := appendOrigin (sk_optionalOrigins entry) (ref_Origin ref)\<rparr>
         else entry\<lparr>sk_keys := List.insert (ref_Key ref) (sk_keys entry),
                    sk_mandatoryOrigins := appendOrigin (sk_mandatoryOrigins entry) (ref_Origin ref)\<rparr>) bySecret)"

definition cross_namespace_error :: "resolvedSecretRef \<Rightarrow> string \<Rightarrow> goerror" where
  "cross_namespace_error ref runNamespace =
     errorf (''secret ref '' @ ref_Origin ref @ '' is in allowlisted cross-namespace source '' @ quote (ref_Namespace ref) @
       '', but cross-namespace secret mounting into the runner Job is not yet supported; move the secret into namespace '' @ quote runNamespace)"

definition bad_name_error :: "resolvedSecretRef \<Rightarrow> string list \<Rightarrow> goerror" where
  "bad_name_error ref errs =
     errorf (''secret ref '' @ ref_Origin ref @ '' cannot be mounted: Secret name '' @ quote (ref_Name ref) @
       '' is not a valid DNS-1123 subdomain ('' @ join_with ''; '' errs @ '')'')"

definition bad_key_error :: "resolvedSecretRef \<Rightarrow> goerror \<Rightarrow> goerror" where
  "bad_key_error ref e = wrapf (''secret ref '' @ ref_Origin ref @ '' cannot be mounted: '') e"

fun group_refs ::
  "(string \<Rightarrow> string list) \<Rightarrow> string \<Rightarrow> resolvedSecretRef list \<Rightarrow> resolvedSecretRef option \<Rightarrow> by_secret \<Rightarrow>
   (resolvedSecretRef option \<times> by_secret) result" where
  "group_refs dns1123 runNamespace [] kubeconfigRef bySecret = Inr (kubeconfigRef, bySecret)"
| "group_refs dns1123 runNamespace (ref # refs) kubeconfigRef bySecret =
     (if \<not> ref_NeedsRunnerMount ref then group_refs dns1123 runNamespace refs kubeconfigRef bySecret
      else if ref_Namespace ref \<noteq> runNamespace then Inl (cross_namespace_error ref runNamespace)
      else if dns1123 (ref_Name ref) \<noteq> [] then Inl (bad_name_error ref (dns1123 (ref_Name ref)))
      else if ref_IsKubeconfig ref
      then group_refs dns1123 runNamespace refs (case kubeconfigRef of None \<Rightarrow> Some ref | Some k \<Rightarrow> Some k) bySecret
      else (case ValidateDataKey (ref_Key ref) of
              Some e \<Rightarrow> Inl (bad_key_error ref e)
            | None \<Rightarrow> group_refs dns1123 runNamespace refs kubeconfigRef (add_secret_key bySecret ref)))"

text \<open>The volumes of one Secret: its mandatory keys and, apart, those that are only optional.\<close>

record mount_group =
  mg_namespace :: string
  mg_name :: string
  mg_keys :: "string list"
  mg_origins :: "string list"
  mg_optional :: bool

definition entry_groups :: "secretKeys \<Rightarrow> mount_group list" where
  "entry_groups e = filter (\<lambda>g. mg_keys g \<noteq> [])
     [\<lparr>mg_namespace = sk_namespace e, mg_name = sk_name e, mg_keys = sort (sk_keys e),
       mg_origins = sk_mandatoryOrigins e, mg_optional = False\<rparr>,
      \<lparr>mg_namespace = sk_namespace e, mg_name = sk_name e,
       mg_keys = sort (filter (\<lambda>k. k \<notin> set (sk_keys e)) (sk_optionalKeys e)),
       mg_origins = sk_optionalOrigins e, mg_optional = True\<rparr>]"

definition sorted_entries :: "by_secret \<Rightarrow> secretKeys list" where
  "sorted_entries bySecret = List.map_filter (map_of bySecret) (sort (map fst bySecret))"

definition mount_groups :: "by_secret \<Rightarrow> mount_group list" where
  "mount_groups bySecret = concat (map entry_groups (sorted_entries bySecret))"

definition group_vol_name :: "nat \<Rightarrow> string" where
  "group_vol_name i = generatedSecretVolumePrefix @ utoa i"

definition group_dir :: "nat \<Rightarrow> string" where
  "group_dir i = secretMountBaseDir @ ''/'' @ utoa i"

definition group_volume :: "nat \<Rightarrow> mount_group \<Rightarrow> Volume" where
  "group_volume i g = \<lparr>Volume_Name = group_vol_name i,
     Volume_Secret = Some \<lparr>SecretVolumeSource_SecretName = mg_name g,
       SecretVolumeSource_Items = map (\<lambda>k. \<lparr>KeyToPath_Key = k, KeyToPath_Path = k\<rparr>) (mg_keys g),
       SecretVolumeSource_Optional = (if mg_optional g then Some True else None)\<rparr>,
     Volume_ConfigMap = None\<rparr>"

definition group_mount :: "nat \<Rightarrow> VolumeMount" where
  "group_mount i = \<lparr>VolumeMount_Name = group_vol_name i, VolumeMount_MountPath = group_dir i, VolumeMount_ReadOnly = True\<rparr>"

definition group_paths :: "nat \<Rightarrow> mount_group \<Rightarrow> Mounts" where
  "group_paths i g = map (\<lambda>k. (mount_Key (mg_namespace g) (mg_name g) k, group_dir i @ ''/'' @ k)) (mg_keys g)"

definition kubeconfigVolName :: string where
  "kubeconfigVolName = generatedSecretVolumePrefix @ ''kubeconfig''"

definition kubeconfig_volume :: "resolvedSecretRef \<Rightarrow> Volume" where
  "kubeconfig_volume ref = \<lparr>Volume_Name = kubeconfigVolName,
     Volume_Secret = Some \<lparr>SecretVolumeSource_SecretName = ref_Name ref, SecretVolumeSource_Items = [],
       SecretVolumeSource_Optional = None\<rparr>, Volume_ConfigMap = None\<rparr>"

definition kubeconfig_mount :: VolumeMount where
  "kubeconfig_mount = \<lparr>VolumeMount_Name = kubeconfigVolName, VolumeMount_MountPath = KubeconfigDir, VolumeMount_ReadOnly = True\<rparr>"

definition mounts_json :: "Mounts \<Rightarrow> raw_json result" where
  "mounts_json m =
     (if m = [] then Inr RawEmpty
      else (case marshal (VMap (map (\<lambda>(k, p). (k, VString p)) m)) of
              None \<Rightarrow> Inl (errorf (''marshaling '' @ secretmount_EnvVar))
            | Some raw \<Rightarrow> Inr raw))"

record secret_mounts =
  sm_volumes :: "Volume list"
  sm_mounts :: "VolumeMount list"
  sm_mountsJSON :: raw_json
  sm_origins :: "(string \<times> string) list"

definition minted_volumes :: "resolvedSecretRef option \<Rightarrow> mount_group list \<Rightarrow> Volume list" where
  "minted_volumes kubeconfigRef gs =
     (case kubeconfigRef of None \<Rightarrow> [] | Some ref \<Rightarrow> [kubeconfig_volume ref]) @ map2 group_volume [0..<length gs] gs"

definition minted_mounts :: "resolvedSecretRef option \<Rightarrow> mount_group list \<Rightarrow> VolumeMount list" where
  "minted_mounts kubeconfigRef gs =
     (case kubeconfigRef of None \<Rightarrow> [] | Some ref \<Rightarrow> [kubeconfig_mount]) @ map group_mount [0..<length gs]"

definition minted_paths :: "mount_group list \<Rightarrow> Mounts" where
  "minted_paths gs = put_all [] (concat (map2 group_paths [0..<length gs] gs))"

definition minted_origins :: "resolvedSecretRef option \<Rightarrow> mount_group list \<Rightarrow> (string \<times> string) list" where
  "minted_origins kubeconfigRef gs =
     put_all (case kubeconfigRef of None \<Rightarrow> [] | Some ref \<Rightarrow> [(kubeconfigVolName, ref_Origin ref)])
       (map2 (\<lambda>i g. (group_vol_name i, join_with '', '' (mg_origins g))) [0..<length gs] gs)"

definition reserved_prefix_error :: "string \<Rightarrow> goerror" where
  "reserved_prefix_error name =
     errorf (''volume '' @ quote name @ '' on the runner Job pod spec (likely from spec.execution.job.volumes) uses the '' @
       quote generatedSecretVolumePrefix @ '' prefix, which is reserved for the Secret volumes OttoFlow mounts for the workflow'' @ [CHR 0x27] @
       ''s own Secret references; rename that volume to resolve the conflict'')"

definition buildSecretMounts ::
  "(string \<Rightarrow> string list) \<Rightarrow> resolvedSecretRef list \<Rightarrow> string \<Rightarrow> string list \<Rightarrow> secret_mounts result" where
  "buildSecretMounts dns1123 refs runNamespace existingVolumeNames =
     (case List.find (\<lambda>name. has_prefix name generatedSecretVolumePrefix) existingVolumeNames of
        Some name \<Rightarrow> Inl (reserved_prefix_error name)
      | None \<Rightarrow>
          bindr (group_refs dns1123 runNamespace refs None []) (\<lambda>r.
          let gs = mount_groups (snd r) in
          bindr (mounts_json (minted_paths gs)) (\<lambda>raw.
          Inr \<lparr>sm_volumes = minted_volumes (fst r) gs, sm_mounts = minted_mounts (fst r) gs, sm_mountsJSON = raw,
               sm_origins = minted_origins (fst r) gs\<rparr>)))"

subsection \<open>Keys\<close>

lemma split_first_unique:
  "d \<notin> set k \<Longrightarrow> d \<notin> set k' \<Longrightarrow> k @ d # n = k' @ d # n' \<longleftrightarrow> k = k' \<and> n = n'"
proof (induction k arbitrary: k')
  case Nil
  then show ?case by (cases k') auto
next
  case (Cons a k)
  then show ?case by (cases k') auto
qed

lemma split_last_unique:
  assumes "d \<notin> set k" "d \<notin> set k'"
  shows "n @ d # k = n' @ d # k' \<longleftrightarrow> n = n' \<and> k = k'"
proof -
  have "n @ d # k = n' @ d # k' \<longleftrightarrow> List.rev (n @ d # k) = List.rev (n' @ d # k')" by (simp only: rev_is_rev_conv)
  also have "\<dots> \<longleftrightarrow> List.rev k @ d # List.rev n = List.rev k' @ d # List.rev n'" by simp
  also have "\<dots> \<longleftrightarrow> n = n' \<and> k = k'" using assms by (subst split_first_unique) auto
  finally show ?thesis .
qed

lemma mount_Key_inj:
  "CHR ''/'' \<notin> set k \<Longrightarrow> CHR ''/'' \<notin> set k' \<Longrightarrow> mount_Key ns n k = mount_Key ns n' k' \<longleftrightarrow> n = n' \<and> k = k'"
  by (simp add: mount_Key_def split_last_unique)

lemma valid_key:
  assumes "ValidateDataKey key = None"
  shows "key \<noteq> []" "key \<noteq> ''.''" "\<not> has_prefix key ''..''" "list_all data_key_char key" "CHR ''/'' \<notin> set key"
proof -
  have "key \<noteq> [] \<and> \<not> (key = ''.'' \<or> key = ''..'') \<and> \<not> has_prefix key ''..'' \<and> list_all data_key_char key"
    using assms unfolding ValidateDataKey_def by (metis option.distinct(1))
  then show "key \<noteq> []" "key \<noteq> ''.''" "\<not> has_prefix key ''..''" and all: "list_all data_key_char key" by blast+
  have "\<not> data_key_char (CHR ''/'')" by (simp add: data_key_char_def)
  with all show "CHR ''/'' \<notin> set key" by (auto simp: list_all_iff)
qed

subsection \<open>Grouping\<close>

definition mountable :: "resolvedSecretRef \<Rightarrow> bool" where
  "mountable r \<longleftrightarrow> ref_NeedsRunnerMount r \<and> \<not> ref_IsKubeconfig r"

definition keys_of :: "resolvedSecretRef list \<Rightarrow> bool \<Rightarrow> string \<Rightarrow> string set" where
  "keys_of refs opt name = {ref_Key r | r. r \<in> set refs \<and> mountable r \<and> ref_Name r = name \<and> ref_Optional r = opt}"

definition entry_ok :: "string \<Rightarrow> resolvedSecretRef list \<Rightarrow> string \<Rightarrow> secretKeys \<Rightarrow> bool" where
  "entry_ok ns P i e \<longleftrightarrow> i = ns @ ''/'' @ sk_name e \<and> sk_namespace e = ns \<and> distinct (sk_keys e) \<and> distinct (sk_optionalKeys e) \<and>
     set (sk_keys e) = keys_of P False (sk_name e) \<and> set (sk_optionalKeys e) = keys_of P True (sk_name e)"

definition grouped :: "string \<Rightarrow> resolvedSecretRef list \<Rightarrow> by_secret \<Rightarrow> bool" where
  "grouped ns P bs \<longleftrightarrow> wf_map bs \<and> (\<forall>i e. map_of bs i = Some e \<longrightarrow> entry_ok ns P i e) \<and>
     (\<forall>r \<in> set P. mountable r \<longrightarrow> map_of bs (ns @ ''/'' @ ref_Name r) \<noteq> None)"

lemma keys_of_snoc:
  "keys_of (P @ [r]) opt name =
     (if mountable r \<and> ref_Name r = name \<and> ref_Optional r = opt then insert (ref_Key r) (keys_of P opt name) else keys_of P opt name)"
  by (auto simp: keys_of_def)

lemma grouped_Nil: "grouped ns [] []"
  by (simp add: grouped_def)

lemma grouped_skip: "grouped ns P bs \<Longrightarrow> \<not> mountable r \<Longrightarrow> grouped ns (P @ [r]) bs"
  by (auto simp: grouped_def entry_ok_def keys_of_snoc)

lemma keys_of_fresh:
  "grouped ns P bs \<Longrightarrow> map_of bs (ns @ ''/'' @ name) = None \<Longrightarrow> keys_of P opt name = {}"
  by (auto simp: grouped_def keys_of_def)

lemma grouped_add:
  assumes g: "grouped ns P bs" and r: "mountable r" "ref_Namespace r = ns"
  shows "grouped ns (P @ [r]) (add_secret_key bs r)"
proof -
  define e where "e = (case map_of bs (secret_id r) of Some e \<Rightarrow> e
            | None \<Rightarrow> \<lparr>sk_namespace = ref_Namespace r, sk_name = ref_Name r, sk_keys = [], sk_optionalKeys = [],
                        sk_mandatoryOrigins = [], sk_optionalOrigins = []\<rparr>)"
  define e' where "e' = (if ref_Optional r
         then e\<lparr>sk_optionalKeys := List.insert (ref_Key r) (sk_optionalKeys e),
                    sk_optionalOrigins := appendOrigin (sk_optionalOrigins e) (ref_Origin r)\<rparr>
         else e\<lparr>sk_keys := List.insert (ref_Key r) (sk_keys e),
                    sk_mandatoryOrigins := appendOrigin (sk_mandatoryOrigins e) (ref_Origin r)\<rparr>)"
  have id: "secret_id r = ns @ ''/'' @ ref_Name r" using r by (simp add: secret_id_def)
  have add: "add_secret_key bs r = AList.update (secret_id r) e' bs"
    by (simp add: add_secret_key_def e_def e'_def Let_def)
  have e: "entry_ok ns P (secret_id r) e" "sk_name e = ref_Name r"
  proof (atomize (full), cases "map_of bs (secret_id r)")
    case None
    with keys_of_fresh [OF g] r id show "entry_ok ns P (secret_id r) e \<and> sk_name e = ref_Name r"
      by (simp add: e_def entry_ok_def)
  next
    case (Some x)
    with g have "entry_ok ns P (secret_id r) x" by (simp add: grouped_def)
    moreover from this id have "sk_name x = ref_Name r" by (simp add: entry_ok_def)
    ultimately show "entry_ok ns P (secret_id r) e \<and> sk_name e = ref_Name r" using Some by (simp add: e_def)
  qed
  have e': "entry_ok ns (P @ [r]) (secret_id r) e'"
    using e r by (auto simp: entry_ok_def e'_def keys_of_snoc)
  have other: "entry_ok ns (P @ [r]) i x" if "entry_ok ns P i x" "i \<noteq> secret_id r" for i x
    using that by (auto simp: entry_ok_def keys_of_snoc id)
  show ?thesis
    unfolding grouped_def add
  proof (intro conjI allI impI ballI)
    show "wf_map (AList.update (secret_id r) e' bs)" using g by (simp add: grouped_def)
    show "entry_ok ns (P @ [r]) i x" if "map_of (AList.update (secret_id r) e' bs) i = Some x" for i x
      using that e' other g by (auto simp: grouped_def split: if_splits)
    show "map_of (AList.update (secret_id r) e' bs) (ns @ ''/'' @ ref_Name q) \<noteq> None" if "q \<in> set (P @ [r])" "mountable q" for q
      using that g id by (auto simp: grouped_def)
  qed
qed

text \<open>What a reference must satisfy for the grouping to succeed.\<close>

definition mount_ok :: "(string \<Rightarrow> string list) \<Rightarrow> string \<Rightarrow> resolvedSecretRef \<Rightarrow> bool" where
  "mount_ok dns1123 ns r \<longleftrightarrow> (ref_NeedsRunnerMount r \<longrightarrow> ref_Namespace r = ns \<and> dns1123 (ref_Name r) = [] \<and>
     (\<not> ref_IsKubeconfig r \<longrightarrow> ValidateDataKey (ref_Key r) = None))"

lemma group_refs_ok:
  assumes "group_refs dns1123 ns refs kc bs = Inr (kc', bs')" "grouped ns P bs"
  shows "grouped ns (P @ refs) bs' \<and> (\<forall>r \<in> set refs. mount_ok dns1123 ns r) \<and>
    (kc' = kc \<or> (\<exists>r \<in> set refs. kc' = Some r \<and> ref_IsKubeconfig r \<and> ref_NeedsRunnerMount r))"
  using assms
proof (induction refs arbitrary: kc bs P)
  case (Cons r refs)
  have step: ?case
    if "group_refs dns1123 ns refs kc1 bs1 = Inr (kc', bs')" "grouped ns (P @ [r]) bs1" "mount_ok dns1123 ns r"
      "kc1 = kc \<or> kc1 = Some r \<and> ref_IsKubeconfig r \<and> ref_NeedsRunnerMount r" for kc1 bs1
    using Cons.IH [OF that(1,2)] that(3,4) by auto
  show ?case
  proof (cases "mountable r")
    case True
    with Cons.prems(1) have 1: "group_refs dns1123 ns refs kc (add_secret_key bs r) = Inr (kc', bs')" "mount_ok dns1123 ns r"
      and 2: "ref_Namespace r = ns"
      by (auto simp: mountable_def mount_ok_def split: if_splits option.splits)
    show ?thesis by (rule step [OF 1(1) grouped_add [OF Cons.prems(2) True 2] 1(2)]) simp
  next
    case False
    note skip = grouped_skip [OF Cons.prems(2) False]
    show ?thesis
    proof (cases "ref_NeedsRunnerMount r")
      case True
      with False Cons.prems(1) have 1: "group_refs dns1123 ns refs (case kc of None \<Rightarrow> Some r | Some k \<Rightarrow> Some k) bs = Inr (kc', bs')"
        "mount_ok dns1123 ns r" by (auto simp: mountable_def mount_ok_def split: if_splits)
      from False True show ?thesis
        by (intro step [OF 1(1) skip 1(2)]) (simp add: mountable_def split: option.splits)
    next
      case no: False
      with Cons.prems(1) have 1: "group_refs dns1123 ns refs kc bs = Inr (kc', bs')" "mount_ok dns1123 ns r"
        by (simp_all add: mount_ok_def)
      show ?thesis by (rule step [OF 1(1) skip 1(2)]) simp
    qed
  qed
qed simp

subsection \<open>The minted volumes\<close>

definition group_pairs :: "mount_group \<Rightarrow> (string \<times> string) list" where
  "group_pairs g = map (Pair (mg_name g)) (mg_keys g)"

definition entry_pairs :: "secretKeys \<Rightarrow> (string \<times> string) list" where
  "entry_pairs e = concat (map group_pairs (entry_groups e))"

lemma entry_pairs_eq:
  "entry_pairs e = map (Pair (sk_name e)) (sort (sk_keys e) @ sort (filter (\<lambda>k. k \<notin> set (sk_keys e)) (sk_optionalKeys e)))"
  by (simp add: entry_pairs_def entry_groups_def group_pairs_def)

lemma distinct_entry_pairs:
  "distinct (sk_keys e) \<Longrightarrow> distinct (sk_optionalKeys e) \<Longrightarrow> distinct (entry_pairs e)"
  by (auto simp: entry_pairs_eq distinct_map inj_on_def)

lemma distinct_all_pairs:
  assumes "distinct (map sk_name es)" "\<And>e. e \<in> set es \<Longrightarrow> distinct (sk_keys e) \<and> distinct (sk_optionalKeys e)"
  shows "distinct (concat (map entry_pairs es))"
  using assms
proof (induction es)
  case (Cons e es)
  then have "distinct (entry_pairs e)" "distinct (concat (map entry_pairs es))" by (auto intro: distinct_entry_pairs)
  moreover have "set (entry_pairs e) \<inter> set (concat (map entry_pairs es)) = {}"
    using Cons.prems(1) by (auto simp: entry_pairs_eq)
  ultimately show ?case by simp
qed simp

lemma sorted_entries_set: "e \<in> set (sorted_entries bs) \<longleftrightarrow> (\<exists>i. map_of bs i = Some e)"
proof -
  have "e \<in> set (sorted_entries bs) \<longleftrightarrow> (\<exists>i \<in> fst ` set bs. map_of bs i = Some e)"
    by (auto simp: sorted_entries_def map_filter_def image_iff) force+
  then show ?thesis by (metis image_eqI map_of_SomeD fst_conv)
qed

lemma sorted_entries_names:
  assumes "grouped ns P bs"
  shows "distinct (map sk_name (sorted_entries bs))"
proof -
  have "distinct (map sk_name (List.map_filter (map_of bs) ids))" if "distinct ids" for ids
    using that
  proof (induction ids)
    case (Cons i ids)
    show ?case
    proof (cases "map_of bs i")
      case None
      with Cons show ?thesis by (simp add: map_filter_simps)
    next
      case (Some e)
      have "sk_name x \<noteq> sk_name e" if "j \<in> set ids" "map_of bs j = Some x" for j x
        using that Some assms Cons.prems unfolding grouped_def entry_ok_def by (metis distinct.simps(2))
      then have "sk_name e \<notin> sk_name ` set (List.map_filter (map_of bs) ids)"
        by (force simp: map_filter_def)
      with Cons Some show ?thesis by (simp add: map_filter_simps)
    qed
  qed (simp add: map_filter_simps)
  then show ?thesis using assms by (simp add: sorted_entries_def grouped_def wf_map_def)
qed

lemma mount_groups_pairs: "concat (map group_pairs (mount_groups bs)) = concat (map entry_pairs (sorted_entries bs))"
proof -
  have "concat (map group_pairs (concat (map entry_groups es))) = concat (map entry_pairs es)" for es
    by (induction es) (simp_all add: entry_pairs_def)
  then show ?thesis by (simp add: mount_groups_def)
qed

lemma mount_groups_nonempty: "g \<in> set (mount_groups bs) \<Longrightarrow> mg_keys g \<noteq> []"
  unfolding mount_groups_def entry_groups_def by (auto simp del: filter.simps)

lemma mount_groups_mem:
  assumes "g \<in> set (mount_groups bs)"
  obtains i e where "map_of bs i = Some e" "mg_namespace g = sk_namespace e" "mg_name g = sk_name e"
    "set (mg_keys g) = (if mg_optional g then set (sk_optionalKeys e) - set (sk_keys e) else set (sk_keys e))"
proof -
  from assms obtain e where e: "e \<in> set (sorted_entries bs)" "g \<in> set (entry_groups e)" by (auto simp: mount_groups_def)
  then have "mg_namespace g = sk_namespace e \<and> mg_name g = sk_name e \<and>
      set (mg_keys g) = (if mg_optional g then set (sk_optionalKeys e) - set (sk_keys e) else set (sk_keys e))"
    by (auto simp: entry_groups_def split: if_splits)
  with e(1) that show thesis unfolding sorted_entries_set by blast
qed

lemma mount_groups_has:
  assumes "map_of bs i = Some e" "k \<in> set (sk_keys e) \<union> set (sk_optionalKeys e)"
  obtains j where "j < length (mount_groups bs)" "mg_name (mount_groups bs ! j) = sk_name e" "k \<in> set (mg_keys (mount_groups bs ! j))"
proof -
  have "e \<in> set (sorted_entries bs)" using assms(1) sorted_entries_set by blast
  moreover have "(sk_name e, k) \<in> set (entry_pairs e)" using assms(2) by (auto simp: entry_pairs_eq)
  ultimately have "(sk_name e, k) \<in> set (concat (map group_pairs (mount_groups bs)))"
    unfolding mount_groups_pairs by auto
  then obtain g where "g \<in> set (mount_groups bs)" "mg_name g = sk_name e" "k \<in> set (mg_keys g)"
    by (auto simp: group_pairs_def)
  with that show thesis by (auto simp: in_set_conv_nth)
qed

lemma raw_paths_keys:
  "(\<And>g. g \<in> set gs \<Longrightarrow> mg_namespace g = ns) \<Longrightarrow>
   map fst (concat (map2 group_paths [a..<a + length gs] gs)) = map (\<lambda>(n, k). mount_Key ns n k) (concat (map group_pairs gs))"
proof (induction gs arbitrary: a)
  case (Cons g gs)
  have 1: "[a..<a + length (g # gs)] = a # [Suc a..<Suc a + length gs]"
    by (subst upt_conv_Cons) (simp_all del: upt_Suc)
  have 2: "map fst (group_paths a g) = map (\<lambda>(n, k). mount_Key ns n k) (group_pairs g)"
    using Cons.prems by (simp add: group_paths_def group_pairs_def)
  show ?case
    unfolding 1 using 2 Cons.IH [of "Suc a"] Cons.prems by (simp del: upt_Suc)
qed simp

lemma raw_paths_mem:
  "j < length gs \<Longrightarrow> k \<in> set (mg_keys (gs ! j)) \<Longrightarrow>
   (mount_Key (mg_namespace (gs ! j)) (mg_name (gs ! j)) k, group_dir j @ ''/'' @ k) \<in> set (concat (map2 group_paths [0..<length gs] gs))"
  by (auto simp: set_zip group_paths_def intro!: exI [of _ j])

lemma minted_paths_lookup:
  assumes ns: "\<And>g. g \<in> set gs \<Longrightarrow> mg_namespace g = ns"
    and keys: "\<And>g k. g \<in> set gs \<Longrightarrow> k \<in> set (mg_keys g) \<Longrightarrow> CHR ''/'' \<notin> set k"
    and dist: "distinct (concat (map group_pairs gs))"
    and j: "j < length gs" "k \<in> set (mg_keys (gs ! j))"
  shows "map_of (minted_paths gs) (mount_Key ns (mg_name (gs ! j)) k) = Some (group_dir j @ ''/'' @ k)"
proof -
  let ?E = "concat (map2 group_paths [0..<length gs] gs)"
  have "inj_on (\<lambda>(n, k). mount_Key ns n k) (set (concat (map group_pairs gs)))"
    using keys by (auto simp: inj_on_def group_pairs_def mount_Key_inj)
  with dist have d: "distinct (map fst ?E)"
    using raw_paths_keys [of gs ns 0, OF ns] by (simp add: distinct_map)
  have "(mount_Key ns (mg_name (gs ! j)) k, group_dir j @ ''/'' @ k) \<in> set ?E"
    using raw_paths_mem [OF j] ns [OF nth_mem [OF j(1)]] by simp
  with d have "map_of ?E (mount_Key ns (mg_name (gs ! j)) k) = Some (group_dir j @ ''/'' @ k)"
    by (rule map_of_is_SomeI)
  with d show ?thesis by (simp add: minted_paths_def map_of_put_all wf_map_def map_add_def)
qed

lemma string_entries_strings: "string_entries (map (\<lambda>(k, p). (k, VString p)) m) = Some m"
  by (induction m) auto

lemma json_strings:
  "json_norm_entries (map (\<lambda>(k, p). (k, VString p)) m) = map (\<lambda>(k, p). (k, VString p)) m"
  "json_ok_entries (map (\<lambda>(k, p). (k, VString p)) m)"
  by (induction m) auto

lemma mounts_roundtrip: "mounts_json m = Inr raw \<Longrightarrow> loadMountsFromEnv raw = Inr m"
  by (auto simp: mounts_json_def loadMountsFromEnv_def marshal_def json_strings string_entries_strings
      split: if_splits)

lemma utoa_not_kubeconfig: "utoa i \<noteq> ''kubeconfig''"
proof
  assume "utoa i = ''kubeconfig''"
  moreover have "\<not> isDigits ''kubeconfig''" by (simp add: isDigits_def)
  ultimately show False using utoa_digits(1) [of i] by simp
qed

lemma minted_names:
  "map Volume_Name (minted_volumes kc gs) = (case kc of None \<Rightarrow> [] | Some ref \<Rightarrow> [kubeconfigVolName]) @ map group_vol_name [0..<length gs]"
  by (auto simp: minted_volumes_def kubeconfig_volume_def group_volume_def o_def case_prod_beta' map_zip_map split: option.split
      intro!: nth_equalityI)

lemma minted_names_distinct: "distinct (map Volume_Name (minted_volumes kc gs))"
  by (auto simp: minted_names kubeconfigVolName_def group_vol_name_def distinct_map inj_on_def utoa_not_kubeconfig [symmetric]
      split: option.split)

lemma minted_names_reserved: "name \<in> set (map Volume_Name (minted_volumes kc gs)) \<Longrightarrow> has_prefix name generatedSecretVolumePrefix"
  by (auto simp: minted_names kubeconfigVolName_def group_vol_name_def split: option.splits)

subsection \<open>What is mounted\<close>

lemma build_parts:
  assumes "buildSecretMounts dns1123 refs ns existing = Inr sm"
  obtains kc bs where "grouped ns refs bs" "\<forall>r \<in> set refs. mount_ok dns1123 ns r"
    "kc = None \<or> (\<exists>r \<in> set refs. kc = Some r \<and> ref_IsKubeconfig r \<and> ref_NeedsRunnerMount r)"
    "sm_volumes sm = minted_volumes kc (mount_groups bs)" "sm_mounts sm = minted_mounts kc (mount_groups bs)"
    "loadMountsFromEnv (sm_mountsJSON sm) = Inr (minted_paths (mount_groups bs))"
    "\<forall>name \<in> set existing. \<not> has_prefix name generatedSecretVolumePrefix"
proof -
  from assms obtain kc bs raw where find: "List.find (\<lambda>name. has_prefix name generatedSecretVolumePrefix) existing = None"
    and gr: "group_refs dns1123 ns refs None [] = Inr (kc, bs)" and js: "mounts_json (minted_paths (mount_groups bs)) = Inr raw"
    and sm: "sm_volumes sm = minted_volumes kc (mount_groups bs)" "sm_mounts sm = minted_mounts kc (mount_groups bs)"
      "sm_mountsJSON sm = raw"
    by (auto simp: buildSecretMounts_def bindr_Inr Let_def split: option.splits)
  from group_refs_ok [OF gr grouped_Nil] have "grouped ns refs bs" "\<forall>r \<in> set refs. mount_ok dns1123 ns r"
    "kc = None \<or> (\<exists>r \<in> set refs. kc = Some r \<and> ref_IsKubeconfig r \<and> ref_NeedsRunnerMount r)" by simp_all
  moreover have "\<forall>name \<in> set existing. \<not> has_prefix name generatedSecretVolumePrefix"
    using find by (simp add: find_None_iff)
  ultimately show thesis using that sm mounts_roundtrip [OF js] by blast
qed

lemma group_keys:
  assumes "grouped ns refs bs" "g \<in> set (mount_groups bs)"
  shows "set (mg_keys g) = keys_of refs (mg_optional g) (mg_name g) - (if mg_optional g then keys_of refs False (mg_name g) else {})"
proof -
  from assms(2) obtain i e where e: "map_of bs i = Some e" "mg_namespace g = sk_namespace e" "mg_name g = sk_name e"
    "set (mg_keys g) = (if mg_optional g then set (sk_optionalKeys e) - set (sk_keys e) else set (sk_keys e))"
    by (rule mount_groups_mem)
  with assms(1) have "set (sk_keys e) = keys_of refs False (mg_name g)" "set (sk_optionalKeys e) = keys_of refs True (mg_name g)"
    unfolding grouped_def entry_ok_def by simp_all
  with e(4) show ?thesis by simp
qed

lemma group_key_ref:
  assumes "grouped ns refs bs" "g \<in> set (mount_groups bs)" "k \<in> set (mg_keys g)"
  shows "\<exists>r \<in> set refs. mountable r \<and> ref_Name r = mg_name g \<and> ref_Key r = k"
  using group_keys [OF assms(1,2)] assms(3) by (auto simp: keys_of_def)

text \<open>Every mountable reference has an entry in the map, and a volume item and a mount it points to.\<close>

lemma mounted_ref:
  assumes b: "buildSecretMounts dns1123 refs ns existing = Inr sm" and r: "r \<in> set refs" "mountable r"
  obtains m v mt src where "loadMountsFromEnv (sm_mountsJSON sm) = Inr m" "v \<in> set (sm_volumes sm)" "mt \<in> set (sm_mounts sm)"
    "VolumeMount_Name mt = Volume_Name v" "Volume_Secret v = Some src" "SecretVolumeSource_SecretName src = ref_Name r"
    "\<lparr>KeyToPath_Key = ref_Key r, KeyToPath_Path = ref_Key r\<rparr> \<in> set (SecretVolumeSource_Items src)"
    "map_of m (mount_Key ns (ref_Name r) (ref_Key r)) = Some (VolumeMount_MountPath mt @ ''/'' @ ref_Key r)"
proof -
  from b obtain kc bs where g: "grouped ns refs bs" and ok: "\<forall>r \<in> set refs. mount_ok dns1123 ns r"
    and "kc = None \<or> (\<exists>r \<in> set refs. kc = Some r \<and> ref_IsKubeconfig r \<and> ref_NeedsRunnerMount r)"
    and sm: "sm_volumes sm = minted_volumes kc (mount_groups bs)" "sm_mounts sm = minted_mounts kc (mount_groups bs)"
    and m: "loadMountsFromEnv (sm_mountsJSON sm) = Inr (minted_paths (mount_groups bs))"
    and "\<forall>name \<in> set existing. \<not> has_prefix name generatedSecretVolumePrefix" by (rule build_parts) blast
  let ?gs = "mount_groups bs"
  from g r obtain e where e: "map_of bs (ns @ ''/'' @ ref_Name r) = Some e" unfolding grouped_def by blast
  with g have eo: "entry_ok ns refs (ns @ ''/'' @ ref_Name r) e" unfolding grouped_def by blast
  then have name: "sk_name e = ref_Name r" by (simp add: entry_ok_def)
  have "ref_Key r \<in> set (sk_keys e) \<union> set (sk_optionalKeys e)"
    using eo r unfolding entry_ok_def name keys_of_def by (cases "ref_Optional r") blast+
  with e obtain j where j: "j < length ?gs" "mg_name (?gs ! j) = ref_Name r" "ref_Key r \<in> set (mg_keys (?gs ! j))"
    unfolding name [symmetric] by (rule mount_groups_has)
  have lookup: "map_of (minted_paths ?gs) (mount_Key ns (mg_name (?gs ! j)) (ref_Key r)) = Some (group_dir j @ ''/'' @ ref_Key r)"
  proof (rule minted_paths_lookup [OF _ _ _ j(1,3)])
    fix h assume h: "h \<in> set ?gs"
    from h show "mg_namespace h = ns" by (rule mount_groups_mem) (use g in \<open>auto simp: grouped_def entry_ok_def\<close>)
    fix k assume "k \<in> set (mg_keys h)"
    from group_key_ref [OF g h this] obtain q where "q \<in> set refs" "mountable q" "ref_Key q = k" by blast
    with ok have "ValidateDataKey k = None" by (auto simp: mount_ok_def mountable_def)
    then show "CHR ''/'' \<notin> set k" by (rule valid_key(5))
  next
    show "distinct (concat (map group_pairs ?gs))"
      unfolding mount_groups_pairs
    proof (rule distinct_all_pairs [OF sorted_entries_names [OF g]])
      fix x assume "x \<in> set (sorted_entries bs)"
      with g show "distinct (sk_keys x) \<and> distinct (sk_optionalKeys x)"
        unfolding sorted_entries_set grouped_def entry_ok_def by blast
    qed
  qed
  have "group_volume j (?gs ! j) \<in> set (sm_volumes sm)"
    using j(1) by (auto simp: sm minted_volumes_def set_zip intro!: exI [of _ j])
  moreover have "group_mount j \<in> set (sm_mounts sm)" using j(1) by (auto simp: sm minted_mounts_def)
  ultimately show thesis
    by (rule that [OF m]) (use lookup j in \<open>auto simp: group_volume_def group_mount_def\<close>)
qed

text \<open>Nothing else is mounted.\<close>

lemma minted_volume_cases:
  assumes "v \<in> set (minted_volumes kc gs)"
  obtains r where "kc = Some r" "v = kubeconfig_volume r" | j where "j < length gs" "v = group_volume j (gs ! j)"
  using assms by (auto simp: minted_volumes_def set_zip split: option.splits)

lemma mounted_only_refs:
  assumes b: "buildSecretMounts dns1123 refs ns existing = Inr sm" and v: "v \<in> set (sm_volumes sm)"
  obtains src where "Volume_Secret v = Some src"
    "\<exists>r \<in> set refs. ref_NeedsRunnerMount r \<and> ref_Namespace r = ns \<and> ref_Name r = SecretVolumeSource_SecretName src \<and>
       (SecretVolumeSource_Items src = [] \<longrightarrow> ref_IsKubeconfig r)"
    "\<And>it. it \<in> set (SecretVolumeSource_Items src) \<Longrightarrow> KeyToPath_Path it = KeyToPath_Key it \<and> ValidateDataKey (KeyToPath_Key it) = None \<and>
       (\<exists>r \<in> set refs. mountable r \<and> ref_Namespace r = ns \<and> ref_Name r = SecretVolumeSource_SecretName src \<and> ref_Key r = KeyToPath_Key it)"
proof -
  from b obtain kc bs where g: "grouped ns refs bs" and ok: "\<forall>r \<in> set refs. mount_ok dns1123 ns r"
    and kc: "kc = None \<or> (\<exists>r \<in> set refs. kc = Some r \<and> ref_IsKubeconfig r \<and> ref_NeedsRunnerMount r)"
    and sm: "sm_volumes sm = minted_volumes kc (mount_groups bs)" "sm_mounts sm = minted_mounts kc (mount_groups bs)"
    and "loadMountsFromEnv (sm_mountsJSON sm) = Inr (minted_paths (mount_groups bs))"
    and "\<forall>name \<in> set existing. \<not> has_prefix name generatedSecretVolumePrefix" by (rule build_parts) blast
  from v [unfolded sm] show thesis
  proof (cases rule: minted_volume_cases)
    case (1 r)
    with kc ok have "r \<in> set refs" "ref_IsKubeconfig r" "ref_NeedsRunnerMount r" "ref_Namespace r = ns"
      by (auto simp: mount_ok_def)
    with 1 show ?thesis by (intro that) (auto simp: kubeconfig_volume_def)
  next
    case (2 j)
    let ?g = "mount_groups bs ! j"
    have mem: "?g \<in> set (mount_groups bs)" using 2 by simp
    have item: "ValidateDataKey k = None \<and> (\<exists>r \<in> set refs. mountable r \<and> ref_Namespace r = ns \<and> ref_Name r = mg_name ?g \<and> ref_Key r = k)"
      if k: "k \<in> set (mg_keys ?g)" for k
    proof -
      from group_key_ref [OF g mem k] obtain r where r: "r \<in> set refs" "mountable r" "ref_Name r = mg_name ?g" "ref_Key r = k" by blast
      with ok show ?thesis by (auto simp: mount_ok_def mountable_def)
    qed
    have "mg_keys ?g \<noteq> []" using mem mount_groups_nonempty by blast
    then obtain k where "k \<in> set (mg_keys ?g)" by (cases "mg_keys ?g") auto
    from item [OF this] obtain r where "r \<in> set refs" "mountable r" "ref_Namespace r = ns" "ref_Name r = mg_name ?g" by blast
    with 2 item \<open>mg_keys ?g \<noteq> []\<close> show ?thesis
      by (intro that [of "the (Volume_Secret v)"]) (auto simp: group_volume_def mountable_def)
  qed
qed

end
