(* ===== verification/Runner_Credentials.thy ===== *)
theory Runner_Credentials
  imports Secret_Mounts Secret_Walks
begin

text \<open>
  How the runner reads what the controller mounted: the configuration of an MCP client
  (\<^verbatim>\<open>internal/agent/mcp_client_impl.go\<close>), the secrets of an external agent (\<^verbatim>\<open>internal/workflow/executor/a2a_client.go\<close>) and the
  kubeconfig of the target cluster (\<^verbatim>\<open>internal/workflow/cluster\<close>).

  \<open>resolve\<close> is \<^verbatim>\<open>secretmount.Resolve\<close> with its client, environment and mode: \<open>Resolve getSecret env readFile useAPI\<close>. \<open>durationSeconds\<close> is
  \<^verbatim>\<open>time.ParseDuration\<close>: whether the duration is positive, and its seconds as an \<^verbatim>\<open>int\<close>. A \<^verbatim>\<open>rest.Config\<close> is a value of the type \<open>'cfg\<close>, \<open>inCluster\<close>
  and \<open>fromKubeConfig\<close> the calls of client-go that make one, \<open>stat\<close> is \<^verbatim>\<open>os.Stat\<close>.
\<close>

subsection \<open>MCP clients\<close>

type_synonym resolver = "string \<Rightarrow> string \<Rightarrow> string \<Rightarrow> string result"

record mcp_AuthConfig =
  ac_Type :: string
  ac_Token :: string
  ac_ApiKey :: string
  ac_Username :: string
  ac_Password :: string

record mcp_OAuthConfig =
  oc_TokenURL :: string
  oc_ClientID :: string
  oc_ClientSecret :: string
  oc_Scopes :: "string list"

record mcp_ClientConfig =
  cc_Name :: string
  cc_Command :: string
  cc_Args :: "string list"
  cc_Env :: "string list"
  cc_URL :: string
  cc_UseStreaming :: bool
  cc_Headers :: "(string \<times> string) list"
  cc_Timeout :: int
  cc_Auth :: "mcp_AuthConfig option"
  cc_OAuth :: "mcp_OAuthConfig option"

definition resolveEnvValue :: "resolver \<Rightarrow> string \<Rightarrow> EnvVar \<Rightarrow> (string \<times> bool) result" where
  "resolveEnvValue resolve namespace ev =
     (if EnvVar_Value ev \<noteq> [] then Inr (EnvVar_Value ev, True)
      else (case Option.bind (EnvVar_ValueFrom ev) EnvVarSource_SecretKeyRef of
              None \<Rightarrow> Inr ([], True)
            | Some sel \<Rightarrow>
                (case resolve namespace (SecretKeySelector_Name sel) (SecretKeySelector_Key sel) of
                   Inl e \<Rightarrow>
                     if SecretKeySelector_Optional sel = Some True \<and> errors_is e ErrSecretValueNotFound then Inr ([], False)
                     else Inl (wrapf (''resolving env '' @ quote (EnvVar_Name ev) @ '': '') e)
                 | Inr v \<Rightarrow> Inr (v, True))))"

fun resolve_env :: "resolver \<Rightarrow> MCPServer \<Rightarrow> EnvVar list \<Rightarrow> string list result" where
  "resolve_env resolve server [] = Inr []"
| "resolve_env resolve server (ev # evs) =
     bindr (wrap_err (''MCPServer '' @ MCPServer_Namespace server @ ''/'' @ MCPServer_Name server @ '' env '' @ quote (EnvVar_Name ev) @ '': '')
              (resolveEnvValue resolve (MCPServer_Namespace server) ev))
       (\<lambda>r. bindr (resolve_env resolve server evs)
          (\<lambda>rest. Inr (if snd r then (EnvVar_Name ev @ ''='' @ fst r) # rest else rest)))"

definition zero_AuthConfig :: "string \<Rightarrow> mcp_AuthConfig" where
  "zero_AuthConfig authType = \<lparr>ac_Type = authType, ac_Token = [], ac_ApiKey = [], ac_Username = [], ac_Password = []\<rparr>"

definition token_auth :: "resolver \<Rightarrow> MCPServer \<Rightarrow> AuthConfig \<Rightarrow> mcp_AuthConfig result" where
  "token_auth resolve server auth =
     (case AuthConfig_SecretRef auth of
        None \<Rightarrow> Inl (errorf (''secretRef is required for '' @ AuthConfig_Type auth @ '' auth''))
      | Some sr \<Rightarrow>
          bindr (wrap_err ''failed to get auth secret: ''
                   (resolve (or_ns (SecretReference_Namespace sr) (MCPServer_Namespace server)) (SecretReference_Name sr) (SecretReference_Key sr)))
            (\<lambda>token. Inr ((zero_AuthConfig (if AuthConfig_Type auth = ''apiKey'' then ''api-key'' else AuthConfig_Type auth))
                \<lparr>ac_Token := token, ac_ApiKey := (if AuthConfig_Type auth = ''apiKey'' then token else [])\<rparr>)))"

definition basic_auth :: "resolver \<Rightarrow> MCPServer \<Rightarrow> AuthConfig \<Rightarrow> mcp_AuthConfig result" where
  "basic_auth resolve server auth =
     (case AuthConfig_SecretRef auth of
        None \<Rightarrow> Inl (errorf ''secretRef is required for basic auth'')
      | Some sr \<Rightarrow>
          (let ns = or_ns (SecretReference_Namespace sr) (MCPServer_Namespace server) in
           bindr (wrap_err ''basic auth: resolving username: '' (resolve ns (SecretReference_Name sr) ''username'')) (\<lambda>username.
           bindr (wrap_err ''basic auth: resolving password: '' (resolve ns (SecretReference_Name sr) ''password'')) (\<lambda>password.
           if username = [] \<or> password = []
           then Inl (errorf ''secret for basic auth must contain non-empty username and password keys'')
           else Inr ((zero_AuthConfig (AuthConfig_Type auth))\<lparr>ac_Username := username, ac_Password := password\<rparr>)))))"

text \<open>The client ID and the client secret, empty when neither reference is set.\<close>

definition oauth_client :: "resolver \<Rightarrow> MCPServer \<Rightarrow> OAuth2Config \<Rightarrow> (string \<times> string) result" where
  "oauth_client resolve server oauth2 =
     (case OAuth2Config_ClientCredentialsRef oauth2 of
        Some cr \<Rightarrow>
          (let ns = or_ns (NamespacedSecretRef_Namespace cr) (MCPServer_Namespace server) in
           bindr (wrap_err ''oauth2 clientCredentialsRef: resolving client_id: '' (resolve ns (NamespacedSecretRef_Name cr) ''client_id'')) (\<lambda>clientID.
           bindr (wrap_err ''oauth2 clientCredentialsRef: resolving client_secret: '' (resolve ns (NamespacedSecretRef_Name cr) ''client_secret'')) (\<lambda>clientSecret.
           Inr (clientID, clientSecret))))
      | None \<Rightarrow>
          (if OAuth2Config_ClientID oauth2 = [] then Inr ([], [])
           else (case OAuth2Config_ClientSecretRef oauth2 of None \<Rightarrow> Inr ([], [])
                 | Some sr \<Rightarrow>
                     bindr (wrap_err ''failed to get OAuth2 client secret: ''
                         (resolve (or_ns (SecretReference_Namespace sr) (MCPServer_Namespace server)) (SecretReference_Name sr) (SecretReference_Key sr)))
                       (\<lambda>v. Inr (OAuth2Config_ClientID oauth2, v)))))"

definition oauth2_auth :: "resolver \<Rightarrow> MCPServer \<Rightarrow> AuthConfig \<Rightarrow> (mcp_AuthConfig \<times> mcp_OAuthConfig) result" where
  "oauth2_auth resolve server auth =
     (case AuthConfig_OAuth2 auth of
        None \<Rightarrow> Inl (errorf ''oauth2 auth type requires oauth2 config'')
      | Some oauth2 \<Rightarrow>
          bindr (oauth_client resolve server oauth2) (\<lambda>r.
          if fst r = [] \<or> snd r = [] then Inl (errorf ''oauth2 requires client_id and client_secret'')
          else Inr (zero_AuthConfig (AuthConfig_Type auth),
                    \<lparr>oc_TokenURL = OAuth2Config_TokenURL oauth2, oc_ClientID = fst r, oc_ClientSecret = snd r,
                     oc_Scopes = OAuth2Config_Scopes oauth2\<rparr>)))"

definition resolveAuthConfigs ::
  "resolver \<Rightarrow> MCPServer \<Rightarrow> (mcp_AuthConfig option \<times> mcp_OAuthConfig option) result" where
  "resolveAuthConfigs resolve server =
     (case MCPServerSpec_Auth (MCPServer_Spec server) of
        None \<Rightarrow> Inr (None, None)
      | Some auth \<Rightarrow>
          (if AuthConfig_Type auth \<in> {''bearer'', ''apiKey''}
           then bindr (token_auth resolve server auth) (\<lambda>ac. Inr (Some ac, None))
           else if AuthConfig_Type auth = ''basic''
           then bindr (basic_auth resolve server auth) (\<lambda>ac. Inr (Some ac, None))
           else if AuthConfig_Type auth = ''oauth2''
           then bindr (oauth2_auth resolve server auth) (\<lambda>r. Inr (Some (fst r), Some (snd r)))
           else Inr (Some (zero_AuthConfig (AuthConfig_Type auth)), None)))"

definition zero_ClientConfig :: "string \<Rightarrow> mcp_ClientConfig" where
  "zero_ClientConfig name = \<lparr>cc_Name = name, cc_Command = [], cc_Args = [], cc_Env = [], cc_URL = [], cc_UseStreaming = False,
     cc_Headers = [], cc_Timeout = 0, cc_Auth = None, cc_OAuth = None\<rparr>"

definition stdio_timeout :: "(string \<Rightarrow> (bool \<times> int) option) \<Rightarrow> MCPServer \<Rightarrow> int" where
  "stdio_timeout durationSeconds server =
     (let t = (if MCPServerSpec_Timeout (MCPServer_Spec server) = [] then 0
               else case durationSeconds (MCPServerSpec_Timeout (MCPServer_Spec server)) of
                      Some (True, s) \<Rightarrow> s | _ \<Rightarrow> 0)
      in if t \<le> 0 then 90 else t)"

definition http_timeout :: "(string \<Rightarrow> (bool \<times> int) option) \<Rightarrow> MCPServer \<Rightarrow> int" where
  "http_timeout durationSeconds server =
     (if MCPServerSpec_Timeout (MCPServer_Spec server) = [] then 0
      else case durationSeconds (MCPServerSpec_Timeout (MCPServer_Spec server)) of None \<Rightarrow> 0 | Some (pos, s) \<Rightarrow> s)"

definition buildMCPClientConfig ::
  "resolver \<Rightarrow> (string \<Rightarrow> (bool \<times> int) option) \<Rightarrow> string \<Rightarrow> MCPServer \<Rightarrow> mcp_ClientConfig result" where
  "buildMCPClientConfig resolve durationSeconds kubeConfigPath server =
     (let transport = MCPServerSpec_Transport (MCPServer_Spec server); cfg = zero_ClientConfig (MCPServer_Name server) in
      if TransportConfig_Type transport = ''stdio'' then
        (case TransportConfig_Command transport of
           [] \<Rightarrow> Inl (errorf ''stdio transport requires command'')
         | cmd # args \<Rightarrow>
             bindr (resolve_env resolve server (MCPServerSpec_Env (MCPServer_Spec server))) (\<lambda>env.
             Inr (cfg\<lparr>cc_Command := cmd, cc_Args := args, cc_Timeout := stdio_timeout durationSeconds server,
                cc_Env := (if kubeConfigPath = [] then [] else [''KUBECONFIG='' @ kubeConfigPath]) @ env\<rparr>)))
      else if TransportConfig_Type transport \<in> {''http'', ''sse''} then
        (if TransportConfig_Address transport = [] then Inl (errorf ''http/sse transport requires address'')
         else bindr (resolveAuthConfigs resolve server) (\<lambda>r.
              Inr (cfg\<lparr>cc_URL := TransportConfig_Address transport, cc_UseStreaming := (TransportConfig_Type transport = ''sse''),
                 cc_Timeout := http_timeout durationSeconds server, cc_Headers := TransportConfig_Headers transport,
                 cc_Auth := fst r, cc_OAuth := snd r\<rparr>)))
      else Inl (errorf (''unsupported transport type: '' @ TransportConfig_Type transport)))"

subsection \<open>External agents\<close>

definition caBundleFromSecretRef :: "resolver \<Rightarrow> string \<Rightarrow> string \<Rightarrow> string result" where
  "caBundleFromSecretRef resolve caNamespace caName =
     wrap_err (''loading CA secret '' @ caNamespace @ ''/'' @ caName @ '': '') (resolve caNamespace caName ''ca.crt'')"

definition getSecretValue :: "resolver \<Rightarrow> SecretReference \<Rightarrow> string \<Rightarrow> string result" where
  "getSecretValue resolve ref namespace =
     (let secretNamespace = or_ns (SecretReference_Namespace ref) namespace in
      bindr (wrap_err (''getting secret '' @ secretNamespace @ ''/'' @ SecretReference_Name ref @ '': '')
               (resolve secretNamespace (SecretReference_Name ref) (SecretReference_Key ref)))
        (\<lambda>v. Inr (trim_space v)))"

subsection \<open>The target cluster\<close>

definition defaultKubeConfigKeys :: "string list" where
  "defaultKubeConfigKeys = [''config'', ''kubeconfig'', ''value'']"

definition kubeConfigPathFromMountDir :: "(string \<Rightarrow> bool) \<Rightarrow> string \<Rightarrow> string \<Rightarrow> (string \<times> string list) result" where
  "kubeConfigPathFromMountDir stat dir dataKey =
     (let probe = (\<lambda>triedKeys. case List.find (\<lambda>key. stat (dir @ ''/'' @ key)) triedKeys of
            None \<Rightarrow> Inr ([], triedKeys) | Some key \<Rightarrow> Inr (dir @ ''/'' @ key, triedKeys)) in
      if dataKey = [] then probe defaultKubeConfigKeys
      else (case ValidateDataKey dataKey of
              Some e \<Rightarrow> Inl (wrapf ''clusterRef.kubeConfigSecretRef.key is unusable: '' e)
            | None \<Rightarrow> probe [dataKey]))"

definition kubeConfigBytesFromMountDir ::
  "(string \<Rightarrow> bool) \<Rightarrow> (string \<Rightarrow> string result) \<Rightarrow> string \<Rightarrow> string \<Rightarrow> (string option \<times> string list) result" where
  "kubeConfigBytesFromMountDir stat readFile dir dataKey =
     bindr (kubeConfigPathFromMountDir stat dir dataKey) (\<lambda>r.
       if fst r = [] then Inr (None, snd r)
       else bindr (wrap_err (''read mounted kubeconfig '' @ fst r @ '': '') (readFile (fst r))) (\<lambda>b. Inr (Some b, snd r)))"

definition KubeConfigPathForClusterRef :: "(string \<Rightarrow> bool) \<Rightarrow> ClusterRef option \<Rightarrow> string result" where
  "KubeConfigPathForClusterRef stat clusterRef =
     (case clusterRef of None \<Rightarrow> Inr []
      | Some cr \<Rightarrow>
          if ClusterRef_Local cr = Some True then Inr []
          else if ClusterRef_KubeConfigFilePath cr \<noteq> [] then Inr (ClusterRef_KubeConfigFilePath cr)
          else (case ClusterRef_KubeConfigSecretRef cr of None \<Rightarrow> Inr []
                | Some ref \<Rightarrow>
                    bindr (kubeConfigPathFromMountDir stat KubeconfigDir (KubeConfigSecretRef_Key ref)) (\<lambda>r.
                      if fst r = []
                      then Inl (errorf (''kubeconfig not found in mounted secret directory '' @ KubeconfigDir @ '' (tried keys ['' @
                             join_with '' '' (snd r) @ ''])''))
                      else Inr (fst r))))"

definition kubeConfigBytesFromSecret ::
  "(object_key \<Rightarrow> (string \<times> string) list result) \<Rightarrow> string \<Rightarrow> string \<Rightarrow> string \<Rightarrow> string result" where
  "kubeConfigBytesFromSecret getSecret secretNamespace secretName dataKey =
     bindr (wrap_err (''get kubeconfig secret '' @ secretNamespace @ ''/'' @ secretName @ '': '') (getSecret (secretNamespace, secretName)))
       (\<lambda>secretData.
          if dataKey \<noteq> []
          then (case map_of secretData dataKey of Some b \<Rightarrow> Inr b
                | None \<Rightarrow> Inl (errorf (''secret '' @ secretNamespace @ ''/'' @ secretName @ '' has no key '' @ quote dataKey)))
          else (case List.map_filter (map_of secretData) defaultKubeConfigKeys of
                  b # bs \<Rightarrow> Inr b
                | [] \<Rightarrow> Inl (errorf (''secret '' @ secretNamespace @ ''/'' @ secretName @ '' has none of keys ['' @ join_with '' '' defaultKubeConfigKeys @ '']''))))"

definition RestConfigFromKubeConfigSecret ::
  "(string \<Rightarrow> 'cfg result) \<Rightarrow> (object_key \<Rightarrow> (string \<times> string) list result) \<Rightarrow> string \<Rightarrow> string \<Rightarrow> string \<Rightarrow> 'cfg result" where
  "RestConfigFromKubeConfigSecret fromKubeConfig getSecret secretNamespace secretName dataKey =
     bindr (kubeConfigBytesFromSecret getSecret secretNamespace secretName dataKey)
       (\<lambda>b. wrap_err (''build rest config from kubeconfig secret '' @ secretNamespace @ ''/'' @ secretName @ '': '') (fromKubeConfig b))"

definition RestConfigFromKubeConfigFile ::
  "(string \<Rightarrow> 'cfg result) \<Rightarrow> (string \<Rightarrow> string result) \<Rightarrow> string \<Rightarrow> 'cfg result" where
  "RestConfigFromKubeConfigFile fromKubeConfig readFile path =
     bindr (wrap_err (''read kubeconfig file '' @ path @ '': '') (readFile path))
       (\<lambda>b. wrap_err (''build rest config from kubeconfig file '' @ path @ '': '') (fromKubeConfig b))"

definition RestConfigForClusterRef ::
  "'cfg result \<Rightarrow> (string \<Rightarrow> 'cfg result) \<Rightarrow> (object_key \<Rightarrow> (string \<times> string) list result) \<Rightarrow> (string \<Rightarrow> bool) \<Rightarrow>
   (string \<Rightarrow> string result) \<Rightarrow> WorkflowRun option \<Rightarrow> bool \<Rightarrow> 'cfg result" where
  "RestConfigForClusterRef inCluster fromKubeConfig getSecret stat readFile workflowRun localExecutionMode =
     (case workflowRun of None \<Rightarrow> inCluster
      | Some run \<Rightarrow>
         (case WorkflowRunSpec_ClusterRef (WorkflowRun_Spec run) of None \<Rightarrow> inCluster
          | Some cr \<Rightarrow>
             if ClusterRef_Local cr = Some True then inCluster
             else if ClusterRef_KubeConfigFilePath cr \<noteq> []
             then RestConfigFromKubeConfigFile fromKubeConfig readFile (ClusterRef_KubeConfigFilePath cr)
             else (case ClusterRef_KubeConfigSecretRef cr of None \<Rightarrow> inCluster
              | Some ref \<Rightarrow>
                  bindr (kubeConfigBytesFromMountDir stat readFile KubeconfigDir (KubeConfigSecretRef_Key ref)) (\<lambda>r.
                    case fst r of
                      Some b \<Rightarrow> wrap_err (''build rest config from mounted kubeconfig '' @ KubeconfigDir @ '': '') (fromKubeConfig b)
                    | None \<Rightarrow>
                        if \<not> localExecutionMode
                        then Inl (errorf (''kubeconfig not found in mounted secret directory '' @ KubeconfigDir @ '' (tried keys ['' @
                               join_with '' '' (snd r) @ '']); the in-cluster runner does not read Secrets through the API''))
                        else RestConfigFromKubeConfigSecret fromKubeConfig getSecret
                               (or_ns (KubeConfigSecretRef_Namespace ref) (WorkflowRun_Namespace run))
                               (KubeConfigSecretRef_Name ref) (KubeConfigSecretRef_Key ref)))))"

subsection \<open>What the kubelet projects\<close>

text \<open>
  The documented behaviour of Secret volumes: the item of a volume, or without items every key of the Secret, is a file below the
  path the volume is mounted at; there is no file for what the Secret does not have.
\<close>

definition missing_file :: "string result \<Rightarrow> bool" where
  "missing_file r \<longleftrightarrow> (\<exists>e. r = Inl e \<and> errors_is e OsNotExist)"

definition projected :: "(object_key \<Rightarrow> (string \<times> string) list result) \<Rightarrow> object_key \<Rightarrow> string \<Rightarrow> string result \<Rightarrow> bool" where
  "projected getSecret k key r =
     (case getSecret k of Inl e \<Rightarrow> missing_file r
      | Inr secretData \<Rightarrow> (case map_of secretData key of None \<Rightarrow> missing_file r | Some b \<Rightarrow> r = Inr b))"

definition kubelet_projects ::
  "(object_key \<Rightarrow> (string \<times> string) list result) \<Rightarrow> (string \<Rightarrow> string result) \<Rightarrow> string \<Rightarrow> Volume list \<Rightarrow> VolumeMount list \<Rightarrow> bool" where
  "kubelet_projects getSecret readFile ns volumes mounts \<longleftrightarrow>
     (\<forall>v \<in> set volumes. \<forall>mt \<in> set mounts. \<forall>src. VolumeMount_Name mt = Volume_Name v \<longrightarrow> Volume_Secret v = Some src \<longrightarrow>
        (if SecretVolumeSource_Items src = []
         then \<forall>key. ValidateDataKey key = None \<longrightarrow>
                projected getSecret (ns, SecretVolumeSource_SecretName src) key (readFile (VolumeMount_MountPath mt @ ''/'' @ key))
         else \<forall>it \<in> set (SecretVolumeSource_Items src).
                projected getSecret (ns, SecretVolumeSource_SecretName src) (KeyToPath_Key it)
                  (readFile (VolumeMount_MountPath mt @ ''/'' @ KeyToPath_Path it))))"

definition secrets_readable :: "(object_key \<Rightarrow> (string \<times> string) list result) \<Rightarrow> bool" where
  "secrets_readable getSecret \<longleftrightarrow> (\<forall>k e. getSecret k = Inl e \<longrightarrow> not_found e)"

definition same_answer :: "string result \<Rightarrow> string result \<Rightarrow> bool" where
  "same_answer r1 r2 = (case (r1, r2) of (Inr a, Inr b) \<Rightarrow> a = b
     | (Inl e, Inl e') \<Rightarrow> errors_is e ErrSecretValueNotFound = errors_is e' ErrSecretValueNotFound | _ \<Rightarrow> False)"

definition same_config :: "'a result \<Rightarrow> 'a result \<Rightarrow> bool" where
  "same_config r1 r2 = (case (r1, r2) of (Inr a, Inr b) \<Rightarrow> a = b | (Inl e, Inl e') \<Rightarrow> True | _ \<Rightarrow> False)"

lemma mounted_same_answer:
  assumes b: "buildSecretMounts dns1123 refs ns existing = Inr sm"
    and k: "kubelet_projects getSecret readFile ns (sm_volumes sm) (sm_mounts sm)" "secrets_readable getSecret"
    and r: "r \<in> set refs" "mountable r"
  shows "same_answer (Resolve getSecret (sm_mountsJSON sm) readFile False ns (ref_Name r) (ref_Key r))
    (Resolve getSecret env readFile True ns (ref_Name r) (ref_Key r))"
proof -
  obtain m v mt src where m: "loadMountsFromEnv (sm_mountsJSON sm) = Inr m" "v \<in> set (sm_volumes sm)" "mt \<in> set (sm_mounts sm)"
    "VolumeMount_Name mt = Volume_Name v" "Volume_Secret v = Some src" "SecretVolumeSource_SecretName src = ref_Name r"
    and item: "\<lparr>KeyToPath_Key = ref_Key r, KeyToPath_Path = ref_Key r\<rparr> \<in> set (SecretVolumeSource_Items src)"
    and path: "map_of m (mount_Key ns (ref_Name r) (ref_Key r)) = Some (VolumeMount_MountPath mt @ ''/'' @ ref_Key r)"
    using mounted_ref [OF b r] by metis
  let ?path = "VolumeMount_MountPath mt @ ''/'' @ ref_Key r"
  from item have items: "SecretVolumeSource_Items src \<noteq> []" by auto
  with k(1) m have "\<forall>it \<in> set (SecretVolumeSource_Items src).
      projected getSecret (ns, ref_Name r) (KeyToPath_Key it) (readFile (VolumeMount_MountPath mt @ ''/'' @ KeyToPath_Path it))"
    unfolding kubelet_projects_def by metis
  from bspec [OF this item] have p: "projected getSecret (ns, ref_Name r) (ref_Key r) (readFile ?path)" by simp
  have nf: "\<And>e. getSecret (ns, ref_Name r) = Inl e \<Longrightarrow> not_found e" using k(2) by (simp add: secrets_readable_def)
  show ?thesis
    using p nf
    by (auto simp: Resolve_def wrap_err_def m(1) ReadFile_def path Let_def projected_def missing_file_def same_answer_def errors_is_def
        split: sum.splits option.splits)
qed

subsection \<open>The same configuration from files and from the API\<close>

lemma same_config_refl [simp]: "same_config r r"
  by (simp add: same_config_def split: sum.split)

lemma same_config_bindr:
  assumes "same_config r1 r2" "\<And>x. r1 = Inr x \<Longrightarrow> r2 = Inr x \<Longrightarrow> same_config (f x) (g x)"
  shows "same_config (bindr r1 f) (bindr r2 g)"
  using assms by (cases r1; cases r2) (simp_all add: same_config_def)

lemma same_config_wrap: "same_answer r1 r2 \<Longrightarrow> same_config (wrap_err s r1) (wrap_err s r2)"
  by (cases r1; cases r2) (simp_all add: same_config_def same_answer_def wrap_err_def)

lemma same_config_wrap': "same_config r1 r2 \<Longrightarrow> same_config (wrap_err s r1) (wrap_err s r2)"
  by (cases r1; cases r2) (simp_all add: same_config_def wrap_err_def)

text \<open>What a client of an MCP server relies on: the two ways of reading agree on every key the server names.\<close>

definition agree_on :: "MCPServer \<Rightarrow> resolver \<Rightarrow> resolver \<Rightarrow> bool" where
  "agree_on server f g \<longleftrightarrow> (\<forall>ns name key. server_names server ns name key \<longrightarrow> same_answer (f ns name key) (g ns name key))"

lemma agree_onD: "agree_on server f g \<Longrightarrow> server_names server ns name key \<Longrightarrow> same_answer (f ns name key) (g ns name key)"
  by (simp add: agree_on_def)

lemma same_env:
  assumes same: "agree_on server f g" and ev: "ev \<in> set (MCPServerSpec_Env (MCPServer_Spec server))"
  shows "same_config (resolveEnvValue f (MCPServer_Namespace server) ev) (resolveEnvValue g (MCPServer_Namespace server) ev)"
proof (cases "Option.bind (EnvVar_ValueFrom ev) EnvVarSource_SecretKeyRef")
  case None
  then show ?thesis by (simp add: resolveEnvValue_def)
next
  case (Some sel)
  then obtain src where "EnvVar_ValueFrom ev = Some src" "EnvVarSource_SecretKeyRef src = Some sel"
    by (cases "EnvVar_ValueFrom ev") auto
  from agree_onD [OF same names_env [OF ev this]] Some show ?thesis
    by (auto simp: resolveEnvValue_def same_answer_def same_config_def split: sum.splits)
qed

lemma same_envs:
  "agree_on server f g \<Longrightarrow> set evs \<subseteq> set (MCPServerSpec_Env (MCPServer_Spec server)) \<Longrightarrow> same_config (resolve_env f server evs) (resolve_env g server evs)"
proof (induction evs)
  case (Cons ev evs)
  then show ?case by (simp only: resolve_env.simps) (intro same_config_bindr same_config_wrap' same_env [where f = f and g = g], auto)
qed simp

lemma same_auth:
  assumes same: "agree_on server f g"
  shows "same_config (resolveAuthConfigs f server) (resolveAuthConfigs g server)"
proof (cases "MCPServerSpec_Auth (MCPServer_Spec server)")
  case None
  then show ?thesis by (simp add: resolveAuthConfigs_def)
next
  case (Some auth)
  have t: "same_config (token_auth f server auth) (token_auth g server auth)" if "AuthConfig_Type auth \<noteq> ''basic''"
    unfolding token_auth_def
    by (cases "AuthConfig_SecretRef auth")
      (use names_token [OF Some] that in \<open>auto intro!: same_config_bindr same_config_wrap agree_onD [OF same]\<close>)
  have b: "same_config (basic_auth f server auth) (basic_auth g server auth)" if "AuthConfig_Type auth = ''basic''"
    unfolding basic_auth_def Let_def
    by (cases "AuthConfig_SecretRef auth")
      (use names_basic [OF Some] that in \<open>auto intro!: same_config_bindr same_config_wrap agree_onD [OF same]\<close>)
  have c: "same_config (oauth_client f server oauth) (oauth_client g server oauth)" if "AuthConfig_OAuth2 auth = Some oauth" for oauth
    unfolding oauth_client_def Let_def
    by (cases "OAuth2Config_ClientCredentialsRef oauth"; cases "OAuth2Config_ClientSecretRef oauth")
      (use names_client_secret [OF Some that] names_client_credentials [OF Some that] in
        \<open>auto intro!: same_config_bindr same_config_wrap agree_onD [OF same]\<close>)
  have o2: "same_config (oauth2_auth f server auth) (oauth2_auth g server auth)"
    unfolding oauth2_auth_def by (cases "AuthConfig_OAuth2 auth") (auto intro: same_config_bindr c)
  show ?thesis
    using t b o2 unfolding resolveAuthConfigs_def Some by (auto intro!: same_config_bindr)
qed

lemma same_client:
  assumes "agree_on server f g"
  shows "same_config (buildMCPClientConfig f durationSeconds path server) (buildMCPClientConfig g durationSeconds path server)"
  unfolding buildMCPClientConfig_def Let_def
  by (auto split: list.split intro!: same_config_bindr same_envs [OF assms] same_auth [OF assms])

text \<open>The keys that a reachable step names for the runner are mounted in the namespace of the run.\<close>

lemma named_is_mounted:
  assumes c: "collectSecretRefs c workflow run = Inr refs"
    and root: "rd_Workflow c (Workflow_Namespace workflow, Workflow_Name workflow) = Inr workflow"
    "Workflow_Namespace workflow = WorkflowRun_Namespace run"
    and b: "buildSecretMounts dns1123 refs (WorkflowRun_Namespace run) existing = Inr sm"
    and k: "kubelet_projects getSecret readFile (WorkflowRun_Namespace run) (sm_volumes sm) (sm_mounts sm)" "secrets_readable getSecret"
    and reach: "reached c False (Workflow_Steps workflow) (WorkflowRun_Namespace run) ns step" "bd \<in> set (step_bodies c False ns step)"
    and names: "body_names c ns bd (sns, name, key, RunnerKey)"
  shows "same_answer (Resolve getSecret (sm_mountsJSON sm) readFile False sns name key) (Resolve getSecret env readFile True sns name key)"
proof -
  have "(sns, name, key, RunnerKey) \<in> uses refs"
    using reach names unfolding collect_uses [OF c root] finds_def by blast
  then obtain r where r: "r \<in> set refs" and u: "secret_use r = (sns, name, key, RunnerKey)" by (auto simp: uses_def)
  from u have m: "mountable r" "ref_Namespace r = sns" "ref_Name r = name" "ref_Key r = key"
    by (auto simp: secret_use_def mountable_def key_kind_def split: if_splits)
  from b obtain kc bs where "\<forall>r \<in> set refs. mount_ok dns1123 (WorkflowRun_Namespace run) r"
    by (rule build_parts) blast
  with r m have "sns = WorkflowRun_Namespace run" by (auto simp: mount_ok_def mountable_def)
  with mounted_same_answer [OF b k r m(1)] m show ?thesis by simp
qed

end
