(* ===== verification/Secret_Gate.thy ===== *)
theory Secret_Gate
  imports Agent_Walks Runner_Credentials
begin

text \<open>
  The controller's own access to Secrets: what it may read (\<^verbatim>\<open>secret_access_review.go\<close>), the check of the minted volumes
  before the runner Job is created (\<^verbatim>\<open>secret_mount_check.go\<close>), what a denied read leads to (\<^verbatim>\<open>secret_access_gate.go\<close>) and
  what the message says about it (\<^verbatim>\<open>secret_access_advice.go\<close>), all in \<^verbatim>\<open>internal/workflow/controller\<close>.

  The code reads only: reviews, rules and Secrets are functions of \<open>secret_cluster\<close>, the state of the cluster, and the events it
  records are returned. A client that may be nil is an option. \<open>goQuote\<close> is Go's \<^verbatim>\<open>%q\<close>.
\<close>

subsection \<open>The cluster\<close>

record SubjectAccessReviewStatus =
  ssar_Allowed :: bool
  ssar_Denied :: bool
  ssar_Reason :: string
  ssar_EvaluationError :: string

record ResourceRule =
  rule_Verbs :: "string list"
  rule_APIGroups :: "string list"
  rule_Resources :: "string list"
  rule_ResourceNames :: "string list"

record SubjectRulesReviewStatus =
  ssrr_ResourceRules :: "ResourceRule list"
  ssrr_Incomplete :: bool
  ssrr_EvaluationError :: string

record Secret =
  Secret_Data :: "(string \<times> string) list"
  Secret_Type :: string

record secret_client =
  scl_review :: "object_key \<Rightarrow> SubjectAccessReviewStatus result"
  scl_rules :: "string \<Rightarrow> SubjectRulesReviewStatus result"
  scl_reader :: cluster_reader
  scl_secret :: "object_key \<Rightarrow> Secret result"
  scl_agent :: agent_reader

text \<open>\<^verbatim>\<open>r.Client\<close> and \<^verbatim>\<open>r.APIReader\<close>.\<close>

record secret_cluster =
  sc_Client :: "secret_client option"
  sc_APIReader :: "secret_client option"

text \<open>An event: its type, reason, action and note.\<close>

type_synonym run_event = "string \<times> string \<times> string \<times> string"

definition preferAPIReader :: "'a option \<Rightarrow> 'a option \<Rightarrow> 'a option" where
  "preferAPIReader apiReader fallback = (case apiReader of Some r \<Rightarrow> Some r | None \<Rightarrow> fallback)"

text \<open>A call on a nil reader panics.\<close>

definition nil_reader :: goerror where
  "nil_reader = GoError [GoPanic] ''nil pointer dereference''"

definition direct_secret :: "secret_cluster \<Rightarrow> object_key \<Rightarrow> Secret result" where
  "direct_secret cl key = (case preferAPIReader (sc_APIReader cl) (sc_Client cl) of None \<Rightarrow> Inl nil_reader | Some r \<Rightarrow> scl_secret r key)"

definition direct_agent :: "secret_cluster \<Rightarrow> agent_reader" where
  "direct_agent cl key = (case preferAPIReader (sc_APIReader cl) (sc_Client cl) of None \<Rightarrow> Inl nil_reader | Some r \<Rightarrow> scl_agent r key)"

subsection \<open>The review\<close>

definition SecretReadNotAuthorizedFragment :: string where
  "SecretReadNotAuthorizedFragment = ''SelfSubjectAccessReview reported that the controller identity is not authorized''"

definition errSecretReadNotAuthorized :: goerror where
  "errSecretReadNotAuthorized = errorf (SecretReadNotAuthorizedFragment @ '' to get this Secret; the read was not attempted'')"

definition canGetSecret :: "secret_client option \<Rightarrow> object_key \<Rightarrow> bool result" where
  "canGetSecret c key =
     (case c of None \<Rightarrow> Inl (errorf ''canGetSecret: nil Client'')
      | Some cl \<Rightarrow>
          (case scl_review cl key of
             Inl e \<Rightarrow> Inl e
           | Inr st \<Rightarrow>
               if ssar_Allowed st then Inr True
               else if ssar_EvaluationError st \<noteq> [] then Inl (errorf ''SelfSubjectAccessReview evaluation error'')
               else Inr False))"

subsection \<open>The check of the minted volumes\<close>

definition unresolved :: "string \<Rightarrow> goerror" where
  "unresolved what = GoError [ErrRunnerRefUnresolved] (''runner secret reference unresolved: '' @ what)"

text \<open>\<open>Inr None\<close>: checked; \<open>Inr (Some origin)\<close>: left to the kubelet.\<close>

definition check_volume ::
  "secret_cluster \<Rightarrow> string \<Rightarrow> (string \<times> string) list \<Rightarrow> string list \<Rightarrow> Volume \<Rightarrow> SecretVolumeSource \<Rightarrow> string option result" where
  "check_volume cl namespace origins copied v s =
     (let key = (namespace, SecretVolumeSource_SecretName s); origin = get_or [] origins (Volume_Name v) in
      if canGetSecret (sc_Client cl) key \<noteq> Inr True then Inr (Some origin)
      else (case direct_secret cl key of
              Inl e \<Rightarrow>
                if not_found e
                then (if snd key \<in> set copied then Inr None
                      else Inl (unresolved (origin @ '': Secret '' @ quote (snd key) @ '' not found in namespace '' @ quote namespace)))
                else Inr (Some origin)
            | Inr sec \<Rightarrow>
                (case List.find (\<lambda>it. \<not> has_key (Secret_Data sec) (KeyToPath_Key it)) (SecretVolumeSource_Items s) of
                   Some it \<Rightarrow> Inl (unresolved (origin @ '': Secret '' @ quote (snd key) @ '' has no key '' @ quote (KeyToPath_Key it)))
                 | None \<Rightarrow> Inr None)))"

fun checkSecretMounts ::
  "secret_cluster \<Rightarrow> string \<Rightarrow> Volume list \<Rightarrow> (string \<times> string) list \<Rightarrow> string list \<Rightarrow> string list result" where
  "checkSecretMounts cl namespace [] origins copied = Inr []"
| "checkSecretMounts cl namespace (v # vs) origins copied =
     (case Volume_Secret v of
        None \<Rightarrow> checkSecretMounts cl namespace vs origins copied
      | Some s \<Rightarrow>
          if SecretVolumeSource_Optional s = Some True then checkSecretMounts cl namespace vs origins copied
          else bindr (check_volume cl namespace origins copied v s) (\<lambda>r.
               bindr (checkSecretMounts cl namespace vs origins copied) (\<lambda>rest.
               Inr ((case r of None \<Rightarrow> [] | Some origin \<Rightarrow> [origin]) @ rest))))"

definition runnerCopiedSecretNames :: "Volume list \<Rightarrow> string list" where
  "runnerCopiedSecretNames volumes = remdups (List.map_filter (\<lambda>v.
     case Volume_Secret v of None \<Rightarrow> None
     | Some s \<Rightarrow> if SecretVolumeSource_SecretName s \<noteq> [] \<and> \<not> has_prefix (Volume_Name v) generatedSecretVolumePrefix
                 then Some (SecretVolumeSource_SecretName s) else None) volumes)"

definition maxUncheckedEventNote :: nat where
  "maxUncheckedEventNote = 1023"

definition ellipsis :: string where
  "ellipsis = [CHR 0xE2, CHR 0x80, CHR 0xA6]"

definition unchecked_prefix :: string where
  "unchecked_prefix = ''Secret mounts not verified before creating the runner Job (the controller cannot read them): ''"

text \<open>The origins that fit, and how many were listed.\<close>

fun unchecked_note :: "string \<Rightarrow> nat \<Rightarrow> string list \<Rightarrow> string \<times> nat" where
  "unchecked_note note listed [] = (note, listed)"
| "unchecked_note note listed (x # xs) =
     (let sep = (if 0 < listed then ''; '' else []) in
      if maxUncheckedEventNote < length note + length sep + length x + length ('' '' @ ellipsis @ '' and 999999 more'')
      then (note, listed)
      else unchecked_note (note @ sep @ x) (Suc listed) xs)"

definition trim_right_space :: "string \<Rightarrow> string" where
  "trim_right_space s = List.rev (dropWhile (\<lambda>ch. ch = CHR '' '') (List.rev s))"

definition unchecked_message :: "string list \<Rightarrow> string" where
  "unchecked_message notChecked =
     (let (note, listed) = unchecked_note unchecked_prefix 0 notChecked; more = length notChecked - listed in
      if 0 < more then trim_right_space note @ '' '' @ ellipsis @ '' and '' @ utoa more @ '' more'' else note)"

definition recordUncheckedSecretMounts :: "string list \<Rightarrow> run_event list" where
  "recordUncheckedSecretMounts notChecked =
     (if notChecked = [] then []
      else [(''Normal'', ''SecretMountsNotChecked'', ''SecretMountCheck'', unchecked_message notChecked)])"

subsection \<open>Advice\<close>

definition matchesWildcard :: "string list \<Rightarrow> string \<Rightarrow> bool" where
  "matchesWildcard l want \<longleftrightarrow> list_ex (\<lambda>v. v = ''*'' \<or> v = want) l"

definition matchesResourceName :: "string list \<Rightarrow> string \<Rightarrow> bool" where
  "matchesResourceName names want \<longleftrightarrow> names = [] \<or> list_ex (\<lambda>n. n = want) names"

definition sanitizeForAdvice :: "(string \<Rightarrow> string) \<Rightarrow> string \<Rightarrow> string" where
  "sanitizeForAdvice goQuote s =
     (let stripped = filter (\<lambda>ch. 0x20 \<le> (of_char ch :: nat) \<and> (of_char ch :: nat) \<noteq> 0x7F) s in
      goQuote (if 64 < length stripped then take 64 stripped @ ellipsis else stripped))"

definition formatAdviceList :: "(string \<Rightarrow> string) \<Rightarrow> string list \<Rightarrow> string" where
  "formatAdviceList goQuote items =
     (let quoted = remdups_adj (sort (map (sanitizeForAdvice goQuote) items)) in
      if length quoted \<le> 8 then join_with '', '' quoted
      else join_with '', '' (take 8 quoted) @ '' (+'' @ utoa (length quoted - 8) @ '' more)'')"

definition secret_rules :: "ResourceRule list \<Rightarrow> ResourceRule list" where
  "secret_rules rules = filter (\<lambda>rule. matchesWildcard (rule_APIGroups rule) [] \<and> matchesWildcard (rule_Resources rule) ''secrets'') rules"

definition grants_get :: "string \<Rightarrow> ResourceRule \<Rightarrow> bool" where
  "grants_get name rule \<longleftrightarrow> matchesWildcard (rule_Verbs rule) ''get'' \<and> matchesResourceName (rule_ResourceNames rule) name"

definition secretAccessAdvice :: "(string \<Rightarrow> string) \<Rightarrow> secret_client option \<Rightarrow> object_key \<Rightarrow> string \<Rightarrow> string" where
  "secretAccessAdvice goQuote c key runNamespace =
     (case c of None \<Rightarrow> []
      | Some cl \<Rightarrow>
          if fst key \<noteq> runNamespace then []
          else (case scl_rules cl (fst key) of
                  Inl e \<Rightarrow> []
                | Inr st \<Rightarrow>
                    if ssrr_Incomplete st \<or> ssrr_EvaluationError st \<noteq> [] then []
                    else (let candidates = secret_rules (ssrr_ResourceRules st) in
                      if list_ex (grants_get (snd key)) candidates
                      then '' The API server reports the controller identity DOES currently hold get on secrets/'' @ snd key @
                           '' in namespace '' @ fst key @ '', so this denial did not come from a missing Role'' @ em_dash @
                           ''look for an authorization webhook, or a grant that changed between the check and the read.''
                      else if candidates \<noteq> []
                      then (let verbList = formatAdviceList goQuote (remdups (concat (map rule_Verbs candidates)));
                                nameList = (if list_ex (\<lambda>rule. rule_ResourceNames rule = []) candidates
                                            then ''all names (no resourceNames restriction on at least one matching rule)''
                                            else formatAdviceList goQuote (remdups (concat (map rule_ResourceNames candidates))))
                            in '' The API server reports the controller'' @ [CHR 0x27] @ ''s Secret rules in namespace '' @ fst key @
                               '' grant verbs ['' @ verbList @ ''] on resourceNames ['' @ nameList @ '']'' @ em_dash @
                               ''this read needs get on '' @ goQuote (snd key) @ ''.'')
                      else '' The API server reports no rule grants any access to secrets in namespace '' @ fst key @
                           '', confirming no Role exists yet for this Secret.'')))"

subsection \<open>Denied reads\<close>

definition role_fix :: "string \<Rightarrow> object_key \<Rightarrow> string" where
  "role_fix controllerNamespace key =
     (if controllerNamespace \<noteq> [] \<and> fst key = controllerNamespace
      then ''This Secret is in OttoFlow'' @ [CHR 0x27] @ ''s own install namespace '' @ quote (fst key) @ '', where the chart'' @ [CHR 0x27] @
           ''s Secret-RBAC shortcut deliberately refuses to render a Role (blast-radius hygiene)'' @ em_dash @ ''create a Role '' @
           ''and RoleBinding directly in that namespace granting the controller ServiceAccount get on this Secret (resourceNames: ['' @
           quote (snd key) @ '']); see docs/user/rbac-secret-access.md.''
      else ''Grant the controller ServiceAccount get on this Secret via a namespaced Role+RoleBinding in namespace '' @ quote (fst key) @
           '' (rules: secrets get, resourceNames: ['' @ quote (snd key) @ ''])'' @ em_dash @
           ''see rbac.secretAccess.controller in values.yaml, or docs/user/rbac-secret-access.md.'')"

definition forbiddenSecretRoleError ::
  "(string \<Rightarrow> string) \<Rightarrow> string \<Rightarrow> secret_cluster \<Rightarrow> object_key \<Rightarrow> string \<Rightarrow> goerror \<Rightarrow> goerror" where
  "forbiddenSecretRoleError goQuote controllerNamespace cl key runNamespace e =
     GoError (err_tags e @ [ErrSecretAccessDenied])
       (''reading Secret '' @ key_string key @ '' is Forbidden: OttoFlow ships with no Secret access. '' @ role_fix controllerNamespace key @
        '' Confirm with: `kubectl auth can-i get secrets/'' @ snd key @ '' -n '' @ fst key @
        '' --as=system:serviceaccount:<install-ns>:<controller-sa>`'' @ secretAccessAdvice goQuote (sc_Client cl) key runNamespace @
        '' (underlying error: '' @ err_msg e @ ''): secret access denied'')"

definition forbiddenSecretCopyError :: "object_key \<Rightarrow> object_key \<Rightarrow> goerror \<Rightarrow> goerror" where
  "forbiddenSecretCopyError sourceKey runnerKey e =
     GoError (err_tags e @ [ErrSecretAccessDenied])
       (''copying Secret '' @ key_string sourceKey @ '' to runner namespace '' @ quote (fst runnerKey) @ '' as '' @ quote (snd runnerKey) @
        '' is Forbidden: this cross-namespace Secret-volume copy needs a Role granting secrets create in namespace '' @ quote (fst runnerKey) @
        '', which'' @ em_dash @ ''unlike get'' @ em_dash @ ''cannot be scoped to a single Secret name (resourceNames only supports '' @
        ''get/update/delete). Recommended: place Secret '' @ quote (snd sourceKey) @ '' directly in namespace '' @ quote (fst runnerKey) @
        '' so the WorkflowRun'' @ [CHR 0x27] @ ''s execution.job.volumes reads it in place and no cross-namespace copy is needed '' @
        ''(only secrets get is then required); see docs/user/rbac-secret-access.md: '' @ err_msg e @ '': secret access denied'')"

definition nirmataTokenEnvNames :: "string list" where
  "nirmataTokenEnvNames = [''NIRMATA_LLM_TOKEN'', ''NIRMATA_LLM_SERVICEACCOUNT_TOKEN'', ''NIRMATA_LLM_APIKEY'']"

definition hasExplicitNirmataCreds :: "EnvVar list \<Rightarrow> bool" where
  "hasExplicitNirmataCreds env \<longleftrightarrow>
     list_ex (\<lambda>e. EnvVar_Name e \<in> set nirmataTokenEnvNames \<and> (EnvVar_ValueFrom e \<noteq> None \<or> EnvVar_Value e \<noteq> [])) env"

text \<open>
  The reason of an API error: Timeout is 504, ServiceUnavailable 503, TooManyRequests 429, InternalError any other code from 500
  unless the server gave the reason ServerTimeout.
\<close>

definition isTransientCredentialWalkError :: "goerror \<Rightarrow> bool" where
  "isTransientCredentialWalkError e =
     (case filter (\<lambda>t. api_code t \<noteq> None) (err_tags e) of
        [] \<Rightarrow> False
      | t # _ \<Rightarrow> (case t of ApiOther code \<Rightarrow> code = 429 \<or> 500 \<le> code | _ \<Rightarrow> False))"

definition denied_event :: "object_key \<Rightarrow> run_event" where
  "denied_event key = (''Warning'', ''LLMCredentialsForbidden'', ''SkippedInjection'',
     ''cannot read LLM credentials Secret '' @ key_string key @ '' (Forbidden): grant the controller ServiceAccount '' @
     ''get on this Secret via a namespaced Role+RoleBinding in namespace '' @ quote (fst key) @ ''; see docs/user/rbac-secret-access.md'')"

definition handleDeniedLLMCredentialsRead ::
  "(string \<Rightarrow> string) \<Rightarrow> string \<Rightarrow> secret_cluster \<Rightarrow> WorkflowRun \<Rightarrow> object_key \<Rightarrow> bool result \<Rightarrow> goerror \<Rightarrow>
   goerror option \<times> run_event list" where
  "handleDeniedLLMCredentialsRead goQuote controllerNamespace cl run key needsCreds cause =
     ((case needsCreds of
         Inl nerr \<Rightarrow> Some (if isTransientCredentialWalkError nerr then GoError (ErrTransientBuild # err_tags nerr) (err_msg nerr) else nerr)
       | Inr True \<Rightarrow> Some (forbiddenSecretRoleError goQuote controllerNamespace cl key (WorkflowRun_Namespace run) cause)
       | Inr False \<Rightarrow> None),
      [denied_event key])"

end
