(* ===== verification/Runner_Job.thy ===== *)
theory Runner_Job
  imports Secret_Gate Trigger_Client
begin

text \<open>
  The runner Job of a run: \<^verbatim>\<open>buildWorkflowRunnerJob\<close>, with the injection of LLM credentials
  (\<^verbatim>\<open>internal/workflow/controller/workflowrun_controller.go\<close>), the reserved environment variables (\<^verbatim>\<open>reserved_runner_env.go\<close>)
  and the validation of the job spec (\<^verbatim>\<open>api/v1alpha1/workflowrun_types.go\<close>).

  \<open>job_env\<close> holds what is not under the repository's control: the validators of apimachinery, the text of a JSON document,
  Go's \<^verbatim>\<open>%q\<close>, the carrier of the trace context in the order it is ranged over. Events are returned in the order they are recorded; without a
  recorder there are none. \<^verbatim>\<open>SetControllerReference\<close> succeeds: the scheme has both kinds, and the Job is new.
\<close>

subsection \<open>Configuration\<close>

record RunnerConfig =
  cfg_RunnerImage :: string
  cfg_RunnerServiceAccount :: string
  cfg_RunnerClusterRole :: string
  cfg_AgentExecutorCallerRole :: string
  cfg_RunnerConfigMapWriterRole :: string
  cfg_AgentExecutorCASecret :: string
  cfg_AgentExecutorNamespace :: string
  cfg_SecretSourceNamespace :: string
  cfg_PrometheusURL :: string
  cfg_ImagePullSecrets :: string
  cfg_ImagePullPolicy :: string
  cfg_PodLabelsPartOf :: string
  cfg_TTLSecondsAfterFinished :: int
  cfg_LLMCredentialsSecret :: string
  cfg_SecretRefAllowedNamespaces :: "string list"

record job_env =
  je_cluster :: secret_cluster
  je_ControllerNamespace :: string
  je_config :: RunnerConfig
  je_recorder :: bool
  je_dns1123Subdomain :: "string \<Rightarrow> string list"
  je_dns1123Label :: "string \<Rightarrow> string list"
  je_cIdentifier :: "string \<Rightarrow> string list"
  je_text :: "raw_json \<Rightarrow> string"
  je_goQuote :: "string \<Rightarrow> string"
  je_carrier :: "(string \<times> string) list"

definition imagePullPolicy :: "RunnerConfig \<Rightarrow> string" where
  "imagePullPolicy cfg = (if cfg_ImagePullPolicy cfg \<in> {''Always'', ''Never''} then cfg_ImagePullPolicy cfg else ''IfNotPresent'')"

definition runnerArgs :: "RunnerConfig \<Rightarrow> string list" where
  "runnerArgs cfg = (if cfg_PrometheusURL cfg \<noteq> [] then [''--prometheus-url'', cfg_PrometheusURL cfg] else [])"

subsection \<open>The job spec\<close>

definition neg_error :: "string \<Rightarrow> int option \<Rightarrow> string list" where
  "neg_error field n = (case n of None \<Rightarrow> [] | Some i \<Rightarrow>
     if i < 0 then [''execution.job.'' @ field @ '' must be >= 0, got '' @ itoa i] else [])"

definition indexed :: "string \<Rightarrow> nat \<Rightarrow> string" where
  "indexed field i = ''execution.job.'' @ field @ ''['' @ utoa i @ '']''"

fun volume_errors :: "job_env \<Rightarrow> nat \<Rightarrow> string list \<Rightarrow> Volume list \<Rightarrow> string list" where
  "volume_errors env i seen [] = []"
| "volume_errors env i seen (v # vs) =
     (let name = Volume_Name v; msgs = je_dns1123Label env name in
      if name = [] then (indexed ''volumes'' i @ ''.name is required'') # volume_errors env (Suc i) seen vs
      else (if msgs = [] then [] else [indexed ''volumes'' i @ ''.name: '' @ join_with ''; '' msgs]) @
           (if name \<in> set seen then [''execution.job.volumes: duplicate volume name '' @ quote name] else []) @
           volume_errors env (Suc i) (List.insert name seen) vs)"

definition mount_errors :: "string list \<Rightarrow> nat \<Rightarrow> VolumeMount \<Rightarrow> string list" where
  "mount_errors volumeNames i m =
     (if VolumeMount_Name m = [] then [indexed ''volumeMounts'' i @ ''.name is required'']
      else if VolumeMount_Name m \<notin> set volumeNames
      then [indexed ''volumeMounts'' i @ ''.name '' @ quote (VolumeMount_Name m) @ '' must refer to a volume in execution.job.volumes'']
      else []) @
     (if VolumeMount_MountPath m = [] then [indexed ''volumeMounts'' i @ ''.mountPath is required''] else [])"

definition env_errors :: "job_env \<Rightarrow> nat \<Rightarrow> EnvVar \<Rightarrow> string list" where
  "env_errors env i e =
     (let msgs = je_cIdentifier env (EnvVar_Name e) in
      if EnvVar_Name e = [] then [indexed ''env'' i @ ''.name is required'']
      else if msgs \<noteq> [] then [indexed ''env'' i @ ''.name: '' @ join_with ''; '' msgs] else [])"

definition jobspec_errors :: "job_env \<Rightarrow> WorkflowRunJobSpec \<Rightarrow> string list" where
  "jobspec_errors env s =
     (let image = WorkflowRunJobSpec_Image s; sa = WorkflowRunJobSpec_ServiceAccountName s;
          volumeNames = filter (\<lambda>n. n \<noteq> []) (map Volume_Name (WorkflowRunJobSpec_Volumes s)) in
      (if trim_space image \<noteq> [] \<and> image \<noteq> trim_space image
       then [''execution.job.image must not have leading/trailing whitespace''] else []) @
      (if sa \<noteq> [] \<and> je_dns1123Subdomain env sa \<noteq> []
       then [''execution.job.serviceAccountName: '' @ join_with ''; '' (je_dns1123Subdomain env sa)] else []) @
      neg_error ''backoffLimit'' (WorkflowRunJobSpec_BackoffLimit s) @
      neg_error ''ttlSecondsAfterFinished'' (WorkflowRunJobSpec_TTLSecondsAfterFinished s) @
      neg_error ''activeDeadlineSeconds'' (WorkflowRunJobSpec_ActiveDeadlineSeconds s) @
      volume_errors env 0 [] (WorkflowRunJobSpec_Volumes s) @
      concat (map2 (mount_errors volumeNames) [0..<length (WorkflowRunJobSpec_VolumeMounts s)] (WorkflowRunJobSpec_VolumeMounts s)) @
      concat (map2 (env_errors env) [0..<length (WorkflowRunJobSpec_Env s)] (WorkflowRunJobSpec_Env s)))"

definition jobspec_Validate :: "job_env \<Rightarrow> WorkflowRunJobSpec \<Rightarrow> goerror option" where
  "jobspec_Validate env s = (if jobspec_errors env s = [] then None else Some (errorf (join_with [CHR 0x0A] (jobspec_errors env s))))"

subsection \<open>Reserved variables\<close>

definition reservedRunnerEnvNames :: "string list" where
  "reservedRunnerEnvNames = [secretmount_EnvVar, ''WORKFLOW_RUN_NAME'', ''WORKFLOW_RUN_NAMESPACE'', ''JOB_NAME'', ''POD_NAME'', ''AGENT_EXECUTOR_NAMESPACE'']"

fun offending_env :: "string list \<Rightarrow> EnvVar list \<Rightarrow> string list" where
  "offending_env seen [] = []"
| "offending_env seen (e # es) =
     (if EnvVar_Name e \<notin> set reservedRunnerEnvNames \<or> EnvVar_Name e \<in> set seen then offending_env seen es
      else EnvVar_Name e # offending_env (EnvVar_Name e # seen) es)"

definition rejectReservedRunnerEnv :: "EnvVar list \<Rightarrow> goerror option" where
  "rejectReservedRunnerEnv env =
     (let offending = offending_env [] env; names = join_with '', '' offending in
      if offending = [] then None
      else Some (errorf (''spec.execution.job.env must not set '' @ names @ '': reserved for the controller, which sets these '' @
        ''names on the runner Job itself, and a duplicate entry would replace the controller'' @ [CHR 0x27] @ ''s value '' @
        ''(the last entry with a given name wins). Remove '' @ names @ '' from the WorkflowRun'' @ [CHR 0x27] @ ''s spec.execution.job.env, '' @
        ''or from the Workflow'' @ [CHR 0x27] @ ''s spec.execution if the run was created from it. Reserved names: '' @
        join_with '', '' (sort reservedRunnerEnvNames))))"

subsection \<open>LLM credentials\<close>

definition LLMEnvAllowlist :: "string list" where
  "LLMEnvAllowlist = [''NIRMATA_LLM_TOKEN'', ''NIRMATA_LLM_SERVICEACCOUNT_TOKEN'', ''NIRMATA_LLM_APIKEY'', ''NIRMATA_URL'', ''NIRMATA_LLM_MODEL'']"

definition publicProviderEnvNames :: "string list" where
  "publicProviderEnvNames = [''GEMINI_API_KEY'', ''GOOGLE_API_KEY'', ''OPENAI_API_KEY'', ''OPENAI_MODEL'', ''OPENAI_BASE_URL'',
     ''ANTHROPIC_API_KEY'', ''ANTHROPIC_MODEL'']"

definition llm_secret_key :: "RunnerConfig \<Rightarrow> WorkflowRun \<Rightarrow> object_key" where
  "llm_secret_key cfg run =
     (case Option.bind (WorkflowRunSpec_Execution (WorkflowRun_Spec run)) WorkflowRunExecutionSpec_LLMCredentialsSecret of
        None \<Rightarrow> (WorkflowRun_Namespace run, cfg_LLMCredentialsSecret cfg)
      | Some ref \<Rightarrow> (or_ns (LLMCredentialsSecretRef_Namespace ref) (WorkflowRun_Namespace run), LLMCredentialsSecretRef_Name ref))"

definition ignored_event :: "string list \<Rightarrow> run_event list" where
  "ignored_event existing =
     (let ignored = filter (\<lambda>k. k \<in> set existing) publicProviderEnvNames in
      if ignored = [] then []
      else [(''Warning'', ''LLMCredentialIgnored'', ''LLMCredentialIgnored'',
        ''spec.execution.job.env sets '' @ join_with '', '' ignored @ '', which nothing reads: public-provider API keys come '' @
        ''from the agent-executor'' @ [CHR 0x27] @ ''s own environment (Helm agentExecutor.llmCredentialsSecret '' @
        ''or agentExecutor.env), not from the run'')])"

definition secret_env :: "string \<Rightarrow> string \<Rightarrow> EnvVar" where
  "secret_env secretName dataKey = \<lparr>EnvVar_Name = dataKey, EnvVar_Value = [],
     EnvVar_ValueFrom = Some \<lparr>EnvVarSource_FieldRef = None, EnvVarSource_ResourceFieldRef = None, EnvVarSource_ConfigMapKeyRef = None,
       EnvVarSource_SecretKeyRef = Some \<lparr>SecretKeySelector_Name = secretName, SecretKeySelector_Key = dataKey,
         SecretKeySelector_Optional = None\<rparr>\<rparr>\<rparr>"

definition skipped_event :: "object_key \<Rightarrow> Secret \<Rightarrow> run_event list" where
  "skipped_event key secret =
     (let keys = map fst (Secret_Data secret); matched = filter (\<lambda>k. k \<in> set LLMEnvAllowlist) keys;
          skipped = filter (\<lambda>k. k \<notin> set LLMEnvAllowlist) keys in
      if skipped = [] then []
      else [(''Warning'', ''LLMCredentialInjection'', ''LLMCredentialInjection'',
        ''Secret '' @ key_string key @ '' contained '' @ utoa (length keys) @ '' keys, '' @ utoa (length matched) @
        '' matched the LLM allowlist, '' @ utoa (length skipped) @ '' were ignored (ignored: '' @ join_with '', '' (sort skipped) @ '')'')])"

definition llm_env :: "string list \<Rightarrow> string \<Rightarrow> Secret \<Rightarrow> EnvVar list" where
  "llm_env existing secretName secret =
     map (secret_env secretName) (sort (filter (\<lambda>k. k \<in> set LLMEnvAllowlist \<and> k \<notin> set existing) (map fst (Secret_Data secret))))"

definition recorded :: "job_env \<Rightarrow> run_event list \<Rightarrow> run_event list" where
  "recorded env evs = (if je_recorder env then evs else [])"

definition injectWellKnownLLMCredentials ::
  "job_env \<Rightarrow> WorkflowRun \<Rightarrow> string list \<Rightarrow> bool result \<Rightarrow> EnvVar list result \<times> run_event list" where
  "injectWellKnownLLMCredentials env run existing needsCreds =
     (let key = llm_secret_key (je_config env) run; ev0 = ignored_event existing;
          denied = (\<lambda>cause. case handleDeniedLLMCredentialsRead (je_goQuote env) (je_ControllerNamespace env) (je_cluster env) run key needsCreds cause of
             (None, ev) \<Rightarrow> (Inr [], recorded env (ev0 @ ev))
           | (Some e, ev) \<Rightarrow> (Inl e, recorded env (ev0 @ ev)));
          read = (case direct_secret (je_cluster env) key of
             Inr secret \<Rightarrow> (Inr (llm_env existing (snd key) secret), recorded env (ev0 @ skipped_event key secret))
           | Inl e \<Rightarrow>
               if not_found e then (Inr [], recorded env ev0)
               else if errors_is e ApiForbidden then denied e
               else (Inl (GoError (ErrTransientBuild # err_tags e)
                      (''get well-known LLM credentials Secret '' @ key_string key @ '': '' @ err_msg e)), recorded env ev0))
      in if snd key = [] then (Inr [], recorded env ev0)
         else if canGetSecret (sc_Client (je_cluster env)) key = Inr False then denied errSecretReadNotAuthorized
         else read)"

subsection \<open>The Job\<close>

record RunnerJob =
  rj_Name :: string
  rj_Namespace :: string
  rj_Labels :: "(string \<times> string) list"
  rj_Annotations :: "(string \<times> string) list"
  rj_Owner :: OwnerReference
  rj_BackoffLimit :: int
  rj_TTLSecondsAfterFinished :: int
  rj_ActiveDeadlineSeconds :: int
  rj_PodLabels :: "(string \<times> string) list"
  rj_RestartPolicy :: string
  rj_ServiceAccountName :: string
  rj_AutomountServiceAccountToken :: bool
  rj_ImagePullSecrets :: "string list"
  rj_NodeSelector :: val
  rj_Tolerations :: val
  rj_Affinity :: val
  rj_Volumes :: "Volume list"
  rj_RunAsNonRoot :: bool
  rj_RunAsUser :: int
  rj_RunAsGroup :: int
  rj_SeccompProfile :: string
  rj_Image :: string
  rj_ImagePullPolicy :: string
  rj_Command :: "string list"
  rj_Args :: "string list"
  rj_Env :: "EnvVar list"
  rj_Resources :: val
  rj_VolumeMounts :: "VolumeMount list"
  rj_AllowPrivilegeEscalation :: bool
  rj_DropCapabilities :: "string list"

definition agentExecutorCAVolumeName :: string where
  "agentExecutorCAVolumeName = ''agent-executor-ca''"

definition agentExecutorCAMountPath :: string where
  "agentExecutorCAMountPath = ''/etc/ottoflow/agent-executor-ca''"

definition agentExecutorCAKey :: string where
  "agentExecutorCAKey = ''ca.crt''"

definition ca_volume :: "string \<Rightarrow> Volume" where
  "ca_volume caSecret = \<lparr>Volume_Name = agentExecutorCAVolumeName, Volume_Secret = None,
     Volume_ConfigMap = Some \<lparr>ConfigMapVolumeSource_Name = caSecret,
       ConfigMapVolumeSource_Items = [\<lparr>KeyToPath_Key = agentExecutorCAKey, KeyToPath_Path = agentExecutorCAKey\<rparr>]\<rparr>\<rparr>"

definition ca_mount :: VolumeMount where
  "ca_mount = \<lparr>VolumeMount_Name = agentExecutorCAVolumeName, VolumeMount_MountPath = agentExecutorCAMountPath, VolumeMount_ReadOnly = True\<rparr>"

definition literal_env :: "string \<Rightarrow> string \<Rightarrow> EnvVar" where
  "literal_env name v = \<lparr>EnvVar_Name = name, EnvVar_Value = v, EnvVar_ValueFrom = None\<rparr>"

definition field_env :: "string \<Rightarrow> string \<Rightarrow> EnvVar" where
  "field_env name path = \<lparr>EnvVar_Name = name, EnvVar_Value = [], EnvVar_ValueFrom = Some \<lparr>EnvVarSource_FieldRef = Some path,
     EnvVarSource_ResourceFieldRef = None, EnvVarSource_ConfigMapKeyRef = None, EnvVarSource_SecretKeyRef = None\<rparr>\<rparr>"

definition upper_byte :: "char \<Rightarrow> char" where
  "upper_byte ch = (if 97 \<le> (of_char ch :: nat) \<and> (of_char ch :: nat) \<le> 122 then char_of ((of_char ch :: nat) - 32) else ch)"

definition trace_env :: "(string \<times> string) list \<Rightarrow> EnvVar list" where
  "trace_env carrier = map (\<lambda>(k, v). literal_env (map upper_byte (replace_byte (CHR ''-'') (CHR ''_'') k)) v) carrier"

text \<open>The name of the ServiceAccount derived from that of the workflow (\<^verbatim>\<open>strings.TrimRight(base, "-")\<close>).\<close>

definition derived_service_account :: "string \<Rightarrow> string" where
  "derived_service_account base =
     (if length base + 7 > 253 then List.rev (dropWhile (\<lambda>ch. ch = CHR ''-'') (List.rev (take 246 base))) else base) @ ''-runner''"

definition image_pull_secrets :: "RunnerConfig \<Rightarrow> string list" where
  "image_pull_secrets cfg =
     (if cfg_ImagePullSecrets cfg = [] then []
      else filter (\<lambda>n. n \<noteq> []) (map trim_space (split_on (CHR '','') (cfg_ImagePullSecrets cfg))))"

definition run_job_spec :: "WorkflowRun \<Rightarrow> WorkflowRunJobSpec option" where
  "run_job_spec run = Option.bind (WorkflowRunSpec_Execution (WorkflowRun_Spec run)) WorkflowRunExecutionSpec_Job"

definition job_field :: "WorkflowRun \<Rightarrow> 'a \<Rightarrow> (WorkflowRunJobSpec \<Rightarrow> 'a) \<Rightarrow> 'a" where
  "job_field run z f = (case run_job_spec run of None \<Rightarrow> z | Some s \<Rightarrow> f s)"

definition job_service_account :: "RunnerConfig \<Rightarrow> WorkflowRun \<Rightarrow> string" where
  "job_service_account cfg run =
     (let sa = (if cfg_RunnerServiceAccount cfg = [] then derived_service_account (WorkflowRef_Name (workflow_ref run))
                else cfg_RunnerServiceAccount cfg)
      in or_ns (job_field run [] WorkflowRunJobSpec_ServiceAccountName) sa)"

definition active_deadline :: "WorkflowRun \<Rightarrow> Workflow \<Rightarrow> int" where
  "active_deadline run workflow =
     (let wfDeadline = Option.bind (Option.bind (WorkflowSpec_Execution (Workflow_Spec workflow)) WorkflowRunExecutionSpec_Job)
            WorkflowRunJobSpec_ActiveDeadlineSeconds in
      case job_field run None WorkflowRunJobSpec_ActiveDeadlineSeconds of
        Some d \<Rightarrow> d
      | None \<Rightarrow> (case wfDeadline of Some d \<Rightarrow> d | None \<Rightarrow> 3600))"

definition needs_creds :: "job_env \<Rightarrow> WorkflowRun \<Rightarrow> Workflow \<Rightarrow> cluster_reader \<Rightarrow> EnvVar list \<Rightarrow> bool result" where
  "needs_creds env run workflow reader podEnv =
     (if cfg_LLMCredentialsSecret (je_config env) = [] \<and>
         Option.bind (WorkflowRunSpec_Execution (WorkflowRun_Spec run)) WorkflowRunExecutionSpec_LLMCredentialsSecret = None
         \<or> hasExplicitNirmataCreds podEnv
      then Inr False
      else workflowNeedsNirmataLLMCredentials reader (direct_agent (je_cluster env)) workflow (WorkflowRun_Namespace run))"

definition ca_conflict :: goerror where
  "ca_conflict = errorf (''cannot mount the agent-executor CA: a volume named '' @ quote agentExecutorCAVolumeName @
     '' already exists on the runner Job pod spec (likely from spec.execution.job.volumes); rename that volume to resolve the conflict'')"

text \<open>Whether the CA is mounted, and the refusal of a second volume of its name.\<close>

definition needs_ca :: "job_env \<Rightarrow> WorkflowRun \<Rightarrow> Workflow \<Rightarrow> cluster_reader \<Rightarrow> Volume list \<Rightarrow> bool result" where
  "needs_ca env run workflow reader volumes =
     (if cfg_AgentExecutorCASecret (je_config env) = [] then Inr False
      else bindr (workflowNeedsAgentExecutor reader workflow (WorkflowRun_Namespace run)) (\<lambda>needs.
           if needs \<and> list_ex (\<lambda>v. Volume_Name v = agentExecutorCAVolumeName) volumes then Inl ca_conflict else Inr needs))"

text \<open>The references, the policy, the mounts and the check of the mounts.\<close>

definition job_secret_mounts ::
  "job_env \<Rightarrow> WorkflowRun \<Rightarrow> Workflow \<Rightarrow> cluster_reader \<Rightarrow> Volume list \<Rightarrow> (secret_mounts \<times> string list) result" where
  "job_secret_mounts env run workflow reader volumes =
     bindr (collectSecretRefs reader workflow run) (\<lambda>refs.
     case validateSecretRefPolicy refs (WorkflowRun_Namespace run) (cfg_SecretRefAllowedNamespaces (je_config env)) of
       Some e \<Rightarrow> Inl e
     | None \<Rightarrow>
         bindr (buildSecretMounts (je_dns1123Subdomain env) refs (WorkflowRun_Namespace run) (remdups (map Volume_Name volumes))) (\<lambda>sm.
         bindr (checkSecretMounts (je_cluster env) (WorkflowRun_Namespace run) (sm_volumes sm) (sm_origins sm)
                  (runnerCopiedSecretNames (volumes @ sm_volumes sm))) (\<lambda>notChecked.
         Inr (sm, notChecked))))"

definition controller_env :: "job_env \<Rightarrow> WorkflowRun \<Rightarrow> raw_json \<Rightarrow> EnvVar list" where
  "controller_env env run mountsJSON =
     [literal_env ''WORKFLOW_RUN_NAME'' (WorkflowRun_Name run), literal_env ''WORKFLOW_RUN_NAMESPACE'' (WorkflowRun_Namespace run),
      literal_env ''JOB_NAME'' (workflowRunnerJobName (WorkflowRun_Name run)), field_env ''POD_NAME'' ''metadata.name''] @
     (if mountsJSON = RawEmpty then [] else [literal_env secretmount_EnvVar (je_text env mountsJSON)]) @
     (if cfg_PrometheusURL (je_config env) = [] then [] else [literal_env ''PROMETHEUS_URL'' (cfg_PrometheusURL (je_config env))]) @
     (if cfg_AgentExecutorNamespace (je_config env) = [] then []
      else [literal_env ''AGENT_EXECUTOR_NAMESPACE'' (cfg_AgentExecutorNamespace (je_config env))])"

definition origins_annotation :: "job_env \<Rightarrow> (string \<times> string) list \<Rightarrow> (string \<times> string) list" where
  "origins_annotation env origins =
     (case marshal (VMap (map (\<lambda>(k, v). (k, VString v)) origins)) of
        Some raw \<Rightarrow> if origins \<noteq> [] \<and> length (je_text env raw) \<le> 8192
                   then [(generatedSecretVolumeOriginsAnnotation, je_text env raw)] else []
      | None \<Rightarrow> [])"

definition assemble_job ::
  "job_env \<Rightarrow> WorkflowRun \<Rightarrow> Workflow \<Rightarrow> EnvVar list \<Rightarrow> bool \<Rightarrow> secret_mounts \<Rightarrow> RunnerJob" where
  "assemble_job env run workflow wellKnownEnv ca sm =
     (let cfg = je_config env;
          partOf = or_ns (cfg_PodLabelsPartOf cfg) ''ottoflow'';
          podLabels = [(''app.kubernetes.io/part-of'', partOf), (runnerManagedLabel, WorkflowRun_Name run)];
          caVolumes = (if ca then [ca_volume (cfg_AgentExecutorCASecret cfg)] else []);
          caMounts = (if ca then [ca_mount] else []) in
      \<lparr>rj_Name = workflowRunnerJobName (WorkflowRun_Name run), rj_Namespace = WorkflowRun_Namespace run,
       rj_Labels = podLabels @ [(WorkflowLabelKey, or_ns (WorkflowRef_Name (workflow_ref run)) (WorkflowRun_Name run))],
       rj_Annotations = origins_annotation env (sm_origins sm),
       rj_Owner = \<lparr>OwnerReference_APIVersion = ''ottoflow.nirmata.io/v1alpha1'', OwnerReference_Kind = ''WorkflowRun'',
         OwnerReference_Name = WorkflowRun_Name run, OwnerReference_UID = WorkflowRun_UID run,
         OwnerReference_Controller = True, OwnerReference_BlockOwnerDeletion = True\<rparr>,
       rj_BackoffLimit = (case job_field run None WorkflowRunJobSpec_BackoffLimit of None \<Rightarrow> 0 | Some n \<Rightarrow> n),
       rj_TTLSecondsAfterFinished = (case job_field run None WorkflowRunJobSpec_TTLSecondsAfterFinished of Some n \<Rightarrow> n
         | None \<Rightarrow> if 0 < cfg_TTLSecondsAfterFinished cfg then cfg_TTLSecondsAfterFinished cfg else 3600),
       rj_ActiveDeadlineSeconds = active_deadline run workflow,
       rj_PodLabels = podLabels, rj_RestartPolicy = ''Never'', rj_ServiceAccountName = job_service_account cfg run,
       rj_AutomountServiceAccountToken = True, rj_ImagePullSecrets = image_pull_secrets cfg,
       rj_NodeSelector = job_field run VNil WorkflowRunJobSpec_NodeSelector,
       rj_Tolerations = job_field run VNil WorkflowRunJobSpec_Tolerations,
       rj_Affinity = job_field run VNil WorkflowRunJobSpec_Affinity,
       rj_Volumes = job_field run [] WorkflowRunJobSpec_Volumes @ caVolumes @ sm_volumes sm,
       rj_RunAsNonRoot = True, rj_RunAsUser = 65532, rj_RunAsGroup = 65532, rj_SeccompProfile = ''RuntimeDefault'',
       rj_Image = or_ns (job_field run [] WorkflowRunJobSpec_Image)
         (or_ns (cfg_RunnerImage cfg) ''ghcr.io/nirmata/ottoflow/workflow-runner:latest''),
       rj_ImagePullPolicy = imagePullPolicy cfg, rj_Command = [''/ko-app/workflow-runner''], rj_Args = runnerArgs cfg,
       rj_Env = controller_env env run (sm_mountsJSON sm) @ job_field run [] WorkflowRunJobSpec_Env @ wellKnownEnv @ trace_env (je_carrier env),
       rj_Resources = job_field run VNil WorkflowRunJobSpec_Resources,
       rj_VolumeMounts = job_field run [] WorkflowRunJobSpec_VolumeMounts @ caMounts @ sm_mounts sm,
       rj_AllowPrivilegeEscalation = False, rj_DropCapabilities = [''ALL'']\<rparr>)"

definition check_job_spec :: "job_env \<Rightarrow> WorkflowRun \<Rightarrow> goerror option" where
  "check_job_spec env run =
     (case run_job_spec run of None \<Rightarrow> None
      | Some s \<Rightarrow> (case jobspec_Validate env s of Some e \<Rightarrow> Some e | None \<Rightarrow> rejectReservedRunnerEnv (WorkflowRunJobSpec_Env s)))"

definition buildWorkflowRunnerJob ::
  "job_env \<Rightarrow> cluster_reader \<Rightarrow> WorkflowRun \<Rightarrow> Workflow \<Rightarrow> RunnerJob result \<times> run_event list" where
  "buildWorkflowRunnerJob env reader run workflow =
     (case check_job_spec env run of Some e \<Rightarrow> (Inl e, [])
      | None \<Rightarrow>
         (let podEnv = job_field run [] WorkflowRunJobSpec_Env; volumes = job_field run [] WorkflowRunJobSpec_Volumes in
          case injectWellKnownLLMCredentials env run (map EnvVar_Name podEnv) (needs_creds env run workflow reader podEnv) of
            (Inl e, ev) \<Rightarrow> (Inl e, ev)
          | (Inr wellKnownEnv, ev) \<Rightarrow>
              (case needs_ca env run workflow reader volumes of
                 Inl e \<Rightarrow> (Inl e, ev)
               | Inr ca \<Rightarrow>
                   (let volumes1 = volumes @ (if ca then [ca_volume (cfg_AgentExecutorCASecret (je_config env))] else []) in
                    case job_secret_mounts env run workflow reader volumes1 of
                      Inl e \<Rightarrow> (Inl e, ev)
                    | Inr (sm, notChecked) \<Rightarrow>
                        (Inr (assemble_job env run workflow wellKnownEnv ca sm),
                         ev @ recorded env (recordUncheckedSecretMounts notChecked))))))"

text \<open>The value a container sees: of several entries with one name the last counts.\<close>

definition effective_env :: "EnvVar list \<Rightarrow> string \<Rightarrow> EnvVar option" where
  "effective_env es name = List.find (\<lambda>e. EnvVar_Name e = name) (List.rev es)"

end
