(* ===== verification/Reconcile_Effects.thy ===== *)
theory Reconcile_Effects
  imports Run_Controller "HOL-Library.Multiset"
begin

text \<open>
  What the reconciler does to the stored WorkflowRuns: the writes of every function (\<open>writes\<close>), what the run
  policy deletes (\<open>deletes\<close>), and from them the three cases of a reconcile (\<open>Reconcile_cases\<close>).
\<close>

subsection \<open>What a reconcile does to the stored runs\<close>

text \<open>The preparation of the runner leaves the stored WorkflowRuns alone.\<close>

definition prepares :: "'w reconciler \<Rightarrow> ('w \<Rightarrow> run_store) \<Rightarrow> bool" where
  "prepares rec runs \<longleftrightarrow>
     (\<forall>r workflow. reads runs (rec_buildJob rec r workflow)) \<and>
     (\<forall>r workflow sa b. reads runs (rec_ensureRunnerAccess rec r workflow sa b)) \<and>
     (\<forall>r job ns. reads runs (rec_ensureRunnerSecrets rec r job ns)) \<and>
     (\<forall>r job. reads runs (rec_ensureAgentExecutorCA rec r job)) \<and>
     (\<forall>ns sa. reads runs (rec_ensureConfigMapWriter rec ns sa))"

text \<open>A list of the runs of a namespace is what is stored there.\<close>

definition lists_runs :: "'w kube \<Rightarrow> ('w \<Rightarrow> run_store) \<Rightarrow> bool" where
  "lists_runs kube runs \<longleftrightarrow>
     (\<forall>w k r. runs w k = Some r \<longrightarrow> run_key r = k) \<and>
     (\<forall>ns w l w'. kube_listRuns kube ns w = (Inr l, w') \<longrightarrow>
        distinct l \<and> set l = {r. runs w (run_key r) = Some r \<and> WorkflowRun_Namespace r = ns})"

text \<open>A run in the terminal phase Failed has no live callback endpoint.\<close>

definition failed_clear :: "WorkflowRun \<Rightarrow> bool" where
  "failed_clear r \<longleftrightarrow> (run_phase r = WorkflowRunPhaseFailed \<longrightarrow> pending r = None)"

definition clean :: "object_key \<Rightarrow> WorkflowRun \<Rightarrow> bool" where
  "clean k r \<longleftrightarrow> run_key r = k \<and> failed_clear r"

inductive writes :: "(WorkflowRun \<Rightarrow> bool) \<Rightarrow> run_store \<Rightarrow> run_store \<Rightarrow> bool" for P where
  no_write: "writes P m m"
| one_more: "writes P m m1 \<Longrightarrow> P r \<Longrightarrow> m1 (run_key r) = Some old \<Longrightarrow>
     writes P m (m1(run_key r \<mapsto> old\<lparr>WorkflowRun_Status := WorkflowRun_Status r\<rparr>))"

lemma writes_trans: "writes P m1 m2 \<Longrightarrow> writes P m0 m1 \<Longrightarrow> writes P m0 m2"
  by (induction rule: writes.induct) (auto intro: writes.one_more)

lemma updateStatus_law:
  assumes "runs_client kube runs" "kube_updateStatus kube r w = (e, w')"
  shows "write_outcome e (runs w) (runs w')
    (\<exists>old. runs w (run_key r) = Some old \<and>
       runs w' = (runs w)(run_key r \<mapsto> old\<lparr>WorkflowRun_Status := WorkflowRun_Status r\<rparr>))"
  using assms unfolding runs_client_def status_update_law_def by blast

lemma update_writes:
  assumes "runs_client kube runs" "kube_updateStatus kube r w = (e, w')" "P r"
  shows "writes P (runs w) (runs w')"
proof -
  from updateStatus_law [OF assms(1,2)] consider "runs w' = runs w"
    | old where "runs w (run_key r) = Some old"
        "runs w' = (runs w)(run_key r \<mapsto> old\<lparr>WorkflowRun_Status := WorkflowRun_Status r\<rparr>)"
    by (auto simp: write_outcome_def split: option.splits)
  then show ?thesis
    by cases (simp_all add: writes.no_write writes.one_more [OF writes.no_write] assms(3))
qed

lemma run_transforms [simp]:
  "run_phase (setRunFailed m f r) = WorkflowRunPhaseFailed" "pending (setRunFailed m f r) = None"
  "WorkflowRun_Meta (setRunFailed m f r) = WorkflowRun_Meta r" "WorkflowRun_Spec (setRunFailed m f r) = WorkflowRun_Spec r"
  "run_phase (upd_execution g r) = run_phase r" "pending (upd_execution g r) = pending r"
  "WorkflowRun_Meta (upd_execution g r) = WorkflowRun_Meta r" "WorkflowRun_Spec (upd_execution g r) = WorkflowRun_Spec r"
  by (simp_all add: setRunFailed_def upd_execution_def)

lemma failed_transforms [simp]:
  "run_phase (terminally_failed now j reason n r) = WorkflowRunPhaseFailed" "pending (terminally_failed now j reason n r) = None"
  "WorkflowRun_Meta (terminally_failed now j reason n r) = WorkflowRun_Meta r"
  "WorkflowRun_Spec (terminally_failed now j reason n r) = WorkflowRun_Spec r"
  "run_phase (stuck_failed now m f r) = WorkflowRunPhaseFailed" "pending (stuck_failed now m f r) = None"
  "WorkflowRun_Meta (stuck_failed now m f r) = WorkflowRun_Meta r"
  "run_phase (timed_out st r) = WorkflowRunPhaseFailed" "pending (timed_out st r) = None"
  "WorkflowRun_Meta (timed_out st r) = WorkflowRun_Meta r"
  by (simp_all add: terminally_failed_def stuck_failed_def timed_out_def Let_def)

lemma active_transforms [simp]:
  "run_phase (retried reason n mx r) = WorkflowRunPhasePending" "pending (retried reason n mx r) = pending r"
  "WorkflowRun_Meta (retried reason n mx r) = WorkflowRun_Meta r" "WorkflowRun_Spec (retried reason n mx r) = WorkflowRun_Spec r"
  "WorkflowRun_Meta (job_recorded j now r) = WorkflowRun_Meta r" "pending (job_recorded j now r) = pending r"
  "IsTerminal (run_phase (job_recorded j now r)) = IsTerminal (run_phase r)"
  by (simp_all add: retried_def job_recorded_def Let_def IsTerminal_def)

lemma clean_transforms:
  assumes "run_key r = k"
  shows "clean k (setRunFailed m f r)" "clean k (terminally_failed now j reason n r)" "clean k (stuck_failed now m f r)"
    "clean k (timed_out st r)" "clean k (retried reason n mx r)"
    "\<not> IsTerminal (run_phase r) \<Longrightarrow> clean k (job_recorded j now r)"
    "\<not> IsTerminal (run_phase r) \<Longrightarrow> clean k r"
  using assms active_transforms(7) [of j now r]
  by (auto simp: clean_def failed_clear_def IsTerminal_def)

lemma deleteCheckpoint_frame:
  assumes "runs_client kube runs"
  shows "runs (DeleteCheckpointForRun (kube_configMaps kube) r w) = runs w"
  using assms by (auto simp: DeleteCheckpointForRun_def runs_client_def other_kinds_def reads_def)

lemma update_or_requeue_writes:
  "runs_client (rec_kube rec) runs \<Longrightarrow> update_or_requeue rec res r w = (x, w') \<Longrightarrow> P r \<Longrightarrow> writes P (runs w) (runs w')"
  by (auto simp: update_or_requeue_def split: prod.splits option.splits intro: update_writes)

lemma mark_writes:
  assumes c: "runs_client (rec_kube rec) runs" and "run_key r = k" "markRunTerminallyFailed rec r j reason n w = (x, w')"
  shows "writes (clean k) (runs w) (runs w')"
proof -
  obtain now w1 where n: "kube_now (rec_kube rec) w = (now, w1)" by fastforce
  with assms(3) have "update_or_requeue rec no_requeue (terminally_failed now j reason n r)
      (DeleteCheckpointForRun (kube_configMaps (rec_kube rec)) (terminally_failed now j reason n r) w1) = (x, w')"
    by (simp add: markRunTerminallyFailed_def Let_def)
  from update_or_requeue_writes [OF c this, of "clean k"] clean_transforms(2) [OF assms(2)] kube_calls_frame(1) [OF c n]
  show ?thesis by (simp add: deleteCheckpoint_frame [OF c])
qed

lemma retry_writes:
  assumes c: "runs_client (rec_kube rec) runs" and k: "run_key r = k"
    and t: "retryTransientFailure rec r job reason n mx w = (x, w')"
  shows "writes (clean k) (runs w) (runs w')"
proof -
  obtain e w1 where d: "kube_deleteJob (rec_kube rec) PropagationBackground (job_key job) w = (e, w1)" by fastforce
  note f = kube_calls_frame(6) [OF c d]
  show ?thesis
  proof (cases "IgnoreNotFound e")
    case None
    with t d have "update_or_requeue rec requeue_now (retried reason n mx r) w1 = (x, w')"
      by (simp add: retryTransientFailure_def)
    from update_or_requeue_writes [OF c this, of "clean k"] clean_transforms(5) [OF k] f show ?thesis by simp
  next
    case (Some err)
    with t d f show ?thesis by (auto simp: retryTransientFailure_def intro: writes.no_write)
  qed
qed

lemma podReason_frame:
  "runs_client kube runs \<Longrightarrow> getPodTerminationReason kube ns j w = (x, w') \<Longrightarrow> runs w' = runs w"
  by (auto simp: getPodTerminationReason_def kube_calls_frame(7) split: prod.splits sum.splits)

lemma handleFailedJob_writes:
  assumes c: "runs_client (rec_kube rec) runs" and k: "run_key r = k" and h: "handleFailedJob rec r job j w = (x, w')"
  shows "writes (clean k) (runs w) (runs w')"
proof -
  obtain reason w1 where p: "getPodTerminationReason (rec_kube rec) (WorkflowRun_Namespace r) j w = (reason, w1)" by fastforce
  have f: "runs w1 = runs w" by (rule podReason_frame [OF c p])
  from h p consider (now) why n where "markRunTerminallyFailed rec r j why n w = (x, w')"
    | (mark) why n where "markRunTerminallyFailed rec r j why n w1 = (x, w')"
    | (retry) n mx where "retryTransientFailure rec r job reason n mx w1 = (x, w')"
    by (auto simp: handleFailedJob_def split: if_splits)
  then show ?thesis
    using f by cases (auto dest: mark_writes [OF c k] retry_writes [OF c k])
qed


lemma detectStuck_frame:
  assumes c: "runs_client kube runs" and d: "detectStuckRunnerPod kube pod w = (x, w')"
  shows "runs w' = runs w"
proof -
  obtain now w1 where n: "kube_now kube w = (now, w1)" by fastforce
  obtain evs w2 where e: "kube_podEvents kube (Pod_Namespace pod, Pod_Name pod) w1 = (evs, w2)" by fastforce
  show ?thesis
    using d n e kube_calls_frame(1) [OF c n] kube_calls_frame(8) [OF c e]
    by (auto simp: detectStuckRunnerPod_def split: if_splits option.splits sum.splits)
qed

lemma handleStuck_writes:
  assumes c: "runs_client (rec_kube rec) runs" and k: "run_key r = k" and h: "handleStuckRunnerPod rec r job pod w = (x, w')"
  shows "writes (clean k) (runs w) (runs w')" and "x = None \<Longrightarrow> runs w' = runs w"
proof -
  obtain d w1 where d: "detectStuckRunnerPod (rec_kube rec) pod w = (d, w1)" by fastforce
  note f = detectStuck_frame [OF c d]
  show "x = None \<Longrightarrow> runs w' = runs w"
    using h d f by (auto simp: handleStuckRunnerPod_def Let_def split: option.splits prod.splits)
  show "writes (clean k) (runs w) (runs w')"
  proof (cases d)
    case None
    with h d f show ?thesis by (auto simp: handleStuckRunnerPod_def intro: writes.no_write)
  next
    case (Some sy)
    then obtain m reason where sy: "d = Some (m, reason)" by (cases sy) auto
    define msg where "msg = m @ secretVolumeAttribution (rec_origins rec
      (get_or [] (Job_Annotations job) generatedSecretVolumeOriginsAnnotation)) m"
    obtain now w2 where n: "kube_now (rec_kube rec) w1 = (now, w2)" by fastforce
    obtain e w3 where u: "kube_updateStatus (rec_kube rec) (stuck_failed now msg reason r) w2 = (e, w3)" by fastforce
    obtain e' w4 where dj: "kube_deleteJob (rec_kube rec) PropagationBackground (job_key job) w3 = (e', w4)" by fastforce
    from h d sy n u dj have "w' = w3 \<or> w' = w4"
      by (auto simp: handleStuckRunnerPod_def Let_def msg_def [symmetric] split: option.splits)
    with update_writes [OF c u, of "clean k"] clean_transforms(3) [OF k] kube_calls_frame(1) [OF c n] f
      kube_calls_frame(6) [OF c dj] show ?thesis by auto
  qed
qed

lemma handleStuckPods_writes:
  assumes c: "runs_client (rec_kube rec) runs" and k: "run_key r = k"
  shows "handleStuckRunnerPods rec r job pods w = (x, w') \<Longrightarrow> writes (clean k) (runs w) (runs w')"
proof (induction pods arbitrary: w)
  case (Cons pod pods)
  obtain y w1 where y: "handleStuckRunnerPod rec r job pod w = (y, w1)" by fastforce
  show ?case
  proof (cases y)
    case None
    with Cons.prems y have "handleStuckRunnerPods rec r job pods w1 = (x, w')" by simp
    from Cons.IH [OF this] handleStuck_writes(2) [OF c k y None] show ?thesis by simp
  next
    case (Some e)
    with Cons.prems y handleStuck_writes(1) [OF c k y] show ?thesis by simp
  qed
qed (simp add: writes.no_write)

lemma ensure_running_writes:
  assumes c: "runs_client (rec_kube rec) runs" and k: "run_key r = k" and e: "ensure_running rec r w = ((err, r'), w')"
  shows "writes (clean k) (runs w) (runs w') \<and> run_key r' = k \<and> run_phase r' = WorkflowRunPhaseRunning \<and> pending r' = pending r"
proof (cases "run_phase r = WorkflowRunPhaseRunning")
  case True
  with e k show ?thesis by (auto simp: ensure_running_def writes.no_write)
next
  case False
  let ?r = "upd_status (\<lambda>s. s\<lparr>Status_Phase := WorkflowRunPhaseRunning\<rparr>) r"
  from False e have "kube_updateStatus (rec_kube rec) ?r w = (err, w')" "r' = ?r"
    by (auto simp: ensure_running_def Let_def split: prod.splits)
  with update_writes [OF c, of ?r w err w' "clean k"] k show ?thesis by (simp add: clean_def failed_clear_def)
qed

lemma resume_writes:
  assumes c: "runs_client (rec_kube rec) runs" and k: "run_key r = k" and h: "resumeRunnerJob rec r w = (x, w')"
  shows "writes (clean k) (runs w) (runs w') \<and>
    (\<forall>r'. x = Inr r' \<longrightarrow> run_key r' = k \<and> run_phase r' = WorkflowRunPhaseRunning \<and> pending r' = pending r)"
proof -
  let ?j = "workflowRunnerJobName (WorkflowRun_Name r)"
  obtain g w1 where g: "kube_getJob (rec_kube rec) (WorkflowRun_Namespace r, ?j) w = (g, w1)" by fastforce
  note f = kube_calls_frame(4) [OF c g]
  obtain err r2 w2 where e: "ensure_running rec r w1 = ((err, r2), w2)" by (metis surj_pair)
  note er = ensure_running_writes [OF c k e]
  show ?thesis
  proof (cases g)
    case (Inl ge)
    with h g e f er show ?thesis
      by (auto simp: resumeRunnerJob_def Let_def writes.no_write split: if_splits option.splits)
  next
    case (Inr job)
    obtain de w3 where d: "kube_deleteJob (rec_kube rec) PropagationForeground (job_key job) w1 = (de, w3)" by fastforce
    obtain hf w4 where hf: "handleFailedJob rec r job ?j w1 = (hf, w4)" by fastforce
    show ?thesis
      using h g e f er Inr d hf kube_calls_frame(6) [OF c d] handleFailedJob_writes [OF c k hf]
      by (auto simp: resumeRunnerJob_def Let_def writes.no_write split: if_splits option.splits)
  qed
qed

lemma pendingCallback_writes:
  assumes c: "runs_client (rec_kube rec) runs" and k: "run_key r = k"
    and h: "reconcilePendingCallback rec workflow r cb w = (x, w')"
  shows "writes (clean k) (runs w) (runs w') \<and>
    (\<forall>r'. x = Inr r' \<longrightarrow> run_key r' = k \<and> run_phase r' = WorkflowRunPhaseRunning \<and> pending r' = pending r)"
proof -
  obtain now w1 where n: "kube_now (rec_kube rec) w = (now, w1)" by fastforce
  obtain now' w1' where n': "kube_now (rec_kube rec) w1 = (now', w1')" by fastforce
  define w2 where "w2 = emit_timeout rec r cb w1"
  obtain e w3 where u: "kube_updateStatus (rec_kube rec) (timed_out (CallbackState_StepName cb) r) w2 = (e, w3)" by fastforce
  note f = kube_calls_frame(1) [OF c n] kube_calls_frame(1) [OF c n']
  have f2: "runs w2 = runs w1" by (simp add: w2_def emit_timeout_def emit_frame [OF c])
  from h n n' u consider "resumeRunnerJob rec r w1 = (x, w')" | "resumeRunnerJob rec r w2 = (x, w')"
    | res where "x = Inl res" "w' = w3" | res where "x = Inl res" "w' = w1'"
    by (auto simp: reconcilePendingCallback_def Let_def w2_def [symmetric] split: if_splits)
  then show ?thesis
  proof cases
    case 1
    from resume_writes [OF c k 1] f show ?thesis by simp
  next
    case 2
    from resume_writes [OF c k 2] f f2 show ?thesis by simp
  next
    case 3
    with update_writes [OF c u, of "clean k"] clean_transforms(4) [OF k] f f2 show ?thesis by simp
  next
    case 4
    with f show ?thesis by (simp add: writes.no_write)
  qed
qed

lemma fail_run_writes:
  assumes c: "runs_client (rec_kube rec) runs" and k: "run_key r = k" and h: "fail_run rec r m f cause w = (x, w')"
  shows "writes (clean k) (runs w) (runs w')"
proof -
  obtain e w1 where u: "kube_updateStatus (rec_kube rec) (setRunFailed m f r) w = (e, w1)" by fastforce
  with h have "w' = w1" by (auto simp: fail_run_def split: option.splits)
  with update_writes [OF c u, of "clean k"] clean_transforms(1) [OF k] show ?thesis by simp
qed

lemma fail_unless_transient_writes:
  assumes "runs_client (rec_kube rec) runs" "run_key r = k" "fail_unless_transient rec r m f e w = (x, w')"
  shows "writes (clean k) (runs w) (runs w')"
  using assms by (auto simp: fail_unless_transient_def writes.no_write split: if_splits intro: fail_run_writes)


lemma prepare_frames:
  assumes "prepares rec runs"
  shows "rec_buildJob rec r wflow w = (j, w') \<Longrightarrow> runs w' = runs w"
    "rec_ensureRunnerAccess rec r wflow sa b w = (e, w') \<Longrightarrow> runs w' = runs w"
    "rec_ensureRunnerSecrets rec r job ns w = (e, w') \<Longrightarrow> runs w' = runs w"
    "rec_ensureAgentExecutorCA rec r job w = (e, w') \<Longrightarrow> runs w' = runs w"
    "runs (snd (rec_ensureConfigMapWriter rec ns sa w)) = runs w"
  using assms unfolding prepares_def by (metis reads_eq reads_def)+

lemma create_job_writes:
  assumes c: "runs_client (rec_kube rec) runs" and k: "run_key r = k" and h: "create_job rec r job j w = (x, w')"
  shows "writes (clean k) (runs w) (runs w')"
proof -
  obtain e w1 where cj: "kube_createJob (rec_kube rec) job w = (e, w1)" by fastforce
  obtain g w2 where g: "kube_getJob (rec_kube rec) (WorkflowRun_Namespace r, j) w1 = (g, w2)" by fastforce
  from h cj g consider "w' = w1" | "w' = w2" | m f cause res where "fail_run rec r m f cause w1 = (res, w')"
    by (auto simp: create_job_def split: option.splits if_splits sum.splits prod.splits)
  then show ?thesis
    using kube_calls_frame(5) [OF c cj] kube_calls_frame(4) [OF c g]
    by cases (auto simp: writes.no_write dest: fail_run_writes [OF c k])
qed

lemma prepare_job_writes:
  assumes c: "runs_client (rec_kube rec) runs" and p: "prepares rec runs" and k: "run_key r = k"
    and h: "prepare_job rec r workflow ns j w = (x, w')"
  shows "writes (clean k) (runs w) (runs w')"
proof -
  obtain b w1 where b: "rec_buildJob rec r workflow w = (b, w1)" by fastforce
  note f1 = prepare_frames(1) [OF p b]
  show ?thesis
  proof (cases b)
    case (Inl e)
    with h b f1 show ?thesis
      by (auto simp: prepare_job_def Let_def split: prod.splits dest!: fail_unless_transient_writes [OF c k])
  next
    case (Inr job)
    obtain a w2 where a: "rec_ensureRunnerAccess rec r workflow (Job_ServiceAccountName job)
        (workflowRunUsesExplicitRunnerServiceAccount r) w1 = (a, w2)" by fastforce
    obtain t w3 where t: "rec_ensureRunnerSecrets rec r job (runnerSecretSourceNamespace rec ns) w2 = (t, w3)" by fastforce
    obtain q w4 where q: "rec_ensureAgentExecutorCA rec r job w3 = (q, w4)" by fastforce
    note f = f1 prepare_frames(2) [OF p a] prepare_frames(3) [OF p t] prepare_frames(4) [OF p q]
    from h b Inr a t q consider "w' = w2" | m y cause res where "fail_run rec r m y cause w2 = (res, w')"
      | m y e res where "fail_unless_transient rec r m y e w3 = (res, w')"
      | m y e res where "fail_unless_transient rec r m y e w4 = (res, w')" | "create_job rec r job j w4 = (x, w')"
      unfolding prepare_job_def Let_def handleAgentExecutorCAError_def
      by (auto split: option.splits if_splits prod.splits)
    then show ?thesis
      using f by cases (auto simp: writes.no_write dest!: fail_run_writes [OF c k] fail_unless_transient_writes [OF c k]
          create_job_writes [OF c k])
  qed
qed

lemma find_or_create_writes:
  assumes c: "runs_client (rec_kube rec) runs" and p: "prepares rec runs" and k: "run_key r = k"
    and h: "find_or_create_job rec r workflow ns j w = (x, w')"
  shows "writes (clean k) (runs w) (runs w')"
proof -
  obtain g w1 where g: "kube_getJob (rec_kube rec) (WorkflowRun_Namespace r, j) w = (g, w1)" by fastforce
  note f = kube_calls_frame(4) [OF c g]
  show ?thesis
  proof (cases g)
    case (Inl e)
    with h g f show ?thesis
      by (auto simp: find_or_create_job_def writes.no_write split: if_splits dest: prepare_job_writes [OF c p k])
  next
    case (Inr job)
    with h g f show ?thesis
      by (auto simp: find_or_create_job_def writes.no_write prepare_frames(5) [OF p] split: if_splits)
  qed
qed

lemma note_keeps:
  "run_phase (fst (note_pod pods r)) = run_phase r" "WorkflowRun_Meta (fst (note_pod pods r)) = WorkflowRun_Meta r"
  "run_phase (fst (note_running job rm)) = run_phase (fst rm)" "WorkflowRun_Meta (fst (note_running job rm)) = WorkflowRun_Meta (fst rm)"
  by (auto simp: note_pod_def note_running_def Let_def split: list.splits option.splits prod.splits)

lemma finish_supervision_writes:
  assumes c: "runs_client (rec_kube rec) runs" and k: "run_key (fst rm) = k" and a: "\<not> IsTerminal (run_phase (fst rm))"
    and h: "finish_supervision rec job j rm w = (x, w')"
  shows "writes (clean k) (runs w) (runs w')"
proof -
  obtain r md where n: "note_running job rm = (r, md)" by fastforce
  with note_keeps(3,4) [of job rm] k a have r: "run_key r = k" "\<not> IsTerminal (run_phase r)" by auto
  obtain e w1 where u: "kube_updateStatus (rec_kube rec) r w = (e, w1)" by fastforce
  from h n u consider "handleFailedJob rec r job j w = (x, w')" | "w' = w1" | "w' = w"
    by (auto simp: finish_supervision_def split: if_splits option.splits)
  then show ?thesis
    using handleFailedJob_writes [OF c r(1)] update_writes [OF c u, of "clean k"] clean_transforms(7) [OF r(1,2)]
    by cases (auto simp: writes.no_write)
qed

lemma supervise_writes:
  assumes c: "runs_client (rec_kube rec) runs" and k: "run_key r = k" and a: "\<not> IsTerminal (run_phase r)"
    and h: "supervise_job rec r job j w = (x, w')"
  shows "writes (clean k) (runs w) (runs w')"
proof -
  obtain y w1 where y: "record_job rec r j w = (y, w1)" by fastforce
  have rec: "writes (clean k) (runs w) (runs w1) \<and> (\<forall>r1. y = Inr r1 \<longrightarrow> run_key r1 = k \<and> \<not> IsTerminal (run_phase r1))"
  proof (cases "map_option ExecutionStatus_JobName (execution r) = Some j")
    case True
    with y k a show ?thesis by (auto simp: record_job_def writes.no_write)
  next
    case False
    obtain now w0 where n: "kube_now (rec_kube rec) w = (now, w0)" by fastforce
    obtain e w2 where u: "kube_updateStatus (rec_kube rec) (job_recorded j now r) w0 = (e, w2)" by fastforce
    from False y n u have "w1 = w2" "\<forall>r1. y = Inr r1 \<longrightarrow> r1 = job_recorded j now r"
      unfolding record_job_def by (auto simp del: map_option_eq_Some split: option.splits)
    with update_writes [OF c u, of "clean k"] clean_transforms(6) [OF k a] kube_calls_frame(1) [OF c n] k a
    show ?thesis by auto
  qed
  show ?thesis
  proof (cases y)
    case (Inl e)
    with h y rec show ?thesis by (auto simp: supervise_job_def)
  next
    case (Inr r1)
    with rec have r1: "run_key r1 = k" "\<not> IsTerminal (run_phase r1)" by auto
    obtain ps w2 where l: "kube_listPods (rec_kube rec) (WorkflowRun_Namespace r1) j w1 = (ps, w2)" by fastforce
    note f = kube_calls_frame(7) [OF c l]
    show ?thesis
    proof (cases ps)
      case (Inl e)
      with h y Inr l have "finish_supervision rec job j (r1, False) w2 = (x, w')" by (simp add: supervise_job_def)
      from finish_supervision_writes [OF c _ _ this] r1 rec f show ?thesis by (auto intro: writes_trans)
    next
      case (Inr pods)
      obtain q w3 where q: "handleStuckRunnerPods rec r1 job pods w2 = (q, w3)" by fastforce
      have t: "writes (clean k) (runs w) (runs w3)"
        using handleStuckPods_writes [OF c r1(1) q] rec f by (auto intro: writes_trans)
      show ?thesis
      proof (cases q)
        case None
        with h y \<open>y = Inr r1\<close> l Inr q have "finish_supervision rec job j (note_pod pods r1) w3 = (x, w')"
          by (simp add: supervise_job_def)
        from finish_supervision_writes [OF c _ _ this] r1 t show ?thesis by (auto simp: note_keeps intro: writes_trans)
      next
        case (Some e)
        with h y \<open>y = Inr r1\<close> l Inr q t show ?thesis by (simp add: supervise_job_def)
      qed
    qed
  qed
qed


lemma go_on_writes:
  assumes c: "runs_client (rec_kube rec) runs" and p: "prepares rec runs" and k: "run_key r = k"
    and a: "\<not> IsTerminal (run_phase r)"
    and h: "(case find_or_create_job rec r workflow ns j w of
       (Inl res, w') \<Rightarrow> (res, w') | (Inr job, w') \<Rightarrow> supervise_job rec r job j w') = (x, w')"
  shows "writes (clean k) (runs w) (runs w')"
proof -
  obtain y w1 where y: "find_or_create_job rec r workflow ns j w = (y, w1)" by fastforce
  note t = find_or_create_writes [OF c p k y]
  show ?thesis
  proof (cases y)
    case (Inl res)
    with h y t show ?thesis by simp
  next
    case (Inr job)
    with h y have "supervise_job rec r job j w1 = (x, w')" by simp
    from supervise_writes [OF c k a this] t show ?thesis by (rule writes_trans)
  qed
qed

lemma reconcileJobExecution_writes:
  assumes c: "runs_client (rec_kube rec) runs" and p: "prepares rec runs" and k: "run_key r = k"
    and a: "\<not> IsTerminal (run_phase r)" and h: "reconcileJobExecution rec r w = (x, w')"
  shows "writes (clean k) (runs w) (runs w')"
proof -
  obtain rw w1 where rw: "resolveWorkflow (rec_kube rec) (rec_ControllerNamespace rec) r w = (rw, w1)" by fastforce
  note f = resolveWorkflow_frame [OF c rw]
  show ?thesis
  proof (cases rw)
    case (Inl e)
    with h rw f show ?thesis
      by (auto simp: reconcileJobExecution_def Let_def writes.no_write split: if_splits dest: fail_run_writes [OF c k])
  next
    case (Inr wn)
    then obtain workflow ns where wn: "rw = Inr (workflow, ns)" by (cases wn) auto
    show ?thesis
    proof (cases "pending r")
      case None
      with h rw wn have "(case find_or_create_job rec r workflow ns (workflowRunnerJobName (WorkflowRun_Name r)) w1 of
          (Inl res, w') \<Rightarrow> (res, w') | (Inr job, w') \<Rightarrow> supervise_job rec r job (workflowRunnerJobName (WorkflowRun_Name r)) w') = (x, w')"
        by (simp add: reconcileJobExecution_def Let_def)
      from go_on_writes [OF c p k a this] f show ?thesis by simp
    next
      case (Some cb)
      obtain pc w2 where pc: "reconcilePendingCallback rec workflow r cb w1 = (pc, w2)" by fastforce
      note pw = pendingCallback_writes [OF c k pc]
      show ?thesis
      proof (cases pc)
        case (Inl res)
        with h rw wn Some pc pw f show ?thesis by (simp add: reconcileJobExecution_def Let_def)
      next
        case (Inr r')
        with pw have r': "run_key r' = k" "\<not> IsTerminal (run_phase r')" by (auto simp: IsTerminal_def)
        from Inr h rw wn Some pc have
          "(case find_or_create_job rec r' workflow ns (workflowRunnerJobName (WorkflowRun_Name r)) w2 of
            (Inl res, w') \<Rightarrow> (res, w') | (Inr job, w') \<Rightarrow> supervise_job rec r' job (workflowRunnerJobName (WorkflowRun_Name r)) w') = (x, w')"
          by (simp add: reconcileJobExecution_def Let_def)
        from go_on_writes [OF c p r' this] pw f show ?thesis by (auto intro: writes_trans)
      qed
    qed
  qed
qed

text \<open>What sequences of writes keep.\<close>

lemma writes_other: "writes (clean k) m m' \<Longrightarrow> j \<noteq> k \<Longrightarrow> m' j = m j"
  by (induction rule: writes.induct) (auto simp: clean_def)

lemma writes_clean:
  assumes "writes (clean k) m m'" "\<forall>j r. m j = Some r \<longrightarrow> failed_clear r"
  shows "\<forall>j r. m' j = Some r \<longrightarrow> failed_clear r"
  using assms
proof (induction rule: writes.induct)
  case (one_more m m1 r old)
  then show ?case by (auto simp: clean_def failed_clear_def)
qed

subsection \<open>Deleting runs\<close>

text \<open>Runs disappear, nothing else: \<open>D\<close> are those that may.\<close>

definition deletes :: "(WorkflowRun \<Rightarrow> bool) \<Rightarrow> run_store \<Rightarrow> run_store \<Rightarrow> bool" where
  "deletes D m m' \<longleftrightarrow> (\<forall>k. m' k = m k \<or> m' k = None \<and> (\<forall>r. m k = Some r \<longrightarrow> D r))"

lemma deletes_refl [simp]: "deletes D m m"
  by (simp add: deletes_def)

lemma deletes_trans: "deletes D m0 m1 \<Longrightarrow> deletes D m1 m2 \<Longrightarrow> deletes D m0 m2"
  unfolding deletes_def by metis

lemma deleteRun_law:
  assumes "runs_client kube runs" "kube_deleteRun kube k w = (e, w')"
  shows "runs w' = runs w \<or> runs w' = (runs w)(k := None)" "IgnoreNotFound e = None \<Longrightarrow> runs w' = (runs w)(k := None)"
proof -
  have l: "write_outcome e (runs w) (runs w') (runs w' = (runs w)(k := None)) \<and> (\<forall>x. e = Some x \<and> not_found x \<longrightarrow> runs w k = None)"
    using assms unfolding runs_client_def run_delete_law_def by blast
  then show "runs w' = runs w \<or> runs w' = (runs w)(k := None)"
    by (auto simp: write_outcome_def split: option.splits)
  show "IgnoreNotFound e = None \<Longrightarrow> runs w' = (runs w)(k := None)"
    using l by (auto simp: write_outcome_def IgnoreNotFound_def refused_def fun_upd_idem split: option.splits if_splits)
qed

lemma delete_runs_effect:
  assumes c: "runs_client (rec_kube rec) runs"
  shows "delete_runs rec why uid wrs w = (x, w') \<Longrightarrow> \<forall>wr\<in>set wrs. D wr \<and> (\<forall>r. runs w (run_key wr) = Some r \<longrightarrow> r = wr) \<Longrightarrow>
    deletes D (runs w) (runs w') \<and> (x = Inr False \<longrightarrow> runs w' = (\<lambda>k. if k \<in> run_key ` set wrs then None else runs w k))"
proof (induction wrs arbitrary: w)
  case (Cons wr wrs)
  obtain e w1 where d: "kube_deleteRun (rec_kube rec) (run_key wr) w = (e, w1)" by fastforce
  note l = deleteRun_law [OF c d]
  have del: "deletes D (runs w) (runs w1)" using l(1) Cons.prems(2) by (auto simp: deletes_def split: if_splits)
  show ?case
  proof (cases "IgnoreNotFound e = None \<and> WorkflowRun_UID wr \<noteq> uid")
    case True
    then have w1: "runs w1 = (runs w)(run_key wr := None)" using l(2) by simp
    from True Cons.prems(1) d have "delete_runs rec why uid wrs w1 = (x, w')" by simp
    moreover have "\<forall>wr\<in>set wrs. D wr \<and> (\<forall>r. runs w1 (run_key wr) = Some r \<longrightarrow> r = wr)"
      using Cons.prems(2) w1 by (auto split: if_splits)
    ultimately have ih: "deletes D (runs w1) (runs w')"
      "x = Inr False \<longrightarrow> runs w' = (\<lambda>k. if k \<in> run_key ` set wrs then None else runs w1 k)"
      using Cons.IH by blast+
    have "runs w' = (\<lambda>k. if k \<in> run_key ` set (wr # wrs) then None else runs w k)" if "x = Inr False"
      using ih(2) that w1 by (auto simp: fun_eq_iff)
    with deletes_trans [OF del ih(1)] show ?thesis by blast
  next
    case False
    with Cons.prems(1) d have "w' = w1" "x \<noteq> Inr False" by (auto split: option.splits)
    with del show ?thesis by simp
  qed
qed simp


text \<open>The completed runs of a workflow, as stored.\<close>

definition completed_runs :: "string \<Rightarrow> string \<Rightarrow> string \<Rightarrow> run_store \<Rightarrow> WorkflowRun set" where
  "completed_runs ns name refNs m =
     {r. m (run_key r) = Some r \<and> WorkflowRun_Namespace r = ns \<and> of_workflow ns name refNs r}"

text \<open>The key of the sort: the completion time, and the zero time of Go when there is none.\<close>

definition completion :: "WorkflowRun \<Rightarrow> int" where
  "completion r = (case Status_CompletionTime (WorkflowRun_Status r) of Some t \<Rightarrow> t | None \<Rightarrow> - 62135596800 * second)"

definition sorts :: "(WorkflowRun list \<Rightarrow> WorkflowRun list) \<Rightarrow> bool" where
  "sorts f \<longleftrightarrow> (\<forall>l. mset (f l) = mset l \<and> sorted_wrt (\<lambda>a b. completion a \<le> completion b) (f l))"

definition lists_always :: "'w kube \<Rightarrow> bool" where
  "lists_always kube \<longleftrightarrow> (\<forall>ns w. \<exists>l w'. kube_listRuns kube ns w = (Inr l, w'))"

lemma listRuns_law:
  assumes "lists_runs kube runs" "kube_listRuns kube ns w = (Inr l, w')"
  shows "distinct l" "set l = {r. runs w (run_key r) = Some r \<and> WorkflowRun_Namespace r = ns}"
  using assms(1) [unfolded lists_runs_def, THEN conjunct2, rule_format, OF assms(2)] by simp_all

lemma listCompleted_set:
  assumes c: "runs_client (rec_kube rec) runs" and l: "lists_runs (rec_kube rec) runs"
    and h: "listCompletedRunsForWorkflow rec ns name refNs w = (xs, w')"
  shows "runs w' = runs w" "distinct xs" "set xs \<subseteq> completed_runs ns name refNs (runs w)"
    "lists_always (rec_kube rec) \<Longrightarrow> set xs = completed_runs ns name refNs (runs w)"
proof -
  obtain r w1 where r: "kube_listRuns (rec_kube rec) ns w = (r, w1)" by fastforce
  have "w' = w1" using h r by (auto simp: listCompletedRunsForWorkflow_def split: sum.splits)
  with kube_calls_frame(2) [OF c r] show "runs w' = runs w" by simp
  have "distinct xs \<and> set xs \<subseteq> completed_runs ns name refNs (runs w) \<and>
      ((\<exists>items. r = Inr items) \<longrightarrow> set xs = completed_runs ns name refNs (runs w))"
  proof (cases r)
    case (Inl e)
    with h r show ?thesis by (auto simp: listCompletedRunsForWorkflow_def)
  next
    case (Inr items)
    with r have "kube_listRuns (rec_kube rec) ns w = (Inr items, w1)" by simp
    note li = listRuns_law [OF l this]
    from Inr h r have "xs = filter (of_workflow ns name refNs) items" by (simp add: listCompletedRunsForWorkflow_def)
    with li show ?thesis by (auto simp: completed_runs_def)
  qed
  moreover have "\<exists>items. r = Inr items" if "lists_always (rec_kube rec)"
    using that r unfolding lists_always_def by (metis fst_conv)
  ultimately show "distinct xs" "set xs \<subseteq> completed_runs ns name refNs (runs w)"
    "lists_always (rec_kube rec) \<Longrightarrow> set xs = completed_runs ns name refNs (runs w)" by blast+
qed

lemma delete_completed:
  assumes c: "runs_client (rec_kube rec) runs" and d: "delete_runs rec why uid wrs w = (x, w')"
    and sub: "set wrs \<subseteq> completed_runs ns name refNs (runs w)"
  shows "deletes (\<lambda>r. r \<in> completed_runs ns name refNs (runs w)) (runs w) (runs w')"
    "x = Inr False \<Longrightarrow> completed_runs ns name refNs (runs w') = completed_runs ns name refNs (runs w) - set wrs"
proof -
  have st: "runs w (run_key wr) = Some wr" if "wr \<in> set wrs" for wr
    using sub that by (auto simp: completed_runs_def)
  have pre: "\<forall>wr\<in>set wrs. wr \<in> completed_runs ns name refNs (runs w) \<and> (\<forall>r. runs w (run_key wr) = Some r \<longrightarrow> r = wr)"
    using sub st by auto
  note e = delete_runs_effect [OF c d pre]
  from e show "deletes (\<lambda>r. r \<in> completed_runs ns name refNs (runs w)) (runs w) (runs w')" by (rule conjunct1)
  assume "x = Inr False"
  with e have w': "runs w' = (\<lambda>k. if k \<in> run_key ` set wrs then None else runs w k)" by blast
  have "(runs w' (run_key r) = Some r) \<longleftrightarrow> runs w (run_key r) = Some r \<and> r \<notin> set wrs" for r
  proof (cases "run_key r \<in> run_key ` set wrs")
    case True
    then obtain wr where "wr \<in> set wrs" "run_key r = run_key wr" by blast
    with st [of wr] True w' show ?thesis by auto
  next
    case False
    with w' show ?thesis by auto
  qed
  then show "completed_runs ns name refNs (runs w') = completed_runs ns name refNs (runs w) - set wrs"
    unfolding completed_runs_def by blast
qed

lemma deletes_completed_trans:
  assumes "deletes (\<lambda>r. r \<in> completed_runs ns name refNs m0) m0 m1" "deletes (\<lambda>r. r \<in> completed_runs ns name refNs m1) m1 m2"
  shows "deletes (\<lambda>r. r \<in> completed_runs ns name refNs m0) m0 m2"
  unfolding deletes_def
proof
  fix k
  have a: "m1 k = m0 k \<or> m1 k = None \<and> (\<forall>r. m0 k = Some r \<longrightarrow> r \<in> completed_runs ns name refNs m0)" for k
    using assms(1) unfolding deletes_def by (rule spec)
  have b: "m2 k = m1 k \<or> m2 k = None \<and> (\<forall>r. m1 k = Some r \<longrightarrow> r \<in> completed_runs ns name refNs m1)"
    using assms(2) unfolding deletes_def by (rule spec)
  have sub: "r \<in> completed_runs ns name refNs m0" if "r \<in> completed_runs ns name refNs m1" for r
  proof -
    from that have m1: "m1 (run_key r) = Some r" by (auto simp: completed_runs_def)
    with a [of "run_key r"] have "m0 (run_key r) = Some r" by (elim disjE) simp_all
    with that m1 show ?thesis by (auto simp: completed_runs_def)
  qed
  show "m2 k = m0 k \<or> m2 k = None \<and> (\<forall>r. m0 k = Some r \<longrightarrow> r \<in> completed_runs ns name refNs m0)"
  proof (cases "m1 k = m0 k")
    case True
    from b show ?thesis unfolding True using sub by blast
  next
    case False
    with a [of k] b show ?thesis by auto
  qed
qed


lemma keep_newest_effect:
  assumes c: "runs_client (rec_kube rec) runs" and so: "sorts (rec_sort rec)"
    and d: "distinct xs" "set xs \<subseteq> completed_runs ns name refNs (runs w)"
    and h: "keep_newest rec uid mx xs w = (x, w')"
  shows "deletes (\<lambda>r. r \<in> completed_runs ns name refNs (runs w)) (runs w) (runs w')"
    "x = Inr False \<Longrightarrow> set xs = completed_runs ns name refNs (runs w) \<Longrightarrow>
       (0 < mx \<longrightarrow> int (card (completed_runs ns name refNs (runs w'))) \<le> mx) \<and>
       completed_runs ns name refNs (runs w') \<subseteq> completed_runs ns name refNs (runs w) \<and>
       (\<forall>a \<in> completed_runs ns name refNs (runs w) - completed_runs ns name refNs (runs w').
          \<forall>b \<in> completed_runs ns name refNs (runs w'). completion a \<le> completion b)"
proof -
  let ?C = "completed_runs ns name refNs" and ?ys = "rec_sort rec xs" and ?n = "length xs - nat mx"
  have ms: "mset ?ys = mset xs" and srt: "sorted_wrt (\<lambda>a b. completion a \<le> completion b) ?ys"
    using so by (simp_all add: sorts_def)
  have ys: "set ?ys = set xs" "distinct ?ys" "length ?ys = length xs"
    using ms d(1) by (metis mset_eq_setD, metis mset_eq_imp_distinct_iff, metis size_mset)
  show "deletes (\<lambda>r. r \<in> ?C (runs w)) (runs w) (runs w')"
  proof (cases "0 < mx \<and> mx < int (length xs)")
    case True
    with h have dl: "delete_runs rec ''maxAllowed'' uid (take ?n ?ys) w = (x, w')" by (simp add: keep_newest_def)
    have "set (take ?n ?ys) \<subseteq> ?C (runs w)" using ys(1) d(2) set_take_subset [of ?n ?ys] by simp
    from delete_completed(1) [OF c dl this] show ?thesis .
  next
    case False
    with h show ?thesis by (auto simp: keep_newest_def)
  qed
  assume x: "x = Inr False" and all: "set xs = ?C (runs w)"
  show "(0 < mx \<longrightarrow> int (card (?C (runs w'))) \<le> mx) \<and> ?C (runs w') \<subseteq> ?C (runs w) \<and>
    (\<forall>a \<in> ?C (runs w) - ?C (runs w'). \<forall>b \<in> ?C (runs w'). completion a \<le> completion b)"
  proof (cases "0 < mx \<and> mx < int (length xs)")
    case True
    with h have dl: "delete_runs rec ''maxAllowed'' uid (take ?n ?ys) w = (x, w')" by (simp add: keep_newest_def)
    have "set (take ?n ?ys) \<subseteq> ?C (runs w)" using ys(1) d(2) set_take_subset [of ?n ?ys] by simp
    from delete_completed(2) [OF c dl this x] have "?C (runs w') = set ?ys - set (take ?n ?ys)" using all ys(1) by simp
    moreover have app: "?ys = take ?n ?ys @ drop ?n ?ys" by simp
    have disj: "set (take ?n ?ys) \<inter> set (drop ?n ?ys) = {}" using ys(2) by (rule set_take_disj_set_drop_if_distinct) simp
    have un: "set ?ys = set (take ?n ?ys) \<union> set (drop ?n ?ys)" using arg_cong [OF app, of set] by (simp only: set_append)
    ultimately have C: "?C (runs w') = set (drop ?n ?ys)" using disj by blast
    have "length xs - ?n = nat mx" using True by (simp add: nat_le_iff)
    then have "card (set (drop ?n ?ys)) = nat mx" using ys(2,3) by (simp add: distinct_card)
    moreover have "completion a \<le> completion b" if "a \<in> set (take ?n ?ys)" "b \<in> set (drop ?n ?ys)" for a b
      using srt that app by (metis sorted_wrt_append)
    moreover have "?C (runs w) = set (take ?n ?ys) \<union> set (drop ?n ?ys)" using all ys(1) un by simp
    ultimately show ?thesis using C disj by auto
  next
    case False
    with h x have "w' = w" by (auto simp: keep_newest_def)
    moreover have "card (?C (runs w)) = length xs" using all d(1) by (metis distinct_card)
    ultimately show ?thesis using False by auto
  qed
qed


text \<open>The parts of \<open>applyRunPolicy\<close> by name: the reference of a workflow, the time it reads.\<close>

abbreviation policy_namespace :: "Workflow \<Rightarrow> WorkflowRun \<Rightarrow> string" where
  "policy_namespace workflow current \<equiv>
     (if Workflow_Namespace workflow = [] then WorkflowRun_Namespace current else Workflow_Namespace workflow)"

abbreviation policy_runs :: "Workflow \<Rightarrow> WorkflowRun \<Rightarrow> run_store \<Rightarrow> WorkflowRun set" where
  "policy_runs workflow current m \<equiv>
     completed_runs (WorkflowRun_Namespace current) (Workflow_Name workflow) (policy_namespace workflow current) m"

definition policy_now :: "'w reconciler \<Rightarrow> WorkflowRun \<Rightarrow> 'w \<Rightarrow> int" where
  "policy_now rec current w =
     fst (kube_now (rec_kube rec) (snd (kube_listRuns (rec_kube rec) (WorkflowRun_Namespace current) w)))"

lemma list_snd: "snd (listCompletedRunsForWorkflow rec ns n r w) = snd (kube_listRuns (rec_kube rec) ns w)"
  by (auto simp: listCompletedRunsForWorkflow_def split: prod.splits sum.splits)

lemma applyRunPolicy_effect:
  assumes c: "runs_client (rec_kube rec) runs" and l: "lists_runs (rec_kube rec) runs" and so: "sorts (rec_sort rec)"
    and h: "applyRunPolicy rec workflow current w = (x, w')" and run: "WorkflowSpec_Run (Workflow_Spec workflow) = Some run"
    and mx: "mx = deref0 (RunPolicy_MaxAllowed run)" and ret: "ret = deref0 (RunPolicy_RetentionMinutes run)"
    and cut: "cutoff = policy_now rec current w - ret * 60 * second"
  shows "deletes (\<lambda>r. r \<in> policy_runs workflow current (runs w)) (runs w) (runs w') \<and>
    (x = Inr False \<longrightarrow> lists_always (rec_kube rec) \<longrightarrow>
      (0 < mx \<longrightarrow> int (card (policy_runs workflow current (runs w'))) \<le> mx) \<and>
      (0 < ret \<longrightarrow> (\<forall>b \<in> policy_runs workflow current (runs w'). \<not> expired_before cutoff b)) \<and>
      (\<forall>a \<in> policy_runs workflow current (runs w) - policy_runs workflow current (runs w').
         \<forall>b \<in> policy_runs workflow current (runs w'). 0 < ret \<and> expired_before cutoff a \<or> completion a \<le> completion b))"
proof -
  let ?C = "policy_runs workflow current" and ?uid = "WorkflowRun_UID current"
  let ?list = "listCompletedRunsForWorkflow rec (WorkflowRun_Namespace current) (Workflow_Name workflow) (policy_namespace workflow current)"
  obtain xs w1 where xs: "?list w = (xs, w1)" by fastforce
  note lx = listCompleted_set [OF c l xs]
  obtain now w2 where n: "kube_now (rec_kube rec) w1 = (now, w2)" by fastforce
  have f2: "runs w2 = runs w" using kube_calls_frame(1) [OF c n] lx(1) by simp
  have cutoff: "cutoff = now - ret * 60 * second"
    using n xs list_snd [of rec "WorkflowRun_Namespace current" "Workflow_Name workflow" "policy_namespace workflow current" w]
    by (simp add: cut policy_now_def)
  show ?thesis
  proof (cases "xs = []")
    case True
    with h run xs have "w' = w1" by (simp add: applyRunPolicy_def Let_def)
    with True lx show ?thesis by auto
  next
    case ne: False
    show ?thesis
    proof (cases "0 < ret")
      case False
      with h run xs ne n ret mx have k: "keep_newest rec ?uid mx xs w2 = (x, w')"
        by (simp add: applyRunPolicy_def Let_def)
      from keep_newest_effect [OF c so lx(2) _ k] lx(3,4) False f2 show ?thesis by auto
    next
      case True
      let ?old = "filter (expired_before cutoff) xs"
      obtain y w3 where d: "delete_runs rec ''retention'' ?uid ?old w2 = (y, w3)" by fastforce
      have sub: "set ?old \<subseteq> ?C (runs w2)" using lx(3) f2 by auto
      note de = delete_completed [OF c d sub]
      show ?thesis
      proof (cases "y = Inr False")
        case False
        with h run xs ne n ret True d cutoff have "w' = w3" "x = y"
          by (auto simp: applyRunPolicy_def Let_def split: sum.splits bool.splits)
        with de(1) f2 False show ?thesis by simp
      next
        case y: True
        obtain zs w4 where z: "?list w3 = (zs, w4)" by fastforce
        note lz = listCompleted_set [OF c l z]
        from h run xs ne n ret mx True d cutoff y z have k: "keep_newest rec ?uid mx zs w4 = (x, w')"
          by (simp add: applyRunPolicy_def Let_def)
        have sub4: "set zs \<subseteq> ?C (runs w4)" using lz(1,3) by simp
        note ke = keep_newest_effect [OF c so lz(2) sub4 k]
        have del: "deletes (\<lambda>r. r \<in> ?C (runs w)) (runs w) (runs w')"
          using deletes_completed_trans [of _ _ _ "runs w2" "runs w3" "runs w'"] de(1) ke(1) lz(1) f2 by simp
        have C3: "?C (runs w3) = ?C (runs w) - set ?old" using de(2) [OF y] f2 by simp
        show ?thesis
        proof (intro conjI impI)
          assume "x = Inr False" "lists_always (rec_kube rec)"
          with ke(2) lz(1,4) have e: "(0 < mx \<longrightarrow> int (card (?C (runs w'))) \<le> mx)" "?C (runs w') \<subseteq> ?C (runs w3)"
            "\<forall>a \<in> ?C (runs w3) - ?C (runs w'). \<forall>b \<in> ?C (runs w'). completion a \<le> completion b" by auto
          from lx(4) \<open>lists_always (rec_kube rec)\<close> have "set xs = ?C (runs w)" by simp
          with C3 have C3': "?C (runs w3) = {r \<in> ?C (runs w). \<not> expired_before cutoff r}" by auto
          show "int (card (?C (runs w'))) \<le> mx" if "0 < mx" using e(1) that by simp
          show "\<forall>b \<in> ?C (runs w'). \<not> expired_before cutoff b" using e(2) C3' by auto
          show "\<forall>a \<in> ?C (runs w) - ?C (runs w'). \<forall>b \<in> ?C (runs w'). 0 < ret \<and> expired_before cutoff a \<or> completion a \<le> completion b"
            using e(3) C3' True by blast
        qed (rule del)
      qed
    qed
  qed
qed


subsection \<open>The whole reconcile\<close>

lemma Reconcile_cases:
  assumes c: "runs_client (rec_kube rec) runs" and p: "prepares rec runs" and l: "lists_runs (rec_kube rec) runs"
    and so: "sorts (rec_sort rec)" and h: "Reconcile rec key w = (res, w')"
  obtains (gone) "runs w' = runs w"
    | (active) r where "runs w key = Some r" "\<not> IsTerminal (run_phase r)" "writes (clean key) (runs w) (runs w')"
    | (finished) r where "runs w key = Some r" "IsTerminal (run_phase r)"
        "deletes (\<lambda>r. IsTerminal (run_phase r)) (runs w) (runs w')"
proof -
  obtain g w1 where g: "kube_getRun (rec_kube rec) key w = (g, w1)" by fastforce
  note f = kube_calls_frame(9) [OF c g]
  show ?thesis
  proof (cases g)
    case (Inl e)
    with h g f show ?thesis by (intro gone) (auto simp: Reconcile_def)
  next
    case (Inr r)
    with getRun_fresh [OF c] g have st: "runs w key = Some r" "run_key r = key" by auto
    show ?thesis
    proof (cases "IsTerminal (run_phase r)")
      case False
      with h g Inr have "reconcileJobExecution rec r w1 = (res, w')" by (simp add: Reconcile_def)
      from reconcileJobExecution_writes [OF c p st(2) False this] f st False show ?thesis by (intro active) simp_all
    next
      case True
      obtain q w2 where q: "kube_getWorkflow (rec_kube rec) (ref_namespace r, WorkflowRef_Name (workflow_ref r)) w1 = (q, w2)"
        by fastforce
      note f2 = kube_calls_frame(3) [OF c q]
      show ?thesis
      proof (cases q)
        case (Inl e)
        with h g Inr q True f f2 show ?thesis by (intro gone) (simp add: Reconcile_def)
      next
        case wf: (Inr workflow)
        obtain x w3 where x: "applyRunPolicy rec workflow r w2 = (x, w3)" by fastforce
        have "w' = w3" using h g Inr q True wf x by (auto simp: Reconcile_def split: sum.splits)
        moreover have "deletes (\<lambda>r. IsTerminal (run_phase r)) (runs w2) (runs w3)"
        proof (cases "WorkflowSpec_Run (Workflow_Spec workflow)")
          case None
          with x show ?thesis by (simp add: applyRunPolicy_def)
        next
          case (Some run)
          from applyRunPolicy_effect [OF c l so x Some refl refl refl]
          show ?thesis by (auto simp: deletes_def completed_runs_def of_workflow_def)
        qed
        ultimately show ?thesis using st True f f2 by (intro finished) simp_all
      qed
    qed
  qed
qed

end
