(* ===== verification/Runner_Access.thy ===== *)
theory Runner_Access
  imports Runner_Job Reconcile_Effects
begin

text \<open>
  What the controller creates around a runner Job (\<^verbatim>\<open>internal/workflow/controller/workflowrun_controller.go\<close>): the ServiceAccount of the
  runner and its bindings (\<^verbatim>\<open>ensureRunnerAccess\<close>), copies of the Secrets its volumes name (\<^verbatim>\<open>ensureRunnerSecrets\<close>) and the certificate of the agent
  executor (\<^verbatim>\<open>ensureAgentExecutorCA\<close>). With \<open>Runner_Job\<close> these are the operations that \<open>Run_Controller\<close> takes as the parameters
  \<open>rec_buildJob\<close> and \<open>rec_ensure\<dots>\<close> of a reconciler; \<open>wired\<close> puts them in.

  The API server is a \<open>store\<close> for each kind of object: functions on a world \<open>'w\<close>. A Create returns the object as the
  server has it, with its UID. \<^verbatim>\<open>SetControllerReference\<close> succeeds: the scheme has the kinds, and owner and object are in one namespace.
\<close>

subsection \<open>Objects and stores\<close>

record ('w, 'a) store =
  st_get :: "object_key \<Rightarrow> 'w \<Rightarrow> 'a result \<times> 'w"
  st_create :: "'a \<Rightarrow> 'w \<Rightarrow> 'a result \<times> 'w"
  st_update :: "'a \<Rightarrow> 'w \<Rightarrow> goerror option \<times> 'w"
  st_delete :: "string \<Rightarrow> object_key \<Rightarrow> 'w \<Rightarrow> goerror option \<times> 'w"

record RoleRef =
  RoleRef_APIGroup :: string
  RoleRef_Kind :: string
  RoleRef_Name :: string

record Subject =
  Subject_Kind :: string
  Subject_Name :: string
  Subject_Namespace :: string

text \<open>A RoleBinding or, without a namespace, a ClusterRoleBinding.\<close>

record RoleBinding =
  RoleBinding_Meta :: ObjectMeta
  RoleBinding_RoleRef :: RoleRef
  RoleBinding_Subjects :: "Subject list"

record StoredSecret =
  StoredSecret_Meta :: ObjectMeta
  StoredSecret_Secret :: Secret

record TextConfigMap =
  TextConfigMap_Meta :: ObjectMeta
  TextConfigMap_Data :: "(string \<times> string) list"

record 'w access =
  acc_config :: RunnerConfig
  acc_ControllerNamespace :: string
  acc_cluster :: "'w \<Rightarrow> secret_cluster"
  acc_goQuote :: "string \<Rightarrow> string"
  acc_serviceAccounts :: "('w, ObjectMeta) store"
  acc_clusterRoleBindings :: "('w, RoleBinding) store"
  acc_roleBindings :: "('w, RoleBinding) store"
  acc_secrets :: "('w, StoredSecret) store"
  acc_configMaps :: "('w, TextConfigMap) store"

definition ottoflowPartOf :: string where
  "ottoflowPartOf = ''ottoflow''"

definition partOfLabel :: string where
  "partOfLabel = ''app.kubernetes.io/part-of''"

definition managed :: "ObjectMeta \<Rightarrow> bool" where
  "managed m \<longleftrightarrow> get_or [] (ObjectMeta_Labels m) partOfLabel = ottoflowPartOf"

definition managed_meta :: "string \<Rightarrow> string \<Rightarrow> ObjectMeta" where
  "managed_meta ns name = zero_ObjectMeta\<lparr>ObjectMeta_Name := name, ObjectMeta_Namespace := ns,
     ObjectMeta_Labels := [(partOfLabel, ottoflowPartOf)]\<rparr>"

text \<open>The idiom \<^verbatim>\<open>if err := ...; err != nil { return err }\<close>.\<close>

definition and_then :: "('w \<Rightarrow> goerror option \<times> 'w) \<Rightarrow> ('w \<Rightarrow> goerror option \<times> 'w) \<Rightarrow> 'w \<Rightarrow> goerror option \<times> 'w" where
  "and_then f g w = (case f w of (Some e, w1) \<Rightarrow> (Some e, w1) | (None, w1) \<Rightarrow> g w1)"

subsection \<open>The ServiceAccount of the runner and its bindings\<close>

definition binding_name :: "string \<Rightarrow> string \<Rightarrow> string \<Rightarrow> string" where
  "binding_name prefix namespace serviceAccountName =
     trim_suffix (take 253 (replace_byte (CHR ''_'') (CHR ''-'') (to_lower (prefix @ namespace @ ''-'' @ serviceAccountName)))) ''-''"

definition workflowRunnerRoleBindingName :: "string \<Rightarrow> string \<Rightarrow> string" where
  "workflowRunnerRoleBindingName = binding_name ''ottoflow-runner-''"

definition agentExecutorCallerRoleBindingName :: "string \<Rightarrow> string \<Rightarrow> string" where
  "agentExecutorCallerRoleBindingName = binding_name ''ottoflow-agent-executor-caller-''"

definition cluster_role :: "string \<Rightarrow> RoleRef" where
  "cluster_role roleName = \<lparr>RoleRef_APIGroup = ''rbac.authorization.k8s.io'', RoleRef_Kind = ''ClusterRole'', RoleRef_Name = roleName\<rparr>"

definition sa_subject :: "string \<Rightarrow> string \<Rightarrow> Subject" where
  "sa_subject saName saNamespace = \<lparr>Subject_Kind = ''ServiceAccount'', Subject_Name = saName, Subject_Namespace = saNamespace\<rparr>"

definition buildRunnerClusterRoleBinding :: "string \<Rightarrow> string \<Rightarrow> string \<Rightarrow> string \<Rightarrow> RoleBinding" where
  "buildRunnerClusterRoleBinding name roleName saName saNamespace =
     \<lparr>RoleBinding_Meta = managed_meta [] name, RoleBinding_RoleRef = cluster_role roleName,
      RoleBinding_Subjects = [sa_subject saName saNamespace]\<rparr>"

definition classifyRunnerAccessErr :: "goerror option \<Rightarrow> string \<Rightarrow> object_key \<Rightarrow> goerror option" where
  "classifyRunnerAccessErr err kind key =
     (case err of None \<Rightarrow> None
      | Some e \<Rightarrow>
          (let what = kind @ '' '' @ (if fst key = [] then snd key else key_string key) in
           if errors_is e ApiForbidden \<or> errors_is e ApiInvalid
           then Some (wrapf (''cannot reconcile runner '' @ what @ '': '') e)
           else Some (GoError (ErrRequeueRunnerAccess # err_tags e) (''runner access not ready: runner '' @ what @ '': '' @ err_msg e))))"

definition errRequeueRunnerAccess :: goerror where
  "errRequeueRunnerAccess = GoError [ErrRequeueRunnerAccess] ''runner access not ready''"

definition error_of :: "'a result \<Rightarrow> goerror option" where
  "error_of r = (case r of Inl e \<Rightarrow> Some e | Inr x \<Rightarrow> None)"

definition IgnoreAlreadyExists :: "goerror option \<Rightarrow> goerror option" where
  "IgnoreAlreadyExists err = (case err of None \<Rightarrow> None | Some e \<Rightarrow> if errors_is e ApiAlreadyExists then None else Some e)"

text \<open>The ServiceAccount, and its UID: the empty string when another client created it.\<close>

definition ensure_service_account ::
  "'w access \<Rightarrow> WorkflowRun \<Rightarrow> Workflow \<Rightarrow> string \<Rightarrow> 'w \<Rightarrow> string result \<times> 'w" where
  "ensure_service_account acc run workflow serviceAccountName w =
     (let key = (WorkflowRun_Namespace run, serviceAccountName);
          fails = (\<lambda>e. Inl (the (classifyRunnerAccessErr (Some e) ''ServiceAccount'' key)));
          fresh = managed_meta (WorkflowRun_Namespace run) serviceAccountName;
          owned = (if cfg_RunnerServiceAccount (acc_config acc) = [] \<and> Workflow_Namespace workflow = WorkflowRun_Namespace run
                   then fresh\<lparr>ObjectMeta_OwnerReferences := [(workflow_owner workflow)\<lparr>OwnerReference_BlockOwnerDeletion := True\<rparr>]\<rparr>
                   else fresh) in
      case st_get (acc_serviceAccounts acc) key w of
        (Inr sa, w1) \<Rightarrow> (Inr (ObjectMeta_UID sa), w1)
      | (Inl e, w1) \<Rightarrow>
          if \<not> not_found e then (fails e, w1)
          else (case st_create (acc_serviceAccounts acc) owned w1 of
                  (Inr sa, w2) \<Rightarrow> (Inr (ObjectMeta_UID sa), w2)
                | (Inl e, w2) \<Rightarrow> if errors_is e ApiAlreadyExists then (Inr [], w2) else (fails e, w2)))"

definition unmanaged_error :: "string \<Rightarrow> goerror" where
  "unmanaged_error what = errorf (what @ '' exists but is not managed by OttoFlow (missing label app.kubernetes.io/part-of=ottoflow); refusing to update'')"

definition cannot_bind :: "string \<Rightarrow> string \<Rightarrow> goerror \<Rightarrow> goerror" where
  "cannot_bind name roleName e = wrapf (''cannot bind ClusterRoleBinding '' @ name @ '' to role '' @ roleName @
     '' (verify the controller holds '' @ [CHR 0x27] @ ''bind'' @ [CHR 0x27] @ '' on that role and the role is valid): '') e"

text \<open>The binding has another role: delete it and create it anew.\<close>

definition migrate_binding ::
  "'w access \<Rightarrow> string \<Rightarrow> string \<Rightarrow> string \<Rightarrow> string \<Rightarrow> RoleBinding \<Rightarrow> 'w \<Rightarrow> goerror option \<times> 'w" where
  "migrate_binding acc name roleName saName saNamespace old w =
     (let key = ([], name); classify = (\<lambda>e. classifyRunnerAccessErr (Some e) ''ClusterRoleBinding'' key); st = acc_clusterRoleBindings acc in
      case st_delete st (ObjectMeta_UID (RoleBinding_Meta old)) key w of (d, w1) \<Rightarrow>
      case IgnoreNotFound d of Some e \<Rightarrow> (classify e, w1)
      | None \<Rightarrow>
         (case st_create st (buildRunnerClusterRoleBinding name roleName saName saNamespace) w1 of
            (Inr b, w2) \<Rightarrow> (None, w2)
          | (Inl e, w2) \<Rightarrow>
              if errors_is e ApiAlreadyExists
              then (case st_get st key w2 of
                      (Inl getErr, w3) \<Rightarrow> (if not_found getErr then Some errRequeueRunnerAccess else classify getErr, w3)
                    | (Inr recreated, w3) \<Rightarrow>
                        (if RoleRef_Name (RoleBinding_RoleRef recreated) \<noteq> roleName then Some errRequeueRunnerAccess else None, w3))
              else if errors_is e ApiForbidden \<or> errors_is e ApiInvalid then (Some (cannot_bind name roleName e), w2)
              else (classify e, w2)))"

definition ensure_runner_binding :: "'w access \<Rightarrow> string \<Rightarrow> string \<Rightarrow> 'w \<Rightarrow> goerror option \<times> 'w" where
  "ensure_runner_binding acc namespace serviceAccountName w =
     (let name = workflowRunnerRoleBindingName namespace serviceAccountName; key = ([], name);
          roleName = cfg_RunnerClusterRole (acc_config acc); st = acc_clusterRoleBindings acc;
          classify = (\<lambda>err. classifyRunnerAccessErr err ''ClusterRoleBinding'' key) in
      case st_get st key w of
        (Inl e, w1) \<Rightarrow>
          if \<not> not_found e then (classify (Some e), w1)
          else (case st_create st (buildRunnerClusterRoleBinding name roleName serviceAccountName namespace) w1 of
                  (r, w2) \<Rightarrow> (classify (IgnoreAlreadyExists (error_of r)), w2))
      | (Inr b, w1) \<Rightarrow>
          if \<not> managed (RoleBinding_Meta b) then (Some (unmanaged_error (''ClusterRoleBinding '' @ name)), w1)
          else if RoleRef_Name (RoleBinding_RoleRef b) \<noteq> roleName
          then migrate_binding acc name roleName serviceAccountName namespace b w1
          else if RoleBinding_Subjects b \<noteq> [sa_subject serviceAccountName namespace]
          then (case st_update st (b\<lparr>RoleBinding_Subjects := [sa_subject serviceAccountName namespace]\<rparr>) w1 of (err, w2) \<Rightarrow> (classify err, w2))
          else (None, w1))"

definition ensureAgentExecutorCallerBinding ::
  "'w access \<Rightarrow> string \<Rightarrow> string \<Rightarrow> string \<Rightarrow> 'w \<Rightarrow> goerror option \<times> 'w" where
  "ensureAgentExecutorCallerBinding acc namespace serviceAccountName roleName w =
     (let name = agentExecutorCallerRoleBindingName namespace serviceAccountName; key = ([], name);
          desired = buildRunnerClusterRoleBinding name roleName serviceAccountName namespace; st = acc_clusterRoleBindings acc;
          classify = (\<lambda>err. classifyRunnerAccessErr err ''caller ClusterRoleBinding'' key) in
      case st_get st key w of
        (Inl e, w1) \<Rightarrow>
          if \<not> not_found e then (classify (Some e), w1)
          else (case st_create st desired w1 of (r, w2) \<Rightarrow> (classify (IgnoreAlreadyExists (error_of r)), w2))
      | (Inr b, w1) \<Rightarrow>
          if \<not> managed (RoleBinding_Meta b) then (None, w1)
          else if RoleBinding_RoleRef b \<noteq> RoleBinding_RoleRef desired
          then (case st_delete st (ObjectMeta_UID (RoleBinding_Meta b)) key w1 of (d, w2) \<Rightarrow>
                case IgnoreNotFound d of Some e \<Rightarrow> (classify (Some e), w2)
                | None \<Rightarrow> (case st_create st desired w2 of (r, w3) \<Rightarrow> (classify (error_of r), w3)))
          else if RoleBinding_Subjects b \<noteq> RoleBinding_Subjects desired
          then (case st_update st (b\<lparr>RoleBinding_Subjects := RoleBinding_Subjects desired\<rparr>) w1 of (err, w2) \<Rightarrow> (classify err, w2))
          else (None, w1))"

definition runnerConfigMapWriterBindingName :: "string \<Rightarrow> string" where
  "runnerConfigMapWriterBindingName serviceAccountName = ''ottoflow-runner-configmap-writer-'' @ serviceAccountName"

definition writer_binding :: "RunnerConfig \<Rightarrow> string \<Rightarrow> string \<Rightarrow> string \<Rightarrow> RoleBinding" where
  "writer_binding cfg namespace serviceAccountName saUID =
     \<lparr>RoleBinding_Meta = (managed_meta namespace (runnerConfigMapWriterBindingName serviceAccountName))\<lparr>ObjectMeta_OwnerReferences :=
        [\<lparr>OwnerReference_APIVersion = ''v1'', OwnerReference_Kind = ''ServiceAccount'', OwnerReference_Name = serviceAccountName,
          OwnerReference_UID = saUID, OwnerReference_Controller = False, OwnerReference_BlockOwnerDeletion = False\<rparr>]\<rparr>,
      RoleBinding_RoleRef = cluster_role (cfg_RunnerConfigMapWriterRole cfg), RoleBinding_Subjects = [sa_subject serviceAccountName namespace]\<rparr>"

definition create_writer_binding :: "'w access \<Rightarrow> string \<Rightarrow> string \<Rightarrow> string \<Rightarrow> 'w \<Rightarrow> goerror option \<times> 'w" where
  "create_writer_binding acc namespace serviceAccountName saUID w =
     (let key = (namespace, runnerConfigMapWriterBindingName serviceAccountName); saKey = (namespace, serviceAccountName);
          write = (\<lambda>uid w. case st_create (acc_roleBindings acc) (writer_binding (acc_config acc) namespace serviceAccountName uid) w of
             (r, w') \<Rightarrow> (classifyRunnerAccessErr (error_of r) ''ConfigMap writer RoleBinding'' key, w')) in
      if saUID \<noteq> [] then write saUID w
      else (case st_get (acc_serviceAccounts acc) saKey w of
              (Inl e, w1) \<Rightarrow> (classifyRunnerAccessErr (Some e) ''ServiceAccount'' saKey, w1)
            | (Inr sa, w1) \<Rightarrow> write (ObjectMeta_UID sa) w1))"

definition ensureRunnerConfigMapWriter :: "'w access \<Rightarrow> string \<Rightarrow> string \<Rightarrow> string \<Rightarrow> 'w \<Rightarrow> goerror option \<times> 'w" where
  "ensureRunnerConfigMapWriter acc namespace serviceAccountName saUID w =
     (let roleName = cfg_RunnerConfigMapWriterRole (acc_config acc);
          key = (namespace, runnerConfigMapWriterBindingName serviceAccountName); st = acc_roleBindings acc;
          subjects = [sa_subject serviceAccountName namespace];
          classify = (\<lambda>err. classifyRunnerAccessErr err ''ConfigMap writer RoleBinding'' key) in
      if roleName = [] then (None, w)
      else (case st_get st key w of
        (Inl e, w1) \<Rightarrow>
          if not_found e then create_writer_binding acc namespace serviceAccountName saUID w1 else (classify (Some e), w1)
      | (Inr b, w1) \<Rightarrow>
          if \<not> managed (RoleBinding_Meta b) then (Some (unmanaged_error (''RoleBinding '' @ key_string key)), w1)
          else if ObjectMeta_DeletionTimestamp (RoleBinding_Meta b) \<noteq> None then (Some errRequeueRunnerAccess, w1)
          else if RoleBinding_RoleRef b = cluster_role roleName \<and>
                  (saUID = [] \<or> list_ex (\<lambda>r. OwnerReference_UID r = saUID) (ObjectMeta_OwnerReferences (RoleBinding_Meta b)))
          then (if RoleBinding_Subjects b = subjects then (None, w1)
                else (case st_update st (b\<lparr>RoleBinding_Subjects := subjects\<rparr>) w1 of (err, w2) \<Rightarrow> (classify err, w2)))
          else (case st_delete st (ObjectMeta_UID (RoleBinding_Meta b)) key w1 of (d, w2) \<Rightarrow>
                case IgnoreNotFound d of Some e \<Rightarrow> (classify (Some e), w2)
                | None \<Rightarrow> create_writer_binding acc namespace serviceAccountName saUID w2)))"

definition ensureRunnerAccess ::
  "'w access \<Rightarrow> WorkflowRun \<Rightarrow> Workflow \<Rightarrow> string \<Rightarrow> bool \<Rightarrow> 'w \<Rightarrow> goerror option \<times> 'w" where
  "ensureRunnerAccess acc run workflow serviceAccountName explicitServiceAccount w =
     (let cfg = acc_config acc; ns = WorkflowRun_Namespace run in
      if explicitServiceAccount \<or> serviceAccountName = [] then (None, w)
      else if cfg_RunnerClusterRole cfg = []
      then (Some (errorf ''runner ClusterRole name is empty; set --workflow-runner-cluster-role''), w)
      else (case ensure_service_account acc run workflow serviceAccountName w of
              (Inl e, w1) \<Rightarrow> (Some e, w1)
            | (Inr saUID, w1) \<Rightarrow>
                and_then (ensure_runner_binding acc ns serviceAccountName)
                 (and_then (\<lambda>w. if cfg_AgentExecutorCallerRole cfg = [] then (None, w)
                               else ensureAgentExecutorCallerBinding acc ns serviceAccountName (cfg_AgentExecutorCallerRole cfg) w)
                           (ensureRunnerConfigMapWriter acc ns serviceAccountName saUID)) w1))"

subsection \<open>Copies of Secrets\<close>

definition defaultAgentExecutorNamespace :: string where
  "defaultAgentExecutorNamespace = ''ottoflow''"

definition executor_namespace :: "RunnerConfig \<Rightarrow> string" where
  "executor_namespace cfg = or_ns (cfg_AgentExecutorNamespace cfg) defaultAgentExecutorNamespace"

definition SecretTypeTLS :: string where
  "SecretTypeTLS = ''kubernetes.io/tls''"

definition run_owner :: "WorkflowRun \<Rightarrow> OwnerReference" where
  "run_owner run = \<lparr>OwnerReference_APIVersion = ''ottoflow.nirmata.io/v1alpha1'', OwnerReference_Kind = ''WorkflowRun'',
     OwnerReference_Name = WorkflowRun_Name run, OwnerReference_UID = WorkflowRun_UID run,
     OwnerReference_Controller = True, OwnerReference_BlockOwnerDeletion = True\<rparr>"

definition secret_copy :: "WorkflowRun \<Rightarrow> string \<Rightarrow> Secret \<Rightarrow> StoredSecret" where
  "secret_copy run secretName source =
     \<lparr>StoredSecret_Meta = (managed_meta (WorkflowRun_Namespace run) secretName)\<lparr>ObjectMeta_OwnerReferences := [run_owner run]\<rparr>,
      StoredSecret_Secret = source\<rparr>"

definition no_source_error :: "string \<Rightarrow> string \<Rightarrow> string \<Rightarrow> goerror" where
  "no_source_error secretName runnerNamespace sourceNamespace =
     errorf (''secret '' @ quote secretName @ '' not found in runner namespace '' @ quote runnerNamespace @ '' or source namespace '' @ quote sourceNamespace)"

definition fenced_error :: "string \<Rightarrow> string \<Rightarrow> string \<Rightarrow> goerror" where
  "fenced_error secretName sourceNamespace runnerNamespace =
     errorf (''secret '' @ quote secretName @ '' in namespace '' @ quote sourceNamespace @ '' is of type kubernetes.io/tls and is not copied out of OttoFlow'' @
       [CHR 0x27] @ ''s own namespaces; create it in namespace '' @ quote runnerNamespace @ '', then re-run'')"

definition fence_tls :: "'w access \<Rightarrow> string \<Rightarrow> bool" where
  "fence_tls acc sourceNamespace \<longleftrightarrow>
     sourceNamespace = acc_ControllerNamespace acc \<or> sourceNamespace = executor_namespace (acc_config acc)"

definition copy_secret :: "'w access \<Rightarrow> WorkflowRun \<Rightarrow> string \<Rightarrow> string \<Rightarrow> 'w \<Rightarrow> goerror option \<times> 'w" where
  "copy_secret acc run sourceNamespace secretName w =
     (let runnerNamespace = WorkflowRun_Namespace run; runnerKey = (runnerNamespace, secretName); sourceKey = (sourceNamespace, secretName);
          st = acc_secrets acc;
          denied = (\<lambda>key e w. Some (forbiddenSecretRoleError (acc_goQuote acc) (acc_ControllerNamespace acc) (acc_cluster acc w) key runnerNamespace e)) in
      case st_get st runnerKey w of
        (Inr existing, w1) \<Rightarrow> (None, w1)
      | (Inl e, w1) \<Rightarrow>
          if errors_is e ApiForbidden then (denied runnerKey e w1, w1)
          else if \<not> not_found e
          then (Some (transientUnless (errors_is e ApiInvalid) (wrapf (''get secret '' @ key_string runnerKey @ '' in runner namespace: '') e)), w1)
          else (case st_get st sourceKey w1 of
            (Inl e, w2) \<Rightarrow>
              if not_found e then (Some (no_source_error secretName runnerNamespace sourceNamespace), w2)
              else if errors_is e ApiForbidden then (denied sourceKey e w2, w2)
              else (Some (transientUnless (errors_is e ApiInvalid) (wrapf (''get secret '' @ key_string sourceKey @ '' from source namespace: '') e)), w2)
          | (Inr source, w2) \<Rightarrow>
              if fence_tls acc sourceNamespace \<and> Secret_Type (StoredSecret_Secret source) = SecretTypeTLS
              then (Some (fenced_error secretName sourceNamespace runnerNamespace), w2)
              else (case st_create st (secret_copy run secretName (StoredSecret_Secret source)) w2 of
                      (Inr s, w3) \<Rightarrow> (None, w3)
                    | (Inl e, w3) \<Rightarrow>
                        if errors_is e ApiAlreadyExists then (None, w3)
                        else if errors_is e ApiForbidden then (Some (forbiddenSecretCopyError sourceKey runnerKey e), w3)
                        else (Some (transientUnless (errors_is e ApiInvalid \<or> errors_is e ApiBadRequest)
                               (wrapf (''create secret '' @ key_string runnerKey @ '' in runner namespace: '') e)), w3))))"

text \<open>The Secret of a volume that is copied when it is missing.\<close>

definition copied_name :: "Volume \<Rightarrow> string option" where
  "copied_name v = (case Volume_Secret v of None \<Rightarrow> None
     | Some s \<Rightarrow> if has_prefix (Volume_Name v) generatedSecretVolumePrefix \<or> SecretVolumeSource_SecretName s = [] then None
                 else Some (SecretVolumeSource_SecretName s))"

fun copy_volumes :: "'w access \<Rightarrow> WorkflowRun \<Rightarrow> string \<Rightarrow> Volume list \<Rightarrow> 'w \<Rightarrow> goerror option \<times> 'w" where
  "copy_volumes acc run sourceNamespace [] w = (None, w)"
| "copy_volumes acc run sourceNamespace (v # vs) w =
     (case copied_name v of
        None \<Rightarrow> copy_volumes acc run sourceNamespace vs w
      | Some name \<Rightarrow> and_then (copy_secret acc run sourceNamespace name) (copy_volumes acc run sourceNamespace vs) w)"

definition ensureRunnerSecrets :: "'w access \<Rightarrow> WorkflowRun \<Rightarrow> Job \<Rightarrow> string \<Rightarrow> 'w \<Rightarrow> goerror option \<times> 'w" where
  "ensureRunnerSecrets acc run job sourceNamespace =
     copy_volumes acc run (or_ns sourceNamespace (WorkflowRun_Namespace run)) (Job_Volumes job)"

subsection \<open>The certificate of the agent executor\<close>

definition agentExecutorCAConfigMapName :: "Job \<Rightarrow> string" where
  "agentExecutorCAConfigMapName job =
     (case List.map_filter (\<lambda>v. if Volume_Name v = agentExecutorCAVolumeName then map_option ConfigMapVolumeSource_Name (Volume_ConfigMap v) else None)
             (Job_Volumes job) of [] \<Rightarrow> [] | name # _ \<Rightarrow> name)"

definition TLSCertKey :: string where
  "TLSCertKey = ''tls.crt''"

definition transient_build :: "string \<Rightarrow> goerror \<Rightarrow> goerror" where
  "transient_build what e = GoError (ErrTransientBuild # err_tags e) (what @ '': '' @ err_msg e)"

definition ca_forbidden :: "object_key \<Rightarrow> goerror \<Rightarrow> goerror" where
  "ca_forbidden caKey e =
     GoError (err_tags e @ [ErrSecretAccessDenied]) (''reading the agent-executor CA Secret '' @ key_string caKey @ '' is Forbidden: the chart'' @ [CHR 0x27] @
       ''s certmanager Role grants the controller ServiceAccount get on this name in the install namespace, so check that the Role and its RoleBinding exist in namespace '' @
       quote (fst caKey) @ '' and that --agent-executor-namespace names the namespace the certificate manager writes to (underlying error: '' @ err_msg e @
       ''): secret access denied'')"

definition ca_missing :: "object_key \<Rightarrow> goerror \<Rightarrow> goerror" where
  "ca_missing caKey e =
     wrapf (''agent-executor CA Secret '' @ key_string caKey @ '' not found: the controller'' @ [CHR 0x27] @
       ''s certificate manager creates it at startup in the namespace given by --agent-executor-namespace; if it was deleted, restart the controller to recreate it: '') e"

definition ca_empty :: "object_key \<Rightarrow> goerror" where
  "ca_empty caKey =
     errorf (''agent-executor CA Secret '' @ key_string caKey @ '' has no '' @ TLSCertKey @ '': the controller'' @ [CHR 0x27] @
       ''s certificate manager fills it at startup; restart the controller to have it filled'')"

definition ca_create_forbidden :: "object_key \<Rightarrow> goerror \<Rightarrow> goerror" where
  "ca_create_forbidden cmKey e =
     wrapf (''creating ConfigMap '' @ key_string cmKey @ '' is Forbidden: the controller publishes the agent-executor CA certificate as this ConfigMap in every '' @
       ''namespace that runs a workflow with an agent step and needs create, get and update on configmaps there (the chart'' @ [CHR 0x27] @
       ''s controller ClusterRole grants them by default): '') e"

definition ca_update_forbidden :: "object_key \<Rightarrow> goerror \<Rightarrow> goerror" where
  "ca_update_forbidden cmKey e =
     wrapf (''updating ConfigMap '' @ key_string cmKey @ '' with the current agent-executor CA certificate is Forbidden: the controller needs update on '' @
       ''configmaps in this namespace (the chart'' @ [CHR 0x27] @ ''s controller ClusterRole grants it by default): '') e"

definition ca_unmanaged :: "object_key \<Rightarrow> goerror" where
  "ca_unmanaged cmKey =
     errorf (''ConfigMap '' @ key_string cmKey @ '' already exists but is not managed by OttoFlow (no '' @ partOfLabel @ ''='' @ ottoflowPartOf @
       '' label), so it is neither trusted as the agent-executor CA nor overwritten; rename or delete it so the controller can publish the CA certificate under this name'')"

text \<open>The ConfigMap exists: it must be managed, and hold the current certificate.\<close>

definition refresh_ca :: "'w access \<Rightarrow> object_key \<Rightarrow> string \<Rightarrow> TextConfigMap \<Rightarrow> 'w \<Rightarrow> goerror option \<times> 'w" where
  "refresh_ca acc cmKey crt existing w =
     (if \<not> managed (TextConfigMap_Meta existing) then (Some (ca_unmanaged cmKey), w)
      else if get_or [] (TextConfigMap_Data existing) agentExecutorCAKey = crt then (None, w)
      else (case st_update (acc_configMaps acc) (existing\<lparr>TextConfigMap_Data := [(agentExecutorCAKey, crt)]\<rparr>) w of
              (None, w1) \<Rightarrow> (None, w1)
            | (Some e, w1) \<Rightarrow>
                (Some (if errors_is e ApiForbidden then ca_update_forbidden cmKey e
                       else transient_build (''update ConfigMap '' @ key_string cmKey) e), w1)))"

definition publish_ca :: "'w access \<Rightarrow> object_key \<Rightarrow> string \<Rightarrow> 'w \<Rightarrow> goerror option \<times> 'w" where
  "publish_ca acc cmKey crt w =
     (let st = acc_configMaps acc in
      case st_get st cmKey w of
        (Inr existing, w1) \<Rightarrow> refresh_ca acc cmKey crt existing w1
      | (Inl e, w1) \<Rightarrow>
          if \<not> not_found e then (Some (transient_build (''get ConfigMap '' @ key_string cmKey) e), w1)
          else (case st_create st \<lparr>TextConfigMap_Meta = managed_meta (fst cmKey) (snd cmKey), TextConfigMap_Data = [(agentExecutorCAKey, crt)]\<rparr> w1 of
                  (Inr cm, w2) \<Rightarrow> (None, w2)
                | (Inl e, w2) \<Rightarrow>
                    if errors_is e ApiForbidden then (Some (ca_create_forbidden cmKey e), w2)
                    else if errors_is e ApiAlreadyExists
                    then (case st_get st cmKey w2 of
                            (Inl e, w3) \<Rightarrow> (Some (transient_build (''get ConfigMap '' @ key_string cmKey @ '' after AlreadyExists'') e), w3)
                          | (Inr existing, w3) \<Rightarrow> refresh_ca acc cmKey crt existing w3)
                    else (Some (transient_build (''create ConfigMap '' @ key_string cmKey) e), w2)))"

definition ensureAgentExecutorCA :: "'w access \<Rightarrow> WorkflowRun \<Rightarrow> Job \<Rightarrow> 'w \<Rightarrow> goerror option \<times> 'w" where
  "ensureAgentExecutorCA acc run job w =
     (let name = agentExecutorCAConfigMapName job; caKey = (executor_namespace (acc_config acc), name) in
      if name = [] then (None, w)
      else (case st_get (acc_secrets acc) caKey w of
              (Inl e, w1) \<Rightarrow>
                (Some (if errors_is e ApiForbidden then ca_forbidden caKey e
                       else if not_found e then ca_missing caKey e
                       else transient_build (''get agent-executor CA Secret '' @ key_string caKey) e), w1)
            | (Inr caSecret, w1) \<Rightarrow>
                (let crt = get_or [] (Secret_Data (StoredSecret_Secret caSecret)) TLSCertKey in
                 if crt = [] then (Some (ca_empty caKey), w1)
                 else publish_ca acc (WorkflowRun_Namespace run, name) crt w1)))"

subsection \<open>The reconciler\<close>

definition Job_of :: "RunnerJob \<Rightarrow> Job" where
  "Job_of rj = \<lparr>Job_Namespace = rj_Namespace rj, Job_Name = rj_Name rj, Job_Annotations = rj_Annotations rj,
     Job_ServiceAccountName = rj_ServiceAccountName rj, Job_Volumes = rj_Volumes rj, Job_Conditions = [],
     Job_Active = 0, Job_Succeeded = 0, Job_Failed = 0, Job_DeletionTimestamp = None\<rparr>"

text \<open>
  \<open>envOf\<close> is the environment in which the Job is built, with the cluster as it is in the world, \<open>readerOf\<close> the objects the walks
  read. The events of the build are emitted one after another.
\<close>

definition emit_all :: "'w kube \<Rightarrow> WorkflowRun \<Rightarrow> run_event list \<Rightarrow> 'w \<Rightarrow> 'w" where
  "emit_all kube run evs w = fold (\<lambda>(t, reason, action, note). emit kube run t reason note) evs w"

definition wired :: "'w access \<Rightarrow> ('w \<Rightarrow> job_env) \<Rightarrow> ('w \<Rightarrow> cluster_reader) \<Rightarrow> 'w reconciler \<Rightarrow> 'w reconciler" where
  "wired acc envOf readerOf rec = rec\<lparr>
     rec_buildJob := (\<lambda>run workflow w. case buildWorkflowRunnerJob (envOf w) (readerOf w) run workflow of
        (Inl e, evs) \<Rightarrow> (Inl e, emit_all (rec_kube rec) run evs w)
      | (Inr rj, evs) \<Rightarrow> (Inr (Job_of rj), emit_all (rec_kube rec) run evs w)),
     rec_ensureRunnerAccess := ensureRunnerAccess acc, rec_ensureRunnerSecrets := ensureRunnerSecrets acc,
     rec_ensureAgentExecutorCA := ensureAgentExecutorCA acc,
     rec_ensureConfigMapWriter := (\<lambda>ns sa. ensureRunnerConfigMapWriter acc ns sa [])\<rparr>"

end
