(* ===== verification/Access_Properties.thy ===== *)
theory Access_Properties
  imports Runner_Access
begin

text \<open>
  What the preparation of a runner does to the cluster: it leaves the stored runs alone (\<open>wired_prepares\<close>), so that what is proved of the
  reconciler holds with it, publishes no more of the agent executor's key pair than the certificate, and copies only Secrets
  that the Job names, none of them a TLS key of OttoFlow's own.
\<close>

subsection \<open>The laws of a store\<close>

text \<open>A part of the world that the calls of a store leave alone.\<close>

definition keeps :: "('w \<Rightarrow> 'v) \<Rightarrow> ('w, 'a) store \<Rightarrow> bool" where
  "keeps view st \<longleftrightarrow> (\<forall>k w. view (snd (st_get st k w)) = view w) \<and> (\<forall>x w. view (snd (st_create st x w)) = view w) \<and>
     (\<forall>x w. view (snd (st_update st x w)) = view w) \<and> (\<forall>uid k w. view (snd (st_delete st uid k w)) = view w)"

lemma keepsD:
  assumes "keeps view st"
  shows "st_get st k w = (r, w') \<Longrightarrow> view w' = view w" "st_create st x w = (r, w') \<Longrightarrow> view w' = view w"
    "st_update st x w = (e, w') \<Longrightarrow> view w' = view w" "st_delete st uid k w = (e, w') \<Longrightarrow> view w' = view w"
  using assms unfolding keeps_def by (metis snd_conv)+

text \<open>
  The objects of a kind on the server. A read returns what is stored; a write that fails may have been applied all the same (a timeout), but not a Create that
  found the object there.
\<close>

definition create_law :: "('a \<Rightarrow> object_key) \<Rightarrow> ('w \<Rightarrow> object_key \<Rightarrow> 'a option) \<Rightarrow> ('w, 'a) store \<Rightarrow> bool" where
  "create_law key content st \<longleftrightarrow> (\<forall>x w r w'. st_create st x w = (r, w') \<longrightarrow>
     (let new = (content w (key x) = None \<and> content w' = (content w)(key x \<mapsto> x)) in
      case r of Inr y \<Rightarrow> new
      | Inl e \<Rightarrow> if errors_is e ApiAlreadyExists then content w' = content w \<and> content w (key x) \<noteq> None else content w' = content w \<or> new))"

definition update_law :: "('a \<Rightarrow> object_key) \<Rightarrow> ('w \<Rightarrow> object_key \<Rightarrow> 'a option) \<Rightarrow> ('w, 'a) store \<Rightarrow> bool" where
  "update_law key content st \<longleftrightarrow> (\<forall>x w r w'. st_update st x w = (r, w') \<longrightarrow>
     (let new = (content w (key x) \<noteq> None \<and> content w' = (content w)(key x \<mapsto> x)) in
      case r of None \<Rightarrow> new | Some e \<Rightarrow> content w' = content w \<or> new))"

definition get_law :: "('w \<Rightarrow> object_key \<Rightarrow> 'a option) \<Rightarrow> ('w, 'a) store \<Rightarrow> bool" where
  "get_law content st \<longleftrightarrow> (\<forall>k w r w'. st_get st k w = (r, w') \<longrightarrow> content w' = content w \<and>
     (case r of Inr x \<Rightarrow> content w k = Some x | Inl e \<Rightarrow> not_found e \<longrightarrow> content w k = None))"

definition stores :: "('a \<Rightarrow> object_key) \<Rightarrow> ('w \<Rightarrow> object_key \<Rightarrow> 'a option) \<Rightarrow> ('w, 'a) store \<Rightarrow> bool" where
  "stores key content st \<longleftrightarrow> get_law content st \<and> create_law key content st \<and> update_law key content st \<and>
     (\<forall>w k x. content w k = Some x \<longrightarrow> key x = k)"

lemma stores_get:
  assumes "stores key content st" "st_get st k w = (r, w')"
  shows "content w' = content w" "r = Inr x \<Longrightarrow> content w k = Some x" "r = Inl e \<Longrightarrow> not_found e \<Longrightarrow> content w k = None"
  using assms unfolding stores_def get_law_def by fastforce+

lemma stores_create:
  assumes "stores key content st" "st_create st x w = (r, w')"
  shows "r = Inr y \<Longrightarrow> content w (key x) = None \<and> content w' = (content w)(key x \<mapsto> x)"
    "r = Inl e \<Longrightarrow> errors_is e ApiAlreadyExists \<Longrightarrow> content w' = content w \<and> content w (key x) \<noteq> None"
    "content w' = content w \<or> content w (key x) = None \<and> content w' = (content w)(key x \<mapsto> x)"
proof -
  have "let new = (content w (key x) = None \<and> content w' = (content w)(key x \<mapsto> x)) in
      case r of Inr y \<Rightarrow> new
      | Inl e \<Rightarrow> if errors_is e ApiAlreadyExists then content w' = content w \<and> content w (key x) \<noteq> None else content w' = content w \<or> new"
    using assms unfolding stores_def create_law_def by blast
  then show "r = Inr y \<Longrightarrow> content w (key x) = None \<and> content w' = (content w)(key x \<mapsto> x)"
    "r = Inl e \<Longrightarrow> errors_is e ApiAlreadyExists \<Longrightarrow> content w' = content w \<and> content w (key x) \<noteq> None"
    "content w' = content w \<or> content w (key x) = None \<and> content w' = (content w)(key x \<mapsto> x)"
    by (auto simp: Let_def split: sum.splits if_splits)
qed

lemma stores_update:
  assumes "stores key content st" "st_update st x w = (r, w')"
  shows "r = None \<Longrightarrow> content w' = (content w)(key x \<mapsto> x)" "content w' = content w \<or> content w' = (content w)(key x \<mapsto> x)"
  using assms unfolding stores_def update_law_def by (fastforce simp: Let_def split: option.splits)+

subsection \<open>The preparation leaves the runs alone\<close>

text \<open>The calls that \<open>access\<close> makes leave a part of the world alone.\<close>

definition access_keeps :: "('w \<Rightarrow> 'v) \<Rightarrow> 'w access \<Rightarrow> bool" where
  "access_keeps view acc \<longleftrightarrow> keeps view (acc_serviceAccounts acc) \<and> keeps view (acc_clusterRoleBindings acc) \<and>
     keeps view (acc_roleBindings acc) \<and> keeps view (acc_secrets acc) \<and> keeps view (acc_configMaps acc)"

text \<open>The result of a call in a world whose view is \<open>v\<close>, and the rules that follow the shape of the code.\<close>

definition kept :: "('w \<Rightarrow> 'v) \<Rightarrow> 'v \<Rightarrow> 'a \<times> 'w \<Rightarrow> bool" where
  "kept view v p \<longleftrightarrow> view (snd p) = v"

lemma kept_pair: "view w = v \<Longrightarrow> kept view v (x, w)"
  by (simp add: kept_def)

lemma kept_case:
  "kept view v p \<Longrightarrow> (\<And>r w. view w = v \<Longrightarrow> kept view v (g r w)) \<Longrightarrow> kept view v (case p of (r, w) \<Rightarrow> g r w)"
  by (cases p) (simp add: kept_def)

lemma kept_sum: "(\<And>e. kept view v (f e)) \<Longrightarrow> (\<And>x. kept view v (g x)) \<Longrightarrow> kept view v (case r of Inl e \<Rightarrow> f e | Inr x \<Rightarrow> g x)"
  by (cases r) simp_all

lemma kept_option: "kept view v f \<Longrightarrow> (\<And>x. kept view v (g x)) \<Longrightarrow> kept view v (case r of None \<Rightarrow> f | Some x \<Rightarrow> g x)"
  by (cases r) simp_all

lemma kept_if: "kept view v p \<Longrightarrow> kept view v q \<Longrightarrow> kept view v (if b then p else q)"
  by simp

lemma kept_and_then:
  "kept view v (f w) \<Longrightarrow> (\<And>w. view w = v \<Longrightarrow> kept view v (g w)) \<Longrightarrow> kept view v (and_then f g w)"
  unfolding and_then_def by (rule kept_case) (auto intro: kept_option kept_pair)

lemma kept_calls:
  assumes "keeps view st" "view w = v"
  shows "kept view v (st_get st k w)" "kept view v (st_create st x w)" "kept view v (st_update st x w)" "kept view v (st_delete st uid k w)"
  using assms unfolding keeps_def kept_def by blast+

lemma access_stores:
  assumes "access_keeps view acc"
  shows "keeps view (acc_serviceAccounts acc)" "keeps view (acc_clusterRoleBindings acc)" "keeps view (acc_roleBindings acc)"
    "keeps view (acc_secrets acc)" "keeps view (acc_configMaps acc)"
  using assms by (simp_all add: access_keeps_def)

lemmas kept_rules = kept_pair kept_case kept_sum kept_option kept_if kept_and_then kept_calls access_stores

lemma kept_service_account:
  "access_keeps view acc \<Longrightarrow> view w = v \<Longrightarrow> kept view v (ensure_service_account acc run workflow sa w)"
  unfolding ensure_service_account_def Let_def by (rule kept_rules | assumption)+

lemma kept_migrate: "access_keeps view acc \<Longrightarrow> view w = v \<Longrightarrow> kept view v (migrate_binding acc name role sa ns b w)"
  unfolding migrate_binding_def Let_def by (rule kept_rules | assumption)+

lemma kept_runner_binding: "access_keeps view acc \<Longrightarrow> view w = v \<Longrightarrow> kept view v (ensure_runner_binding acc ns sa w)"
  unfolding ensure_runner_binding_def Let_def by (rule kept_rules kept_migrate | assumption)+

lemma kept_caller_binding: "access_keeps view acc \<Longrightarrow> view w = v \<Longrightarrow> kept view v (ensureAgentExecutorCallerBinding acc ns sa role w)"
  unfolding ensureAgentExecutorCallerBinding_def Let_def by (rule kept_rules | assumption)+

lemma kept_create_writer: "access_keeps view acc \<Longrightarrow> view w = v \<Longrightarrow> kept view v (create_writer_binding acc ns sa uid w)"
  unfolding create_writer_binding_def Let_def by (rule kept_rules | assumption)+

lemma kept_config_map_writer: "access_keeps view acc \<Longrightarrow> view w = v \<Longrightarrow> kept view v (ensureRunnerConfigMapWriter acc ns sa uid w)"
  unfolding ensureRunnerConfigMapWriter_def Let_def by (rule kept_rules kept_create_writer | assumption)+

lemma kept_runner_access: "access_keeps view acc \<Longrightarrow> view w = v \<Longrightarrow> kept view v (ensureRunnerAccess acc run workflow sa b w)"
  unfolding ensureRunnerAccess_def Let_def
  by (rule kept_rules kept_service_account kept_runner_binding kept_caller_binding kept_config_map_writer | assumption)+

lemma kept_copy_secret: "access_keeps view acc \<Longrightarrow> view w = v \<Longrightarrow> kept view v (copy_secret acc run src name w)"
  unfolding copy_secret_def Let_def by (rule kept_rules | assumption)+

lemma kept_copy_volumes: "access_keeps view acc \<Longrightarrow> view w = v \<Longrightarrow> kept view v (copy_volumes acc run src vs w)"
  by (induction vs arbitrary: w) (simp_all add: kept_pair kept_and_then kept_copy_secret split: option.split)

lemma kept_refresh: "access_keeps view acc \<Longrightarrow> view w = v \<Longrightarrow> kept view v (refresh_ca acc k crt cm w)"
  unfolding refresh_ca_def by (rule kept_rules | assumption)+

lemma kept_publish: "access_keeps view acc \<Longrightarrow> view w = v \<Longrightarrow> kept view v (publish_ca acc k crt w)"
  unfolding publish_ca_def Let_def by (rule kept_rules kept_refresh | assumption)+

lemma kept_ca: "access_keeps view acc \<Longrightarrow> view w = v \<Longrightarrow> kept view v (ensureAgentExecutorCA acc run job w)"
  unfolding ensureAgentExecutorCA_def Let_def by (rule kept_rules kept_publish | assumption)+

lemma emit_all_keeps: "runs_client kube runs \<Longrightarrow> runs (emit_all kube run evs w) = runs w"
  unfolding emit_all_def by (induction evs arbitrary: w) (auto simp: emit_frame)

text \<open>The preparation of the runner satisfies what the reconciler relies on.\<close>

lemma wired_prepares:
  assumes "runs_client (rec_kube rec) runs" "access_keeps runs acc"
  shows "prepares (wired acc envOf readerOf rec) runs"
proof -
  note frame = kept_runner_access kept_copy_volumes kept_ca kept_config_map_writer
  show ?thesis
    unfolding prepares_def reads_def wired_def
    by (simp add: emit_all_keeps [OF assms(1)] frame [OF assms(2) refl, unfolded kept_def] ensureRunnerSecrets_def case_prod_beta split: sum.split)
qed

subsection \<open>The names of the bindings\<close>

text \<open>
  The name of a ClusterRoleBinding joins namespace and ServiceAccount with a hyphen, which both may contain, so the runners of two
  namespaces can share a binding, and each replaces the subject of the other.
\<close>

lemma binding_names_collide: "workflowRunnerRoleBindingName ''a'' ''b-c'' = workflowRunnerRoleBindingName ''a-b'' ''c''"
  by code_simp

subsection \<open>The published certificate\<close>

definition text_key :: "TextConfigMap \<Rightarrow> object_key" where
  "text_key cm = (ObjectMeta_Namespace (TextConfigMap_Meta cm), ObjectMeta_Name (TextConfigMap_Meta cm))"

definition certificate :: "(object_key \<Rightarrow> StoredSecret option) \<Rightarrow> object_key \<Rightarrow> string" where
  "certificate secrets k = (case secrets k of None \<Rightarrow> [] | Some s \<Rightarrow> get_or [] (Secret_Data (StoredSecret_Secret s)) TLSCertKey)"

definition published :: "(object_key \<Rightarrow> TextConfigMap option) \<Rightarrow> object_key \<Rightarrow> string \<Rightarrow> bool" where
  "published cms k crt = (case cms k of None \<Rightarrow> False
     | Some cm \<Rightarrow> managed (TextConfigMap_Meta cm) \<and> get_or [] (TextConfigMap_Data cm) agentExecutorCAKey = crt)"

text \<open>At most the ConfigMap \<open>k\<close> is written: it was absent or managed, is managed, and has the certificate and nothing else.\<close>

definition only_certificate ::
  "(object_key \<Rightarrow> TextConfigMap option) \<Rightarrow> (object_key \<Rightarrow> TextConfigMap option) \<Rightarrow> object_key \<Rightarrow> string \<Rightarrow> bool" where
  "only_certificate cms cms' k crt \<longleftrightarrow> cms' = cms \<or>
     (\<exists>cm. cms' = cms(k \<mapsto> cm) \<and> managed (TextConfigMap_Meta cm) \<and> TextConfigMap_Data cm = [(agentExecutorCAKey, crt)] \<and>
        (cms k = None \<or> managed (TextConfigMap_Meta (the (cms k)))))"

lemma managed_fresh [simp]: "managed (managed_meta ns name)"
  by (simp add: managed_def managed_meta_def get_or_def)

lemma refresh_effect:
  assumes st: "stores text_key cms (acc_configMaps acc)" and cm: "cms w k = Some cm"
    and r: "refresh_ca acc k crt cm w = (r, w')"
  shows "only_certificate (cms w) (cms w') k crt \<and> (r = None \<longrightarrow> published (cms w') k crt)"
proof (cases "managed (TextConfigMap_Meta cm) \<and> get_or [] (TextConfigMap_Data cm) agentExecutorCAKey \<noteq> crt")
  case False
  with r cm show ?thesis
    by (auto simp: refresh_ca_def only_certificate_def published_def split: if_splits)
next
  case True
  let ?cm = "cm\<lparr>TextConfigMap_Data := [(agentExecutorCAKey, crt)]\<rparr>"
  obtain e where u: "st_update (acc_configMaps acc) ?cm w = (e, w')" and n: "r = None \<Longrightarrow> e = None"
    using r True by (auto simp: refresh_ca_def split: prod.splits option.splits)
  have "text_key cm = k" using st cm unfolding stores_def by blast
  then have k: "text_key ?cm = k" by (simp add: text_key_def)
  have "only_certificate (cms w) (cms w') k crt"
    using stores_update(2) [OF st u] True cm unfolding k only_certificate_def by fastforce
  moreover have "published (cms w') k crt" if "r = None"
    using stores_update(1) [OF st u n [OF that]] True unfolding k by (simp add: published_def get_or_def)
  ultimately show ?thesis by blast
qed

lemma publish_effect:
  assumes st: "stores text_key cms (acc_configMaps acc)" and r: "publish_ca acc k crt w = (r, w')"
  shows "only_certificate (cms w) (cms w') k crt \<and> (r = None \<longrightarrow> published (cms w') k crt)"
proof -
  let ?new = "\<lparr>TextConfigMap_Meta = managed_meta (fst k) (snd k), TextConfigMap_Data = [(agentExecutorCAKey, crt)]\<rparr>"
  obtain g w1 where g: "st_get (acc_configMaps acc) k w = (g, w1)" by fastforce
  have w1: "cms w1 = cms w" by (rule stores_get(1) [OF st g])
  have key: "text_key ?new = k" by (simp add: text_key_def managed_meta_def)
  show ?thesis
  proof (cases g)
    case (Inr cm)
    with r g have "refresh_ca acc k crt cm w1 = (r, w')" by (simp add: publish_ca_def)
    from refresh_effect [OF st _ this] stores_get(2) [OF st g Inr] w1 show ?thesis by simp
  next
    case (Inl e)
    show ?thesis
    proof (cases "not_found e")
      case False
      with r g Inl w1 show ?thesis by (auto simp: publish_ca_def only_certificate_def)
    next
      case True
      obtain c w2 where c: "st_create (acc_configMaps acc) ?new w1 = (c, w2)" by fastforce
      note new = stores_create [OF st c, unfolded key w1]
      have only: "only_certificate (cms w) (cms w2) k crt" using new(3) unfolding only_certificate_def by auto
      show ?thesis
      proof (cases c)
        case (Inr y)
        with r g Inl True c have "r = None" "w' = w2" by (auto simp: publish_ca_def)
        with only new(1) [OF Inr] show ?thesis by (simp add: published_def get_or_def)
      next
        case c2: (Inl e2)
        have "cms w k = None" by (rule stores_get(3) [OF st g Inl True])
        with new(2) [OF c2] have "\<not> errors_is e2 ApiAlreadyExists" by auto
        with r g Inl True c c2 have "r \<noteq> None" "w' = w2" by (auto simp: publish_ca_def split: if_splits)
        with only show ?thesis by blast
      qed
    qed
  qed
qed

text \<open>
  C33: Of the key pair of the agent executor only the certificate leaves its namespace. On every path \<^verbatim>\<open>ensureAgentExecutorCA\<close> writes at most the ConfigMap that the Job
  mounts, in the namespace of the run, with the certificate as its only entry, and never over a ConfigMap that OttoFlow does not manage. When it
  succeeds that ConfigMap is there, is managed and holds the current certificate.
\<close>

theorem ensureAgentExecutorCA_publishes:
  assumes cms: "stores text_key cms (acc_configMaps acc)" and secrets: "get_law secrets (acc_secrets acc)" "keeps cms (acc_secrets acc)"
    and "agentExecutorCAConfigMapName job = name" "name \<noteq> []"
    and r: "ensureAgentExecutorCA acc run job w = (r, w')"
  shows "only_certificate (cms w) (cms w') (WorkflowRun_Namespace run, name)
      (certificate (secrets w) (executor_namespace (acc_config acc), name)) \<and>
    (r = None \<longrightarrow> certificate (secrets w) (executor_namespace (acc_config acc), name) \<noteq> [] \<and>
       published (cms w') (WorkflowRun_Namespace run, name) (certificate (secrets w) (executor_namespace (acc_config acc), name)))"
proof -
  let ?ca = "(executor_namespace (acc_config acc), name)"
  obtain g w1 where g: "st_get (acc_secrets acc) ?ca w = (g, w1)" by fastforce
  have w1: "cms w1 = cms w" using keepsD(1) [OF secrets(2) g] .
  show ?thesis
  proof (cases g)
    case (Inl e)
    with r g assms(4,5) have "r \<noteq> None" "w' = w1" by (auto simp: ensureAgentExecutorCA_def Let_def)
    with w1 show ?thesis unfolding only_certificate_def by auto
  next
    case (Inr s)
    with secrets(1) g have "secrets w ?ca = Some s" unfolding get_law_def by fastforce
    then have crt: "certificate (secrets w) ?ca = get_or [] (Secret_Data (StoredSecret_Secret s)) TLSCertKey" by (simp add: certificate_def)
    show ?thesis
    proof (cases "certificate (secrets w) ?ca = []")
      case True
      with r g Inr crt assms(4,5) have "r \<noteq> None" "w' = w1" by (auto simp: ensureAgentExecutorCA_def Let_def)
      with w1 show ?thesis unfolding only_certificate_def by auto
    next
      case False
      with r g Inr crt assms(4,5) have "publish_ca acc (WorkflowRun_Namespace run, name) (certificate (secrets w) ?ca) w1 = (r, w')"
        by (simp add: ensureAgentExecutorCA_def Let_def)
      from publish_effect [OF cms this] w1 False show ?thesis by simp
    qed
  qed
qed

subsection \<open>The copies of Secrets\<close>

definition stored_key :: "StoredSecret \<Rightarrow> object_key" where
  "stored_key s = (ObjectMeta_Namespace (StoredSecret_Meta s), ObjectMeta_Name (StoredSecret_Meta s))"

text \<open>What may have changed at a key: nothing, or a missing Secret named in \<open>names\<close> is now a copy of that in the source namespace, which is not a fenced one.\<close>

definition copied_at ::
  "'w access \<Rightarrow> WorkflowRun \<Rightarrow> string \<Rightarrow> string set \<Rightarrow> (object_key \<Rightarrow> StoredSecret option) \<Rightarrow> (object_key \<Rightarrow> StoredSecret option) \<Rightarrow>
   object_key \<Rightarrow> bool" where
  "copied_at acc run src names m m' k \<longleftrightarrow> m' k = m k \<or>
     (fst k = WorkflowRun_Namespace run \<and> snd k \<in> names \<and> m k = None \<and>
      (\<exists>source. m (src, snd k) = Some source \<and> m' k = Some (secret_copy run (snd k) (StoredSecret_Secret source)) \<and>
         \<not> (fence_tls acc src \<and> Secret_Type (StoredSecret_Secret source) = SecretTypeTLS)))"

lemma copied_at_mono: "copied_at acc run src A m m' k \<Longrightarrow> A \<subseteq> B \<Longrightarrow> copied_at acc run src B m m' k"
  unfolding copied_at_def by blast

lemma copied_at_trans:
  assumes 1: "\<forall>k. copied_at acc run src A m m1 k" and 2: "copied_at acc run src B m1 m2 k"
  shows "copied_at acc run src (A \<union> B) m m2 k"
proof (cases "m2 k = m1 k")
  case True
  from 1 have "copied_at acc run src A m m1 k" by blast
  with True show ?thesis unfolding copied_at_def by auto
next
  case False
  with 2 obtain source where k: "fst k = WorkflowRun_Namespace run" "snd k \<in> B" "m1 k = None" "m1 (src, snd k) = Some source"
    "m2 k = Some (secret_copy run (snd k) (StoredSecret_Secret source))"
    "\<not> (fence_tls acc src \<and> Secret_Type (StoredSecret_Secret source) = SecretTypeTLS)" unfolding copied_at_def by blast
  from 1 have c: "copied_at acc run src A m m1 k" "copied_at acc run src A m m1 (src, snd k)" by blast+
  from c(1) k have "m k = None" unfolding copied_at_def by force
  moreover have "m (src, snd k) = Some source"
  proof (rule ccontr)
    assume "m (src, snd k) \<noteq> Some source"
    with c(2) k(4) have "src = WorkflowRun_Namespace run" unfolding copied_at_def by auto
    with k(1) have "(src, snd k) = k" by (simp add: prod_eq_iff)
    with k show False by simp
  qed
  ultimately show ?thesis using k unfolding copied_at_def by blast
qed

lemma copy_secret_effect:
  assumes st: "stores stored_key secrets (acc_secrets acc)" and r: "copy_secret acc run src name w = (r, w')"
  shows "(\<forall>k. copied_at acc run src {name} (secrets w) (secrets w') k) \<and>
    (r = None \<longrightarrow> secrets w' (WorkflowRun_Namespace run, name) \<noteq> None)"
proof -
  let ?k = "(WorkflowRun_Namespace run, name)"
  obtain g w1 where g: "st_get (acc_secrets acc) ?k w = (g, w1)" by fastforce
  have w1: "secrets w1 = secrets w" by (rule stores_get(1) [OF st g])
  have same: "secrets v = secrets w \<Longrightarrow> copied_at acc run src {name} (secrets w) (secrets v) k" for v k by (simp add: copied_at_def)
  consider y where "g = Inr y" | e where "g = Inl e" "not_found e \<and> \<not> errors_is e ApiForbidden" | e where "g = Inl e" "\<not> (not_found e \<and> \<not> errors_is e ApiForbidden)"
    by (cases g) auto
  then show ?thesis
  proof cases
    case (1 y)
    with r g have "w' = w1" by (simp add: copy_secret_def)
    with w1 same stores_get(2) [OF st g 1] show ?thesis by simp
  next
    case (3 e)
    with r g have "w' = w1" "r \<noteq> None" by (auto simp: copy_secret_def Let_def split: if_splits)
    with w1 same show ?thesis by blast
  next
    case (2 e)
    have none: "secrets w ?k = None" using stores_get(3) [OF st g 2(1)] 2(2) by blast
    obtain s w2 where s: "st_get (acc_secrets acc) (src, name) w1 = (s, w2)" by fastforce
    have w2: "secrets w2 = secrets w" using stores_get(1) [OF st s] w1 by simp
    show ?thesis
    proof (cases "\<exists>source. s = Inr source \<and> \<not> (fence_tls acc src \<and> Secret_Type (StoredSecret_Secret source) = SecretTypeTLS)")
      case False
      with r g 2 s have "w' = w2" "r \<noteq> None" by (auto simp: copy_secret_def Let_def split: if_splits sum.splits)
      with w2 same show ?thesis by blast
    next
      case True
      then obtain source where src: "s = Inr source" "\<not> (fence_tls acc src \<and> Secret_Type (StoredSecret_Secret source) = SecretTypeTLS)" by blast
      let ?new = "secret_copy run name (StoredSecret_Secret source)"
      obtain c w3 where c: "st_create (acc_secrets acc) ?new w2 = (c, w3)" by fastforce
      have key: "stored_key ?new = ?k" by (simp add: stored_key_def secret_copy_def managed_meta_def)
      note new = stores_create [OF st c, unfolded key w2]
      have w': "w' = w3"
        using r g 2 s src c by (auto simp: copy_secret_def Let_def split: if_splits sum.splits)
      have "secrets w (src, name) = Some source" using stores_get(2) [OF st s src(1)] w1 by simp
      with new(3) none src(2) have "copied_at acc run src {name} (secrets w) (secrets w3) k" for k
        unfolding copied_at_def by (cases "k = ?k") auto
      moreover have "secrets w3 ?k \<noteq> None" if "r = None" using r g 2 s src c that new none
        by (auto simp: copy_secret_def Let_def split: if_splits sum.splits)
      ultimately show ?thesis unfolding w' by blast
    qed
  qed
qed

lemma copy_volumes_effect:
  assumes st: "stores stored_key secrets (acc_secrets acc)"
  shows "copy_volumes acc run src vs w = (r, w') \<Longrightarrow>
    (\<forall>k. copied_at acc run src (set (List.map_filter copied_name vs)) (secrets w) (secrets w') k) \<and>
    (r = None \<longrightarrow> (\<forall>name \<in> set (List.map_filter copied_name vs). secrets w' (WorkflowRun_Namespace run, name) \<noteq> None))"
proof (induction vs arbitrary: w)
  case Nil
  then show ?case by (simp add: copied_at_def map_filter_simps)
next
  case (Cons v vs)
  show ?case
  proof (cases "copied_name v")
    case None
    then have N: "List.map_filter copied_name (v # vs) = List.map_filter copied_name vs"
      and "copy_volumes acc run src (v # vs) w = copy_volumes acc run src vs w" by (simp_all add: map_filter_simps)
    with Cons.prems have "copy_volumes acc run src vs w = (r, w')" by simp
    then show ?thesis unfolding N by (rule Cons.IH)
  next
    case (Some name)
    let ?N = "set (List.map_filter copied_name vs)"
    have N: "set (List.map_filter copied_name (v # vs)) = {name} \<union> ?N" using Some by (simp add: map_filter_simps)
    obtain e w1 where c: "copy_secret acc run src name w = (e, w1)" by fastforce
    note one = copy_secret_effect [OF st c]
    show ?thesis
    proof (cases e)
      case e: (Some x)
      with Cons.prems Some c have "r = Some x" "w' = w1" by (simp_all add: and_then_def)
      with one show ?thesis unfolding N by (auto intro: copied_at_mono)
    next
      case e: None
      with Cons.prems Some c have "copy_volumes acc run src vs w1 = (r, w')" by (simp add: and_then_def)
      note rest = Cons.IH [OF this]
      have trans: "\<forall>k. copied_at acc run src ({name} \<union> ?N) (secrets w) (secrets w') k"
        using one rest copied_at_trans by blast
      have stays: "secrets w' (WorkflowRun_Namespace run, name) \<noteq> None"
        using one rest e unfolding copied_at_def by (metis option.distinct(1))
      with trans rest show ?thesis unfolding N by blast
    qed
  qed
qed


subsection \<open>A server\<close>

text \<open>A server that keeps objects in a map and never fails. Objects that are not stored under their own key are not there.\<close>

definition no_object :: goerror where
  "no_object = GoError [ApiNotFound] ''not found''"

definition there_already :: goerror where
  "there_already = GoError [ApiAlreadyExists] ''already exists''"

definition keyed :: "('a \<Rightarrow> object_key) \<Rightarrow> (object_key \<Rightarrow> 'a option) \<Rightarrow> object_key \<Rightarrow> 'a option" where
  "keyed key m k = (case m k of None \<Rightarrow> None | Some x \<Rightarrow> if key x = k then Some x else None)"

definition map_store ::
  "('a \<Rightarrow> object_key) \<Rightarrow> ('w \<Rightarrow> object_key \<Rightarrow> 'a option) \<Rightarrow> ((object_key \<Rightarrow> 'a option) \<Rightarrow> 'w \<Rightarrow> 'w) \<Rightarrow> ('w, 'a) store" where
  "map_store key raw put = \<lparr>
     st_get = (\<lambda>k w. (case keyed key (raw w) k of None \<Rightarrow> Inl no_object | Some x \<Rightarrow> Inr x, w)),
     st_create = (\<lambda>x w. if keyed key (raw w) (key x) = None then (Inr x, put ((raw w)(key x \<mapsto> x)) w) else (Inl there_already, w)),
     st_update = (\<lambda>x w. if keyed key (raw w) (key x) = None then (Some no_object, w) else (None, put ((raw w)(key x \<mapsto> x)) w)),
     st_delete = (\<lambda>uid k w. (None, put ((raw w)(k := None)) w))\<rparr>"

lemma keyed_upd: "keyed key (m(key x \<mapsto> x)) = (keyed key m)(key x \<mapsto> x)"
  by (auto simp: keyed_def fun_eq_iff)

lemma map_store_get: "get_law (\<lambda>w. keyed key (raw w)) (map_store key raw put)"
  by (auto simp: get_law_def map_store_def no_object_def errors_is_def split: option.splits)

lemma map_store_stores:
  assumes "\<And>m w. raw (put m w) = m"
  shows "stores key (\<lambda>w. keyed key (raw w)) (map_store key raw put)"
proof -
  have "keyed key m k = Some x \<Longrightarrow> key x = k" for m k x by (auto simp: keyed_def split: option.splits if_splits)
  then show ?thesis
    unfolding stores_def
    by (simp add: map_store_get create_law_def update_law_def)
      (auto simp: map_store_def assms keyed_upd there_already_def no_object_def errors_is_def Let_def split: if_splits)
qed

lemma map_store_keeps: "(\<And>m w. view (put m w) = view w) \<Longrightarrow> keeps view (map_store key raw put)"
  by (simp add: keeps_def map_store_def)

type_synonym demo_world = "(object_key \<Rightarrow> TextConfigMap option) \<times> (object_key \<Rightarrow> StoredSecret option)"

definition demo_access :: "demo_world access" where
  "demo_access = \<lparr>acc_config = \<lparr>cfg_RunnerImage = [], cfg_RunnerServiceAccount = [], cfg_RunnerClusterRole = ''c'', cfg_AgentExecutorCallerRole = [],
       cfg_RunnerConfigMapWriterRole = [], cfg_AgentExecutorCASecret = ''ca'', cfg_AgentExecutorNamespace = ''e'', cfg_SecretSourceNamespace = [],
       cfg_PrometheusURL = [], cfg_ImagePullSecrets = [], cfg_ImagePullPolicy = [], cfg_PodLabelsPartOf = [], cfg_TTLSecondsAfterFinished = 0,
       cfg_LLMCredentialsSecret = [], cfg_SecretRefAllowedNamespaces = []\<rparr>,
     acc_ControllerNamespace = ''e'', acc_cluster = (\<lambda>w. \<lparr>sc_Client = None, sc_APIReader = None\<rparr>), acc_goQuote = quote,
     acc_serviceAccounts = map_store (\<lambda>m. (ObjectMeta_Namespace m, ObjectMeta_Name m)) (\<lambda>w k. None) (\<lambda>m w. w),
     acc_clusterRoleBindings = map_store (\<lambda>b. ([], ObjectMeta_Name (RoleBinding_Meta b))) (\<lambda>w k. None) (\<lambda>m w. w),
     acc_roleBindings = map_store (\<lambda>b. ([], ObjectMeta_Name (RoleBinding_Meta b))) (\<lambda>w k. None) (\<lambda>m w. w),
     acc_secrets = map_store stored_key snd (\<lambda>m w. (fst w, m)), acc_configMaps = map_store text_key fst (\<lambda>m w. (m, snd w))\<rparr>"

definition demo_secret :: "string \<Rightarrow> string \<Rightarrow> string \<Rightarrow> StoredSecret" where
  "demo_secret ns name type = \<lparr>StoredSecret_Meta = managed_meta ns name,
     StoredSecret_Secret = \<lparr>Secret_Data = [(''tls.crt'', ''c''), (''tls.key'', ''p'')], Secret_Type = type\<rparr>\<rparr>"

text \<open>The executor's namespace has its key pair \<open>ca\<close>; another namespace has a Secret \<open>s\<close>.\<close>

definition demo_world :: demo_world where
  "demo_world = (\<lambda>k. None, \<lambda>k. if k = (''e'', ''ca'') then Some (demo_secret ''e'' ''ca'' SecretTypeTLS)
     else if k = (''x'', ''s'') then Some (demo_secret ''x'' ''s'' ''Opaque'') else None)"

definition prepared_run :: WorkflowRun where
  "prepared_run = zero_WorkflowRun\<lparr>WorkflowRun_Meta := zero_ObjectMeta\<lparr>ObjectMeta_Name := ''r'', ObjectMeta_Namespace := ''n''\<rparr>\<rparr>"

definition prepared_job :: Job where
  "prepared_job = \<lparr>Job_Namespace = ''n'', Job_Name = ''j'', Job_Annotations = [], Job_ServiceAccountName = [],
     Job_Volumes = [ca_volume ''ca'', \<lparr>Volume_Name = ''v'', Volume_Secret = Some \<lparr>SecretVolumeSource_SecretName = ''s'', SecretVolumeSource_Items = [],
       SecretVolumeSource_Optional = None\<rparr>, Volume_ConfigMap = None\<rparr>],
     Job_Conditions = [], Job_Active = 0, Job_Succeeded = 0, Job_Failed = 0, Job_DeletionTimestamp = None\<rparr>"

abbreviation demo_texts :: "demo_world \<Rightarrow> object_key \<Rightarrow> TextConfigMap option" where
  "demo_texts w \<equiv> keyed text_key (fst w)"

abbreviation demo_secrets :: "demo_world \<Rightarrow> object_key \<Rightarrow> StoredSecret option" where
  "demo_secrets w \<equiv> keyed stored_key (snd w)"

lemma demo_store_laws:
  "stores text_key demo_texts (acc_configMaps demo_access)" "stores stored_key demo_secrets (acc_secrets demo_access)"
  "get_law demo_secrets (acc_secrets demo_access)" "keeps demo_texts (acc_secrets demo_access)"
  unfolding demo_access_def by (simp_all add: map_store_stores map_store_get map_store_keeps)

theorem ensureAgentExecutorCA_publishes_witness:
  "published (demo_texts (snd (ensureAgentExecutorCA demo_access prepared_run prepared_job demo_world))) (''n'', ''ca'') ''c''"
proof -
  let ?r = "ensureAgentExecutorCA demo_access prepared_run prepared_job demo_world"
  have name: "agentExecutorCAConfigMapName prepared_job = ''ca''" by code_simp
  have "fst ?r = None" "certificate (demo_secrets demo_world) (executor_namespace (acc_config demo_access), ''ca'') = ''c''" by code_simp+
  moreover have "?r = (fst ?r, snd ?r)" by simp
  note ensureAgentExecutorCA_publishes [OF demo_store_laws(1,3,4) name _ this]
  ultimately show ?thesis by (simp add: prepared_run_def)
qed


end
