(* ===== verification/Legacy_Bindings.thy ===== *)
theory Legacy_Bindings
  imports Access_Properties
begin

text \<open>
  The removal of the runner bindings of earlier releases at startup
  (\<^verbatim>\<open>internal/workflow/controller/legacy_runner_binding_gc.go\<close>). The uncached reads are functions of the world \<open>'w\<close>; only the
  deletion, with the UID and the resource version it was listed with, changes it.
\<close>

record gc_pod =
  gcp_Meta :: ObjectMeta
  gcp_ServiceAccountName :: string
  gcp_Phase :: string

record gc_job =
  gcj_Meta :: ObjectMeta
  gcj_ServiceAccountName :: string
  gcj_Conditions :: "JobCondition list"

record LegacyRunnerBindingGC =
  gc_legacyRole :: string
  gc_legacySA :: string
  gc_runnerSAcfg :: string

record 'w gc_client =
  gcc_listBindings :: "'w \<Rightarrow> RoleBinding list result"
  gcc_listPods :: "string \<Rightarrow> 'w \<Rightarrow> gc_pod list result"
  gcc_listJobs :: "string \<Rightarrow> 'w \<Rightarrow> gc_job list result"
  gcc_getJob :: "object_key \<Rightarrow> 'w \<Rightarrow> gc_job result"
  gcc_getRun :: "object_key \<Rightarrow> 'w \<Rightarrow> WorkflowRun result"
  gcc_delete :: "RoleBinding \<Rightarrow> 'w \<Rightarrow> goerror option \<times> 'w"

definition isLegacy :: "LegacyRunnerBindingGC \<Rightarrow> RoleBinding \<Rightarrow> bool" where
  "isLegacy g crb \<longleftrightarrow> get_or [] (ObjectMeta_Labels (RoleBinding_Meta crb)) ''app.kubernetes.io/component'' \<noteq> ''rbac'' \<and>
     RoleRef_Name (RoleBinding_RoleRef crb) = gc_legacyRole g \<and>
     (case RoleBinding_Subjects crb of
        [s] \<Rightarrow> Subject_Kind s = ''ServiceAccount'' \<and> Subject_Name s = gc_legacySA g \<and> Subject_Name s \<noteq> gc_runnerSAcfg g \<and>
               ObjectMeta_Name (RoleBinding_Meta crb) = workflowRunnerRoleBindingName (Subject_Namespace s) (Subject_Name s)
      | _ \<Rightarrow> False)"

text \<open>The controlling owner of a kind, read through \<open>get\<close>.\<close>

definition controllerOwner ::
  "(object_key \<Rightarrow> 'a result) \<Rightarrow> ('a \<Rightarrow> string) \<Rightarrow> ObjectMeta \<Rightarrow> string \<Rightarrow> 'a option result" where
  "controllerOwner get uid controllee kind =
     (case List.find OwnerReference_Controller (ObjectMeta_OwnerReferences controllee) of
        None \<Rightarrow> Inr None
      | Some ref \<Rightarrow>
          if OwnerReference_Kind ref \<noteq> kind \<or> \<not> OwnerReference_BlockOwnerDeletion ref then Inr None
          else (case get (ObjectMeta_Namespace controllee, OwnerReference_Name ref) of
                  Inl e \<Rightarrow> if not_found e then Inr None else Inl e
                | Inr owner \<Rightarrow> Inr (if uid owner = OwnerReference_UID ref then Some owner else None)))"

definition liveRun :: "'w gc_client \<Rightarrow> 'w \<Rightarrow> gc_job \<Rightarrow> string result" where
  "liveRun c w job =
     bindr (controllerOwner (\<lambda>k. gcc_getRun c k w) WorkflowRun_UID (gcj_Meta job) ''WorkflowRun'')
       (\<lambda>r. Inr (case r of None \<Rightarrow> [] | Some wr \<Rightarrow> if IsTerminal (run_phase wr) then [] else WorkflowRun_Name wr))"

text \<open>What one object pins, if anything.\<close>

definition pod_pin :: "'w gc_client \<Rightarrow> 'w \<Rightarrow> Subject \<Rightarrow> gc_pod \<Rightarrow> string list result" where
  "pod_pin c w s pod =
     (if gcp_ServiceAccountName pod \<noteq> Subject_Name s \<or> gcp_Phase pod \<in> {''Succeeded'', ''Failed''} then Inr []
      else bindr (controllerOwner (\<lambda>k. gcc_getJob c k w) (\<lambda>j. ObjectMeta_UID (gcj_Meta j)) (gcp_Meta pod) ''Job'') (\<lambda>found.
           case found of None \<Rightarrow> Inr []
           | Some job \<Rightarrow> bindr (liveRun c w job) (\<lambda>wr.
               Inr (if wr = [] then [] else [ObjectMeta_Name (gcp_Meta pod) @ ''('' @ wr @ '')'']))))"

definition pinningPods :: "'w gc_client \<Rightarrow> 'w \<Rightarrow> Subject \<Rightarrow> string list result" where
  "pinningPods c w s =
     bindr (gcc_listPods c (Subject_Namespace s) w) (\<lambda>pods. bindr (map_result (pod_pin c w s) pods) (\<lambda>pins. Inr (concat pins)))"

definition job_pin :: "'w gc_client \<Rightarrow> 'w \<Rightarrow> Subject \<Rightarrow> gc_job \<Rightarrow> string list result" where
  "job_pin c w s job =
     (if gcj_ServiceAccountName job \<noteq> Subject_Name s \<or>
         list_ex (\<lambda>cd. JobCondition_Type cd \<in> {''Complete'', ''Failed''} \<and> JobCondition_Status cd = ''True'') (gcj_Conditions job) then Inr []
      else bindr (liveRun c w job) (\<lambda>wr. Inr (if wr = [] then [] else [ObjectMeta_Name (gcj_Meta job) @ ''('' @ wr @ '')''])))"

definition pinningJobs :: "'w gc_client \<Rightarrow> 'w \<Rightarrow> Subject \<Rightarrow> string list result" where
  "pinningJobs c w s =
     bindr (gcc_listJobs c (Subject_Namespace s) w) (\<lambda>jobs. bindr (map_result (job_pin c w s) jobs) (\<lambda>pins. Inr (concat pins)))"

definition collect_binding :: "LegacyRunnerBindingGC \<Rightarrow> 'w gc_client \<Rightarrow> RoleBinding \<Rightarrow> 'w \<Rightarrow> 'w" where
  "collect_binding g c crb w =
     (if \<not> isLegacy g crb then w
      else (let s = hd (RoleBinding_Subjects crb) in
            if pinningPods c w s = Inr [] \<and> pinningJobs c w s = Inr [] then snd (gcc_delete c crb w) else w))"

definition LegacyRunnerBindingGC_Start :: "LegacyRunnerBindingGC \<Rightarrow> 'w gc_client \<Rightarrow> 'w \<Rightarrow> 'w" where
  "LegacyRunnerBindingGC_Start g c w =
     (if gc_legacyRole g = [] \<or> gc_legacySA g = [] then w
      else (case gcc_listBindings c w of Inl e \<Rightarrow> w | Inr items \<Rightarrow> fold (collect_binding g c) items w))"

subsection \<open>What is removed\<close>

text \<open>A live run that uses the ServiceAccount of a subject, seen through its Job or through a pod of the Job.\<close>

definition owned_by :: "ObjectMeta \<Rightarrow> string \<Rightarrow> string \<Rightarrow> string \<Rightarrow> bool" where
  "owned_by m kind name uid \<longleftrightarrow> (\<exists>ref. List.find OwnerReference_Controller (ObjectMeta_OwnerReferences m) = Some ref \<and>
     OwnerReference_Kind ref = kind \<and> OwnerReference_BlockOwnerDeletion ref \<and> OwnerReference_Name ref = name \<and> OwnerReference_UID ref = uid)"

definition live_job :: "'w gc_client \<Rightarrow> 'w \<Rightarrow> gc_job \<Rightarrow> bool" where
  "live_job c w job \<longleftrightarrow> (\<exists>name wr. gcc_getRun c (ObjectMeta_Namespace (gcj_Meta job), name) w = Inr wr \<and>
     owned_by (gcj_Meta job) ''WorkflowRun'' name (WorkflowRun_UID wr) \<and> \<not> IsTerminal (run_phase wr) \<and> WorkflowRun_Name wr \<noteq> [])"

lemma controllerOwner_found:
  assumes "owned_by m kind name (uid owner)" "get (ObjectMeta_Namespace m, name) = Inr owner"
  shows "controllerOwner get uid m kind = Inr (Some owner)"
  using assms by (auto simp: controllerOwner_def owned_by_def)

lemma liveRun_live:
  assumes "live_job c w job"
  shows "\<exists>wr. liveRun c w job = Inr wr \<and> wr \<noteq> []"
proof -
  from assms obtain name wr where wr: "gcc_getRun c (ObjectMeta_Namespace (gcj_Meta job), name) w = Inr wr"
    "owned_by (gcj_Meta job) ''WorkflowRun'' name (WorkflowRun_UID wr)" "\<not> IsTerminal (run_phase wr)" "WorkflowRun_Name wr \<noteq> []"
    unfolding live_job_def by blast
  have "controllerOwner (\<lambda>k. gcc_getRun c k w) WorkflowRun_UID (gcj_Meta job) ''WorkflowRun'' = Inr (Some wr)"
    by (rule controllerOwner_found [where name = name]) (simp_all only: wr)
  with wr(3,4) show ?thesis by (simp add: liveRun_def)
qed

lemma map_result_none: "map_result f xs = Inr ys \<Longrightarrow> concat ys = [] \<Longrightarrow> x \<in> set xs \<Longrightarrow> f x = Inr []"
  by (induction xs arbitrary: ys) (auto simp: bindr_Inr)

definition job_finished :: "gc_job \<Rightarrow> bool" where
  "job_finished job \<longleftrightarrow>
     list_ex (\<lambda>cd. JobCondition_Type cd \<in> {''Complete'', ''Failed''} \<and> JobCondition_Status cd = ''True'') (gcj_Conditions job)"

lemma job_pin_live:
  assumes "live_job c w job" "gcj_ServiceAccountName job = Subject_Name s" "\<not> job_finished job"
  shows "job_pin c w s job \<noteq> Inr []"
proof -
  from liveRun_live [OF assms(1)] obtain wr where "liveRun c w job = Inr wr" "wr \<noteq> []" by blast
  with assms(2,3) show ?thesis unfolding job_pin_def job_finished_def by simp
qed

lemma pod_pin_live:
  assumes "live_job c w job" "gcp_ServiceAccountName pod = Subject_Name s" "gcp_Phase pod \<notin> {''Succeeded'', ''Failed''}"
    and j: "gcc_getJob c (ObjectMeta_Namespace (gcp_Meta pod), name) w = Inr job"
    "owned_by (gcp_Meta pod) ''Job'' name (ObjectMeta_UID (gcj_Meta job))"
  shows "pod_pin c w s pod \<noteq> Inr []"
proof -
  from liveRun_live [OF assms(1)] obtain wr where "liveRun c w job = Inr wr" "wr \<noteq> []" by blast
  moreover have "controllerOwner (\<lambda>k. gcc_getJob c k w) (\<lambda>j. ObjectMeta_UID (gcj_Meta j)) (gcp_Meta pod) ''Job'' = Inr (Some job)"
    by (rule controllerOwner_found [where name = name]) (simp_all only: j)
  ultimately show ?thesis using assms(2,3) unfolding pod_pin_def by simp
qed

text \<open>A binding is only deleted when no live run is seen to use it: neither an unfinished Job nor a running pod.\<close>

lemma no_live_job:
  assumes "pinningJobs c w s = Inr []" "gcc_listJobs c (Subject_Namespace s) w = Inr jobs" "job \<in> set jobs"
    "gcj_ServiceAccountName job = Subject_Name s" "\<not> job_finished job"
  shows "\<not> live_job c w job"
proof -
  from assms(1,2) obtain pins where "map_result (job_pin c w s) jobs = Inr pins" "concat pins = []"
    by (auto simp: pinningJobs_def bindr_Inr)
  from map_result_none [OF this assms(3)] job_pin_live [OF _ assms(4,5), of c w] show ?thesis by blast
qed

lemma no_live_pod:
  assumes "pinningPods c w s = Inr []" "gcc_listPods c (Subject_Namespace s) w = Inr pods" "pod \<in> set pods"
    "gcp_ServiceAccountName pod = Subject_Name s" "gcp_Phase pod \<notin> {''Succeeded'', ''Failed''}"
    "gcc_getJob c (ObjectMeta_Namespace (gcp_Meta pod), name) w = Inr job" "owned_by (gcp_Meta pod) ''Job'' name (ObjectMeta_UID (gcj_Meta job))"
  shows "\<not> live_job c w job"
proof -
  from assms(1,2) obtain pins where "map_result (pod_pin c w s) pods = Inr pins" "concat pins = []"
    by (auto simp: pinningPods_def bindr_Inr)
  from map_result_none [OF this assms(3)] pod_pin_live [OF _ assms(4-7)] show ?thesis by blast
qed

end
