(* ===== verification/Secret_Properties.thy ===== *)
theory Secret_Properties
  imports Runner_Job
begin

text \<open>
  What the parts of the Secret handling promise together: the walk over the references of a run ends and
  finds exactly what the run can reach; what is mounted is what was found; the runner reads from the mounts
  what it would read from the API; the variables that tell it where the mounts are come from the controller; and
  the check of the mounts tells the author of a run nothing the controller may not read.
\<close>

subsection \<open>A cluster with a cycle\<close>

text \<open>
  Workflow \<open>w\<close> calls a tool of the MCP server \<open>m\<close>, which authenticates with the key \<open>k\<close> of the Secret \<open>t\<close>, and then the
  Workflow \<open>v\<close>. That one asks the agent \<open>g\<close>, unless the step fails, and calls \<open>w\<close> again.
\<close>

definition cyclic_ref :: "string \<Rightarrow> StepWorkflowRef" where
  "cyclic_ref name = \<lparr>StepWorkflowRef_Name = name, StepWorkflowRef_Namespace = [], StepWorkflowRef_Inputs = []\<rparr>"

definition cyclic_workflow :: "string \<Rightarrow> Step list \<Rightarrow> Workflow" where
  "cyclic_workflow name steps = zero_Workflow\<lparr>
     Workflow_Meta := zero_ObjectMeta\<lparr>ObjectMeta_Name := name, ObjectMeta_Namespace := ''n''\<rparr>,
     Workflow_Spec := zero_WorkflowSpec\<lparr>WorkflowSpec_Steps := steps\<rparr>\<rparr>"

definition cyclic_main :: Workflow where
  "cyclic_main = cyclic_workflow ''w''
     [zero_Step\<lparr>Step_Name := ''a'', Step_MCPToolCall := Some \<lparr>StepMCPToolCall_Server = ''m'', StepMCPToolCall_Tool = ''x'',
        StepMCPToolCall_Arguments = []\<rparr>\<rparr>,
      zero_Step\<lparr>Step_Name := ''b'', Step_WorkflowRef := Some (cyclic_ref ''v'')\<rparr>]"

definition cyclic_sub :: Workflow where
  "cyclic_sub = cyclic_workflow ''v''
     [zero_Step\<lparr>Step_Name := ''c'', Step_FailurePolicy := FailurePolicyContinue,
        Step_AgentRef := Some \<lparr>StepAgentRef_Name = ''g'', StepAgentRef_Namespace = [], StepAgentRef_AdditionalPrompts = [],
          StepAgentRef_MaxAdditionalPromptTokens = None, StepAgentRef_ContextBudgetMode = [], StepAgentRef_ContextBudgetLastN = None\<rparr>\<rparr>,
      zero_Step\<lparr>Step_Name := ''d'', Step_WorkflowRef := Some (cyclic_ref ''w'')\<rparr>]"

definition cyclic_server :: MCPServer where
  "cyclic_server = \<lparr>MCPServer_Meta = zero_ObjectMeta\<lparr>ObjectMeta_Name := ''m'', ObjectMeta_Namespace := ''n''\<rparr>,
     MCPServer_Spec = \<lparr>MCPServerSpec_Transport = \<lparr>TransportConfig_Type = ''http'', TransportConfig_Address = ''u'', TransportConfig_Command = [],
         TransportConfig_Headers = []\<rparr>,
       MCPServerSpec_Timeout = [], MCPServerSpec_Env = [],
       MCPServerSpec_Auth = Some \<lparr>AuthConfig_Type = ''bearer'', AuthConfig_SecretRef = Some \<lparr>SecretReference_Name = ''t'',
         SecretReference_Namespace = [], SecretReference_Key = ''k''\<rparr>, AuthConfig_OAuth2 = None\<rparr>\<rparr>\<rparr>"

definition absent :: goerror where
  "absent = GoError [ApiNotFound] ''not found''"

definition cyclic_cluster :: cluster_reader where
  "cyclic_cluster = \<lparr>
     rd_Workflow = (\<lambda>k. if k = (''n'', ''w'') then Inr cyclic_main else if k = (''n'', ''v'') then Inr cyclic_sub else Inl absent),
     rd_StepTemplate = (\<lambda>k. Inl absent),
     rd_Agent = (\<lambda>k. if k = (''n'', ''g'') then Inr \<lparr>Agent_Meta = zero_ObjectMeta, Agent_Spec = zero_AgentSpec\<rparr> else Inl absent),
     rd_MCPServer = (\<lambda>k. if k = (''n'', ''m'') then Inr cyclic_server else Inl absent)\<rparr>"

definition cyclic_run :: WorkflowRun where
  "cyclic_run = zero_WorkflowRun\<lparr>WorkflowRun_Meta := zero_ObjectMeta\<lparr>ObjectMeta_Name := ''r'', ObjectMeta_Namespace := ''n''\<rparr>\<rparr>"

lemmas cyclic_defs = cyclic_main_def cyclic_sub_def cyclic_workflow_def cyclic_ref_def cyclic_run_def cyclic_cluster_def
  zero_Workflow_def zero_WorkflowSpec_def zero_WorkflowRun_def zero_ObjectMeta_def zero_Step_def

definition cyclic_origin :: string where
  "cyclic_origin = ''step '' @ quote ''a'' @ ''.mcpToolCall (MCPServer n/m) auth.secretRef''"

lemma cyclic_names [simp]:
  "Workflow_Name cyclic_main = ''w''" "Workflow_Namespace cyclic_main = ''n''" "WorkflowRun_Namespace cyclic_run = ''n''"
  "rd_Workflow cyclic_cluster (''n'', ''w'') = Inr cyclic_main" "rd_Workflow cyclic_cluster (''n'', ''v'') = Inr cyclic_sub"
  by (simp_all add: cyclic_defs)

lemma cyclic_collected:
  "collectSecretRefs cyclic_cluster cyclic_main cyclic_run = Inr [secret_ref ''n'' ''t'' ''k'' cyclic_origin True]"
  by code_simp

subsection \<open>The references of a run\<close>

text \<open>
  C26: The walk over the references of a run returns, however the Workflows refer to each other: if every object
  named by a step can be read and fewer than ten other Workflows can be reached, then the collection of the references
  succeeds, cycles included. The limit on the depth only stops a chain of more Workflows.
\<close>

theorem collectSecretRefs_returns:
  assumes "finite W" "cluster_resolves c W"
    and "\<forall>step \<in> set (Workflow_Steps workflow). step_resolves c W (WorkflowRun_Namespace run) step"
    and "card (W - {(Workflow_Namespace workflow, Workflow_Name workflow)}) < maxWorkflowRefDepth"
  shows "\<exists>refs. collectSecretRefs c workflow run = Inr refs"
  using assms by (intro collect_returns) auto

lemma cyclic_steps_resolve:
  "\<forall>step \<in> set (Workflow_Steps cyclic_main). step_resolves cyclic_cluster {(''n'', ''w''), (''n'', ''v'')} ''n'' step"
  "\<forall>step \<in> set (Workflow_Steps cyclic_sub). step_resolves cyclic_cluster {(''n'', ''w''), (''n'', ''v'')} ''n'' step"
  by (simp_all add: cyclic_defs step_resolves_def step_bodies_def step_body_def body_resolves_def server_resolves_def ref_target_def
      or_ns_def zero_AgentSpec_def)

lemma cyclic_resolves: "cluster_resolves cyclic_cluster {(''n'', ''w''), (''n'', ''v'')}"
  using cyclic_steps_resolve by (simp add: cluster_resolves_def)

theorem collectSecretRefs_returns_witness: "\<exists>refs. collectSecretRefs cyclic_cluster cyclic_main cyclic_run = Inr refs"
  by (rule collectSecretRefs_returns [OF _ cyclic_resolves])
    (use cyclic_steps_resolve in \<open>simp_all add: maxWorkflowRefDepth_def card_insert_if\<close>)



lemma reached_weaken: "reached c True steps runNamespace ns step \<Longrightarrow> reached c False steps runNamespace ns step"
proof (induction rule: reached.induct)
  case (reached_root step)
  then show ?case by (auto intro: reached.reached_root simp: counted_def)
next
  case (reached_sub ns step b ref workflow step')
  then show ?case
    by (intro reached.reached_sub [of c False steps runNamespace ns step b ref workflow]) (auto simp: step_bodies_def counted_def)
qed

lemma step_bodies_weaken: "set (step_bodies c True ns step) \<subseteq> set (step_bodies c False ns step)"
  by (auto simp: step_bodies_def)

lemma agent_match_any: "agent_match rd False ns b \<longleftrightarrow> body_AgentRef b \<noteq> None"
  by (auto simp: agent_match_def agentRefNeeds_def)

definition nirmata_agent :: "agent_reader \<Rightarrow> string \<Rightarrow> StepAgentRef \<Rightarrow> bool" where
  "nirmata_agent rd ns ag \<longleftrightarrow> (\<exists>agent. rd (or_ns (StepAgentRef_Namespace ag) ns, StepAgentRef_Name ag) = Inr agent \<and>
     AgentSpec_ModelProvider (Agent_Spec agent) \<in> {[], nirmataModelProvider})"

lemma agent_match_nirmata: "agent_match rd True ns b \<longleftrightarrow> (\<exists>ag. body_AgentRef b = Some ag \<and> nirmata_agent rd ns ag)"
proof -
  have "agentRefNeeds rd True ag ns = Inr True \<longleftrightarrow> nirmata_agent rd ns ag" for ag
    by (cases "rd (or_ns (StepAgentRef_Namespace ag) ns, StepAgentRef_Name ag)")
      (simp_all add: agentRefNeeds_def nirmata_agent_def Let_def)
  then show ?thesis by (simp add: agent_match_def)
qed



subsection \<open>What is mounted\<close>

lemma minted_mount_paths_distinct: "distinct (map VolumeMount_MountPath (minted_mounts kc gs))"
  by (auto simp: minted_mounts_def group_mount_def kubeconfig_mount_def group_dir_def KubeconfigDir_def secretMountBaseDir_def
      distinct_map inj_on_def utoa_not_kubeconfig [symmetric] split: option.split)

lemma minted_mounts_read_only:
  "mt \<in> set (minted_mounts kc gs) \<Longrightarrow> VolumeMount_ReadOnly mt \<and> VolumeMount_Name mt \<in> set (map Volume_Name (minted_volumes kc gs))"
  unfolding minted_names by (auto simp: minted_mounts_def group_mount_def kubeconfig_mount_def split: option.splits)

text \<open>A name that stays in the directory of the mount.\<close>

definition plain_file_name :: "string \<Rightarrow> bool" where
  "plain_file_name s \<longleftrightarrow> s \<noteq> [] \<and> s \<noteq> ''.'' \<and> \<not> has_prefix s ''..'' \<and> CHR ''/'' \<notin> set s"

text \<open>The Secret, and the item of it, that a reference of the runner asks for.\<close>

definition asked_for :: "resolvedSecretRef list \<Rightarrow> string \<Rightarrow> string \<Rightarrow> (resolvedSecretRef \<Rightarrow> bool) \<Rightarrow> bool" where
  "asked_for refs ns name P \<longleftrightarrow>
     list_ex (\<lambda>r. ref_NeedsRunnerMount r \<and> ref_Namespace r = ns \<and> ref_Name r = name \<and> P r) refs"

definition volume_asked_for :: "resolvedSecretRef list \<Rightarrow> string \<Rightarrow> Volume \<Rightarrow> bool" where
  "volume_asked_for refs ns v = (case Volume_Secret v of None \<Rightarrow> False
     | Some src \<Rightarrow> asked_for refs ns (SecretVolumeSource_SecretName src) (\<lambda>r. SecretVolumeSource_Items src \<noteq> [] \<or> ref_IsKubeconfig r) \<and>
         list_all (\<lambda>it. KeyToPath_Path it = KeyToPath_Key it \<and> plain_file_name (KeyToPath_Path it) \<and>
           asked_for refs ns (SecretVolumeSource_SecretName src) (\<lambda>r. \<not> ref_IsKubeconfig r \<and> ref_Key r = KeyToPath_Key it))
           (SecretVolumeSource_Items src))"

text \<open>
  C28: Only what was asked for is mounted. Every volume the controller adds to the runner Job is of a Secret in the namespace of the run that a
  reference of the runner names, the whole Secret only for the kubeconfig, otherwise just the keys named, each under a
  file name that cannot leave the directory. The volumes have names of their own, none of them taken before, and are mounted read-only at
  paths of their own.
\<close>

theorem buildSecretMounts_least:
  assumes b: "buildSecretMounts dns1123 refs ns existing = Inr sm"
  shows "list_all (volume_asked_for refs ns) (sm_volumes sm) \<and>
    distinct (map Volume_Name (sm_volumes sm)) \<and> set (map Volume_Name (sm_volumes sm)) \<inter> set existing = {} \<and>
    distinct (map VolumeMount_MountPath (sm_mounts sm)) \<and>
    list_all (\<lambda>mt. VolumeMount_ReadOnly mt \<and> VolumeMount_Name mt \<in> set (map Volume_Name (sm_volumes sm))) (sm_mounts sm)"
proof -
  from b obtain kc bs where "grouped ns refs bs" and "\<forall>r \<in> set refs. mount_ok dns1123 ns r"
    and "kc = None \<or> (\<exists>r \<in> set refs. kc = Some r \<and> ref_IsKubeconfig r \<and> ref_NeedsRunnerMount r)"
    and sm: "sm_volumes sm = minted_volumes kc (mount_groups bs)" "sm_mounts sm = minted_mounts kc (mount_groups bs)"
    and "loadMountsFromEnv (sm_mountsJSON sm) = Inr (minted_paths (mount_groups bs))"
    and ex: "\<forall>name \<in> set existing. \<not> has_prefix name generatedSecretVolumePrefix" by (rule build_parts) blast
  have "volume_asked_for refs ns v" if "v \<in> set (sm_volumes sm)" for v
  proof -
    from mounted_only_refs [OF b that] obtain src where src: "Volume_Secret v = Some src"
      "\<exists>r \<in> set refs. ref_NeedsRunnerMount r \<and> ref_Namespace r = ns \<and> ref_Name r = SecretVolumeSource_SecretName src \<and>
         (SecretVolumeSource_Items src = [] \<longrightarrow> ref_IsKubeconfig r)"
      and it: "\<And>it. it \<in> set (SecretVolumeSource_Items src) \<Longrightarrow> KeyToPath_Path it = KeyToPath_Key it \<and> ValidateDataKey (KeyToPath_Key it) = None \<and>
         (\<exists>r \<in> set refs. mountable r \<and> ref_Namespace r = ns \<and> ref_Name r = SecretVolumeSource_SecretName src \<and> ref_Key r = KeyToPath_Key it)"
      by metis
    have "KeyToPath_Path i = KeyToPath_Key i \<and> plain_file_name (KeyToPath_Path i) \<and>
        asked_for refs ns (SecretVolumeSource_SecretName src) (\<lambda>r. \<not> ref_IsKubeconfig r \<and> ref_Key r = KeyToPath_Key i)"
      if "i \<in> set (SecretVolumeSource_Items src)" for i
      using it [OF that] valid_key by (auto simp: plain_file_name_def asked_for_def list_ex_iff mountable_def)
    moreover have "asked_for refs ns (SecretVolumeSource_SecretName src) (\<lambda>r. SecretVolumeSource_Items src \<noteq> [] \<or> ref_IsKubeconfig r)"
      using src(2) by (auto simp: asked_for_def list_ex_iff)
    ultimately show ?thesis unfolding volume_asked_for_def src(1) list_all_iff option.case by blast
  qed
  moreover have "set (map Volume_Name (sm_volumes sm)) \<inter> set existing = {}"
    using minted_names_reserved ex unfolding sm by blast
  moreover have "list_all (\<lambda>mt. VolumeMount_ReadOnly mt \<and> VolumeMount_Name mt \<in> set (map Volume_Name (sm_volumes sm))) (sm_mounts sm)"
    unfolding list_all_iff sm using minted_mounts_read_only by blast
  ultimately show ?thesis
    using minted_names_distinct minted_mount_paths_distinct by (simp add: list_all_iff sm)
qed

definition token_mounts :: secret_mounts where
  "token_mounts = \<lparr>sm_volumes = [group_volume 0 \<lparr>mg_namespace = ''n'', mg_name = ''t'', mg_keys = [''k''], mg_origins = [cyclic_origin],
       mg_optional = False\<rparr>], sm_mounts = [group_mount 0],
     sm_mountsJSON = RawDoc (VMap [(mount_Key ''n'' ''t'' ''k'', VString (group_dir 0 @ ''/k''))]),
     sm_origins = [(group_vol_name 0, cyclic_origin)]\<rparr>"

lemma token_mounted:
  "buildSecretMounts (\<lambda>s. []) [secret_ref ''n'' ''t'' ''k'' cyclic_origin True] ''n'' [''x''] = Inr token_mounts"
  by code_simp

theorem buildSecretMounts_least_witness:
  "list_all (volume_asked_for [secret_ref ''n'' ''t'' ''k'' cyclic_origin True] ''n'') (sm_volumes token_mounts) \<and>
   sm_volumes token_mounts \<noteq> []"
  using buildSecretMounts_least [OF token_mounted] by (simp add: token_mounts_def)

subsection \<open>What the runner reads\<close>

text \<open>The credentials of a step are the same under two ways of reading Secrets: the client of its MCP server, the CA and the token of its external agent.\<close>

definition same_credentials ::
  "cluster_reader \<Rightarrow> (string \<Rightarrow> (bool \<times> int) option) \<Rightarrow> string \<Rightarrow> string \<Rightarrow> ref_body \<Rightarrow> resolver \<Rightarrow> resolver \<Rightarrow> bool" where
  "same_credentials c durationSeconds path ns b f g \<longleftrightarrow>
     (\<forall>mcp server. body_MCPToolCall b = Some mcp \<longrightarrow> StepMCPToolCall_Server mcp \<noteq> [] \<longrightarrow>
        rd_MCPServer c (ns, StepMCPToolCall_Server mcp) = Inr server \<longrightarrow>
        same_config (buildMCPClientConfig f durationSeconds path server) (buildMCPClientConfig g durationSeconds path server)) \<and>
     (\<forall>x ca. body_ExternalAgentRef b = Some x \<longrightarrow> StepExternalAgentRef_CASecretRef x = Some ca \<longrightarrow>
        same_config (caBundleFromSecretRef f (or_ns (NamespacedSecretRef_Namespace ca) ns) (NamespacedSecretRef_Name ca))
          (caBundleFromSecretRef g (or_ns (NamespacedSecretRef_Namespace ca) ns) (NamespacedSecretRef_Name ca))) \<and>
     (\<forall>x auth sr. body_ExternalAgentRef b = Some x \<longrightarrow> StepExternalAgentRef_Auth x = Some auth \<longrightarrow>
        ExternalAgentAuth_SecretRef auth = Some sr \<longrightarrow> same_config (getSecretValue f sr ns) (getSecretValue g sr ns))"

lemma same_credentialsI:
  assumes "\<And>sns name key. body_names c ns b (sns, name, key, RunnerKey) \<Longrightarrow> same_answer (f sns name key) (g sns name key)"
  shows "same_credentials c durationSeconds path ns b f g"
  unfolding same_credentials_def
proof (intro conjI allI impI)
  fix mcp server assume "body_MCPToolCall b = Some mcp" "StepMCPToolCall_Server mcp \<noteq> []"
    "rd_MCPServer c (ns, StepMCPToolCall_Server mcp) = Inr server"
  with assms names_tool have "agree_on server f g" unfolding agree_on_def by blast
  then show "same_config (buildMCPClientConfig f durationSeconds path server) (buildMCPClientConfig g durationSeconds path server)"
    by (rule same_client)
next
  fix x ca assume "body_ExternalAgentRef b = Some x" "StepExternalAgentRef_CASecretRef x = Some ca"
  from assms [OF names_ca [OF this]]
  show "same_config (caBundleFromSecretRef f (or_ns (NamespacedSecretRef_Namespace ca) ns) (NamespacedSecretRef_Name ca))
      (caBundleFromSecretRef g (or_ns (NamespacedSecretRef_Namespace ca) ns) (NamespacedSecretRef_Name ca))"
    unfolding caBundleFromSecretRef_def by (rule same_config_wrap)
next
  fix x auth sr assume "body_ExternalAgentRef b = Some x" "StepExternalAgentRef_Auth x = Some auth" "ExternalAgentAuth_SecretRef auth = Some sr"
  from assms [OF names_bearer [OF this]] show "same_config (getSecretValue f sr ns) (getSecretValue g sr ns)"
    unfolding getSecretValue_def Let_def by (intro same_config_bindr same_config_wrap) auto
qed


definition token_secret :: "object_key \<Rightarrow> (string \<times> string) list result" where
  "token_secret k = (if k = (''n'', ''t'') then Inr [(''k'', ''s'')] else Inl absent)"

definition token_file :: "string \<Rightarrow> string result" where
  "token_file path = (if path = group_dir 0 @ ''/k'' then Inr ''s'' else Inl (GoError [OsNotExist] ''no such file''))"

lemma token_projected: "kubelet_projects token_secret token_file ''n'' (sm_volumes token_mounts) (sm_mounts token_mounts)"
  by (simp add: kubelet_projects_def token_mounts_def group_volume_def group_mount_def projected_def token_secret_def token_file_def)

lemma token_readable: "secrets_readable token_secret"
  by (auto simp: secrets_readable_def token_secret_def absent_def errors_is_def)

lemma tool_reached:
  "reached cyclic_cluster False (Workflow_Steps cyclic_main) (WorkflowRun_Namespace cyclic_run) ''n'' (hd (Workflow_Steps cyclic_main))"
  using reached_root [of "hd (Workflow_Steps cyclic_main)" "Workflow_Steps cyclic_main" False cyclic_cluster "''n''"]
  by (simp add: counted_def) (simp add: cyclic_defs)


subsection \<open>The environment of the runner\<close>

lemma find_skip: "(\<And>x. x \<in> set as \<Longrightarrow> \<not> P x) \<Longrightarrow> List.find P (as @ bs) = List.find P bs"
  by (induction as) auto

lemma effective_env_skip:
  "(\<And>e. e \<in> set ys \<Longrightarrow> EnvVar_Name e \<noteq> name) \<Longrightarrow> effective_env (xs @ ys) name = effective_env xs name"
  unfolding effective_env_def rev_append by (rule find_skip) simp

lemma offending_none:
  "offending_env seen es = [] \<Longrightarrow> e \<in> set es \<Longrightarrow> EnvVar_Name e \<in> set reservedRunnerEnvNames \<Longrightarrow> EnvVar_Name e \<in> set seen"
  by (induction es arbitrary: seen) (auto split: if_splits)

lemma reject_none: "rejectReservedRunnerEnv es = None \<Longrightarrow> e \<in> set es \<Longrightarrow> EnvVar_Name e \<notin> set reservedRunnerEnvNames"
  using offending_none [of "[]" es e] by (auto simp: rejectReservedRunnerEnv_def Let_def split: if_splits)

lemma llm_env_names: "e \<in> set (llm_env existing name secret) \<Longrightarrow> EnvVar_Name e \<in> set LLMEnvAllowlist"
  by (auto simp: llm_env_def secret_env_def)

lemma inject_names:
  assumes "injectWellKnownLLMCredentials env run existing needs = (Inr es, ev)" "e \<in> set es"
  shows "EnvVar_Name e \<in> set LLMEnvAllowlist"
  using assms llm_env_names
  unfolding injectWellKnownLLMCredentials_def Let_def handleDeniedLLMCredentialsRead_def
  by (auto split: if_splits sum.splits bool.splits option.splits prod.splits)

lemma built_job:
  assumes "buildWorkflowRunnerJob env reader run workflow = (Inr job, evs)"
  obtains wellKnown ca volumes sm notChecked needs ev where "check_job_spec env run = None"
    "injectWellKnownLLMCredentials env run (map EnvVar_Name (job_field run [] WorkflowRunJobSpec_Env)) needs = (Inr wellKnown, ev)"
    "volumes = job_field run [] WorkflowRunJobSpec_Volumes @ (if ca then [ca_volume (cfg_AgentExecutorCASecret (je_config env))] else [])"
    "job_secret_mounts env run workflow reader volumes = Inr (sm, notChecked)" "job = assemble_job env run workflow wellKnown ca sm"
  using assms unfolding buildWorkflowRunnerJob_def Let_def
  by (auto split: option.splits prod.splits sum.splits)

lemma spec_env_free:
  assumes "check_job_spec env run = None" "e \<in> set (job_field run [] WorkflowRunJobSpec_Env)"
  shows "EnvVar_Name e \<notin> set reservedRunnerEnvNames"
  using assms reject_none by (auto simp: check_job_spec_def job_field_def split: option.splits)

lemma allowlist_free: "set LLMEnvAllowlist \<inter> set reservedRunnerEnvNames = {}"
  by code_simp

text \<open>The names under which the propagators of OpenTelemetry carry a trace.\<close>

definition traceFields :: "string list" where
  "traceFields = [''traceparent'', ''tracestate'', ''baggage'']"

lemma trace_env_free:
  assumes "set (map fst carrier) \<subseteq> set traceFields" "e \<in> set (trace_env carrier)"
  shows "EnvVar_Name e \<notin> set reservedRunnerEnvNames"
proof -
  have "list_all (\<lambda>k. map upper_byte (replace_byte (CHR ''-'') (CHR ''_'') k) \<notin> set reservedRunnerEnvNames) traceFields" by code_simp
  then have "\<And>k. k \<in> set traceFields \<Longrightarrow> map upper_byte (replace_byte (CHR ''-'') (CHR ''_'') k) \<notin> set reservedRunnerEnvNames"
    by (simp add: list_all_iff)
  with assms show ?thesis by (force simp: trace_env_def literal_env_def)
qed

lemma job_env_reserved:
  assumes "buildWorkflowRunnerJob env reader run workflow = (Inr job, evs)" "set (map fst (je_carrier env)) \<subseteq> set traceFields"
  obtains volumes sm notChecked where "job_secret_mounts env run workflow reader volumes = Inr (sm, notChecked)"
    "\<forall>name \<in> set reservedRunnerEnvNames. effective_env (rj_Env job) name = effective_env (controller_env env run (sm_mountsJSON sm)) name"
    "set (sm_volumes sm) \<subseteq> set (rj_Volumes job)" "set (sm_mounts sm) \<subseteq> set (rj_VolumeMounts job)"
proof -
  from assms(1) obtain wellKnown ca volumes sm notChecked needs ev where spec: "check_job_spec env run = None"
    and inject: "injectWellKnownLLMCredentials env run (map EnvVar_Name (job_field run [] WorkflowRunJobSpec_Env)) needs = (Inr wellKnown, ev)"
    and sm: "job_secret_mounts env run workflow reader volumes = Inr (sm, notChecked)" and job: "job = assemble_job env run workflow wellKnown ca sm"
    by (rule built_job)
  have "effective_env (rj_Env job) name = effective_env (controller_env env run (sm_mountsJSON sm)) name"
    if "name \<in> set reservedRunnerEnvNames" for name
  proof -
    have "\<forall>e \<in> set (job_field run [] WorkflowRunJobSpec_Env @ wellKnown @ trace_env (je_carrier env)). EnvVar_Name e \<noteq> name"
      using that spec_env_free [OF spec] inject_names [OF inject] allowlist_free trace_env_free [OF assms(2)] by auto
    then show ?thesis unfolding job assemble_job_def Let_def RunnerJob.select_convs by (intro effective_env_skip) blast
  qed
  moreover have "set (sm_volumes sm) \<subseteq> set (rj_Volumes job)" "set (sm_mounts sm) \<subseteq> set (rj_VolumeMounts job)"
    by (auto simp: job assemble_job_def Let_def)
  ultimately show thesis using that sm by blast
qed

lemma controller_env_values:
  "map (effective_env (controller_env env run raw)) reservedRunnerEnvNames =
   [if raw = RawEmpty then None else Some (literal_env secretmount_EnvVar (je_text env raw)),
    Some (literal_env ''WORKFLOW_RUN_NAME'' (WorkflowRun_Name run)), Some (literal_env ''WORKFLOW_RUN_NAMESPACE'' (WorkflowRun_Namespace run)),
    Some (literal_env ''JOB_NAME'' (workflowRunnerJobName (WorkflowRun_Name run))), Some (field_env ''POD_NAME'' ''metadata.name''),
    if cfg_AgentExecutorNamespace (je_config env) = [] then None
    else Some (literal_env ''AGENT_EXECUTOR_NAMESPACE'' (cfg_AgentExecutorNamespace (je_config env)))]"
  by (simp add: reservedRunnerEnvNames_def controller_env_def effective_env_def literal_env_def field_env_def secretmount_EnvVar_def)

text \<open>
  C29: No run can redirect the runner to other files. In every Job the controller builds, the variables it reserves have the values it gave
  them, whatever the environment of the run, the LLM credentials and the trace context add (of entries with one name the last counts): in particular the
  map of the mounted Secrets is the one built from the references of this run, or there is none, and the volumes and mounts it points to are in the Job.
\<close>

theorem reserved_env_kept:
  assumes "buildWorkflowRunnerJob env reader run workflow = (Inr job, evs)"
    and "set (map fst (je_carrier env)) \<subseteq> set traceFields"
  shows "\<exists>volumes sm notChecked. job_secret_mounts env run workflow reader volumes = Inr (sm, notChecked) \<and>
    set (sm_volumes sm) \<subseteq> set (rj_Volumes job) \<and> set (sm_mounts sm) \<subseteq> set (rj_VolumeMounts job) \<and>
    map (effective_env (rj_Env job)) reservedRunnerEnvNames =
     [if sm_mountsJSON sm = RawEmpty then None else Some (literal_env secretmount_EnvVar (je_text env (sm_mountsJSON sm))),
      Some (literal_env ''WORKFLOW_RUN_NAME'' (WorkflowRun_Name run)), Some (literal_env ''WORKFLOW_RUN_NAMESPACE'' (WorkflowRun_Namespace run)),
      Some (literal_env ''JOB_NAME'' (workflowRunnerJobName (WorkflowRun_Name run))), Some (field_env ''POD_NAME'' ''metadata.name''),
      if cfg_AgentExecutorNamespace (je_config env) = [] then None
      else Some (literal_env ''AGENT_EXECUTOR_NAMESPACE'' (cfg_AgentExecutorNamespace (je_config env)))]"
proof -
  from assms obtain volumes sm notChecked where sm: "job_secret_mounts env run workflow reader volumes = Inr (sm, notChecked)"
    and same: "\<forall>name \<in> set reservedRunnerEnvNames. effective_env (rj_Env job) name = effective_env (controller_env env run (sm_mountsJSON sm)) name"
    and in_job: "set (sm_volumes sm) \<subseteq> set (rj_Volumes job)" "set (sm_mounts sm) \<subseteq> set (rj_VolumeMounts job)" by (rule job_env_reserved)
  have vals: "map (effective_env (rj_Env job)) reservedRunnerEnvNames = map (effective_env (controller_env env run (sm_mountsJSON sm))) reservedRunnerEnvNames"
    using same by simp
  show ?thesis
    by (intro exI [of _ volumes] exI [of _ sm] exI [of _ notChecked] conjI sm in_job vals [unfolded controller_env_values])
qed

definition demo_client :: secret_client where
  "demo_client = \<lparr>scl_review = (\<lambda>k. Inr \<lparr>ssar_Allowed = True, ssar_Denied = False, ssar_Reason = [], ssar_EvaluationError = []\<rparr>),
     scl_rules = (\<lambda>ns. Inr \<lparr>ssrr_ResourceRules = [], ssrr_Incomplete = False, ssrr_EvaluationError = []\<rparr>), scl_reader = cyclic_cluster,
     scl_secret = (\<lambda>k. if k = (''n'', ''t'') then Inr \<lparr>Secret_Data = [(''k'', ''s'')], Secret_Type = ''Opaque''\<rparr> else Inl absent),
     scl_agent = rd_Agent cyclic_cluster\<rparr>"

definition demo_job_env :: job_env where
  "demo_job_env = \<lparr>je_cluster = \<lparr>sc_Client = Some demo_client, sc_APIReader = None\<rparr>, je_ControllerNamespace = ''o'',
     je_config = \<lparr>cfg_RunnerImage = [], cfg_RunnerServiceAccount = [], cfg_RunnerClusterRole = [], cfg_AgentExecutorCallerRole = [],
       cfg_RunnerConfigMapWriterRole = [], cfg_AgentExecutorCASecret = ''ca'', cfg_AgentExecutorNamespace = ''e'', cfg_SecretSourceNamespace = [],
       cfg_PrometheusURL = [], cfg_ImagePullSecrets = [], cfg_ImagePullPolicy = [], cfg_PodLabelsPartOf = [], cfg_TTLSecondsAfterFinished = 0,
       cfg_LLMCredentialsSecret = [], cfg_SecretRefAllowedNamespaces = []\<rparr>,
     je_recorder = True, je_dns1123Subdomain = (\<lambda>s. []), je_dns1123Label = (\<lambda>s. []), je_cIdentifier = (\<lambda>s. []),
     je_text = (\<lambda>raw. ''j''), je_goQuote = quote, je_carrier = [(''traceparent'', ''0'')]\<rparr>"

definition demo_job :: "RunnerJob option" where
  "demo_job = (case fst (buildWorkflowRunnerJob demo_job_env cyclic_cluster cyclic_run cyclic_main) of Inl e \<Rightarrow> None | Inr job \<Rightarrow> Some job)"

theorem reserved_env_kept_witness:
  "\<exists>job evs. buildWorkflowRunnerJob demo_job_env cyclic_cluster cyclic_run cyclic_main = (Inr job, evs) \<and>
     effective_env (rj_Env job) ''WORKFLOW_RUN_NAME'' = Some (literal_env ''WORKFLOW_RUN_NAME'' ''r'') \<and>
     effective_env (rj_Env job) ''AGENT_EXECUTOR_NAMESPACE'' = Some (literal_env ''AGENT_EXECUTOR_NAMESPACE'' ''e'')"
proof -
  have "demo_job \<noteq> None" by code_simp
  then obtain job evs where b: "buildWorkflowRunnerJob demo_job_env cyclic_cluster cyclic_run cyclic_main = (Inr job, evs)"
    unfolding demo_job_def by (metis old.sum.exhaust option.case_eq_if prod.exhaust_sel sum.case(1))
  have "set (map fst (je_carrier demo_job_env)) \<subseteq> set traceFields" by (simp add: demo_job_env_def traceFields_def)
  from reserved_env_kept [OF b this] have "effective_env (rj_Env job) ''WORKFLOW_RUN_NAME'' = Some (literal_env ''WORKFLOW_RUN_NAME'' ''r'') \<and>
     effective_env (rj_Env job) ''AGENT_EXECUTOR_NAMESPACE'' = Some (literal_env ''AGENT_EXECUTOR_NAMESPACE'' ''e'')"
    by (auto simp: reservedRunnerEnvNames_def demo_job_env_def cyclic_run_def)
  with b show ?thesis by blast
qed

subsection \<open>What the check of the mounts tells\<close>

text \<open>All that the check may depend on: whether the controller may get a Secret, and, if so, whether it exists and which keys it has.\<close>

definition secret_shape :: "Secret result \<Rightarrow> bool + string set" where
  "secret_shape r = (case r of Inl e \<Rightarrow> Inl (not_found e) | Inr secret \<Rightarrow> Inr (set (map fst (Secret_Data secret))))"

definition same_shape :: "secret_cluster \<Rightarrow> secret_cluster \<Rightarrow> object_key \<Rightarrow> bool" where
  "same_shape cl cl' k \<longleftrightarrow> (canGetSecret (sc_Client cl) k = Inr True) = (canGetSecret (sc_Client cl') k = Inr True) \<and>
     (canGetSecret (sc_Client cl) k = Inr True \<longrightarrow> secret_shape (direct_secret cl k) = secret_shape (direct_secret cl' k))"

lemma check_volume_shape:
  assumes "same_shape cl cl' (ns, SecretVolumeSource_SecretName s)"
  shows "check_volume cl ns origins copied v s = check_volume cl' ns origins copied v s"
proof (cases "canGetSecret (sc_Client cl) (ns, SecretVolumeSource_SecretName s) = Inr True")
  case False
  with assms show ?thesis by (simp add: same_shape_def check_volume_def Let_def)
next
  case True
  let ?k = "(ns, SecretVolumeSource_SecretName s)"
  from True assms have c: "canGetSecret (sc_Client cl') ?k = Inr True"
    and shape: "secret_shape (direct_secret cl ?k) = secret_shape (direct_secret cl' ?k)" by (simp_all add: same_shape_def)
  show ?thesis
  proof (cases "direct_secret cl ?k"; cases "direct_secret cl' ?k")
    fix sec sec' assume sec: "direct_secret cl ?k = Inr sec" "direct_secret cl' ?k = Inr sec'"
    with shape have "set (map fst (Secret_Data sec)) = set (map fst (Secret_Data sec'))" by (simp add: secret_shape_def)
    then have "(map_of (Secret_Data sec) k = None) = (map_of (Secret_Data sec') k = None)" for k by (simp add: map_of_eq_None_iff)
    then have "has_key (Secret_Data sec) = has_key (Secret_Data sec')" by (simp add: has_key_def fun_eq_iff del: not_None_eq)
    with True c sec show ?thesis by (simp add: check_volume_def Let_def)
  qed (use True c shape in \<open>simp_all add: check_volume_def Let_def secret_shape_def\<close>)
qed

text \<open>
  C31: The check of the minted volumes is no oracle about Secrets. Its verdict, its message and the list of what it left unchecked are the same in any two clusters
  that agree on what the controller may get and, for those Secrets only, on their existence and the names of their keys: nothing
  depends on a Secret the controller may not read, nor on the value of any key.
\<close>

theorem checkSecretMounts_no_oracle:
  assumes "\<forall>v \<in> set volumes. \<forall>s. Volume_Secret v = Some s \<longrightarrow> same_shape cl cl' (ns, SecretVolumeSource_SecretName s)"
  shows "checkSecretMounts cl ns volumes origins copied = checkSecretMounts cl' ns volumes origins copied"
  using assms
proof (induction volumes)
  case (Cons v vs)
  then show ?case using check_volume_shape by (auto split: option.split)
qed simp

definition blind_client :: secret_client where
  "blind_client = demo_client\<lparr>scl_review := (\<lambda>k. Inr \<lparr>ssar_Allowed = False, ssar_Denied = False, ssar_Reason = [], ssar_EvaluationError = []\<rparr>)\<rparr>"

theorem checkSecretMounts_no_oracle_witness:
  "checkSecretMounts \<lparr>sc_Client = Some blind_client, sc_APIReader = None\<rparr> ''n'' (sm_volumes token_mounts) (sm_origins token_mounts) [] =
   checkSecretMounts \<lparr>sc_Client = Some (blind_client\<lparr>scl_secret := \<lambda>k. Inl absent\<rparr>), sc_APIReader = None\<rparr> ''n''
     (sm_volumes token_mounts) (sm_origins token_mounts) []"
  by (rule checkSecretMounts_no_oracle) (simp add: same_shape_def canGetSecret_def blind_client_def)

text \<open>
  The specification of the check: the mandatory volumes, those whose Secret the controller can look at, and those for which it may vouch, because the
  keys are there or the Secret is still to be copied.
\<close>

definition mandatory_volumes :: "Volume list \<Rightarrow> (Volume \<times> SecretVolumeSource) list" where
  "mandatory_volumes volumes = List.map_filter (\<lambda>v. case Volume_Secret v of None \<Rightarrow> None
     | Some s \<Rightarrow> if SecretVolumeSource_Optional s = Some True then None else Some (v, s)) volumes"

definition secret_known :: "secret_cluster \<Rightarrow> object_key \<Rightarrow> bool" where
  "secret_known cl k \<longleftrightarrow> canGetSecret (sc_Client cl) k = Inr True \<and>
     (case direct_secret cl k of Inl e \<Rightarrow> not_found e | Inr secret \<Rightarrow> True)"

definition mount_vouched :: "secret_cluster \<Rightarrow> string \<Rightarrow> string list \<Rightarrow> SecretVolumeSource \<Rightarrow> bool" where
  "mount_vouched cl ns copied s = (case direct_secret cl (ns, SecretVolumeSource_SecretName s) of
     Inl e \<Rightarrow> SecretVolumeSource_SecretName s \<in> set copied
   | Inr secret \<Rightarrow> list_all (\<lambda>it. has_key (Secret_Data secret) (KeyToPath_Key it)) (SecretVolumeSource_Items s))"

lemma check_volume_unknown:
  "\<not> secret_known cl (ns, SecretVolumeSource_SecretName s) \<Longrightarrow>
   check_volume cl ns origins copied v s = Inr (Some (get_or [] origins (Volume_Name v)))"
  by (auto simp: secret_known_def check_volume_def Let_def split: sum.splits)

lemma check_volume_vouched:
  "secret_known cl (ns, SecretVolumeSource_SecretName s) \<Longrightarrow> mount_vouched cl ns copied s \<Longrightarrow>
   check_volume cl ns origins copied v s = Inr None"
  by (auto simp: secret_known_def mount_vouched_def check_volume_def Let_def find_Some_iff list_all_length split: sum.splits option.splits)

lemma check_volume_refused:
  "secret_known cl (ns, SecretVolumeSource_SecretName s) \<Longrightarrow> \<not> mount_vouched cl ns copied s \<Longrightarrow>
   \<exists>e. check_volume cl ns origins copied v s = Inl e \<and> errors_is e ErrRunnerRefUnresolved"
  by (auto simp: secret_known_def mount_vouched_def check_volume_def unresolved_def errors_is_def Let_def find_None_iff list_all_iff
      split: sum.splits option.splits)

text \<open>
  C32: The check of the minted volumes refuses a run exactly if a mandatory volume is of a Secret the controller can look at and
  that is missing, and not to be copied, or lacks a key; the error is the one that makes the run fail for good. Otherwise it returns the origins of exactly those
  mandatory volumes whose Secrets it could not look at, in order.
\<close>

theorem checkSecretMounts_exact:
  "if list_ex (\<lambda>(v, s). secret_known cl (ns, SecretVolumeSource_SecretName s) \<and> \<not> mount_vouched cl ns copied s) (mandatory_volumes volumes)
   then \<exists>e. checkSecretMounts cl ns volumes origins copied = Inl e \<and> errors_is e ErrRunnerRefUnresolved
   else checkSecretMounts cl ns volumes origins copied = Inr (map (\<lambda>(v, s). get_or [] origins (Volume_Name v))
     (filter (\<lambda>(v, s). \<not> secret_known cl (ns, SecretVolumeSource_SecretName s)) (mandatory_volumes volumes)))"
proof (induction volumes)
  case Nil
  then show ?case by (simp add: mandatory_volumes_def map_filter_simps)
next
  case (Cons v vs)
  show ?case
  proof (cases "mandatory_volumes [v]")
    case Nil
    then have "mandatory_volumes (v # vs) = mandatory_volumes vs" "checkSecretMounts cl ns (v # vs) origins copied = checkSecretMounts cl ns vs origins copied"
      by (auto simp: mandatory_volumes_def map_filter_simps split: option.splits if_splits)
    with Cons show ?thesis by simp
  next
    case (Cons p ps)
    then obtain s where s: "Volume_Secret v = Some s" "SecretVolumeSource_Optional s \<noteq> Some True"
      by (auto simp: mandatory_volumes_def map_filter_simps split: option.splits if_splits)
    then have m: "mandatory_volumes (v # vs) = (v, s) # mandatory_volumes vs" by (simp add: mandatory_volumes_def map_filter_simps)
    consider "\<not> secret_known cl (ns, SecretVolumeSource_SecretName s)" | "secret_known cl (ns, SecretVolumeSource_SecretName s)" "mount_vouched cl ns copied s"
      | "secret_known cl (ns, SecretVolumeSource_SecretName s)" "\<not> mount_vouched cl ns copied s" by blast
    then show ?thesis
    proof cases
      case 1
      from check_volume_unknown [OF this] 1 s Cons.IH show ?thesis by (auto simp: m bindr_def)
    next
      case 2
      from check_volume_vouched [OF this] 2 s Cons.IH show ?thesis by (auto simp: m bindr_def)
    next
      case 3
      from check_volume_refused [OF this, of origins v] 3 s show ?thesis by (auto simp: m bindr_def)
    qed
  qed
qed

end
