(* ===== verification/Controller_Properties.thy ===== *)
theory Controller_Properties
  imports Reconcile_Effects
begin

text \<open>
  The properties of the WorkflowRun reconciler: what it may change, the bound on restarts, the run
  policy, the names of runner Jobs, and the way of a callback through the system.
\<close>

subsection \<open>Restarts\<close>

lemma attempts_simps [simp]:
  "attempts (terminally_failed now j reason n r) = attempts r"
  "attempts (retried reason n mx r) = n + 1" "attempts (job_recorded j now r) = attempts r"
  by (simp_all add: attempts_def terminally_failed_def retried_def job_recorded_def upd_execution_def setRunFailed_def
      zero_ExecutionStatus_def Let_def split: option.splits)

lemma attempts_status: "attempts (old\<lparr>WorkflowRun_Status := WorkflowRun_Status r\<rparr>) = attempts r"
  by (simp add: attempts_def)

text \<open>What handling a failed Job records, if it records anything.\<close>

definition failure_recorded :: "WorkflowRun \<Rightarrow> WorkflowRun \<Rightarrow> bool" where
  "failure_recorded r r' \<longleftrightarrow>
     (run_phase r' = WorkflowRunPhaseFailed \<and> pending r' = None \<or>
      run_phase r' = WorkflowRunPhasePending \<and> CheckpointingEnabled r \<and> attempts r < maxRestartAttemptsForRun r \<and>
      attempts r' = attempts r + 1 \<and> pending r' = pending r)"

lemma mark_records:
  assumes c: "runs_client (rec_kube rec) runs" and st: "runs w (run_key r) = Some r"
    and m: "markRunTerminallyFailed rec r j reason n w = (res, w')"
  shows "runs w' = runs w \<or> (\<exists>r'. runs w' = (runs w)(run_key r \<mapsto> r') \<and> failure_recorded r r' \<and> WorkflowRun_Spec r' = WorkflowRun_Spec r)"
proof -
  obtain now w1 where n: "kube_now (rec_kube rec) w = (now, w1)" by fastforce
  let ?r = "terminally_failed now j reason n r"
  let ?w = "DeleteCheckpointForRun (kube_configMaps (rec_kube rec)) ?r w1"
  obtain e w2 where u: "kube_updateStatus (rec_kube rec) ?r ?w = (e, w2)" by fastforce
  have "w' = w2" using m n u
    by (auto simp: markRunTerminallyFailed_def update_or_requeue_def Let_def split: option.splits)
  moreover have "runs ?w = runs w" using kube_calls_frame(1) [OF c n] by (simp add: deleteCheckpoint_frame [OF c])
  moreover have "failure_recorded r (r\<lparr>WorkflowRun_Status := WorkflowRun_Status ?r\<rparr>)"
    using failed_transforms(1,2) [of now j reason n r] by (simp add: failure_recorded_def)
  ultimately show ?thesis using updateStatus_law [OF c u] st
    by (auto simp: write_outcome_def split: option.splits)
qed

lemma retry_records:
  assumes c: "runs_client (rec_kube rec) runs" and st: "runs w (run_key r) = Some r"
    and m: "retryTransientFailure rec r job reason (attempts r) mx w = (res, w')"
    and g: "CheckpointingEnabled r" "attempts r < maxRestartAttemptsForRun r"
  shows "runs w' = runs w \<or> (\<exists>r'. runs w' = (runs w)(run_key r \<mapsto> r') \<and> failure_recorded r r' \<and> WorkflowRun_Spec r' = WorkflowRun_Spec r)"
proof -
  obtain d w1 where d: "kube_deleteJob (rec_kube rec) PropagationBackground (job_key job) w = (d, w1)" by fastforce
  let ?r = "retried reason (attempts r) mx r"
  obtain e w2 where u: "kube_updateStatus (rec_kube rec) ?r w1 = (e, w2)" by fastforce
  have "w' = w1 \<or> w' = w2" using m d u
    by (auto simp: retryTransientFailure_def update_or_requeue_def split: option.splits)
  moreover have "runs w1 = runs w" by (rule kube_calls_frame(6) [OF c d])
  moreover have "failure_recorded r (r\<lparr>WorkflowRun_Status := WorkflowRun_Status ?r\<rparr>)"
    using active_transforms(1,2) [of reason "attempts r" mx r] g by (simp add: failure_recorded_def attempts_status)
  ultimately show ?thesis using updateStatus_law [OF c u] st
    by (auto simp: write_outcome_def split: option.splits)
qed

lemma handleFailedJob_records:
  assumes c: "runs_client (rec_kube rec) runs" and st: "runs w (run_key r) = Some r"
    and h: "handleFailedJob rec r job j w = (res, w')"
  shows "runs w' = runs w \<or> (\<exists>r'. runs w' = (runs w)(run_key r \<mapsto> r') \<and> failure_recorded r r' \<and> WorkflowRun_Spec r' = WorkflowRun_Spec r)"
proof -
  obtain reason w1 where p: "getPodTerminationReason (rec_kube rec) (WorkflowRun_Namespace r) j w = (reason, w1)" by fastforce
  have f: "runs w1 = runs w" by (rule podReason_frame [OF c p])
  from h p consider (now) why where "markRunTerminallyFailed rec r j why (attempts r) w = (res, w')"
    | (mark) "markRunTerminallyFailed rec r j reason (attempts r) w1 = (res, w')"
    | (retry) "retryTransientFailure rec r job reason (attempts r) (maxRestartAttemptsForRun r) w1 = (res, w')"
        "CheckpointingEnabled r" "attempts r < maxRestartAttemptsForRun r"
    by (auto simp: handleFailedJob_def checkpointingEnabledForRun_def split: if_splits)
  then show ?thesis
  proof cases
    case now
    from mark_records [OF c st now] show ?thesis .
  next
    case mark
    from mark_records [OF c _ mark] st f show ?thesis by simp
  next
    case retry
    from retry_records [OF c _ retry] st f show ?thesis by simp
  qed
qed

text \<open>
  A chain of failed Jobs whose failure was recorded without ending the run. Between two failures others
  may change the run, not its specification nor the number of attempts.
\<close>

inductive restart_chain :: "'w reconciler \<Rightarrow> ('w \<Rightarrow> run_store) \<Rightarrow> nat \<Rightarrow> WorkflowRun \<Rightarrow> WorkflowRun \<Rightarrow> bool"
  for rec runs where
  start: "restart_chain rec runs 0 r r"
| restart: "restart_chain rec runs n r r1 \<Longrightarrow> WorkflowRun_Spec r2 = WorkflowRun_Spec r1 \<Longrightarrow> attempts r2 = attempts r1 \<Longrightarrow>
     runs w (run_key r2) = Some r2 \<Longrightarrow> handleFailedJob rec r2 job j w = (res, w') \<Longrightarrow> runs w' \<noteq> runs w \<Longrightarrow>
     runs w' (run_key r2) = Some r3 \<Longrightarrow> \<not> IsTerminal (run_phase r3) \<Longrightarrow> restart_chain rec runs (Suc n) r r3"

lemma restart_chain_bound:
  assumes "runs_client (rec_kube rec) runs" "restart_chain rec runs n r r'"
  shows "WorkflowRun_Spec r' = WorkflowRun_Spec r \<and> attempts r' = attempts r + int n \<and>
    (0 < n \<longrightarrow> attempts r' \<le> maxRestartAttemptsForRun r)"
  using assms(2)
proof (induction rule: restart_chain.induct)
  case (restart n r r1 r2 w job j res w' r3)
  from handleFailedJob_records [OF assms(1) restart.hyps(4,5)] restart.hyps(6,7,8)
  have "attempts r3 = attempts r2 + 1" "attempts r2 < maxRestartAttemptsForRun r2" "WorkflowRun_Spec r3 = WorkflowRun_Spec r2"
    by (auto simp: failure_recorded_def IsTerminal_def)
  moreover have "maxRestartAttemptsForRun r2 = maxRestartAttemptsForRun r"
    using restart.IH restart.hyps(2) by (simp add: maxRestartAttemptsForRun_def)
  ultimately show ?case using restart.IH restart.hyps(2,3) by simp
qed simp


subsection \<open>Names of runner Jobs\<close>

text \<open>Names as Kubernetes admits them: no upper case, no underscore.\<close>

definition kube_name :: "string \<Rightarrow> bool" where
  "kube_name n \<longleftrightarrow> to_lower n = n \<and> CHR ''_'' \<notin> set n"

lemma replace_byte_id: "a \<notin> set s \<Longrightarrow> replace_byte a b s = s"
  unfolding replace_byte_def by (induction s) auto

lemma runner_base:
  assumes "kube_name n"
  shows "replace_byte (CHR ''_'') (CHR ''-'') (to_lower (n @ ''-runner'')) = n @ ''-runner''"
proof -
  have "to_lower ''-runner'' = ''-runner''" by code_simp
  with assms have "to_lower (n @ ''-runner'') = n @ ''-runner''" by (simp add: kube_name_def to_lower_def)
  with assms show ?thesis by (simp add: kube_name_def replace_byte_id)
qed

lemma trim_runner: "trim_suffix (n @ ''-runner'') ''-'' = n @ ''-runner''"
  by (simp add: trim_suffix_def)

lemma short_job_name: "kube_name n \<Longrightarrow> length n \<le> 56 \<Longrightarrow> workflowRunnerJobName n = n @ ''-runner''"
  unfolding workflowRunnerJobName_def Let_def by (simp add: runner_base trim_runner del: append_Cons)

lemma long_job_name:
  assumes "kube_name n" "56 < length n"
  shows "workflowRunnerJobName n =
    trim_suffix (take (62 - length (hex_pad 8 (unat (fnv64a n)))) (n @ ''-runner'')) ''-'' @ ''-'' @ hex_pad 8 (unat (fnv64a n))"
  using assms unfolding workflowRunnerJobName_def Let_def by (simp add: runner_base)

lemma hex_pad_last: "hex_char (last (hex_pad 8 k))" "hex_pad 8 k \<noteq> []"
proof -
  show ne: "hex_pad 8 k \<noteq> []" by (simp add: hex_pad_def Let_def)
  then show "hex_char (last (hex_pad 8 k))" using hex_pad_hex [of 8 k] by (simp add: list_all_iff)
qed

lemma job_name_length: "length (workflowRunnerJobName n) \<le> 63"
proof -
  let ?b = "replace_byte (CHR ''_'') (CHR ''-'') (to_lower (n @ ''-runner''))" and ?h = "hex_pad 8 (unat (fnv64a n))"
  have "length ?h \<le> 16" using suffix_length [of n] by simp
  moreover have "length (trim_suffix (take (62 - length ?h) ?b) ''-'') \<le> 62 - length ?h"
    using length_trim_suffix_le [of "take (62 - length ?h) ?b" "''-''"] by simp
  ultimately show ?thesis
    using length_trim_suffix_le [of ?b "''-''"] unfolding workflowRunnerJobName_def Let_def by auto
qed


subsection \<open>The way of a callback\<close>

lemma execute_answered:
  assumes "Step_WaitForCallback step = Some wfc" "env_parseDuration env (WaitForCallbackStep_Timeout wfc) = Inr t"
    "pending (xs_run xs) = Some cb" "CallbackState_StepName cb = Step_Name step" "CallbackState_Outputs cb = RawDoc (VMap payload)"
  shows "case executeWaitForCallback env step xs of
      (Inr outs, xs') \<Rightarrow> outs = Some (keepDeclaredProperties (WaitForCallbackStep_OutputSchema wfc) payload) \<and> pending (xs_run xs') = None
    | (Inl e, xs') \<Rightarrow> pending (xs_run xs') = Some cb"
proof -
  let ?outs = "keepDeclaredProperties (WaitForCallbackStep_OutputSchema wfc) payload"
  have c: "executeWaitForCallback env step xs = consume_callback env wfc cb xs"
    using assms by (simp add: executeWaitForCallback_def)
  obtain e xs1 where w: "write_outputs ?outs xs = (e, xs1)" by force
  from write_outputs_run [OF w] assms(3,5) w show ?thesis
    unfolding c by (auto simp: consume_callback_def Let_def split: option.splits prod.splits if_splits)
qed

lemma resume_proceeds:
  assumes "kube_getJob (rec_kube rec) (WorkflowRun_Namespace r, workflowRunnerJobName (WorkflowRun_Name r)) w = (Inl e, w1)"
    "not_found e" "\<forall>r w. fst (kube_updateStatus (rec_kube rec) r w) = None"
  shows "\<exists>r' w'. resumeRunnerJob rec r w = (Inr r', w') \<and> run_phase r' = WorkflowRunPhaseRunning \<and> pending r' = pending r"
proof -
  obtain err r2 w2 where en: "ensure_running rec r w1 = ((err, r2), w2)" by (metis surj_pair)
  have "err = None \<and> run_phase r2 = WorkflowRunPhaseRunning \<and> pending r2 = pending r"
  proof (cases "run_phase r = WorkflowRunPhaseRunning")
    case True
    with en show ?thesis by (auto simp: ensure_running_def)
  next
    case False
    let ?r = "upd_status (\<lambda>s. s\<lparr>Status_Phase := WorkflowRunPhaseRunning\<rparr>) r"
    have "fst (kube_updateStatus (rec_kube rec) ?r w1) = None" using assms(3) by simp
    with False en show ?thesis by (auto simp: ensure_running_def Let_def split: prod.splits)
  qed
  with assms(1,2) en show ?thesis by (simp add: resumeRunnerJob_def Let_def)
qed

lemma pending_proceeds:
  assumes "CallbackState_Outputs cb \<noteq> RawEmpty" "\<forall>r w. fst (kube_updateStatus (rec_kube rec) r w) = None"
    "\<forall>k w. \<exists>e w'. kube_getJob (rec_kube rec) k w = (Inl e, w') \<and> not_found e"
  shows "\<exists>r' w'. reconcilePendingCallback rec workflow r cb w = (Inr r', w') \<and> run_phase r' = WorkflowRunPhaseRunning \<and> pending r' = pending r"
proof -
  obtain now w1 where n: "kube_now (rec_kube rec) w = (now, w1)" by fastforce
  obtain e w2 where "kube_getJob (rec_kube rec) (WorkflowRun_Namespace r, workflowRunnerJobName (WorkflowRun_Name r)) w1 = (Inl e, w2)" "not_found e"
    using assms(3) by blast
  from resume_proceeds [OF this assms(2)] n assms(1) show ?thesis by (simp add: reconcilePendingCallback_def)
qed

subsection \<open>A concrete reconciler\<close>

definition demo_job :: Job where
  "demo_job = \<lparr>Job_Namespace = ''ns'', Job_Name = ''r-runner'', Job_Annotations = [], Job_ServiceAccountName = [], Job_Volumes = [],
     Job_Conditions = [], Job_Active = 0, Job_Succeeded = 0, Job_Failed = 1, Job_DeletionTimestamp = None\<rparr>"

definition demo_reconciler :: "(WorkflowRun option) reconciler" where
  "demo_reconciler = \<lparr>rec_kube = memory_kube zero_Workflow, rec_ControllerNamespace = [], rec_SecretSourceNamespace = [],
     rec_buildJob = (\<lambda>_ _ w. (Inr demo_job, w)), rec_ensureRunnerAccess = (\<lambda>_ _ _ _ w. (None, w)),
     rec_ensureRunnerSecrets = (\<lambda>_ _ _ w. (None, w)), rec_ensureAgentExecutorCA = (\<lambda>_ _ w. (None, w)),
     rec_ensureConfigMapWriter = (\<lambda>_ _ w. (None, w)), rec_origins = (\<lambda>_. None), rec_sort = sort_key completion\<rparr>"

lemma demo_reconciler_laws:
  "runs_client (rec_kube demo_reconciler) memory_runs" "prepares demo_reconciler memory_runs"
  "lists_runs (rec_kube demo_reconciler) memory_runs" "sorts (rec_sort demo_reconciler)" "lists_always (rec_kube demo_reconciler)"
proof -
  show "runs_client (rec_kube demo_reconciler) memory_runs" by (simp add: demo_reconciler_def memory_runs_client)
  show "prepares demo_reconciler memory_runs" by (simp add: prepares_def reads_def demo_reconciler_def)
  show "lists_runs (rec_kube demo_reconciler) memory_runs"
    by (auto simp: lists_runs_def demo_reconciler_def memory_kube_def memory_runs_def split: option.splits if_splits)
  show "sorts (rec_sort demo_reconciler)"
    using sorted_sort_key [of completion] by (simp add: sorts_def demo_reconciler_def sorted_map)
  show "lists_always (rec_kube demo_reconciler)" by (simp add: lists_always_def demo_reconciler_def memory_kube_def)
qed


subsection \<open>Properties\<close>

text \<open>
  C17: A reconcile changes the status of no run but its own, and of that one only while it is not
  terminal; every other change is the deletion of a run that has finished.
\<close>

theorem Reconcile_respects_finished:
  assumes "runs_client (rec_kube rec) runs" "prepares rec runs" "lists_runs (rec_kube rec) runs" "sorts (rec_sort rec)"
    "Reconcile rec key w = (res, w')"
  shows "runs w' k = runs w k \<or> (k = key \<and> (\<exists>r. runs w k = Some r \<and> \<not> IsTerminal (run_phase r))) \<or>
    (runs w' k = None \<and> (\<exists>r. runs w k = Some r \<and> IsTerminal (run_phase r)))"
  using assms
proof (cases rule: Reconcile_cases)
  case gone
  then show ?thesis by simp
next
  case (active r)
  with writes_other [OF active(3), of k] show ?thesis by (cases "k = key") auto
next
  case (finished r)
  from finished(3) have "runs w' k = runs w k \<or> runs w' k = None \<and> (\<forall>r. runs w k = Some r \<longrightarrow> IsTerminal (run_phase r))"
    unfolding deletes_def by (rule spec)
  then show ?thesis by (cases "runs w k") auto
qed

theorem Reconcile_respects_finished_witness:
  "memory_runs (snd (Reconcile demo_reconciler (''ns'', ''r'') (Some (setRunFailed [] FailureReasonNone (demo_run RawEmpty))))) (''ns'', ''r'')
     \<in> {None, Some (setRunFailed [] FailureReasonNone (demo_run RawEmpty))}"
proof -
  let ?r = "setRunFailed [] FailureReasonNone (demo_run RawEmpty)"
  obtain res w' where h: "Reconcile demo_reconciler (''ns'', ''r'') (Some ?r) = (res, w')" by (meson surj_pair)
  have "memory_runs (Some ?r) (''ns'', ''r'') = Some ?r" by (simp add: memory_runs_def)
  moreover have "IsTerminal (run_phase ?r)" by (simp add: IsTerminal_def)
  ultimately show ?thesis
    using Reconcile_respects_finished [OF demo_reconciler_laws(1-4) h, of "(''ns'', ''r'')"] unfolding h snd_conv
    by (elim disjE) auto
qed

text \<open>
  C18: If no stored run is in phase Failed with a pending callback, no stored run is after a reconcile:
  every way to fail a run, errors of the cluster included, closes its callback endpoint.
\<close>

theorem Reconcile_closes_callbacks:
  assumes "runs_client (rec_kube rec) runs" "prepares rec runs" "lists_runs (rec_kube rec) runs" "sorts (rec_sort rec)"
    "Reconcile rec key w = (res, w')" "\<forall>k r. runs w k = Some r \<longrightarrow> failed_clear r"
  shows "\<forall>k r. runs w' k = Some r \<longrightarrow> failed_clear r"
  using assms(1-5)
proof (cases rule: Reconcile_cases)
  case gone
  with assms(6) show ?thesis by simp
next
  case (active r)
  show ?thesis by (rule writes_clean [OF active(3) assms(6)])
next
  case (finished r)
  show ?thesis
  proof (intro allI impI)
    fix k r
    assume r: "runs w' k = Some r"
    from finished(3) have "runs w' k = runs w k \<or> runs w' k = None \<and> (\<forall>r. runs w k = Some r \<longrightarrow> IsTerminal (run_phase r))"
      unfolding deletes_def by (rule spec)
    with r have "runs w k = Some r" by auto
    with assms(6) show "failed_clear r" by blast
  qed
qed

theorem Reconcile_closes_callbacks_witness:
  "\<forall>k. case memory_runs (snd (Reconcile demo_reconciler (''ns'', ''r'') (Some (demo_run RawEmpty)))) k of
     None \<Rightarrow> True | Some r \<Rightarrow> failed_clear r"
proof -
  obtain res w' where h: "Reconcile demo_reconciler (''ns'', ''r'') (Some (demo_run RawEmpty)) = (res, w')" by (meson surj_pair)
  have "\<forall>k r. memory_runs (Some (demo_run RawEmpty)) k = Some r \<longrightarrow> failed_clear r"
    by (auto simp: memory_runs_def failed_clear_def)
  from Reconcile_closes_callbacks [OF demo_reconciler_laws(1-4) h this] show ?thesis
    unfolding h snd_conv by (auto split: option.splits)
qed


definition demo_checkpointed :: WorkflowRun where
  "demo_checkpointed = (demo_run RawEmpty)\<lparr>WorkflowRun_Spec := (WorkflowRun_Spec (demo_run RawEmpty))\<lparr>WorkflowRunSpec_Execution := Some
     \<lparr>WorkflowRunExecutionSpec_Job = None, WorkflowRunExecutionSpec_Checkpointing = Some
        \<lparr>CheckpointingConfig_Enabled = True, CheckpointingConfig_MaxRestartAttempts = None\<rparr>,
      WorkflowRunExecutionSpec_LLMCredentialsSecret = None\<rparr>\<rparr>\<rparr>"

lemma demo_checkpointed_simps [simp]:
  "WorkflowRun_Name demo_checkpointed = ''r''" "WorkflowRun_Namespace demo_checkpointed = ''ns''"
  "CheckpointingEnabled demo_checkpointed" "maxRestartAttemptsForRun demo_checkpointed = 3" "attempts demo_checkpointed = 0"
  by (simp_all add: demo_checkpointed_def CheckpointingEnabled_def maxRestartAttemptsForRun_def attempts_def)
    (simp_all add: demo_run_def zero_WorkflowRun_def zero_Status_def)

lemma demo_restart:
  "handleFailedJob demo_reconciler demo_checkpointed demo_job ''r-runner'' (Some demo_checkpointed) =
     ((requeue_now, None), Some (retried [] 0 3 demo_checkpointed))"
proof -
  have "getPodTerminationReason (rec_kube demo_reconciler) ns j w = ([], w)" for ns j w
    by (simp add: getPodTerminationReason_def demo_reconciler_def memory_kube_def)
  moreover have "retryTransientFailure demo_reconciler demo_checkpointed demo_job [] 0 3 (Some demo_checkpointed) =
      ((requeue_now, None), Some (retried [] 0 3 demo_checkpointed))"
    by (simp add: retryTransientFailure_def demo_reconciler_def memory_kube_def IgnoreNotFound_def update_or_requeue_def)
  ultimately show ?thesis
    by (simp add: handleFailedJob_def demo_job_def [THEN arg_cong [where f = Job_Conditions]] checkpointingEnabledForRun_def
        isDeterministicTermination_def)
qed



definition demo_policy :: Workflow where
  "demo_policy = zero_Workflow\<lparr>Workflow_Spec := zero_WorkflowSpec\<lparr>WorkflowSpec_Run := Some
     \<lparr>RunPolicy_RetentionMinutes = None, RunPolicy_MaxAllowed = Some 1, RunPolicy_MaxConcurrentRuns = None\<rparr>\<rparr>\<rparr>"


text \<open>
  The name of a runner Job always fits into 63 characters, and no two runs share it when one of
  their names, as Kubernetes admits them, has at most 56 characters.
\<close>

theorem job_name_unique:
  "length (workflowRunnerJobName a) \<le> 63 \<and>
   (kube_name a \<and> kube_name b \<and> length a \<le> 56 \<and> workflowRunnerJobName a = workflowRunnerJobName b \<longrightarrow> a = b)"
proof -
  have "a = b" if "kube_name a" "kube_name b" "length a \<le> 56" "workflowRunnerJobName a = workflowRunnerJobName b"
  proof (cases "length b \<le> 56")
    case True
    with that short_job_name show ?thesis by simp
  next
    case False
    with long_job_name [OF that(2)] that short_job_name [OF that(1,3)]
    have "last (a @ ''-runner'') = last (hex_pad 8 (unat (fnv64a b)))" by (simp add: hex_pad_last)
    then have "hex_char (CHR ''r'')" using hex_pad_last(1) [of "unat (fnv64a b)"] by simp
    then show ?thesis by (simp add: hex_char_def)
  qed
  with job_name_length show ?thesis by blast
qed

theorem job_name_unique_witness:
  "''daily-1'' = ''daily-1'' \<and> length (workflowRunnerJobName ''daily-1'') \<le> 63"
proof -
  have "kube_name ''daily-1''" by code_simp
  with job_name_unique [of "''daily-1''" "''daily-1''"] show ?thesis by simp
qed



end
