(* ===== verification/Trigger_Registry.thy ===== *)
theory Trigger_Registry
  imports Event_Triggers
begin

text \<open>
  The states the trigger manager can reach, and what holds in them: the cron engine fires exactly what is
  registered, every goroutine that watches objects belongs to a registered trigger and can be stopped.
\<close>

subsection \<open>Watchers\<close>

definition resource_key :: "string \<Rightarrow> nat \<Rightarrow> string" where
  "resource_key key i = key @ ''-resource-'' @ utoa i"

lemma resource_key_unique: "resource_key k i = resource_key k' j \<longleftrightarrow> k = k' \<and> i = j"
  using digit_suffix_unique [of k "''-resource''" "utoa i" k' "utoa j"] by (auto simp: resource_key_def)

lemma resource_key_of_key [simp]: "resource_key_of key (resource_key key i)"
proof -
  have "cut_prefix (key @ ''-resource-'' @ utoa i) (key @ ''-resource-'') = Some (utoa i)" by (simp add: cut_prefix_Some)
  then show ?thesis by (simp add: resource_key_of_def resource_key_def)
qed

text \<open>A goroutine under a context number, and the handle with which it is stopped.\<close>

definition handled :: "'c TriggerManager \<Rightarrow> string \<Rightarrow> nat \<Rightarrow> nat \<Rightarrow> bool" where
  "handled tm key i ctx \<longleftrightarrow> map_of (tm_stopCancels tm) (resource_key key i) = Some ctx \<and> watcher_view tm (resource_key key i) \<noteq> None"

definition watches_ok :: "'c TriggerManager \<Rightarrow> bool" where
  "watches_ok tm \<longleftrightarrow> (\<forall>ctx key workflow spec. (ctx, key, workflow, spec) \<in> set (tm_goroutines tm) \<longrightarrow>
     (\<exists>i. handled tm key i ctx) \<and> watched tm key = Some (workflow, spec))"

lemma watches_okD:
  assumes "watches_ok tm" "(ctx, key, workflow, spec) \<in> set (tm_goroutines tm)"
  obtains i where "handled tm key i ctx" "watched tm key = Some (workflow, spec)"
  using assms unfolding watches_ok_def by blast

lemma stop_watcher_handled:
  assumes "handled tm key i ctx" "g \<in> set (tm_goroutines (stop_watcher k tm))" "fst g = ctx"
  shows "handled (stop_watcher k tm) key i ctx" "g \<in> set (tm_goroutines tm)"
proof -
  show "g \<in> set (tm_goroutines tm)"
    using assms(2) by (auto simp: stop_watcher_def Let_def AList.delete_eq split: option.splits)
  have "resource_key key i \<noteq> k"
  proof
    assume "resource_key key i = k"
    with assms(1) have "tm_goroutines (stop_watcher k tm) = AList.delete ctx (tm_goroutines tm)"
      by (simp add: handled_def stop_watcher_def Let_def)
    with assms(2,3) show False by (auto simp: AList.delete_eq)
  qed
  with assms(1) show "handled (stop_watcher k tm) key i ctx"
    by (auto simp: handled_def watcher_view_def stop_watcher_def Let_def split: option.splits)
qed

lemma watched_stop [simp]: "watched (stop_watcher k tm) = watched tm" "watched (stopWatchersForKey key tm) = watched tm"
  by (auto simp: watched_def)

lemma stop_watcher_ok:
  assumes "watches_ok tm"
  shows "watches_ok (stop_watcher k tm)"
  unfolding watches_ok_def
proof (intro allI impI conjI)
  fix ctx key workflow spec
  assume g: "(ctx, key, workflow, spec) \<in> set (tm_goroutines (stop_watcher k tm))"
  then have "(ctx, key, workflow, spec) \<in> set (tm_goroutines tm)" by (auto simp: stop_watcher_def Let_def AList.delete_eq split: option.splits)
  from watches_okD [OF assms this] obtain i where i: "handled tm key i ctx" "watched tm key = Some (workflow, spec)" .
  from stop_watcher_handled(1) [OF i(1) g] i(2)
  show "\<exists>i. handled (stop_watcher k tm) key i ctx" "watched (stop_watcher k tm) key = Some (workflow, spec)" by auto
qed

text \<open>Stopping the watchers of a key leaves none of its goroutines.\<close>

definition quiet :: "string \<Rightarrow> 'c TriggerManager \<Rightarrow> bool" where
  "quiet key tm \<longleftrightarrow> (\<forall>ctx k workflow spec. (ctx, k, workflow, spec) \<in> set (tm_goroutines tm) \<longrightarrow> k \<noteq> key)"

lemma stopWatchersForKey_ok:
  assumes "watches_ok tm"
  shows "watches_ok (stopWatchersForKey key tm)" "quiet key (stopWatchersForKey key tm)"
proof -
  show ok: "watches_ok (stopWatchersForKey key tm)"
    unfolding stopWatchersForKey_def
    by (rule fold_invariant [where Q = "\<lambda>_. True" and P = watches_ok]) (simp_all add: assms stop_watcher_ok)
  show "quiet key (stopWatchersForKey key tm)"
    unfolding quiet_def
  proof (intro allI impI notI)
    fix ctx k workflow spec
    assume "(ctx, k, workflow, spec) \<in> set (tm_goroutines (stopWatchersForKey key tm))" "k = key"
    then have "(ctx, key, workflow, spec) \<in> set (tm_goroutines (stopWatchersForKey key tm))" by simp
    from watches_okD [OF ok this] obtain i where "handled (stopWatchersForKey key tm) key i ctx" .
    then have "watcher_view (stopWatchersForKey key tm) (resource_key key i) \<noteq> None" by (simp add: handled_def)
    then show False by (simp add: stopWatchersForKey_def watchers.prune_view)
  qed
qed

lemma unregisterEventTrigger_ok:
  assumes "watches_ok tm"
  shows "watches_ok (unregisterEventTrigger key tm)" "quiet key (unregisterEventTrigger key tm)"
proof -
  let ?s = "stopWatchersForKey key tm"
  note s = stopWatchersForKey_ok [OF assms, of key]
  have same: "tm_goroutines (unregisterEventTrigger key tm) = tm_goroutines ?s" "handled (unregisterEventTrigger key tm) = handled ?s"
    by (simp_all add: unregisterEventTrigger_def Let_def handled_def watcher_view_def fun_eq_iff)
  then show "quiet key (unregisterEventTrigger key tm)" using s(2) by (simp add: quiet_def)
  have "watched (unregisterEventTrigger key tm) k = watched ?s k" if "k \<noteq> key" for k
    using that by (simp add: events.remove_view)
  with s same show "watches_ok (unregisterEventTrigger key tm)"
    unfolding watches_ok_def quiet_def by metis
qed

text \<open>The loop over the resources of a trigger: so far only numbers below \<open>n\<close> are used.\<close>

definition watching :: "string \<Rightarrow> nat \<Rightarrow> Workflow \<times> EventTrigger \<Rightarrow> 'c TriggerManager \<Rightarrow> bool" where
  "watching key n entry tm \<longleftrightarrow> watches_ok tm \<and> watched tm key = Some entry \<and>
     (\<forall>ctx workflow spec. (ctx, key, workflow, spec) \<in> set (tm_goroutines tm) \<longrightarrow> (\<exists>i<n. handled tm key i ctx))"

lemma watchingI:
  assumes "\<And>ctx k wfl sp. (ctx, k, wfl, sp) \<in> set (tm_goroutines tm) \<Longrightarrow> (\<exists>i. handled tm k i ctx \<and> (k = key \<longrightarrow> i < n)) \<and> watched tm k = Some (wfl, sp)"
    and "watched tm key = Some entry"
  shows "watching key n entry tm"
  unfolding watching_def watches_ok_def
  by (intro conjI allI impI) (use assms in blast)+

lemma watchingD:
  assumes "watching key n entry tm" "(ctx, k, wfl, sp) \<in> set (tm_goroutines tm)"
  shows "(\<exists>i. handled tm k i ctx \<and> (k = key \<longrightarrow> i < n)) \<and> watched tm k = Some (wfl, sp)"
  using assms unfolding watching_def watches_ok_def by blast

lemma start_watch_handled:
  "(k, i) \<noteq> (key, n) \<Longrightarrow> handled tm k i ctx \<Longrightarrow> handled (start_watch (resource_key key n) key workflow spec watcher tm) k i ctx"
  "handled (start_watch (resource_key key n) key workflow spec watcher tm) key n (tm_nextContext tm)"
  by (auto simp: handled_def start_watch_def watcher_view_def resource_key_unique)

lemma start_watch_watching:
  assumes "watching key n (workflow, spec) tm"
  shows "watching key (Suc n) (workflow, spec) (start_watch (resource_key key n) key workflow spec watcher tm)" (is "watching _ _ _ ?tm")
proof (rule watchingI)
  have v: "watched ?tm = watched tm" by (auto simp: watched_def start_watch_def)
  then show here: "watched ?tm key = Some (workflow, spec)" using assms by (simp add: watching_def)
  fix ctx k wfl sp
  assume "(ctx, k, wfl, sp) \<in> set (tm_goroutines ?tm)"
  then consider "(ctx, k, wfl, sp) = (tm_nextContext tm, key, workflow, spec)" | "(ctx, k, wfl, sp) \<in> set (tm_goroutines tm)"
    by (auto simp: start_watch_def)
  then show "(\<exists>i. handled ?tm k i ctx \<and> (k = key \<longrightarrow> i < Suc n)) \<and> watched ?tm k = Some (wfl, sp)"
  proof cases
    case 1
    with here start_watch_handled(2) [of key n workflow spec watcher tm] show ?thesis by blast
  next
    case 2
    from watchingD [OF assms 2] obtain i where i: "handled tm k i ctx" "k = key \<longrightarrow> i < n" "watched tm k = Some (wfl, sp)" by blast
    then have "(k, i) \<noteq> (key, n)" by auto
    from start_watch_handled(1) [OF this i(1)] i(2,3) v show ?thesis by (metis less_SucI)
  qed
qed

lemma watching_Suc: "watching key n entry tm \<Longrightarrow> watching key (Suc n) entry tm"
  unfolding watching_def by (blast intro: less_SucI)

lemma watch_resources_watching:
  "watch_resources lib key workflow spec n rs err tm w = (e, tm', w') \<Longrightarrow> watching key n (workflow, spec) tm \<Longrightarrow>
     \<exists>m. watching key m (workflow, spec) tm'"
proof (induction rs arbitrary: n err tm w)
  case (Cons r rs)
  obtain e1 tm1 w1 where one: "watchResource lib (key @ ''-resource-'' @ utoa n) key workflow r spec tm w = (e1, tm1, w1)"
    by (metis prod_cases3)
  then have "tm1 = tm \<or> (\<exists>watcher. tm1 = start_watch (resource_key key n) key workflow spec watcher tm)"
    by (auto simp: watchResource_def resource_key_def split: sum.splits prod.splits)
  with watching_Suc [OF Cons.prems(2)] start_watch_watching [OF Cons.prems(2)] have next1: "watching key (Suc n) (workflow, spec) tm1" by blast
  from Cons.prems(1) one consider "watch_resources lib key workflow spec (Suc n) rs err tm w = (e, tm', w')"
    | "watch_resources lib key workflow spec (Suc n) rs e1 tm1 w1 = (e, tm', w')"
    by (auto split: if_splits)
  then show ?case using Cons.IH watching_Suc [OF Cons.prems(2)] next1 by cases blast+
qed auto

lemma registerEventTrigger_ok:
  assumes "watches_ok tm" "registerEventTrigger lib key workflow spec tm w = (e, tm', w')"
  shows "watches_ok tm'"
proof -
  define tm1 where "tm1 = stopWatchersForKey key tm"
  define tm2 where "tm2 = tm1\<lparr>tm_eventWorkflowMap := AList.update key workflow (tm_eventWorkflowMap tm1),
      tm_eventSpecMap := AList.update key spec (tm_eventSpecMap tm1)\<rparr>"
  have ok: "watches_ok tm1" "quiet key tm1" unfolding tm1_def by (rule stopWatchersForKey_ok [OF assms(1)])+
  have same: "tm_goroutines tm2 = tm_goroutines tm1" "handled tm2 = handled tm1" "watched tm2 = (watched tm1)(key \<mapsto> (workflow, spec))"
    by (auto simp: tm2_def handled_def watcher_view_def watched_def fun_eq_iff)
  have "watching key 0 (workflow, spec) tm2"
  proof (rule watchingI)
    fix ctx k wfl sp
    assume g: "(ctx, k, wfl, sp) \<in> set (tm_goroutines tm2)"
    then have "k \<noteq> key" "(\<exists>i. handled tm1 k i ctx) \<and> watched tm1 k = Some (wfl, sp)"
      using ok same(1) unfolding quiet_def watches_ok_def by metis+
    then show "(\<exists>i. handled tm2 k i ctx \<and> (k = key \<longrightarrow> i < 0)) \<and> watched tm2 k = Some (wfl, sp)" using same by simp
  qed (simp add: same)
  moreover have "watch_resources lib key workflow spec 0 (EventTrigger_Resources spec) None tm2 w = (e, tm', w')"
    using assms(2) by (simp add: registerEventTrigger_def tm1_def tm2_def Let_def)
  ultimately show ?thesis using watch_resources_watching unfolding watching_def by metis
qed

subsection \<open>Pruning\<close>

lemma prune_events_keep: "tm_scheduler (prune_events wk ts tm) = tm_scheduler tm"
  unfolding prune_events_def by (rule fold_keep) (simp add: unregisterEventTrigger_def Let_def)

lemma prune_events_ok: "watches_ok tm \<Longrightarrow> watches_ok (prune_events wk ts tm)"
  unfolding prune_events_def
  by (rule fold_invariant [where Q = "\<lambda>_. True" and P = watches_ok]) (simp_all add: unregisterEventTrigger_ok(1))

lemma prune_crons_ok: "cron_engine eng fired_by \<Longrightarrow> schedules_ok fired_by s \<Longrightarrow> schedules_ok fired_by (prune_crons eng wk ts s)"
  unfolding prune_crons_def
  by (rule fold_invariant [where Q = "\<lambda>_. True" and P = "schedules_ok fired_by"]) (simp_all add: RemoveSchedule_ok)

lemma pruneTriggers_scheduler [simp]:
  "tm_scheduler (pruneTriggers eng wk ts tm) = map_option (prune_crons eng wk ts) (tm_scheduler tm)"
  by (simp add: pruneTriggers_def Let_def prune_events_keep)

lemma pruneTriggers_watched:
  "watched (pruneTriggers eng wk ts tm) k =
     (if staleTriggerKey k (wk @ ''-event-'') ts (\<lambda>t. Trigger_Event t \<noteq> None) then None else watched tm k)"
proof -
  have "watched (pruneTriggers eng wk ts tm) = watched (prune_events wk ts tm)" by (auto simp: pruneTriggers_def Let_def watched_def)
  then show ?thesis by (simp add: prune_events_def events.prune_view)
qed

lemma prune_crons_scheduled:
  "scheduled (prune_crons eng wk ts s) k =
     (if staleTriggerKey k (wk @ ''-cron-'') ts (\<lambda>t. Trigger_Cron t \<noteq> None) then None else scheduled s k)"
  by (simp add: prune_crons_def schedules.prune_view)

lemma watched_cong: "tm_eventWorkflowMap tm' = tm_eventWorkflowMap tm \<Longrightarrow> tm_eventSpecMap tm' = tm_eventSpecMap tm \<Longrightarrow> watched tm' = watched tm"
  by (rule ext) (simp add: watched_def)

lemma watches_ok_cong:
  "tm_goroutines tm' = tm_goroutines tm \<Longrightarrow> tm_stopCancels tm' = tm_stopCancels tm \<Longrightarrow> tm_eventWatchers tm' = tm_eventWatchers tm \<Longrightarrow>
   tm_eventWorkflowMap tm' = tm_eventWorkflowMap tm \<Longrightarrow> tm_eventSpecMap tm' = tm_eventSpecMap tm \<Longrightarrow> watches_ok tm' = watches_ok tm"
  by (simp add: watches_ok_def handled_def watcher_view_def watched_def)

lemma pruneTriggers_ok: "watches_ok tm \<Longrightarrow> watches_ok (pruneTriggers eng wk ts tm)"
  using prune_events_ok [of tm wk ts] watches_ok_cong [of "pruneTriggers eng wk ts tm" "prune_events wk ts tm"]
  by (simp add: pruneTriggers_def Let_def)

subsection \<open>Reachable states\<close>

text \<open>Every entry is under a key of some workflow's trigger.\<close>

definition named :: "(string \<Rightarrow> nat \<Rightarrow> string) \<Rightarrow> (string \<Rightarrow> 'v option) \<Rightarrow> bool" where
  "named key V \<longleftrightarrow> (\<forall>k. V k \<noteq> None \<longrightarrow> (\<exists>wk i. k = key wk i))"

lemma named_upd: "named key V \<Longrightarrow> named key (V(key wk i := v))"
  by (auto simp: named_def)

lemma named_sub: "named key V \<Longrightarrow> (\<And>k. V' k \<noteq> None \<Longrightarrow> V k \<noteq> None) \<Longrightarrow> named key V'"
  unfolding named_def by blast

definition manager_ok :: "('c \<Rightarrow> nat \<Rightarrow> (string \<times> string) option) \<Rightarrow> 'c TriggerManager \<Rightarrow> bool" where
  "manager_ok fired_by tm \<longleftrightarrow> watches_ok tm \<and> named event_key (watched tm) \<and>
     (\<exists>s. tm_scheduler tm = Some s \<and> schedules_ok fired_by s \<and> named cron_key (scheduled s))"

inductive managed :: "'w trigger_lib \<Rightarrow> 'c cron \<Rightarrow> 'c \<Rightarrow> 'c TriggerManager \<Rightarrow> bool" for lib eng engine where
  new: "managed lib eng engine (NewTriggerManager (Some (NewScheduler engine)))"
| start: "managed lib eng engine tm \<Longrightarrow> managed lib eng engine (tm\<lparr>tm_scheduler := map_option StartScheduler (tm_scheduler tm)\<rparr>)"
| scope: "managed lib eng engine tm \<Longrightarrow> managed lib eng engine (SetEventTriggerAllowedNamespaces ns tm)"
| register: "managed lib eng engine tm \<Longrightarrow> RegisterWorkflow lib eng workflow tm w = (e, tm', w') \<Longrightarrow> managed lib eng engine tm'"
| unregister: "managed lib eng engine tm \<Longrightarrow> managed lib eng engine (pruneTriggers eng wk [] tm)"
| fire: "managed lib eng engine tm \<Longrightarrow> managed lib eng engine (tm\<lparr>tm_dedupState := st\<rparr>)"

lemma pruneTriggers_manager_ok:
  assumes "cron_engine eng fired_by" "manager_ok fired_by tm"
  shows "manager_ok fired_by (pruneTriggers eng wk ts tm)"
proof -
  from assms(2) obtain s where s: "watches_ok tm" "named event_key (watched tm)" "tm_scheduler tm = Some s"
    "schedules_ok fired_by s" "named cron_key (scheduled s)" unfolding manager_ok_def by blast
  moreover have "named cron_key (scheduled (prune_crons eng wk ts s))"
    by (rule named_sub [OF s(5)]) (simp add: prune_crons_scheduled split: if_splits)
  moreover have "named event_key (watched (pruneTriggers eng wk ts tm))"
    by (rule named_sub [OF s(2)]) (simp add: pruneTriggers_watched split: if_splits)
  ultimately show ?thesis using pruneTriggers_ok prune_crons_ok [OF assms(1)] unfolding manager_ok_def by auto
qed

lemma manager_ok_cong:
  "tm_goroutines tm' = tm_goroutines tm \<Longrightarrow> tm_stopCancels tm' = tm_stopCancels tm \<Longrightarrow> tm_eventWatchers tm' = tm_eventWatchers tm \<Longrightarrow>
   tm_eventWorkflowMap tm' = tm_eventWorkflowMap tm \<Longrightarrow> tm_eventSpecMap tm' = tm_eventSpecMap tm \<Longrightarrow>
   tm_scheduler tm' = tm_scheduler tm \<Longrightarrow> manager_ok fired_by tm' = manager_ok fired_by tm"
  using watches_ok_cong [of tm' tm] watched_cong [of tm' tm] by (simp add: manager_ok_def)

lemma register_cron_manager_ok:
  assumes "cron_engine eng fired_by" "manager_ok fired_by tm" "register_cron eng wk i workflow t tm = (e, tm')"
  shows "manager_ok fired_by tm'"
proof (cases "Trigger_Cron t")
  case None
  with assms(2,3) show ?thesis by (simp add: register_cron_def)
next
  case (Some spec)
  from assms(2) obtain s where s: "watches_ok tm" "named event_key (watched tm)" "tm_scheduler tm = Some s"
    "schedules_ok fired_by s" "named cron_key (scheduled s)" unfolding manager_ok_def by blast
  obtain s1 where a: "AddSchedule eng (cron_key wk i) workflow spec s = (e, s1)" and tm': "tm' = tm\<lparr>tm_scheduler := Some s1\<rparr>"
    using assms(3) Some s(3) by (auto simp: register_cron_def split: prod.splits)
  have "watches_ok tm'" "watched tm' = watched tm" using s(1) tm' watches_ok_cong [of tm' tm] watched_cong [of tm' tm] by auto
  moreover have "schedules_ok fired_by s1" by (rule AddSchedule_ok [OF assms(1) s(4) a])
  moreover have "named cron_key (scheduled s1)" unfolding scheduled_AddSchedule [OF a] by (rule named_upd [OF s(5)])
  ultimately show ?thesis using s(2) tm' unfolding manager_ok_def by auto
qed

lemma register_event_manager_ok:
  assumes "manager_ok fired_by tm" "register_event lib wk i workflow t tm w = (e, tm', w')"
  shows "manager_ok fired_by tm'"
proof (cases "Trigger_Event t")
  case None
  with assms show ?thesis by (simp add: register_event_def)
next
  case (Some spec)
  with assms(2) have r: "registerEventTrigger lib (event_key wk i) workflow spec tm w = (e, tm', w')" by (simp add: register_event_def)
  from assms(1) registerEventTrigger_ok [OF _ r] have "watches_ok tm'" by (simp add: manager_ok_def)
  moreover have "named event_key (watched tm')"
    using assms(1) named_upd unfolding registerEventTrigger_view(1) [OF r] manager_ok_def by blast
  ultimately show ?thesis using assms(1) registerEventTrigger_view(2) [OF r] unfolding manager_ok_def by simp
qed

lemma register_triggers_manager_ok:
  assumes "cron_engine eng fired_by" "manager_ok fired_by tm" "register_triggers lib eng workflow i ts tm w = (e, tm', w')"
  shows "manager_ok fired_by tm'"
  using assms(2,3)
proof (induction ts arbitrary: i tm w)
  case (Cons t ts)
  let ?wk = "workflow_key workflow"
  obtain e1 tm1 where c: "register_cron eng ?wk i workflow t tm = (e1, tm1)" by force
  note one = register_cron_manager_ok [OF assms(1) Cons.prems(1) c]
  obtain e2 tm2 w2 where ev: "register_event lib ?wk i workflow t tm1 w = (e2, tm2, w2)" by (metis prod_cases3)
  note two = register_event_manager_ok [OF one ev]
  from Cons.prems(2) c ev consider "tm' = tm1" | "tm' = tm2" | "register_triggers lib eng workflow (Suc i) ts tm2 w2 = (e, tm', w')"
    by (auto split: option.splits)
  then show ?case using one two Cons.IH [OF two] by cases simp_all
qed auto

lemma managed_ok:
  assumes "cron_engine eng fired_by" "fired_by engine = (\<lambda>i. None)" "managed lib eng engine tm"
  shows "manager_ok fired_by tm"
  using assms(3)
proof induction
  case new
  then show ?case using assms(2)
    by (simp add: manager_ok_def NewTriggerManager_def NewScheduler_def watches_ok_def watched_def named_def schedules_ok_def scheduled_def)
next
  case (start tm)
  let ?tm = "tm\<lparr>tm_scheduler := map_option StartScheduler (tm_scheduler tm)\<rparr>"
  have "scheduled (StartScheduler s) = scheduled s" "schedules_ok fired_by (StartScheduler s) = schedules_ok fired_by s" for s
    by (auto simp: StartScheduler_def scheduled_def schedules_ok_def)
  with start(2) show ?case using watches_ok_cong [of ?tm tm] watched_cong [of ?tm tm] by (auto simp: manager_ok_def)
next
  case (scope tm ns)
  then show ?case using manager_ok_cong [of "SetEventTriggerAllowedNamespaces ns tm" tm] by (simp add: SetEventTriggerAllowedNamespaces_def)
next
  case (register tm workflow w e tm' w')
  from register_triggers_manager_ok [OF assms(1) pruneTriggers_manager_ok [OF assms(1) register(3)] register(2) [unfolded RegisterWorkflow_def Let_def]]
  show ?case .
next
  case (unregister tm wk)
  show ?case by (rule pruneTriggers_manager_ok [OF assms(1) unregister(2)])
next
  case (fire tm st)
  then show ?case using manager_ok_cong [of "tm\<lparr>tm_dedupState := st\<rparr>" tm] by simp
qed

end
