(* ===== verification/Trigger_Fires.thy ===== *)
theory Trigger_Fires
  imports Event_Triggers
begin

text \<open>
  How the trigger manager (\<^verbatim>\<open>controller/trigger_manager.go\<close>) creates a run for an event of a watched object and
  for a webhook request: \<^verbatim>\<open>CreateWorkflowRunFromEvent\<close>, \<^verbatim>\<open>CreateWorkflowRunFromWebhook\<close> and what they call.

  The programs that \<^verbatim>\<open>evaluateTriggerCEL\<close> caches are functions of the expression, so the cache is not part of
  the state. \<^verbatim>\<open>time.Since\<close> of the zero time saturates at the longest duration. Random bytes come
  from the world, like the time.
\<close>

subsection \<open>Expressions and deduplication keys\<close>

definition evaluateTriggerCEL :: "'w trigger_lib \<Rightarrow> string \<Rightarrow> gomap \<Rightarrow> val result" where
  "evaluateTriggerCEL lib expr objectData =
     (case tl_compile lib expr of
        Some e \<Rightarrow> Inl (wrapf ''CEL compile error: '' e)
      | None \<Rightarrow>
          (case tl_program lib expr of
             Inl e \<Rightarrow> Inl (wrapf ''CEL program error: '' e)
           | Inr prg \<Rightarrow>
               (case prg [(''object'', VMap objectData)] of
                  Inl e \<Rightarrow> Inl (wrapf ''CEL eval error: '' e)
                | Inr v \<Rightarrow> Inr v)))"

definition knownRevisionPaths :: "string list list" where
  "knownRevisionPaths =
     [[''status'', ''sync'', ''revision''], [''status'', ''lastAppliedRevision''],
      [''status'', ''lastAttemptedRevision''], [''status'', ''artifact'', ''revision'']]"

text \<open>\<^verbatim>\<open>unstructured.NestedString\<close>.\<close>

fun nested_string :: "gomap \<Rightarrow> string list \<Rightarrow> string option" where
  "nested_string m [] = None"
| "nested_string m [k] = Option.bind (map_of m k) as_string"
| "nested_string m (k # ks) = Option.bind (as_map (map_of m k)) (\<lambda>m'. nested_string m' ks)"

fun first_revision :: "gomap \<Rightarrow> string list list \<Rightarrow> string" where
  "first_revision m [] = []"
| "first_revision m (path # paths) =
     (case nested_string m path of
        Some v \<Rightarrow> if v \<noteq> [] then v else first_revision m paths
      | None \<Rightarrow> first_revision m paths)"

definition autoDetectDedupKey :: "gomap \<Rightarrow> string" where
  "autoDetectDedupKey objectData = first_revision objectData knownRevisionPaths"

definition defaultDedupWindow :: int where
  "defaultDedupWindow = 600000000000"

definition since :: "int \<Rightarrow> int option \<Rightarrow> int" where
  "since now t = (case t of None \<Rightarrow> 2 ^ 63 - 1 | Some t \<Rightarrow> now - t)"

definition dedup_lookup :: "(string \<times> (string \<times> dedupEntry) list) list \<Rightarrow> string \<Rightarrow> string \<Rightarrow> dedupEntry option" where
  "dedup_lookup st triggerKey objKey = map_of (get_or [] st triggerKey) objKey"

definition dedup_record ::
  "string \<Rightarrow> string \<Rightarrow> dedupEntry \<Rightarrow> (string \<times> (string \<times> dedupEntry) list) list \<Rightarrow> (string \<times> (string \<times> dedupEntry) list) list" where
  "dedup_record triggerKey objKey entry st = AList.update triggerKey (AList.update objKey entry (get_or [] st triggerKey)) st"

subsection \<open>Events\<close>

definition isOwnWorkflowRun :: "Unstructured \<Rightarrow> Workflow \<Rightarrow> bool" where
  "isOwnWorkflowRun eventObject workflow \<longleftrightarrow>
     is_workflow_run_kind (Unstructured_Group eventObject) (Unstructured_Kind eventObject) \<and>
     list_ex (\<lambda>ref. OwnerReference_Kind ref = ''Workflow'' \<and> OwnerReference_UID ref = ObjectMeta_UID (Workflow_Meta workflow))
       (Unstructured_OwnerReferences eventObject)"

definition getObjectKind :: "Unstructured \<Rightarrow> string" where
  "getObjectKind obj = (if Unstructured_Kind obj \<noteq> [] then Unstructured_Kind obj else ''*unstructured.Unstructured'')"

fun operation_matches :: "string \<Rightarrow> EventType \<Rightarrow> bool" where
  "operation_matches op Added = (op = ''CREATE'')"
| "operation_matches op Modified = (op = ''UPDATE'')"
| "operation_matches op Deleted = (op = ''DELETE'')"
| "operation_matches op (OtherEvent t) = False"

definition cel_passes :: "'w trigger_lib \<Rightarrow> string \<Rightarrow> gomap \<Rightarrow> bool" where
  "cel_passes lib celFilter objectData \<longleftrightarrow>
     celFilter = [] \<or> (case evaluateTriggerCEL lib celFilter objectData of Inl e \<Rightarrow> False | Inr v \<Rightarrow> as_bool v = Some True)"

text \<open>The guards that need neither state nor client, in the order of the source.\<close>

definition event_admitted :: "'w trigger_lib \<Rightarrow> Workflow \<Rightarrow> EventTrigger \<Rightarrow> Unstructured \<Rightarrow> EventType \<Rightarrow> bool" where
  "event_admitted lib workflow eventSpec eventObject eventType =
     (if has_key (Unstructured_Labels eventObject) runnerManagedLabel then False
      else if isOwnWorkflowRun eventObject workflow then False
      else if EventTrigger_Operations eventSpec \<noteq> [] \<and> \<not> list_ex (\<lambda>op. operation_matches op eventType) (EventTrigger_Operations eventSpec)
      then False
      else cel_passes lib (EventTrigger_CELFilter eventSpec) (Unstructured_Object eventObject))"

definition event_inputs :: "'w trigger_lib \<Rightarrow> EventTrigger \<Rightarrow> gomap \<Rightarrow> (string \<times> string) list" where
  "event_inputs lib eventSpec objectData =
     map (\<lambda>(inputName, celExpr). (inputName, case evaluateTriggerCEL lib celExpr objectData of
        Inl e \<Rightarrow> [] | Inr v \<Rightarrow> tl_format lib v)) (EventTrigger_InputMapping eventSpec)"

definition current_dedup_key :: "'w trigger_lib \<Rightarrow> EventTrigger \<Rightarrow> gomap \<Rightarrow> string" where
  "current_dedup_key lib eventSpec objectData =
     (let explicit = (if EventTrigger_DedupKey eventSpec = [] then []
        else (case evaluateTriggerCEL lib (EventTrigger_DedupKey eventSpec) objectData of Inl e \<Rightarrow> [] | Inr v \<Rightarrow> tl_format lib v))
      in if explicit = [] then autoDetectDedupKey objectData else explicit)"

definition object_dedup_key :: "Unstructured \<Rightarrow> string" where
  "object_dedup_key obj = (if Unstructured_UID obj \<noteq> [] then Unstructured_UID obj
     else Unstructured_Namespace obj @ ''/'' @ Unstructured_Name obj)"

definition event_duplicate :: "string \<Rightarrow> EventTrigger \<Rightarrow> dedupEntry \<Rightarrow> int \<Rightarrow> bool" where
  "event_duplicate currentDedupKey eventSpec entry now =
     (if currentDedupKey \<noteq> [] then dedupEntry_key entry = currentDedupKey
      else since now (dedupEntry_createdAt entry) <
        (case EventTrigger_DedupWindow eventSpec of Some d \<Rightarrow> d | None \<Rightarrow> defaultDedupWindow))"

definition time8 :: "int \<Rightarrow> string" where
  "time8 t = hex_pad 8 (nat (t mod 2 ^ 32))"

definition uid4 :: "(string \<Rightarrow> string) \<Rightarrow> Unstructured \<Rightarrow> string" where
  "uid4 sha256 obj = (if Unstructured_UID obj \<noteq> [] then take 4 (Unstructured_UID obj)
     else hex_bytes (take 2 (sha256 (Unstructured_Name obj))))"

definition group_version :: "Unstructured \<Rightarrow> string" where
  "group_version obj = (if Unstructured_Group obj \<noteq> [] then Unstructured_Group obj @ ''/'' @ Unstructured_Version obj
     else Unstructured_Version obj)"

definition event_run :: "Workflow \<Rightarrow> string \<Rightarrow> (string \<times> string) list \<Rightarrow> Unstructured \<Rightarrow> int \<Rightarrow> WorkflowRun" where
  "event_run workflow name inputs obj now =
     add_labels [(TriggerLabelKey, ''event'')]
       (buildWorkflowRun workflow name inputs
          \<lparr>TriggerInfo_Type = ''Event'', TriggerInfo_CronSchedule = [], TriggerInfo_TriggeredAt = now,
           TriggerInfo_EventResource = Some \<lparr>EventResourceInfo_APIVersion = group_version obj, EventResourceInfo_Kind = getObjectKind obj,
             EventResourceInfo_Name = Unstructured_Name obj, EventResourceInfo_Namespace = Unstructured_Namespace obj\<rparr>,
           TriggerInfo_WebhookRequest = None\<rparr>)"

text \<open>From the limit on: what happens to an event that is no duplicate.\<close>

definition create_event_run ::
  "'w trigger_lib \<Rightarrow> string \<Rightarrow> string \<Rightarrow> string \<Rightarrow> Workflow \<Rightarrow> (string \<times> string) list \<Rightarrow> Unstructured \<Rightarrow> 'c TriggerManager \<Rightarrow> 'w \<Rightarrow>
     goerror option \<times> 'c TriggerManager \<times> 'w" where
  "create_event_run lib triggerKey objKey currentDedupKey workflow inputs obj tm w =
     (let tc = tl_client lib in
      case below_limit tc workflow [] w of
        (Inl e, w1) \<Rightarrow> (Some (wrapf ''count active WorkflowRuns: '' e), tm, w1)
      | (Inr False, w1) \<Rightarrow> (None, tm, w1)
      | (Inr True, w1) \<Rightarrow>
          (case kube_now (tc_kube tc) w1 of (t, w2) \<Rightarrow>
             case kube_now (tc_kube tc) w2 of (now, w3) \<Rightarrow>
               let run = event_run workflow (Workflow_Name workflow @ ''-'' @ uid4 (tl_sha256 lib) obj @ ''-'' @ time8 t) inputs obj now
               in case tc_createRun tc run w3 of
                    (Some e, w4) \<Rightarrow> (Some e, tm, w4)
                  | (None, w4) \<Rightarrow>
                      (case kube_now (tc_kube tc) w4 of (created, w5) \<Rightarrow>
                         let tm1 = tm\<lparr>tm_dedupState := dedup_record triggerKey objKey
                               \<lparr>dedupEntry_key = currentDedupKey, dedupEntry_createdAt = Some created\<rparr> (tm_dedupState tm)\<rparr>
                         in case set_new_status tc run w5 of (e, w6) \<Rightarrow> (e, tm1, w6))))"

definition CreateWorkflowRunFromEvent ::
  "'w trigger_lib \<Rightarrow> string \<Rightarrow> Workflow \<Rightarrow> EventTrigger \<Rightarrow> Unstructured \<Rightarrow> EventType \<Rightarrow> 'c TriggerManager \<Rightarrow> 'w \<Rightarrow>
     goerror option \<times> 'c TriggerManager \<times> 'w" where
  "CreateWorkflowRunFromEvent lib triggerKey workflow eventSpec eventObject eventType tm w =
     (if \<not> event_admitted lib workflow eventSpec eventObject eventType then (None, tm, w)
      else
        let objectData = Unstructured_Object eventObject;
            inputs = event_inputs lib eventSpec objectData;
            currentDedupKey = current_dedup_key lib eventSpec objectData;
            objKey = object_dedup_key eventObject;
            entry = (case dedup_lookup (tm_dedupState tm) triggerKey objKey of Some e \<Rightarrow> e | None \<Rightarrow> zero_dedupEntry)
        in case (if currentDedupKey \<noteq> [] then (0, w) else kube_now (tc_kube (tl_client lib)) w) of (now, w1) \<Rightarrow>
             if event_duplicate currentDedupKey eventSpec entry now then (None, tm, w1)
             else create_event_run lib triggerKey objKey currentDedupKey workflow inputs eventObject tm w1)"

text \<open>
  One event that the goroutine with context \<open>ctx\<close> receives (\<^verbatim>\<open>watchEvents\<close>): a cancelled goroutine is gone,
  an object that is not Unstructured (\<open>None\<close>) is skipped.
\<close>

definition watchEvents ::
  "'w trigger_lib \<Rightarrow> nat \<Rightarrow> Unstructured option \<Rightarrow> EventType \<Rightarrow> 'c TriggerManager \<Rightarrow> 'w \<Rightarrow> 'c TriggerManager \<times> 'w" where
  "watchEvents lib ctx object eventType tm w =
     (case (map_of (tm_goroutines tm) ctx, object) of
        (Some (eventKey, workflow, eventSpec), Some unstruct) \<Rightarrow>
          snd (CreateWorkflowRunFromEvent lib eventKey workflow eventSpec unstruct eventType tm w)
      | _ \<Rightarrow> (tm, w))"

subsection \<open>Webhook requests\<close>

datatype WebhookFilterResult = WebhookRunCreated | WebhookFiltered | WebhookDeduped | WebhookConcurrencyLimited

record WebhookRequestMeta =
  WebhookRequestMeta_RemoteAddr :: string
  WebhookRequestMeta_RequestID :: string

text \<open>\<^verbatim>\<open>json.Unmarshal\<close> into a map: the document \<^verbatim>\<open>null\<close> leaves it nil.\<close>

fun unmarshal_object :: "raw_json \<Rightarrow> gomap result" where
  "unmarshal_object (RawDoc (VMap m)) = Inr m"
| "unmarshal_object (RawDoc VNil) = Inr []"
| "unmarshal_object _ = Inl (errorf ''invalid document'')"

definition webhook_needs_object :: "WebhookTrigger \<Rightarrow> bool" where
  "webhook_needs_object spec \<longleftrightarrow> WebhookTrigger_CELFilter spec \<noteq> [] \<or> WebhookTrigger_InputMapping spec \<noteq> [] \<or> WebhookTrigger_DedupKey spec \<noteq> []"

definition webhook_inputs :: "'w trigger_lib \<Rightarrow> WebhookTrigger \<Rightarrow> gomap \<Rightarrow> (string \<times> string) list" where
  "webhook_inputs lib spec objectData =
     List.map_filter (\<lambda>(inputName, celExpr). case evaluateTriggerCEL lib celExpr objectData of
        Inl e \<Rightarrow> None | Inr v \<Rightarrow> Some (inputName, tl_format lib v)) (WebhookTrigger_InputMapping spec)"

definition webhook_trigger_key :: "Workflow \<Rightarrow> string" where
  "webhook_trigger_key workflow = workflow_key workflow @ ''-webhook''"

definition webhook_object_key :: "'w trigger_lib \<Rightarrow> Workflow \<Rightarrow> WebhookTrigger \<Rightarrow> gomap \<Rightarrow> string" where
  "webhook_object_key lib workflow spec objectData =
     (if WebhookTrigger_DedupKey spec = [] then workflow_key workflow
      else (case evaluateTriggerCEL lib (WebhookTrigger_DedupKey spec) objectData of
              Inl e \<Rightarrow> workflow_key workflow | Inr v \<Rightarrow> ''webhook-dedup/'' @ tl_format lib v))"

definition webhook_window :: "WebhookTrigger \<Rightarrow> int" where
  "webhook_window spec =
     (case WebhookTrigger_DedupWindow spec of Some d \<Rightarrow> d
      | None \<Rightarrow> if WebhookTrigger_DedupKey spec \<noteq> [] then defaultDedupWindow else 0)"

definition webhook_run :: "Workflow \<Rightarrow> string \<Rightarrow> (string \<times> string) list \<Rightarrow> WebhookRequestMeta \<Rightarrow> int \<Rightarrow> WorkflowRun" where
  "webhook_run workflow name inputs meta now =
     add_labels [(TriggerLabelKey, ''webhook''), (ManagedByLabelKey, ''ottoflow-webhook-server'')]
       (buildWorkflowRun workflow name inputs
          \<lparr>TriggerInfo_Type = ''Webhook'', TriggerInfo_CronSchedule = [], TriggerInfo_TriggeredAt = now,
           TriggerInfo_EventResource = None,
           TriggerInfo_WebhookRequest = Some \<lparr>WebhookRequestInfo_RemoteAddr = WebhookRequestMeta_RemoteAddr meta,
             WebhookRequestInfo_RequestID = WebhookRequestMeta_RequestID meta\<rparr>\<rparr>)"

text \<open>The status loop of a webhook run stops when the run is gone, and reports no error.\<close>

fun webhook_status_attempts :: "'w tclient \<Rightarrow> object_key \<Rightarrow> WorkflowRunStatus \<Rightarrow> nat \<Rightarrow> WorkflowRun \<Rightarrow> 'w \<Rightarrow> WorkflowRun \<times> 'w" where
  "webhook_status_attempts tc key st 0 run w = (run, w)"
| "webhook_status_attempts tc key st (Suc n) run w =
     (let retry = (\<lambda>run w. webhook_status_attempts tc key st n run (if n = 0 then w else tc_sleep tc w)) in
      case kube_getRun (tc_kube tc) key w of
        (Inl e, w1) \<Rightarrow> if errors_is e ApiNotFound then (run, w1) else retry run w1
      | (Inr r, w1) \<Rightarrow>
          (let run1 = r\<lparr>WorkflowRun_Status := st\<rparr> in
           case kube_updateStatus (tc_kube tc) run1 w1 of
             (None, w2) \<Rightarrow> (run1, w2)
           | (Some e, w2) \<Rightarrow> retry run1 w2))"

definition create_webhook_run ::
  "'w trigger_lib \<Rightarrow> Workflow \<Rightarrow> string \<Rightarrow> int \<Rightarrow> (string \<times> string) list \<Rightarrow> WebhookRequestMeta \<Rightarrow> 'c TriggerManager \<Rightarrow> 'w \<Rightarrow>
     (WorkflowRun option \<times> WebhookFilterResult) result \<times> 'c TriggerManager \<times> 'w" where
  "create_webhook_run lib workflow objectKey dedupWindow inputs meta tm w =
     (let tc = tl_client lib in
      case below_limit tc workflow [] w of
        (Inl e, w1) \<Rightarrow> (Inl (wrapf ''count active WorkflowRuns: '' e), tm, w1)
      | (Inr False, w1) \<Rightarrow> (Inr (None, WebhookConcurrencyLimited), tm, w1)
      | (Inr True, w1) \<Rightarrow>
          (case tc_random tc 2 w1 of (rb, w2) \<Rightarrow>
             case kube_now (tc_kube tc) w2 of (t, w3) \<Rightarrow>
               case kube_now (tc_kube tc) w3 of (now, w4) \<Rightarrow>
                 let run = webhook_run workflow (Workflow_Name workflow @ ''-'' @ hex_bytes rb @ ''-'' @ time8 t) inputs meta now
                 in case tc_createRun tc run w4 of
                      (Some e, w5) \<Rightarrow> (Inl (GoError [ErrWorkflowRunCreateFailed] (''WorkflowRun Create failed: '' @ err_msg e)), tm, w5)
                    | (None, w5) \<Rightarrow>
                        (case (if 0 < dedupWindow then kube_now (tc_kube tc) w5 else (0, w5)) of (created, w6) \<Rightarrow>
                           let tm1 = (if 0 < dedupWindow
                                 then tm\<lparr>tm_dedupState := dedup_record (webhook_trigger_key workflow) objectKey
                                        \<lparr>dedupEntry_key = [], dedupEntry_createdAt = Some created\<rparr> (tm_dedupState tm)\<rparr>
                                 else tm)
                           in case webhook_status_attempts tc (run_key run) (WorkflowRun_Status run) 5 run w6 of
                                (stored, w7) \<Rightarrow> (Inr (Some stored, WebhookRunCreated), tm1, w7))))"

definition webhook_duplicate :: "(string \<times> (string \<times> dedupEntry) list) list \<Rightarrow> Workflow \<Rightarrow> string \<Rightarrow> int \<Rightarrow> int \<Rightarrow> bool" where
  "webhook_duplicate st workflow objectKey dedupWindow now \<longleftrightarrow>
     (case dedup_lookup st (webhook_trigger_key workflow) objectKey of
        None \<Rightarrow> False | Some entry \<Rightarrow> since now (dedupEntry_createdAt entry) < dedupWindow)"

text \<open>The gates after the body is parsed; the clock is read only when an entry has to be compared.\<close>

definition webhook_gates ::
  "'w trigger_lib \<Rightarrow> Workflow \<Rightarrow> WebhookTrigger \<Rightarrow> gomap \<Rightarrow> WebhookRequestMeta \<Rightarrow> 'c TriggerManager \<Rightarrow> 'w \<Rightarrow>
     (WorkflowRun option \<times> WebhookFilterResult) result \<times> 'c TriggerManager \<times> 'w" where
  "webhook_gates lib workflow spec objectData meta tm w =
     (let inputs = webhook_inputs lib spec objectData;
          objectKey = webhook_object_key lib workflow spec objectData;
          dedupWindow = webhook_window spec
      in case (if 0 < dedupWindow \<and> dedup_lookup (tm_dedupState tm) (webhook_trigger_key workflow) objectKey \<noteq> None
               then kube_now (tc_kube (tl_client lib)) w else (0, w)) of (now, w1) \<Rightarrow>
           if 0 < dedupWindow \<and> webhook_duplicate (tm_dedupState tm) workflow objectKey dedupWindow now
           then (Inr (None, WebhookDeduped), tm, w1)
           else create_webhook_run lib workflow objectKey dedupWindow inputs meta tm w1)"

definition CreateWorkflowRunFromWebhook ::
  "'w trigger_lib \<Rightarrow> Workflow \<Rightarrow> WebhookTrigger \<Rightarrow> string \<Rightarrow> WebhookRequestMeta \<Rightarrow> 'c TriggerManager \<Rightarrow> 'w \<Rightarrow>
     (WorkflowRun option \<times> WebhookFilterResult) result \<times> 'c TriggerManager \<times> 'w" where
  "CreateWorkflowRunFromWebhook lib workflow spec body meta tm w =
     (case (if webhook_needs_object spec then unmarshal_object (tl_decode lib body) else Inr []) of
        Inl e \<Rightarrow> (Inl (wrapf ''invalid JSON body: '' e), tm, w)
      | Inr objectData \<Rightarrow>
          if WebhookTrigger_CELFilter spec = [] then webhook_gates lib workflow spec objectData meta tm w
          else (case evaluateTriggerCEL lib (WebhookTrigger_CELFilter spec) objectData of
                  Inl e \<Rightarrow> (Inl (wrapf ''celFilter expression error: '' e), tm, w)
                | Inr raw \<Rightarrow>
                    if as_bool raw \<noteq> Some True then (Inr (None, WebhookFiltered), tm, w)
                    else webhook_gates lib workflow spec objectData meta tm w))"

subsection \<open>Effects\<close>

text \<open>What a fire may do to the manager: record the run it has created, or nothing.\<close>

definition records :: "string \<Rightarrow> string \<Rightarrow> string \<Rightarrow> 'c TriggerManager \<Rightarrow> 'c TriggerManager \<Rightarrow> bool" where
  "records triggerKey objKey revision tm tm' \<longleftrightarrow> (\<exists>created. tm' = tm\<lparr>tm_dedupState :=
     dedup_record triggerKey objKey \<lparr>dedupEntry_key = revision, dedupEntry_createdAt = Some created\<rparr> (tm_dedupState tm)\<rparr>)"

lemma dedup_lookup_record:
  "dedup_lookup (dedup_record t k entry st) t' k' = (if t' = t \<and> k' = k then Some entry else dedup_lookup st t' k')"
  by (simp add: dedup_lookup_def dedup_record_def)

lemma records_lookup:
  "records t k revn tm tm' \<Longrightarrow> \<exists>created. dedup_lookup (tm_dedupState tm') t k = Some \<lparr>dedupEntry_key = revn, dedupEntry_createdAt = Some created\<rparr>"
  "records t k revn tm tm' \<Longrightarrow> (t', k') \<noteq> (t, k) \<Longrightarrow> dedup_lookup (tm_dedupState tm') t' k' = dedup_lookup (tm_dedupState tm) t' k'"
  by (auto simp: records_def dedup_lookup_record)

lemma event_run_of: "run_of workflow (event_run workflow name inputs obj now)" "IsActive (run_phase (event_run workflow name inputs obj now))"
  by (simp_all add: run_of_def event_run_def WorkflowLabelKey_def TriggerLabelKey_def)

lemma webhook_run_of: "run_of workflow (webhook_run workflow name inputs meta now)" "IsActive (run_phase (webhook_run workflow name inputs meta now))"
  by (simp_all add: run_of_def webhook_run_def WorkflowLabelKey_def TriggerLabelKey_def ManagedByLabelKey_def)

lemma create_event_run_effect:
  assumes "triggers_client (tl_client lib) runs" "create_event_run lib triggerKey objKey revn workflow inputs obj tm w = (e, tm', w')"
  shows "limited_fire workflow (runs w) (runs w') \<and> (tm' = tm \<and> (e = None \<longrightarrow> runs w' = runs w) \<or> records triggerKey objKey revn tm tm' \<and> runs w' \<noteq> runs w)"
proof -
  let ?tc = "tl_client lib"
  obtain b w1 where b: "below_limit ?tc workflow [] w = (b, w1)" by force
  note lim = below_limit_law(1) [OF assms(1) b]
  show ?thesis
  proof (cases "b = Inr True")
    case False
    with assms(2) b lim show ?thesis by (auto simp: create_event_run_def Let_def split: sum.splits bool.splits)
  next
    case True
    obtain t w2 where t: "kube_now (tc_kube ?tc) w1 = (t, w2)" by force
    obtain now w3 where now: "kube_now (tc_kube ?tc) w2 = (now, w3)" by force
    define name where "name = Workflow_Name workflow @ ''-'' @ uid4 (tl_sha256 lib) obj @ ''-'' @ time8 t"
    define run where "run = event_run workflow name inputs obj now"
    note run = event_run_of [of workflow name inputs obj now, folded run_def]
    have w3: "runs w3 = runs w1" using triggers_frame(5) [OF assms(1) t] triggers_frame(5) [OF assms(1) now] by simp
    obtain c w4 where c: "tc_createRun ?tc run w3 = (c, w4)" by force
    have fired: "limited_fire workflow (runs w) R" if "fires workflow (runs w3) R" for R
      using limited_fireI [OF assms(1) b [unfolded True]] that w3 by simp
    show ?thesis
    proof (cases c)
      case (Some err)
      with assms(2) b True t now c have "w' = w4" "e = Some err" "tm' = tm" by (simp_all add: create_event_run_def run_def name_def Let_def)
      with fired create_fires(1) [OF assms(1) c run(1)] show ?thesis by simp
    next
      case None
      obtain created w5 where d: "kube_now (tc_kube ?tc) w4 = (created, w5)" by force
      obtain x w6 where x: "set_new_status ?tc run w5 = (x, w6)" by force
      from assms(2) b True t now c None d x have res: "w' = w6" "records triggerKey objKey revn tm tm'"
        by (auto simp: create_event_run_def run_def name_def Let_def records_def)
      have "sets_status (run_key run) (WorkflowRun_Status run) (runs w4) (runs w6)"
        using set_new_status_effect [OF assms(1) x] triggers_frame(5) [OF assms(1) d] by simp
      note cs = create_and_set_fires [OF assms(1) c [unfolded None] run this]
      from fired [OF cs(1)] cs(2) w3 lim res show ?thesis by simp
    qed
  qed
qed

lemma CreateWorkflowRunFromEvent_effect:
  assumes "triggers_client (tl_client lib) runs" "CreateWorkflowRunFromEvent lib triggerKey workflow spec obj ty tm w = (e, tm', w')"
  shows "limited_fire workflow (runs w) (runs w') \<and>
    (tm' = tm \<and> (e = None \<longrightarrow> runs w' = runs w) \<or>
     records triggerKey (object_dedup_key obj) (current_dedup_key lib spec (Unstructured_Object obj)) tm tm' \<and> runs w' \<noteq> runs w)"
proof (cases "event_admitted lib workflow spec obj ty")
  case False
  with assms(2) show ?thesis by (simp add: CreateWorkflowRunFromEvent_def)
next
  case True
  define cur where "cur = current_dedup_key lib spec (Unstructured_Object obj)"
  obtain now w1 where now: "(if cur \<noteq> [] then (0, w) else kube_now (tc_kube (tl_client lib)) w) = (now, w1)" by force
  then have w1: "runs w1 = runs w" using triggers_frame(5) [OF assms(1)] by (auto split: if_splits)
  show ?thesis
  proof (cases "event_duplicate cur spec
      (case dedup_lookup (tm_dedupState tm) triggerKey (object_dedup_key obj) of Some e \<Rightarrow> e | None \<Rightarrow> zero_dedupEntry) now")
    case True
    with assms(2) now \<open>event_admitted lib workflow spec obj ty\<close> w1 show ?thesis
      by (auto simp: CreateWorkflowRunFromEvent_def Let_def cur_def [symmetric])
  next
    case False
    with assms(2) now True have "create_event_run lib triggerKey (object_dedup_key obj) cur workflow
        (event_inputs lib spec (Unstructured_Object obj)) obj tm w1 = (e, tm', w')"
      by (simp add: CreateWorkflowRunFromEvent_def Let_def cur_def [symmetric])
    from create_event_run_effect [OF assms(1) this] w1 show ?thesis by (simp add: cur_def)
  qed
qed

lemma webhook_status_attempts_effect:
  assumes "triggers_client tc runs" "webhook_status_attempts tc key st n run w = (x, w')"
  shows "sets_status key st (runs w) (runs w')"
  using assms(2)
proof (induction n arbitrary: run w)
  case (Suc n)
  note law = triggers_runs_client [OF assms(1)]
  have again: "sets_status key st (runs w1) (runs w')"
    if "webhook_status_attempts tc key st n run (if n = 0 then w1 else tc_sleep tc w1) = (x, w')" for run w1
  proof -
    have "runs (if n = 0 then w1 else tc_sleep tc w1) = runs w1" using triggers_frame(3) [OF assms(1)] by simp
    with Suc.IH [OF that] show ?thesis by metis
  qed
  obtain g w1 where g: "kube_getRun (tc_kube tc) key w = (g, w1)" by force
  have w1: "runs w1 = runs w" using kube_calls_frame(9) [OF law g] .
  show ?case
  proof (cases g)
    case (Inl e)
    show ?thesis
    proof (cases "errors_is e ApiNotFound")
      case True
      with Suc.prems g Inl w1 show ?thesis by (simp add: sets_status_def)
    next
      case False
      with Suc.prems g Inl have "webhook_status_attempts tc key st n run (if n = 0 then w1 else tc_sleep tc w1) = (x, w')" by simp
      from again [OF this] w1 show ?thesis by simp
    qed
  next
    case (Inr r)
    then have r: "runs w key = Some r" "run_key r = key" using getRun_fresh [OF law] g by auto
    obtain u w2 where u: "kube_updateStatus (tc_kube tc) (r\<lparr>WorkflowRun_Status := st\<rparr>) w1 = (u, w2)" by force
    have w2: "sets_status key st (runs w) (runs w2)" using update_sets_status [OF assms(1) u] r w1 by simp
    show ?thesis
    proof (cases u)
      case None
      with Suc.prems g Inr u w2 show ?thesis by (simp add: Let_def)
    next
      case (Some e)
      with Suc.prems g Inr u have "webhook_status_attempts tc key st n (r\<lparr>WorkflowRun_Status := st\<rparr>) (if n = 0 then w2 else tc_sleep tc w2) = (x, w')"
        by (simp add: Let_def)
      from sets_status_trans [OF w2 again [OF this]] show ?thesis .
    qed
  qed
qed (simp add: sets_status_def)

lemma create_webhook_run_effect:
  assumes "triggers_client (tl_client lib) runs" "create_webhook_run lib workflow objKey win inputs meta tm w = (r, tm', w')"
  shows "limited_fire workflow (runs w) (runs w') \<and> (tm' = tm \<and> (0 < win \<longrightarrow> runs w' = runs w \<or> (\<exists>e. r = Inl e)) \<or> records (webhook_trigger_key workflow) objKey [] tm tm') \<and>
    (r = Inr (x, y) \<longrightarrow> (y = WebhookRunCreated \<longleftrightarrow> runs w' \<noteq> runs w))"
proof -
  let ?tc = "tl_client lib"
  obtain b w1 where b: "below_limit ?tc workflow [] w = (b, w1)" by force
  note lim = below_limit_law(1) [OF assms(1) b]
  show ?thesis
  proof (cases "b = Inr True")
    case False
    with assms(2) b lim show ?thesis by (auto simp: create_webhook_run_def Let_def split: sum.splits bool.splits)
  next
    case True
    obtain rb wr where rb: "tc_random ?tc 2 w1 = (rb, wr)" by force
    obtain t w2 where t: "kube_now (tc_kube ?tc) wr = (t, w2)" by force
    obtain now w3 where now: "kube_now (tc_kube ?tc) w2 = (now, w3)" by force
    define name where "name = Workflow_Name workflow @ ''-'' @ hex_bytes rb @ ''-'' @ time8 t"
    define run where "run = webhook_run workflow name inputs meta now"
    note run = webhook_run_of [of workflow name inputs meta now, folded run_def]
    have w3: "runs w3 = runs w1"
      using triggers_frame(5) [OF assms(1) t] triggers_frame(5) [OF assms(1) now] triggers_frame(2) [OF assms(1) rb] by simp
    obtain c w4 where c: "tc_createRun ?tc run w3 = (c, w4)" by force
    have fired: "limited_fire workflow (runs w) R" if "fires workflow (runs w3) R" for R
      using limited_fireI [OF assms(1) b [unfolded True]] that w3 by simp
    show ?thesis
    proof (cases c)
      case (Some err)
      with assms(2) b True rb t now c have "w' = w4" "\<exists>e. r = Inl e" "tm' = tm" by (auto simp: create_webhook_run_def run_def name_def Let_def)
      with fired create_fires(1) [OF assms(1) c run(1)] show ?thesis by auto
    next
      case None
      obtain created w5 where d: "(if 0 < win then kube_now (tc_kube ?tc) w4 else (0, w4)) = (created, w5)" by force
      then have w5: "runs w5 = runs w4" using triggers_frame(5) [OF assms(1)] by (auto split: if_splits)
      obtain x w6 where x: "webhook_status_attempts ?tc (run_key run) (WorkflowRun_Status run) 5 run w5 = (x, w6)" by force
      from assms(2) b True rb t now c None d x
      have res: "w' = w6" "if 0 < win then records (webhook_trigger_key workflow) objKey [] tm tm' else tm' = tm" "r = Inr (Some x, WebhookRunCreated)"
        by (auto simp: create_webhook_run_def run_def name_def Let_def records_def)
      have "sets_status (run_key run) (WorkflowRun_Status run) (runs w4) (runs w6)"
        using webhook_status_attempts_effect [OF assms(1) x] w5 by simp
      note cs = create_and_set_fires [OF assms(1) c [unfolded None] run this]
      with fired [OF cs(1)] cs(2) w3 lim res show ?thesis by (auto split: if_splits)
    qed
  qed
qed

lemma CreateWorkflowRunFromWebhook_effect:
  assumes "triggers_client (tl_client lib) runs" "CreateWorkflowRunFromWebhook lib workflow spec body meta tm w = (r, tm', w')"
  shows "limited_fire workflow (runs w) (runs w') \<and> (tm' = tm \<or> (\<exists>objKey. records (webhook_trigger_key workflow) objKey [] tm tm')) \<and>
    (r = Inr (x, y) \<longrightarrow> (y = WebhookRunCreated \<longleftrightarrow> runs w' \<noteq> runs w))"
proof -
  have gates: ?thesis if g: "webhook_gates lib workflow spec objectData meta tm w = (r, tm', w')" for objectData
  proof -
    define objKey where "objKey = webhook_object_key lib workflow spec objectData"
    obtain now w1 where now: "(if 0 < webhook_window spec \<and> dedup_lookup (tm_dedupState tm) (webhook_trigger_key workflow) objKey \<noteq> None
        then kube_now (tc_kube (tl_client lib)) w else (0, w)) = (now, w1)" by force
    then have w1: "runs w1 = runs w" using triggers_frame(5) [OF assms(1)] by (auto split: if_splits)
    show ?thesis
    proof (cases "0 < webhook_window spec \<and> webhook_duplicate (tm_dedupState tm) workflow objKey (webhook_window spec) now")
      case True
      with g now w1 show ?thesis by (auto simp: webhook_gates_def Let_def objKey_def [symmetric])
    next
      case False
      with g now have "create_webhook_run lib workflow objKey (webhook_window spec) (webhook_inputs lib spec objectData) meta tm w1 = (r, tm', w')"
        by (auto simp: webhook_gates_def Let_def objKey_def [symmetric] split: if_splits)
      from create_webhook_run_effect [OF assms(1) this] w1 show ?thesis by auto
    qed
  qed
  from assms(2) consider "tm' = tm" "w' = w" "r \<noteq> Inr (x, WebhookRunCreated)"
    | d where "webhook_gates lib workflow spec d meta tm w = (r, tm', w')"
    by (auto simp: CreateWorkflowRunFromWebhook_def split: sum.splits if_splits)
  then show ?thesis using gates by cases auto
qed

end
