(* ===== verification/Webhook_Server.thy ===== *)
theory Webhook_Server
  imports Trigger_Fires
begin

text \<open>
  The server that accepts signed webhook requests (\<^verbatim>\<open>controller/webhook_server.go\<close>) and the reconciler of
  Workflows (\<^verbatim>\<open>controller/workflow_controller.go\<close>), which registers triggers and forgets the state of deleted
  workflows.

  HMAC-SHA256 and the token bucket of \<^verbatim>\<open>golang.org/x/time/rate\<close> are parameters: a limiter is a value of
  \<open>'l\<close>, kept in the map of the server. One request is one step. Metrics and logs are left out.
\<close>

subsection \<open>State\<close>

record WebhookRequest =
  WebhookRequest_Method :: string
  WebhookRequest_Path :: string
  WebhookRequest_Timestamp :: string
  WebhookRequest_Signature :: string
  WebhookRequest_ContentType :: string
  WebhookRequest_RemoteAddr :: string
  WebhookRequest_Body :: "string \<times> goerror option"

record 'l webhookLimiterEntry =
  webhookLimiterEntry_limiter :: 'l
  webhookLimiterEntry_rpm :: int
  webhookLimiterEntry_burst :: int

record 'l webhook_lib =
  wl_hmac :: "string \<Rightarrow> string \<Rightarrow> string"
  wl_newLimiter :: "int \<Rightarrow> int \<Rightarrow> 'l"
  wl_allow :: "'l \<Rightarrow> int \<Rightarrow> bool \<times> 'l"

record 'l WebhookServer =
  ws_limiters :: "(string \<times> 'l webhookLimiterEntry) list"

definition NewWebhookServer :: "'l WebhookServer" where
  "NewWebhookServer = \<lparr>ws_limiters = []\<rparr>"

subsection \<open>Requests\<close>

text \<open>\<^verbatim>\<open>strings.SplitN(s, "/", 3)\<close> has exactly two parts when there is one slash.\<close>

definition webhook_prefix :: string where
  "webhook_prefix = ''/webhooks/''"

definition parseWebhookPath :: "string \<Rightarrow> object_key option" where
  "parseWebhookPath path =
     (case cut_prefix path webhook_prefix of
        None \<Rightarrow> None
      | Some trimmed \<Rightarrow>
          (case split_on (CHR ''/'') trimmed of
             [ns, name] \<Rightarrow> if ns = [] \<or> name = [] then None else Some (ns, name)
           | _ \<Rightarrow> None))"

text \<open>\<^verbatim>\<open>strconv.ParseInt(s, 10, 64)\<close>.\<close>

definition parse_int64 :: "string \<Rightarrow> int option" where
  "parse_int64 s =
     (let (neg, ds) = (case s of c # r \<Rightarrow> if c = CHR ''-'' then (True, r) else if c = CHR ''+'' then (False, r) else (False, s) | [] \<Rightarrow> (False, []));
          n = (if neg then - int (digits_value ds) else int (digits_value ds))
      in if isDigits ds \<and> - (2 ^ 63) \<le> n \<and> n < 2 ^ 63 then Some n else None)"

definition webhookTimestampWindow :: int where
  "webhookTimestampWindow = 300000000000"

text \<open>A duration saturates at the bounds of int64.\<close>

definition sat_duration :: "int \<Rightarrow> int" where
  "sat_duration d = max (- (2 ^ 63)) (min (2 ^ 63 - 1) d)"

definition verifyTimestamp :: "string \<Rightarrow> int \<Rightarrow> goerror option" where
  "verifyTimestamp ts now =
     (if ts = [] then Some (errorf ''missing X-OttoFlow-Timestamp header'')
      else (case parse_int64 ts of
              None \<Rightarrow> Some (errorf ''invalid timestamp'')
            | Some epoch \<Rightarrow>
                let diff = sat_duration (now - epoch * 1000000000)
                in if diff < - webhookTimestampWindow \<or> diff > webhookTimestampWindow
                   then Some (errorf ''timestamp out of replay window'') else None))"

definition hex_value :: "char \<Rightarrow> nat option" where
  "hex_value c = (let n = (of_char c :: nat) in
     if 48 \<le> n \<and> n \<le> 57 then Some (n - 48) else if 97 \<le> n \<and> n \<le> 102 then Some (n - 87)
     else if 65 \<le> n \<and> n \<le> 70 then Some (n - 55) else None)"

text \<open>\<^verbatim>\<open>hex.DecodeString\<close>.\<close>

fun hex_decode :: "string \<Rightarrow> string option" where
  "hex_decode [] = Some []"
| "hex_decode [c] = None"
| "hex_decode (c # d # s) =
     (case (hex_value c, hex_value d, hex_decode s) of
        (Some a, Some b, Some r) \<Rightarrow> Some (char_of (16 * a + b) # r) | _ \<Rightarrow> None)"

definition signed_message :: "string \<Rightarrow> string \<Rightarrow> string \<Rightarrow> string" where
  "signed_message timestamp path body = ''v1:'' @ timestamp @ '':'' @ path @ '':'' @ body"

definition signature_prefix :: string where
  "signature_prefix = ''sha256=''"

definition verifyHMAC :: "'l webhook_lib \<Rightarrow> string \<Rightarrow> string \<Rightarrow> string \<Rightarrow> string \<Rightarrow> string \<Rightarrow> goerror option" where
  "verifyHMAC wl secret timestamp path body sigHeader =
     (case cut_prefix sigHeader signature_prefix of
        None \<Rightarrow> Some (errorf ''missing sha256= prefix in X-OttoFlow-Signature'')
      | Some h \<Rightarrow>
          (case hex_decode h of
             None \<Rightarrow> Some (errorf ''invalid hex in signature'')
           | Some expected \<Rightarrow>
               if wl_hmac wl secret (signed_message timestamp path body) = expected then None
               else Some (errorf ''signature mismatch'')))"

definition fetchSecret :: "'w tclient \<Rightarrow> WebhookSecretRef \<Rightarrow> string \<Rightarrow> 'w \<Rightarrow> string result \<times> 'w" where
  "fetchSecret tc ref workflowNamespace w =
     (if WebhookSecretRef_Namespace ref \<noteq> [] \<and> WebhookSecretRef_Namespace ref \<noteq> workflowNamespace
      then (Inl (errorf (''webhook secretRef '' @ WebhookSecretRef_Namespace ref @ ''/'' @ WebhookSecretRef_Name ref @
              '': Secret references are resolved only in the Workflow's namespace '' @ quote workflowNamespace)), w)
      else (case tc_getSecret tc (workflowNamespace, WebhookSecretRef_Name ref) w of
              (Inl e, w1) \<Rightarrow> (Inl e, w1)
            | (Inr data, w1) \<Rightarrow>
                let keyName = (if WebhookSecretRef_Key ref = [] then ''hmac-key'' else WebhookSecretRef_Key ref);
                    v = get_or [] data keyName
                in if v = [] then (Inl (errorf (''secret missing '' @ quote keyName @ '' key'')), w1)
                   else if length v < 32
                   then (Inl (errorf ''HMAC secret must be at least 32 bytes; use: openssl rand -base64 32''), w1)
                   else (Inr v, w1)))"

fun first_webhook :: "Trigger list \<Rightarrow> WebhookTrigger option" where
  "first_webhook [] = None"
| "first_webhook (t # ts) = (case Trigger_Webhook t of Some wt \<Rightarrow> Some wt | None \<Rightarrow> first_webhook ts)"

definition findWebhookTrigger :: "Workflow \<Rightarrow> WebhookTrigger option" where
  "findWebhookTrigger workflow = first_webhook (WorkflowSpec_Triggers (Workflow_Spec workflow))"

definition generateID :: "'w tclient \<Rightarrow> 'w \<Rightarrow> string \<times> 'w" where
  "generateID tc w = (case tc_random tc 8 w of (b, w1) \<Rightarrow> (hex_bytes b, w1))"

definition writeError :: "nat \<Rightarrow> string \<Rightarrow> Response" where
  "writeError code msg = Response code [(''error'', msg)]"

definition writeJSON :: "nat \<Rightarrow> (string \<times> string) list \<Rightarrow> Response" where
  "writeJSON code v = Response code v"

subsection \<open>The rate limit\<close>

definition rate_params :: "WebhookTrigger \<Rightarrow> int \<times> int" where
  "rate_params spec =
     (case WebhookTrigger_RateLimit spec of
        None \<Rightarrow> (60, 10)
      | Some l \<Rightarrow> (if 0 < WebhookRateLimit_RequestsPerMinute l then WebhookRateLimit_RequestsPerMinute l else 60,
                   if 0 < WebhookRateLimit_Burst l then WebhookRateLimit_Burst l else 10))"

definition webhookRateLimiter ::
  "'l webhook_lib \<Rightarrow> string \<Rightarrow> WebhookTrigger \<Rightarrow> 'l WebhookServer \<Rightarrow> 'l webhookLimiterEntry \<times> 'l WebhookServer" where
  "webhookRateLimiter wl key spec s =
     (case rate_params spec of (rpm, burst) \<Rightarrow>
        let fresh = \<lparr>webhookLimiterEntry_limiter = wl_newLimiter wl (60000000000 div rpm) burst,
                     webhookLimiterEntry_rpm = rpm, webhookLimiterEntry_burst = burst\<rparr>;
            create = (fresh, s\<lparr>ws_limiters := AList.update key fresh (ws_limiters s)\<rparr>)
        in case map_of (ws_limiters s) key of
             None \<Rightarrow> create
           | Some entry \<Rightarrow> if webhookLimiterEntry_rpm entry = rpm \<and> webhookLimiterEntry_burst entry = burst then (entry, s) else create)"

text \<open>\<^verbatim>\<open>Allow\<close> changes the limiter that the map points to.\<close>

definition allow_request ::
  "'l webhook_lib \<Rightarrow> 'w tclient \<Rightarrow> string \<Rightarrow> WebhookTrigger \<Rightarrow> 'l WebhookServer \<Rightarrow> 'w \<Rightarrow> bool \<times> 'l WebhookServer \<times> 'w" where
  "allow_request wl tc key spec s w =
     (case webhookRateLimiter wl key spec s of (entry, s1) \<Rightarrow>
        case kube_now (tc_kube tc) w of (now, w1) \<Rightarrow>
          case wl_allow wl (webhookLimiterEntry_limiter entry) now of (ok, l) \<Rightarrow>
            (ok, s1\<lparr>ws_limiters := AList.update key (entry\<lparr>webhookLimiterEntry_limiter := l\<rparr>) (ws_limiters s1)\<rparr>, w1))"

definition RemoveLimiter :: "string \<Rightarrow> 'l WebhookServer \<Rightarrow> 'l WebhookServer" where
  "RemoveLimiter key s = s\<lparr>ws_limiters := AList.delete key (ws_limiters s)\<rparr>"

subsection \<open>The handler\<close>

definition maxBodyBytes :: int where
  "maxBodyBytes = 1048576"

text \<open>\<^verbatim>\<open>io.ReadAll(io.LimitReader(r.Body, n))\<close>: an error after the limit is not seen.\<close>

definition read_limited :: "int \<Rightarrow> string \<times> goerror option \<Rightarrow> string result" where
  "read_limited n body =
     (if n \<le> int (length (fst body)) then Inr (take (nat n) (fst body))
      else (case snd body of None \<Rightarrow> Inr (fst body) | Some e \<Rightarrow> Inl e))"

definition created_response :: "WorkflowRun \<Rightarrow> Response" where
  "created_response run =
     writeJSON 202 [(''runName'', WorkflowRun_Name run), (''namespace'', WorkflowRun_Namespace run), (''status'', ''Pending'')]"

fun webhook_response :: "(WorkflowRun option \<times> WebhookFilterResult) result \<Rightarrow> Response" where
  "webhook_response (Inl e) =
     (if errors_is e ErrWorkflowRunCreateFailed then writeError 500 ''internal error creating WorkflowRun'' else writeError 400 (err_msg e))"
| "webhook_response (Inr (run, WebhookFiltered)) = writeJSON 200 [(''status'', ''filtered'')]"
| "webhook_response (Inr (run, WebhookDeduped)) = writeJSON 200 [(''status'', ''deduped'')]"
| "webhook_response (Inr (run, WebhookConcurrencyLimited)) = writeError 429 ''max concurrent runs reached''"
| "webhook_response (Inr (Some run, WebhookRunCreated)) = created_response run"
| "webhook_response (Inr (None, WebhookRunCreated)) = writeError 500 ''nil run''"

type_synonym ('l, 'c, 'w) webhook_state = "'l WebhookServer \<times> 'c TriggerManager \<times> 'w"

text \<open>Steps 9 and 10 of the handler, for an authenticated request.\<close>

definition accept_webhook ::
  "'w trigger_lib \<Rightarrow> 'l webhook_lib \<Rightarrow> object_key \<Rightarrow> Workflow \<Rightarrow> WebhookTrigger \<Rightarrow> string \<Rightarrow> string \<Rightarrow>
     ('l, 'c, 'w) webhook_state \<Rightarrow> Response \<times> ('l, 'c, 'w) webhook_state" where
  "accept_webhook lib wl key workflow webhookSpec body remoteAddr st =
     (case st of (s, tm, w) \<Rightarrow>
        case allow_request wl (tl_client lib) (fst key @ ''/'' @ snd key) webhookSpec s w of
          (False, s1, w1) \<Rightarrow> (writeError 429 ''rate limit exceeded'', s1, tm, w1)
        | (True, s1, w1) \<Rightarrow>
            (case generateID (tl_client lib) w1 of (rid, w2) \<Rightarrow>
               case CreateWorkflowRunFromWebhook lib workflow webhookSpec body
                      \<lparr>WebhookRequestMeta_RemoteAddr = remoteAddr, WebhookRequestMeta_RequestID = rid\<rparr> tm w2 of
                 (r, tm1, w3) \<Rightarrow> (webhook_response r, s1, tm1, w3)))"

text \<open>Steps 5 to 8: what has to hold before the request counts as signed_request.\<close>

definition authenticate ::
  "'w trigger_lib \<Rightarrow> 'l webhook_lib \<Rightarrow> WebhookRequest \<Rightarrow> object_key \<Rightarrow> string \<Rightarrow> 'w \<Rightarrow> (Response + Workflow \<times> WebhookTrigger) \<times> 'w" where
  "authenticate lib wl r key body w =
     (let tc = tl_client lib; unauthorized = Inl (writeError 401 ''unauthorized'') in
      case kube_getWorkflow (tc_kube tc) key w of
        (Inl e, w1) \<Rightarrow> (unauthorized, w1)
      | (Inr workflow, w1) \<Rightarrow>
          (case findWebhookTrigger workflow of
             None \<Rightarrow> (unauthorized, w1)
           | Some webhookSpec \<Rightarrow>
               if webhook_needs_object webhookSpec \<and> \<not> has_prefix (WebhookRequest_ContentType r) ''application/json''
               then (Inl (writeError 415 ''unsupported media type: expected application/json''), w1)
               else (case fetchSecret tc (WebhookTrigger_SecretRef webhookSpec) (fst key) w1 of
                       (Inl e, w2) \<Rightarrow> (unauthorized, w2)
                     | (Inr secret, w2) \<Rightarrow>
                         (case verifyHMAC wl secret (WebhookRequest_Timestamp r) (WebhookRequest_Path r) body (WebhookRequest_Signature r) of
                            Some e \<Rightarrow> (unauthorized, w2)
                          | None \<Rightarrow> (Inr (workflow, webhookSpec), w2)))))"

definition handleWebhook ::
  "'w trigger_lib \<Rightarrow> 'l webhook_lib \<Rightarrow> WebhookRequest \<Rightarrow> ('l, 'c, 'w) webhook_state \<Rightarrow> Response \<times> ('l, 'c, 'w) webhook_state" where
  "handleWebhook lib wl r st =
     (case st of (s, tm, w) \<Rightarrow>
        if WebhookRequest_Method r \<noteq> ''POST'' then (writeError 405 ''method not allowed'', st)
        else (case parseWebhookPath (WebhookRequest_Path r) of
          None \<Rightarrow> (writeError 400 ''invalid path: expected /webhooks/{namespace}/{name}'', st)
        | Some key \<Rightarrow>
            (case kube_now (tc_kube (tl_client lib)) w of (now, w1) \<Rightarrow>
               case verifyTimestamp (WebhookRequest_Timestamp r) now of
                 Some e \<Rightarrow> (writeError 401 ''unauthorized'', s, tm, w1)
               | None \<Rightarrow>
                   (case read_limited (maxBodyBytes + 1) (WebhookRequest_Body r) of
                      Inl e \<Rightarrow> (writeError 400 ''failed to read body'', s, tm, w1)
                    | Inr body \<Rightarrow>
                        if maxBodyBytes < int (length body) then (writeError 413 ''request body exceeds 1 MiB limit'', s, tm, w1)
                        else (case authenticate lib wl r key body w1 of
                                (Inl resp, w2) \<Rightarrow> (resp, s, tm, w2)
                              | (Inr (workflow, webhookSpec), w2) \<Rightarrow>
                                  accept_webhook lib wl key workflow webhookSpec body (WebhookRequest_RemoteAddr r) (s, tm, w2))))))"

subsection \<open>The reconciler of workflows\<close>

record ('l, 'c) WorkflowReconciler =
  WorkflowReconciler_TriggerManager :: "'c TriggerManager option"
  WorkflowReconciler_WebhookServer :: "'l WebhookServer option"

definition forgetWebhookState :: "string \<Rightarrow> 'c TriggerManager \<Rightarrow> ('l, 'c) WorkflowReconciler \<Rightarrow> ('l, 'c) WorkflowReconciler" where
  "forgetWebhookState workflowKey tm r =
     r\<lparr>WorkflowReconciler_TriggerManager := Some (CleanupWebhookDedup workflowKey tm),
       WorkflowReconciler_WebhookServer := map_option (RemoveLimiter workflowKey) (WorkflowReconciler_WebhookServer r)\<rparr>"

definition WorkflowReconciler_Reconcile ::
  "'w trigger_lib \<Rightarrow> 'c cron \<Rightarrow> object_key \<Rightarrow> ('l, 'c) WorkflowReconciler \<Rightarrow> 'w \<Rightarrow> goerror option \<times> ('l, 'c) WorkflowReconciler \<times> 'w" where
  "WorkflowReconciler_Reconcile lib eng req r w =
     (let workflowKey = fst req @ ''/'' @ snd req in
      case kube_getWorkflow (tc_kube (tl_client lib)) req w of
        (Inl e, w1) \<Rightarrow>
          (if errors_is e ApiNotFound then None else Some e,
           case WorkflowReconciler_TriggerManager r of
             Some tm \<Rightarrow> if errors_is e ApiNotFound then forgetWebhookState workflowKey (pruneTriggers eng workflowKey [] tm) r else r
           | None \<Rightarrow> r, w1)
      | (Inr workflow, w1) \<Rightarrow>
          (case WorkflowReconciler_TriggerManager r of
             None \<Rightarrow> (None, r, w1)
           | Some tm \<Rightarrow>
               if ObjectMeta_DeletionTimestamp (Workflow_Meta workflow) \<noteq> None
               then (None, forgetWebhookState workflowKey (UnregisterWorkflow eng workflow tm) r, w1)
               else (case RegisterWorkflow lib eng workflow tm w1 of
                       (e, tm1, w2) \<Rightarrow> (e, r\<lparr>WorkflowReconciler_TriggerManager := Some tm1\<rparr>, w2))))"

subsection \<open>Paths and signed messages\<close>

lemma split_on_notin: "d \<notin> set s \<Longrightarrow> split_on d s = [s]"
  by (induction s) auto

lemma split_on_append: "d \<notin> set p \<Longrightarrow> split_on d (p @ d # s) = p # split_on d s"
  by (induction p) auto

lemma parseWebhookPath_Some:
  "parseWebhookPath path = Some (ns, name) \<longleftrightarrow>
     path = webhook_prefix @ ns @ ''/'' @ name \<and> ns \<noteq> [] \<and> name \<noteq> [] \<and> CHR ''/'' \<notin> set ns \<and> CHR ''/'' \<notin> set name"
proof
  assume p: "parseWebhookPath path = Some (ns, name)"
  then obtain t where t: "path = webhook_prefix @ t" "split_on (CHR ''/'') t = [ns, name]" "ns \<noteq> []" "name \<noteq> []"
    by (auto simp: parseWebhookPath_def cut_prefix_Some split: option.splits list.splits if_splits)
  have "t = ns @ ''/'' @ name" using join_split [of "CHR ''/''" t] t(2) by simp
  moreover have "CHR ''/'' \<notin> set ns" "CHR ''/'' \<notin> set name" using split_on_parts [of _ "CHR ''/''" t] t(2) by auto
  ultimately show "path = webhook_prefix @ ns @ ''/'' @ name \<and> ns \<noteq> [] \<and> name \<noteq> [] \<and> CHR ''/'' \<notin> set ns \<and> CHR ''/'' \<notin> set name"
    using t by simp
next
  assume "path = webhook_prefix @ ns @ ''/'' @ name \<and> ns \<noteq> [] \<and> name \<noteq> [] \<and> CHR ''/'' \<notin> set ns \<and> CHR ''/'' \<notin> set name"
  then show "parseWebhookPath path = Some (ns, name)" by (simp add: parseWebhookPath_def split_on_append split_on_notin)
qed

lemma char_in_digits: "CHR '':'' \<notin> set ''0123456789''"
  by simp

lemma isDigits_no_colon: "isDigits ds \<Longrightarrow> CHR '':'' \<notin> set ds"
  unfolding isDigits_def list_all_iff by (metis (no_types, lifting) char_in_digits)

lemma parse_int64_no_colon:
  assumes "parse_int64 ts = Some n"
  shows "CHR '':'' \<notin> set ts"
proof (cases ts)
  case (Cons c r)
  with assms have "isDigits r \<and> (c = CHR ''-'' \<or> c = CHR ''+'') \<or> isDigits ts"
    by (auto simp: parse_int64_def Let_def split: if_splits)
  then show ?thesis using isDigits_no_colon [of ts] isDigits_no_colon [of r] Cons by auto
qed simp

lemma sat_duration_bound: "\<bar>d\<bar> \<le> webhookTimestampWindow \<longleftrightarrow> - webhookTimestampWindow \<le> sat_duration d \<and> sat_duration d \<le> webhookTimestampWindow"
  by (auto simp: sat_duration_def webhookTimestampWindow_def max_def min_def abs_le_iff)

lemma parse_int64_Nil [simp]: "parse_int64 [] = None"
  by (simp add: parse_int64_def isDigits_def)

lemma verifyTimestamp_None:
  "verifyTimestamp ts now = None \<longleftrightarrow>
     (\<exists>epoch. parse_int64 ts = Some epoch \<and> \<bar>now - epoch * 1000000000\<bar> \<le> webhookTimestampWindow)"
  unfolding sat_duration_bound by (cases "parse_int64 ts") (auto simp: verifyTimestamp_def Let_def not_less)

lemma verifyHMAC_None:
  "verifyHMAC wl secret ts path body sigHeader = None \<longleftrightarrow>
     (\<exists>h. sigHeader = signature_prefix @ h \<and> hex_decode h = Some (wl_hmac wl secret (signed_message ts path body)))"
  by (auto simp: verifyHMAC_def cut_prefix_Some split: option.splits if_splits)

definition secret_key :: "WebhookSecretRef \<Rightarrow> string" where
  "secret_key ref = (if WebhookSecretRef_Key ref = [] then ''hmac-key'' else WebhookSecretRef_Key ref)"

lemma fetchSecret_Inr:
  assumes "fetchSecret tc ref ns w = (Inr secret, w')"
  shows "\<exists>data. tc_getSecret tc (ns, WebhookSecretRef_Name ref) w = (Inr data, w') \<and> map_of data (secret_key ref) = Some secret \<and> 32 \<le> length secret"
  using assms by (auto simp: fetchSecret_def secret_key_def get_or_def Let_def split: if_splits prod.splits sum.splits option.splits)

lemma fetchSecret_frame: "triggers_client tc runs \<Longrightarrow> fetchSecret tc ref ns w = (x, w') \<Longrightarrow> runs w' = runs w"
  by (auto simp: fetchSecret_def Let_def dest: triggers_frame(1) split: if_splits prod.splits sum.splits)

subsection \<open>What an accepted request has shown\<close>

text \<open>
  \<open>signed_request\<close> says, without the handler, that a request for a workflow was signed by someone who has
  its secret: the workflow and its secret are what the API server returned for the path of the request,
  the secret of the workflow's own namespace.
\<close>

definition signed_request :: "'w tclient \<Rightarrow> 'l webhook_lib \<Rightarrow> WebhookRequest \<Rightarrow> Workflow \<Rightarrow> WebhookTrigger \<Rightarrow> string \<Rightarrow> bool" where
  "signed_request tc wl r workflow spec body \<longleftrightarrow>
     (\<exists>ns name secret data v v' u u' h. WebhookRequest_Path r = webhook_prefix @ ns @ ''/'' @ name \<and> CHR ''/'' \<notin> set ns \<and> CHR ''/'' \<notin> set name \<and>
        kube_getWorkflow (tc_kube tc) (ns, name) v = (Inr workflow, v') \<and> findWebhookTrigger workflow = Some spec \<and>
        tc_getSecret tc (ns, WebhookSecretRef_Name (WebhookTrigger_SecretRef spec)) u = (Inr data, u') \<and>
        map_of data (secret_key (WebhookTrigger_SecretRef spec)) = Some secret \<and> 32 \<le> length secret \<and>
        WebhookRequest_Signature r = signature_prefix @ h \<and>
        hex_decode h = Some (wl_hmac wl secret (signed_message (WebhookRequest_Timestamp r) (WebhookRequest_Path r) body)))"

definition in_time :: "WebhookRequest \<Rightarrow> int \<Rightarrow> bool" where
  "in_time r now \<longleftrightarrow> (\<exists>epoch. parse_int64 (WebhookRequest_Timestamp r) = Some epoch \<and> \<bar>now - epoch * 1000000000\<bar> \<le> webhookTimestampWindow)"

lemma authenticate_Inr:
  assumes "authenticate lib wl r (ns, name) body w = (Inr (workflow, spec), w')" "parseWebhookPath (WebhookRequest_Path r) = Some (ns, name)"
  shows "signed_request (tl_client lib) wl r workflow spec body"
proof -
  let ?tc = "tl_client lib"
  from assms(1) obtain w1 secret where g: "kube_getWorkflow (tc_kube ?tc) (ns, name) w = (Inr workflow, w1)" "findWebhookTrigger workflow = Some spec"
    and f: "fetchSecret ?tc (WebhookTrigger_SecretRef spec) ns w1 = (Inr secret, w')"
    and h: "verifyHMAC wl secret (WebhookRequest_Timestamp r) (WebhookRequest_Path r) body (WebhookRequest_Signature r) = None"
    by (auto simp: authenticate_def Let_def split: prod.splits sum.splits option.splits if_splits)
  from fetchSecret_Inr [OF f] h [unfolded verifyHMAC_None] assms(2) [unfolded parseWebhookPath_Some] g show ?thesis
    unfolding signed_request_def by blast
qed

lemma authenticate_frame:
  assumes "triggers_client (tl_client lib) runs" "authenticate lib wl r key body w = (x, w')"
  shows "runs w' = runs w"
proof -
  obtain g w1 where g: "kube_getWorkflow (tc_kube (tl_client lib)) key w = (g, w1)" by force
  have "runs w1 = runs w" using kube_calls_frame [OF triggers_runs_client [OF assms(1)]] g by blast
  with assms(2) g show ?thesis
    by (auto simp: authenticate_def Let_def dest: fetchSecret_frame [OF assms(1)] split: prod.splits sum.splits option.splits if_splits)
qed

lemma accept_webhook_effect:
  assumes "triggers_client (tl_client lib) runs" "accept_webhook lib wl key workflow spec body addr (s, tm, w) = (resp, s', tm', w')"
  shows "limited_fire workflow (runs w) (runs w')" "tm' = tm \<or> (\<exists>objKey. records (webhook_trigger_key workflow) objKey [] tm tm')"
    "response_code resp = 202 \<Longrightarrow> runs w' \<noteq> runs w"
proof -
  let ?tc = "tl_client lib"
  obtain b s1 w1 where b: "allow_request wl ?tc (fst key @ ''/'' @ snd key) spec s w = (b, s1, w1)" by (metis prod_cases3)
  then have w1: "runs w1 = runs w" by (auto simp: allow_request_def dest: triggers_frame(5) [OF assms(1)] split: prod.splits)
  have "limited_fire workflow (runs w) (runs w') \<and> (tm' = tm \<or> (\<exists>objKey. records (webhook_trigger_key workflow) objKey [] tm tm')) \<and>
    (response_code resp = 202 \<longrightarrow> runs w' \<noteq> runs w)"
  proof (cases b)
    case False
    with assms(2) b w1 show ?thesis by (auto simp: accept_webhook_def writeError_def)
  next
    case True
    obtain rid w2 where rid: "generateID ?tc w1 = (rid, w2)" by force
    then have w2: "runs w2 = runs w1" by (auto simp: generateID_def dest: triggers_frame(2) [OF assms(1)] split: prod.splits)
    obtain q tm1 w3 where q: "CreateWorkflowRunFromWebhook lib workflow spec body
        \<lparr>WebhookRequestMeta_RemoteAddr = addr, WebhookRequestMeta_RequestID = rid\<rparr> tm w2 = (q, tm1, w3)" by (metis prod_cases3)
    from assms(2) b True rid q have res: "resp = webhook_response q" "tm' = tm1" "w' = w3" by (simp_all add: accept_webhook_def)
    note eff = CreateWorkflowRunFromWebhook_effect [OF assms(1) q]
    have "runs w3 \<noteq> runs w2" if "response_code (webhook_response q) = 202"
    proof -
      from that obtain run where "q = Inr (Some run, WebhookRunCreated)"
        by (cases q rule: webhook_response.cases) (auto simp: writeError_def writeJSON_def split: if_splits)
      with eff show ?thesis by blast
    qed
    with eff res w1 w2 show ?thesis by simp
  qed
  then show "limited_fire workflow (runs w) (runs w')" "tm' = tm \<or> (\<exists>objKey. records (webhook_trigger_key workflow) objKey [] tm tm')"
    "response_code resp = 202 \<Longrightarrow> runs w' \<noteq> runs w" by simp_all
qed

lemma handleWebhook_effect:
  assumes law: "triggers_client (tl_client lib) runs" and h: "handleWebhook lib wl r (s, tm, w) = (resp, s', tm', w')"
  obtains (refused) "runs w' = runs w" "s' = s" "tm' = tm" "response_code resp \<noteq> 202"
    | (accepted) workflow spec body where "WebhookRequest_Method r = ''POST''" "in_time r (fst (kube_now (tc_kube (tl_client lib)) w))"
        "body = fst (WebhookRequest_Body r)" "int (length body) \<le> maxBodyBytes" "signed_request (tl_client lib) wl r workflow spec body"
        "limited_fire workflow (runs w) (runs w')" "tm' = tm \<or> (\<exists>objKey. records (webhook_trigger_key workflow) objKey [] tm tm')"
        "response_code resp = 202 \<Longrightarrow> runs w' \<noteq> runs w"
proof -
  let ?tc = "tl_client lib"
  obtain now w1 where now: "kube_now (tc_kube ?tc) w = (now, w1)" by force
  have w1: "runs w1 = runs w" using triggers_frame(5) [OF law now] .
  note simps = handleWebhook_def writeError_def
  show thesis
  proof (cases "WebhookRequest_Method r = ''POST'' \<and> parseWebhookPath (WebhookRequest_Path r) \<noteq> None")
    case False
    with h have "runs w' = runs w" "s' = s" "tm' = tm" "response_code resp \<noteq> 202" by (auto simp: simps split: option.splits if_splits)
    then show thesis by (rule refused)
  next
    case True
    then obtain ns name where path: "WebhookRequest_Method r = ''POST''" "parseWebhookPath (WebhookRequest_Path r) = Some (ns, name)" by auto
    let ?body = "read_limited (maxBodyBytes + 1) (WebhookRequest_Body r)"
    show thesis
    proof (cases "verifyTimestamp (WebhookRequest_Timestamp r) now = None \<and> (\<exists>body. ?body = Inr body \<and> int (length body) \<le> maxBodyBytes)")
      case False
      with h path now w1 have "runs w' = runs w" "s' = s" "tm' = tm" "response_code resp \<noteq> 202"
        by (auto simp: simps split: option.splits sum.splits if_splits)
      then show thesis by (rule refused)
    next
      case True
      then obtain body where ts: "verifyTimestamp (WebhookRequest_Timestamp r) now = None" and body: "?body = Inr body" "int (length body) \<le> maxBodyBytes" by blast
      have full: "body = fst (WebhookRequest_Body r)" using body by (auto simp: read_limited_def split: if_splits option.splits)
      obtain x w2 where x: "authenticate lib wl r (ns, name) body w1 = (x, w2)" by force
      have w2: "runs w2 = runs w" using authenticate_frame [OF law x] w1 by simp
      show thesis
      proof (cases x)
        case (Inl resp1)
        with h path now ts body x have "resp = resp1" "s' = s" "tm' = tm" "w' = w2" by (auto simp: handleWebhook_def)
        moreover have "response_code resp1 \<noteq> 202"
          using x Inl by (auto simp: authenticate_def writeError_def Let_def split: prod.splits sum.splits option.splits if_splits)
        ultimately show thesis using w2 refused by simp
      next
        case (Inr y)
        obtain workflow spec where y: "y = (workflow, spec)" by force
        with h path now ts body x Inr
        have "accept_webhook lib wl (ns, name) workflow spec body (WebhookRequest_RemoteAddr r) (s, tm, w2) = (resp, s', tm', w')"
          by (auto simp: handleWebhook_def)
        note eff = accept_webhook_effect [OF law this]
        show thesis
        proof (rule accepted [OF path(1) _ full body(2) authenticate_Inr [OF _ path(2)]])
          show "in_time r (fst (kube_now (tc_kube ?tc) w))" using ts now by (simp add: verifyTimestamp_None in_time_def)
          show "authenticate lib wl r (ns, name) body w1 = (Inr (workflow, spec), w2)" using x Inr y by simp
        qed (use eff w2 in simp_all)
      qed
    qed
  qed
qed

text \<open>
  The media type is checked before the signature: a request that nobody signed is told 415 for a workflow whose
  webhook trigger evaluates CEL, and 401 for one that does not exist.
\<close>

lemma media_type_before_signature:
  assumes "WebhookRequest_Method r = ''POST''" "parseWebhookPath (WebhookRequest_Path r) = Some key"
    and "kube_now (tc_kube (tl_client lib)) w = (now, w1)" "verifyTimestamp (WebhookRequest_Timestamp r) now = None"
    and "WebhookRequest_Body r = ([], None)" "\<not> has_prefix (WebhookRequest_ContentType r) ''application/json''"
    and "kube_getWorkflow (tc_kube (tl_client lib)) key w1 = (g, w2)"
  shows "(\<exists>workflow spec. g = Inr workflow \<and> findWebhookTrigger workflow = Some spec \<and> webhook_needs_object spec) \<Longrightarrow>
      response_code (fst (handleWebhook lib wl r (s, tm, w))) = 415"
    "(\<exists>e. g = Inl e) \<Longrightarrow> response_code (fst (handleWebhook lib wl r (s, tm, w))) = 401"
proof -
  have "read_limited (maxBodyBytes + 1) ([], None) = Inr []" "\<not> maxBodyBytes < 0" by (simp_all add: read_limited_def maxBodyBytes_def)
  then show "(\<exists>workflow spec. g = Inr workflow \<and> findWebhookTrigger workflow = Some spec \<and> webhook_needs_object spec) \<Longrightarrow>
      response_code (fst (handleWebhook lib wl r (s, tm, w))) = 415"
    "(\<exists>e. g = Inl e) \<Longrightarrow> response_code (fst (handleWebhook lib wl r (s, tm, w))) = 401"
    using assms by (auto simp: handleWebhook_def authenticate_def writeError_def Let_def)
qed

end
