(* ===== verification/Trigger_Properties.thy ===== *)
theory Trigger_Properties
  imports Trigger_Registry Webhook_Server
begin

text \<open>
  The properties of the triggers: what is registered, how many runs they may create, which events and requests
  create none.

  Fires are steps of a transition system, one after the other; the goroutines of the program check the
  limit and create the run without a lock, so the bound on concurrent runs is one of fires that do not overlap.
\<close>

subsection \<open>Registration\<close>

text \<open>The specification: the entries of one workflow are replaced, all others stay.\<close>

definition replace_own :: "(string \<Rightarrow> nat \<Rightarrow> string) \<Rightarrow> string \<Rightarrow> (string \<Rightarrow> 'v option) \<Rightarrow> (string \<Rightarrow> 'v option) \<Rightarrow> string \<Rightarrow> 'v option" where
  "replace_own key wk new old k = (if \<exists>i. k = key wk i then new k else old k)"

definition cron_entries :: "Workflow \<Rightarrow> (string \<times> Workflow \<times> CronTrigger) list" where
  "cron_entries workflow =
     trigger_table (cron_key (workflow_key workflow)) Trigger_Cron workflow 0 (WorkflowSpec_Triggers (Workflow_Spec workflow))"

definition event_entries :: "Workflow \<Rightarrow> (string \<times> Workflow \<times> EventTrigger) list" where
  "event_entries workflow =
     trigger_table (event_key (workflow_key workflow)) Trigger_Event workflow 0 (WorkflowSpec_Triggers (Workflow_Spec workflow))"

lemma replace_pruned:
  assumes "inj (key wk)" "named key V" "length ts < 2 ^ 63"
    and uniq: "\<And>wk' i wk'' j. key wk' i = key wk'' j \<Longrightarrow> wk' = wk''"
    and stale: "\<And>wk' i. stale (key wk' i) \<longleftrightarrow> wk' = wk \<and> (length ts \<le> i \<or> want (ts ! i) = None)"
  shows "(\<lambda>k. if stale k then None else V k) ++ map_of (trigger_table (key wk) want workflow 0 ts) =
    replace_own key wk (map_of (trigger_table (key wk) want workflow 0 ts)) V"
proof (rule ext)
  fix k
  let ?T = "map_of (trigger_table (key wk) want workflow 0 ts)"
  show "((\<lambda>k. if stale k then None else V k) ++ ?T) k = replace_own key wk ?T V k"
  proof (cases "\<exists>wk' i. k = key wk' i")
    case False
    then have "V k = None" using assms(2) unfolding named_def by blast
    moreover have "?T k = None" using False by (auto intro!: trigger_table_other)
    moreover note False
    ultimately show ?thesis by (simp add: map_add_def replace_own_def)
  next
    case True
    then obtain wk' i where k: "k = key wk' i" by blast
    show ?thesis
    proof (cases "wk' = wk")
      case True
      with k have "?T k = (if i < length ts then map_option (\<lambda>spec. (workflow, spec)) (want (ts ! i)) else None)"
        using trigger_table_at [OF assms(1), of want workflow 0 ts i] by simp
      with True k stale [of wk i] show ?thesis by (auto simp: map_add_def replace_own_def split: option.splits)
    next
      case False
      then have own: "\<nexists>j. k = key wk j" using k uniq by blast
      then have "?T k = None" by (auto intro!: trigger_table_other)
      with own False k stale [of wk' i] show ?thesis by (simp add: map_add_def replace_own_def)
    qed
  qed
qed

lemma pruned_crons:
  assumes "named cron_key (scheduled s)" "length (WorkflowSpec_Triggers (Workflow_Spec workflow)) < 2 ^ 63"
  shows "scheduled (prune_crons eng (workflow_key workflow) (WorkflowSpec_Triggers (Workflow_Spec workflow)) s) ++ map_of (cron_entries workflow) =
    replace_own cron_key (workflow_key workflow) (map_of (cron_entries workflow)) (scheduled s)"
  unfolding prune_crons_scheduled [abs_def] cron_entries_def
  by (rule replace_pruned [OF _ assms]) (auto simp: inj_def keys_unique stale_cron_key [OF assms(2)])

lemma pruned_events:
  assumes "named event_key (watched tm)" "length (WorkflowSpec_Triggers (Workflow_Spec workflow)) < 2 ^ 63"
  shows "watched (pruneTriggers eng (workflow_key workflow) (WorkflowSpec_Triggers (Workflow_Spec workflow)) tm) ++ map_of (event_entries workflow) =
    replace_own event_key (workflow_key workflow) (map_of (event_entries workflow)) (watched tm)"
  unfolding pruneTriggers_watched [abs_def] event_entries_def
  by (rule replace_pruned [OF _ assms]) (auto simp: inj_def keys_unique stale_event_key [OF assms(2)])


text \<open>
  \<open>silent\<close>: no cron entry of the engine fires a key of the workflow and no goroutine watches objects for it.
\<close>

definition silent :: "('c \<Rightarrow> nat \<Rightarrow> (string \<times> string) option) \<Rightarrow> string \<Rightarrow> 'c TriggerManager \<Rightarrow> bool" where
  "silent fired_by wk tm \<longleftrightarrow>
     (\<forall>s i sch j. tm_scheduler tm = Some s \<longrightarrow> fired_by (Scheduler_cron s) i \<noteq> Some (sch, cron_key wk j)) \<and>
     (\<forall>ctx j workflow spec. (ctx, event_key wk j, workflow, spec) \<notin> set (tm_goroutines tm))"

lemma pruned_silent:
  assumes "cron_engine eng fired_by" "manager_ok fired_by tm"
  shows "silent fired_by wk (pruneTriggers eng wk [] tm)"
  unfolding silent_def
proof (intro conjI allI impI notI)
  let ?tm = "pruneTriggers eng wk [] tm"
  have ok: "manager_ok fired_by ?tm" by (rule pruneTriggers_manager_ok [OF assms])
  show False if "tm_scheduler ?tm = Some s" "fired_by (Scheduler_cron s) i = Some (sch, cron_key wk j)" for s i sch j
  proof -
    from that(1) obtain s0 where s0: "s = prune_crons eng wk [] s0" by auto
    from ok that(1) have sok: "schedules_ok fired_by s" by (auto simp: manager_ok_def)
    with that(2) have "map_of (Scheduler_entries s) (cron_key wk j) \<noteq> None" unfolding schedules_ok_def by blast
    with sok have "scheduled s (cron_key wk j) \<noteq> None" unfolding schedules_ok_def by (auto simp: scheduled_def)
    then show False by (simp add: s0 prune_crons_scheduled stale_cron_key)
  qed
  show False if "(ctx, event_key wk j, workflow, spec) \<in> set (tm_goroutines ?tm)" for ctx j workflow spec
  proof -
    from ok have "watches_ok ?tm" by (simp add: manager_ok_def)
    then have "watched ?tm (event_key wk j) \<noteq> None" using watches_okD that by (metis option.distinct(1))
    then show False by (simp add: pruneTriggers_watched stale_event_key)
  qed
qed

text \<open>Everything the reconciler does to the manager is one of its steps.\<close>

lemma Reconcile_managed:
  assumes "managed lib eng engine tm" "WorkflowReconciler_TriggerManager r = Some tm"
    and "WorkflowReconciler_Reconcile lib eng req r w = (e, r', w')" "WorkflowReconciler_TriggerManager r' = Some tm'"
  shows "managed lib eng engine tm'"
proof -
  have pruned: "managed lib eng engine (CleanupWebhookDedup k (pruneTriggers eng wk [] tm))" for k wk
    unfolding CleanupWebhookDedup_def by (intro managed.fire managed.unregister assms(1))
  from assms(2-4) consider "tm' = tm" | k wk where "tm' = CleanupWebhookDedup k (pruneTriggers eng wk [] tm)"
    | workflow v e1 v' where "RegisterWorkflow lib eng workflow tm v = (e1, tm', v')"
    by (auto simp: WorkflowReconciler_Reconcile_def Let_def forgetWebhookState_def UnregisterWorkflow_def
        split: prod.splits sum.splits if_splits)
  then show ?thesis using assms(1) pruned managed.register by cases blast+
qed


subsection \<open>The limit on concurrent runs\<close>

definition bounded :: "Workflow \<Rightarrow> run_store \<Rightarrow> bool" where
  "bounded W R \<longleftrightarrow> finite (active_runs W R) \<and> int (card (active_runs W R)) \<le> max_runs W"

text \<open>A copy of a workflow that a trigger uses has the limit of the workflow.\<close>

definition same_limit :: "Workflow \<Rightarrow> Workflow \<Rightarrow> bool" where
  "same_limit W workflow \<longleftrightarrow>
     (Workflow_Namespace workflow = Workflow_Namespace W \<and> Workflow_Name workflow = Workflow_Name W \<longrightarrow> max_runs workflow = max_runs W)"

lemma limited_fire_bounded:
  assumes "limited_fire workflow R R'" "same_limit W workflow" "0 < max_runs W" "bounded W R"
  shows "bounded W R'"
proof (cases "R' = R")
  case False
  show ?thesis
  proof (cases "Workflow_Namespace workflow = Workflow_Namespace W \<and> Workflow_Name workflow = Workflow_Name W")
    case True
    then have same: "active_runs workflow = active_runs W" by (auto simp: active_runs_def fun_eq_iff)
    from True assms have "fires workflow R R'" "int (card (active_runs W R)) < max_runs W" "finite (active_runs W R)"
      using False same by (auto simp: limited_fire_def same_limit_def bounded_def)
    with active_runs_fires [of workflow R R'] False same show ?thesis by (simp add: bounded_def)
  next
    case other: False
    from assms(1) False obtain k r where r: "R' = R(k \<mapsto> r)" "R k = None" "run_of workflow r" unfolding limited_fire_def fires_def by blast
    then have "active_runs W R' = active_runs W R"
      using other by (auto simp: active_runs_def run_of_def has_labels_def split: if_splits)
    with assms(4) show ?thesis by (simp add: bounded_def)
  qed
qed (use assms in simp)

lemma bounded_sub: "bounded W R \<Longrightarrow> active_runs W R' \<subseteq> active_runs W R \<Longrightarrow> bounded W R'"
  unfolding bounded_def by (meson card_mono finite_subset of_nat_le_iff order_trans)

lemma cancels_active: "cancels workflow R R' \<Longrightarrow> active_runs W R' \<subseteq> active_runs W R"
proof
  fix k
  assume c: "cancels workflow R R'" and "k \<in> active_runs W R'"
  then obtain r where r: "R' k = Some r" "IsActive (run_phase r)" unfolding active_runs_def by blast
  from c [unfolded cancels_def, THEN spec, of k] r have "R' k = R k" by (metis option.inject replaced_simps(2))
  with \<open>k \<in> active_runs W R'\<close> show "k \<in> active_runs W R" by (simp add: active_runs_def)
qed

text \<open>
  The steps of the triggers next to everything else that happens: a cron fire, an event of a watched object, a
  webhook request, and any step of other parts that makes no run of the workflow active.
\<close>

inductive trigger_step ::
  "'w trigger_lib \<Rightarrow> 'l webhook_lib \<Rightarrow> ('w \<Rightarrow> run_store) \<Rightarrow> Workflow \<Rightarrow> ('l, 'c, 'w) webhook_state \<Rightarrow> ('l, 'c, 'w) webhook_state \<Rightarrow> bool"
  for lib wl runs W where
  cron: "tm_scheduler tm = Some s \<Longrightarrow> (case map_of (Scheduler_workflows s) key of None \<Rightarrow> True | Some workflow \<Rightarrow> same_limit W workflow) \<Longrightarrow>
     trigger_step lib wl runs W (ws, tm, w) (ws, tm, handleCronFire (tl_client lib) key s w)"
| event: "(case map_of (tm_goroutines tm) ctx of None \<Rightarrow> True | Some (key, workflow, spec) \<Rightarrow> same_limit W workflow) \<Longrightarrow>
     watchEvents lib ctx obj ty tm w = (tm', w') \<Longrightarrow> trigger_step lib wl runs W (ws, tm, w) (ws, tm', w')"
| webhook: "(\<And>k v v' workflow. kube_getWorkflow (tc_kube (tl_client lib)) k v = (Inr workflow, v') \<Longrightarrow> same_limit W workflow) \<Longrightarrow>
     handleWebhook lib wl r (ws, tm, w) = (resp, ws', tm', w') \<Longrightarrow> trigger_step lib wl runs W (ws, tm, w) (ws', tm', w')"
| other: "active_runs W (runs w') \<subseteq> active_runs W (runs w) \<Longrightarrow> trigger_step lib wl runs W (ws, tm, w) (ws', tm', w')"

lemma trigger_step_bounded:
  assumes "triggers_client (tl_client lib) runs" "0 < max_runs W" "trigger_step lib wl runs W st st'" "bounded W (runs (snd (snd st)))"
  shows "bounded W (runs (snd (snd st')))"
  using assms(3,4)
proof cases
  case (cron tm s key ws w)
  show ?thesis
  proof (cases "map_of (Scheduler_workflows s) key = None \<or> map_of (Scheduler_cronSpecs s) key = None")
    case True
    then have "handleCronFire (tl_client lib) key s w = w" by (auto simp: handleCronFire_def split: option.splits)
    with cron assms(4) show ?thesis by simp
  next
    case False
    then obtain workflow spec where e: "map_of (Scheduler_workflows s) key = Some workflow" "map_of (Scheduler_cronSpecs s) key = Some spec" by auto
    from handleCronFire_effect [OF assms(1) e, of w] obtain R1 where R1: "cancels workflow (runs w) R1"
      "limited_fire workflow R1 (runs (handleCronFire (tl_client lib) key s w))" by metis
    from bounded_sub [OF _ cancels_active [OF R1(1)]] assms(4) cron(1) have "bounded W R1" by simp
    from limited_fire_bounded [OF R1(2) _ assms(2) this] cron e show ?thesis by simp
  qed
next
  case (event tm ctx obj ty w tm' w' ws)
  show ?thesis
  proof (cases "map_of (tm_goroutines tm) ctx = None \<or> obj = None")
    case True
    with event(4) have "w' = w" by (auto simp: watchEvents_def split: option.splits)
    with event assms(4) show ?thesis by simp
  next
    case False
    then obtain key workflow spec u where g: "map_of (tm_goroutines tm) ctx = Some (key, workflow, spec)" "obj = Some u" by auto
    obtain e where "CreateWorkflowRunFromEvent lib key workflow spec u ty tm w = (e, tm', w')"
      using event(4) g by (cases "CreateWorkflowRunFromEvent lib key workflow spec u ty tm w") (auto simp: watchEvents_def)
    from CreateWorkflowRunFromEvent_effect [OF assms(1) this] limited_fire_bounded [OF _ _ assms(2)] event g assms(4) show ?thesis by auto
  qed
next
  case (webhook r ws tm w resp ws' tm' w')
  from webhook(4) show ?thesis
  proof (rule handleWebhook_effect [OF assms(1)])
    assume "runs w' = runs w"
    with webhook assms(4) show ?thesis by simp
  next
    fix workflow spec body
    assume "signed_request (tl_client lib) wl r workflow spec body" "limited_fire workflow (runs w) (runs w')"
    with webhook limited_fire_bounded [OF _ _ assms(2)] assms(4) show ?thesis unfolding signed_request_def by auto
  qed
next
  case (other w' w ws tm ws' tm')
  with bounded_sub assms(4) show ?thesis by auto
qed


subsection \<open>Events that create no run\<close>

type_synonym trigger_event = "string \<times> Workflow \<times> EventTrigger \<times> Unstructured \<times> EventType"

fun handle_events :: "'w trigger_lib \<Rightarrow> trigger_event list \<Rightarrow> 'c TriggerManager \<Rightarrow> 'w \<Rightarrow> 'c TriggerManager \<times> 'w" where
  "handle_events lib [] tm w = (tm, w)"
| "handle_events lib ((key, workflow, spec, obj, ty) # evs) tm w =
     (case CreateWorkflowRunFromEvent lib key workflow spec obj ty tm w of (e, tm1, w1) \<Rightarrow> handle_events lib evs tm1 w1)"

text \<open>An event that is not of the object, or of the same revision of it.\<close>

definition keeps_revision :: "'w trigger_lib \<Rightarrow> string \<Rightarrow> string \<Rightarrow> string \<Rightarrow> trigger_event \<Rightarrow> bool" where
  "keeps_revision lib triggerKey objKey revision ev =
     (case ev of (key, workflow, spec, obj, ty) \<Rightarrow>
        (key, object_dedup_key obj) \<noteq> (triggerKey, objKey) \<or> current_dedup_key lib spec (Unstructured_Object obj) = revision)"

definition has_revision :: "'c TriggerManager \<Rightarrow> string \<Rightarrow> string \<Rightarrow> string \<Rightarrow> bool" where
  "has_revision tm triggerKey objKey revision \<longleftrightarrow>
     (\<exists>entry. dedup_lookup (tm_dedupState tm) triggerKey objKey = Some entry \<and> dedupEntry_key entry = revision)"

lemma handle_events_revision:
  assumes "triggers_client (tl_client lib) runs" "handle_events lib evs tm w = (tm', w')" "list_all (keeps_revision lib triggerKey objKey revision) evs"
    and "has_revision tm triggerKey objKey revision"
  shows "has_revision tm' triggerKey objKey revision"
  using assms(2-4)
proof (induction evs arbitrary: tm w)
  case (Cons ev evs)
  obtain key workflow spec obj ty where ev: "ev = (key, workflow, spec, obj, ty)" by (metis prod_cases5)
  obtain e tm1 w1 where c: "CreateWorkflowRunFromEvent lib key workflow spec obj ty tm w = (e, tm1, w1)" by (metis prod_cases3)
  have "has_revision tm1 triggerKey objKey revision"
  proof (cases "tm1 = tm")
    case False
    with CreateWorkflowRunFromEvent_effect [OF assms(1) c]
    have rec: "records key (object_dedup_key obj) (current_dedup_key lib spec (Unstructured_Object obj)) tm tm1" by blast
    show ?thesis
    proof (cases "(key, object_dedup_key obj) = (triggerKey, objKey)")
      case True
      with Cons.prems(2) ev records_lookup(1) [OF rec] show ?thesis by (auto simp: keeps_revision_def has_revision_def)
    next
      case False
      then show ?thesis using Cons.prems(3) records_lookup(2) [OF rec, of triggerKey objKey] by (auto simp: has_revision_def)
    qed
  qed (use Cons.prems in simp)
  with Cons.IH [of tm1 w1] Cons.prems c ev show ?case by simp
qed simp


text \<open>A stored run as the watch of a trigger sees it.\<close>

definition run_object :: "gomap \<Rightarrow> WorkflowRun \<Rightarrow> Unstructured" where
  "run_object content r =
     \<lparr>Unstructured_Object = content, Unstructured_Group = ''ottoflow.nirmata.io'', Unstructured_Version = ''v1alpha1'',
      Unstructured_Kind = ''WorkflowRun'', Unstructured_Namespace = WorkflowRun_Namespace r, Unstructured_Name = WorkflowRun_Name r,
      Unstructured_UID = ObjectMeta_UID (WorkflowRun_Meta r), Unstructured_Labels = WorkflowRun_Labels r,
      Unstructured_OwnerReferences = WorkflowRun_Owners r\<rparr>"

text \<open>
  A workflow does not feed on its own runs. A run that an event trigger of a workflow has created creates no
  run when it is itself the object of an event for a trigger of that workflow, whichever trigger, operation
  and version of the workflow that is, and leaves the state of the manager as it was.
\<close>

theorem own_runs_ignored:
  assumes "triggers_client (tl_client lib) runs"
    and "CreateWorkflowRunFromEvent lib key workflow spec obj ty tm w = (e, tm1, w1)" "runs w k = None" "runs w1 k = Some r"
    and "ObjectMeta_UID (Workflow_Meta workflow') = ObjectMeta_UID (Workflow_Meta workflow)"
  shows "CreateWorkflowRunFromEvent lib key' workflow' spec' (run_object content r) ty' tm2 w2 = (None, tm2, w2)"
proof -
  from CreateWorkflowRunFromEvent_effect [OF assms(1,2)] have "fires workflow (runs w) (runs w1)" by (simp add: limited_fire_def)
  then have "run_of workflow r" using assms(3,4) by (auto simp: fires_def split: if_splits)
  then have "isOwnWorkflowRun (run_object content r) workflow'"
    using assms(5) by (auto simp: run_of_def isOwnWorkflowRun_def run_object_def is_workflow_run_kind_def list_ex_iff workflow_owner_def intro!: bexI)
  then show ?thesis by (simp add: CreateWorkflowRunFromEvent_def event_admitted_def)
qed

subsection \<open>Webhook requests\<close>

text \<open>
  C35: Only signed requests create runs. When a webhook request changes the stored runs, the manager or a rate
  limiter, or is answered 202, it was a POST for an existing workflow with a webhook trigger, its timestamp
  within five minutes of the clock and its body at most 1 MiB, with the HMAC of timestamp, path and body under
  a secret of at least 32 bytes from the namespace of that workflow, and what it adds is at most one run of that
  workflow.
\<close>

theorem webhook_authentic:
  assumes "triggers_client (tl_client lib) runs" "handleWebhook lib wl r (ws, tm, w) = (resp, ws', tm', w')"
    and "runs w' \<noteq> runs w \<or> tm' \<noteq> tm \<or> ws' \<noteq> ws \<or> response_code resp = 202"
  shows "\<exists>workflow spec. WebhookRequest_Method r = ''POST'' \<and> in_time r (fst (kube_now (tc_kube (tl_client lib)) w)) \<and>
    int (length (fst (WebhookRequest_Body r))) \<le> maxBodyBytes \<and>
    signed_request (tl_client lib) wl r workflow spec (fst (WebhookRequest_Body r)) \<and> limited_fire workflow (runs w) (runs w')"
  using assms(2)
proof (rule handleWebhook_effect [OF assms(1)])
  assume "runs w' = runs w" "ws' = ws" "tm' = tm" "response_code resp \<noteq> 202"
  with assms(3) show ?thesis by simp
next
  fix workflow spec body
  assume "WebhookRequest_Method r = ''POST''" "in_time r (fst (kube_now (tc_kube (tl_client lib)) w))" "body = fst (WebhookRequest_Body r)"
    "int (length body) \<le> maxBodyBytes" "signed_request (tl_client lib) wl r workflow spec body" "limited_fire workflow (runs w) (runs w')"
  then show ?thesis by blast
qed

text \<open>
  C40: A signature is good for one request only. Two requests with valid timestamps for workflows whose namespace
  and name have no colon (no Kubernetes name has one) are signed over the same message only if they have the
  same timestamp, go to the same workflow and have the same body: a signed request cannot be replayed against
  another endpoint or with another body, even when two workflows share a secret.
\<close>

theorem signed_message_binds:
  assumes "parse_int64 ts = Some t" "parse_int64 ts' = Some t'"
    and "parseWebhookPath path = Some (ns, name)" "parseWebhookPath path' = Some (ns', name')"
    and "CHR '':'' \<notin> set (ns @ name @ ns' @ name')" "signed_message ts path body = signed_message ts' path' body'"
  shows "t = t' \<and> ns = ns' \<and> name = name' \<and> body = body'"
proof -
  have colon: "CHR '':'' \<notin> set path" "CHR '':'' \<notin> set path'"
    using assms(3-5) by (auto simp: parseWebhookPath_Some webhook_prefix_def)
  from assms(6) have "ts @ CHR '':'' # path @ '':'' @ body = ts' @ CHR '':'' # path' @ '':'' @ body'" by (simp add: signed_message_def)
  from separator_unique [OF this] parse_int64_no_colon assms(1,2) have "ts = ts'" "path @ CHR '':'' # body = path' @ CHR '':'' # body'" by auto
  moreover from separator_unique [OF this(2) colon] have "path = path'" "body = body'" by auto
  ultimately show ?thesis using assms(1-4) by auto
qed

subsection \<open>Witnesses\<close>

definition webhook_spec :: WebhookTrigger where
  "webhook_spec = \<lparr>WebhookTrigger_SecretRef = \<lparr>WebhookSecretRef_Name = ''s'', WebhookSecretRef_Namespace = [], WebhookSecretRef_Key = []\<rparr>,
     WebhookTrigger_CELFilter = [], WebhookTrigger_InputMapping = [], WebhookTrigger_DedupKey = [], WebhookTrigger_DedupWindow = None,
     WebhookTrigger_RateLimit = None\<rparr>"

definition pod_spec :: EventTrigger where
  "pod_spec = \<lparr>EventTrigger_Resources = [\<lparr>EventResource_APIVersion = ''v1'', EventResource_Kind = ''Pod'', EventResource_Namespace = ''ns''\<rparr>],
     EventTrigger_Operations = [], EventTrigger_LabelSelector = None, EventTrigger_FieldSelector = [], EventTrigger_InputMapping = [],
     EventTrigger_CELFilter = [], EventTrigger_DedupKey = [], EventTrigger_DedupWindow = None\<rparr>"

definition cron_spec :: CronTrigger where
  "cron_spec = \<lparr>CronTrigger_Schedule = ''@hourly'', CronTrigger_Timezone = [], CronTrigger_ConcurrencyPolicy = ''Forbid'',
     CronTrigger_StartingDeadlineSeconds = None, CronTrigger_InputValuesFrom = []\<rparr>"

definition triggered_workflow :: Workflow where
  "triggered_workflow = zero_Workflow\<lparr>Workflow_Meta := zero_ObjectMeta\<lparr>ObjectMeta_Name := ''w'', ObjectMeta_Namespace := ''ns'', ObjectMeta_UID := ''u1''\<rparr>,
     Workflow_Spec := zero_WorkflowSpec\<lparr>WorkflowSpec_Triggers :=
       [\<lparr>Trigger_Cron = Some cron_spec, Trigger_Event = None, Trigger_Webhook = None\<rparr>,
        \<lparr>Trigger_Cron = None, Trigger_Event = Some pod_spec, Trigger_Webhook = None\<rparr>,
        \<lparr>Trigger_Cron = None, Trigger_Event = None, Trigger_Webhook = Some webhook_spec\<rparr>]\<rparr>\<rparr>"

definition demo_triggers :: "(WorkflowRun option) trigger_lib" where
  "demo_triggers = \<lparr>tl_client = memory_tclient triggered_workflow, tl_env = demo_web,
     tl_web = \<lparr>client_workflow = (\<lambda>_. None), client_agent = (\<lambda>_. None), client_rootScoped = (\<lambda>_. Inr False)\<rparr>,
     tl_mapping = (\<lambda>_. Inr ([], ''v1'', ''pods'')), tl_labelSelector = (\<lambda>_. Inr []), tl_fieldSelector = (\<lambda>_. None),
     tl_open = (\<lambda>_ w. (Inr 0, w)), tl_compile = (\<lambda>_. None), tl_program = (\<lambda>_. Inr (\<lambda>_. Inr VNil)), tl_format = (\<lambda>_. []),
     tl_decode = (\<lambda>_. RawBad), tl_sha256 = (\<lambda>_. ''ab'')\<rparr>"

type_synonym memory_engine = "nat \<times> (nat \<times> string \<times> string) list"

abbreviation fresh_scheduler :: "memory_engine Scheduler" where
  "fresh_scheduler \<equiv> NewScheduler (0, [])"

abbreviation fresh_manager :: "memory_engine TriggerManager" where
  "fresh_manager \<equiv> NewTriggerManager (Some fresh_scheduler)"

definition registered_manager :: "memory_engine TriggerManager" where
  "registered_manager = fst (snd (RegisterWorkflow demo_triggers memory_cron triggered_workflow fresh_manager None))"

lemma demo_laws: "triggers_client (tl_client demo_triggers) memory_runs" "memory_fired (0, []) = (\<lambda>i. None)"
  by (simp_all add: demo_triggers_def memory_triggers_client memory_fired_def fun_eq_iff)

lemma demo_registers:
  "RegisterWorkflow demo_triggers memory_cron triggered_workflow fresh_manager None = (None, registered_manager, None)"
proof -
  have "fst (RegisterWorkflow demo_triggers memory_cron triggered_workflow fresh_manager None) = None" by code_simp
  moreover have "snd (snd (RegisterWorkflow demo_triggers memory_cron triggered_workflow fresh_manager None)) = None" by code_simp
  ultimately show ?thesis by (simp add: registered_manager_def prod_eq_iff)
qed


definition deleting_triggers :: "(WorkflowRun option) trigger_lib" where
  "deleting_triggers = demo_triggers\<lparr>tl_client := memory_tclient (triggered_workflow\<lparr>Workflow_Meta :=
     (Workflow_Meta triggered_workflow)\<lparr>ObjectMeta_DeletionTimestamp := Some 0\<rparr>\<rparr>)\<rparr>"

definition deleting_manager :: "memory_engine TriggerManager" where
  "deleting_manager = fst (snd (RegisterWorkflow deleting_triggers memory_cron triggered_workflow fresh_manager None))"

definition demo_reconciler :: "(unit, memory_engine) WorkflowReconciler" where
  "demo_reconciler = \<lparr>WorkflowReconciler_TriggerManager = Some deleting_manager, WorkflowReconciler_WebhookServer = None\<rparr>"


definition pod_object :: "string \<Rightarrow> Unstructured" where
  "pod_object revision = \<lparr>Unstructured_Object = [(''status'', VMap [(''sync'', VMap [(''revision'', VString revision)])])],
     Unstructured_Group = [], Unstructured_Version = ''v1'', Unstructured_Kind = ''Pod'', Unstructured_Namespace = ''ns'',
     Unstructured_Name = ''p'', Unstructured_UID = ''u2'', Unstructured_Labels = [], Unstructured_OwnerReferences = []\<rparr>"

definition first_event :: "goerror option \<times> memory_engine TriggerManager \<times> WorkflowRun option" where
  "first_event = CreateWorkflowRunFromEvent demo_triggers ''ns/w-event-1'' triggered_workflow pod_spec (pod_object ''r1'') Added registered_manager None"

lemma first_event_effect:
  "CreateWorkflowRunFromEvent demo_triggers ''ns/w-event-1'' triggered_workflow pod_spec (pod_object ''r1'') Added registered_manager None =
     (None, fst (snd first_event), snd (snd first_event))"
  "snd (snd first_event) \<noteq> None"
proof -
  have "fst first_event = None" by code_simp
  then have "first_event = (None, fst (snd first_event), snd (snd first_event))" by (metis prod.collapse)
  then show "CreateWorkflowRunFromEvent demo_triggers ''ns/w-event-1'' triggered_workflow pod_spec (pod_object ''r1'') Added registered_manager None =
     (None, fst (snd first_event), snd (snd first_event))" by (simp only: first_event_def [symmetric])
  show "snd (snd first_event) \<noteq> None" by code_simp
qed

definition demo_webhooks :: "unit webhook_lib" where
  "demo_webhooks = \<lparr>wl_hmac = (\<lambda>_ _. ''a''), wl_newLimiter = (\<lambda>_ _. ()), wl_allow = (\<lambda>l now. (True, l))\<rparr>"

definition watched_event :: "memory_engine TriggerManager \<times> WorkflowRun option" where
  "watched_event = watchEvents demo_triggers 0 (Some (pod_object ''r1'')) Added registered_manager None"



theorem own_runs_ignored_witness:
  "CreateWorkflowRunFromEvent demo_triggers ''ns/w-event-1'' triggered_workflow pod_spec (run_object [] (the (snd (snd first_event)))) Added
     fresh_manager None = (None, fresh_manager, None)"
proof -
  obtain r where r: "snd (snd first_event) = Some r" using first_event_effect(2) by auto
  have "memory_runs None (run_key r) = None" "memory_runs (snd (snd first_event)) (run_key r) = Some r"
    by (simp_all add: memory_runs_def r)
  from own_runs_ignored [OF demo_laws(1) first_event_effect(1) this refl] show ?thesis by (simp add: r)
qed

definition signed_webhook :: WebhookRequest where
  "signed_webhook = \<lparr>WebhookRequest_Method = ''POST'', WebhookRequest_Path = ''/webhooks/ns/w'', WebhookRequest_Timestamp = ''10'',
     WebhookRequest_Signature = ''sha256=61'', WebhookRequest_ContentType = [], WebhookRequest_RemoteAddr = [], WebhookRequest_Body = ([], None)\<rparr>"

definition webhook_handled :: "Response \<times> unit WebhookServer \<times> memory_engine TriggerManager \<times> WorkflowRun option" where
  "webhook_handled = handleWebhook demo_triggers demo_webhooks signed_webhook (NewWebhookServer, fresh_manager, None)"

theorem webhook_authentic_witness:
  "\<exists>workflow spec. signed_request (tl_client demo_triggers) demo_webhooks signed_webhook workflow spec [] \<and>
     limited_fire workflow (memory_runs None) (memory_runs (snd (snd (snd webhook_handled))))"
proof -
  have code: "response_code (fst webhook_handled) = 202" by code_simp
  obtain resp ws tm w where h: "webhook_handled = (resp, ws, tm, w)" by (metis prod_cases4)
  have "response_code resp = 202" using code unfolding h by simp
  moreover have "fst (WebhookRequest_Body signed_webhook) = []" "snd (snd (snd webhook_handled)) = w" by (simp_all add: signed_webhook_def h)
  ultimately show ?thesis using webhook_authentic [OF demo_laws(1) h [unfolded webhook_handled_def]] by auto
qed

theorem signed_message_binds_witness:
  "signed_message ''10'' ''/webhooks/ns/w'' ''x'' \<noteq> signed_message ''10'' ''/webhooks/ns/v'' ''x''"
proof
  have "parse_int64 ''10'' = Some 10" "parseWebhookPath ''/webhooks/ns/w'' = Some (''ns'', ''w'')" "parseWebhookPath ''/webhooks/ns/v'' = Some (''ns'', ''v'')"
    by code_simp+
  note binds = signed_message_binds [OF this(1) this(1) this(2,3)]
  assume "signed_message ''10'' ''/webhooks/ns/w'' ''x'' = signed_message ''10'' ''/webhooks/ns/v'' ''x''"
  from binds [OF _ this] show False by simp
qed

end
