(* ===== verification/Spec2Isabelle.thy ===== *)
theory Spec2Isabelle
  imports Legacy_Bindings Secret_Properties Run_Properties Controller_Properties Trigger_Properties
begin

text \<open>
  A verification development for ottoflow, the workflow engine for Kubernetes: a \<^verbatim>\<open>Workflow\<close> is a list of
  steps with dependencies, a \<^verbatim>\<open>WorkflowRun\<close> one execution of it. Paths are relative to the root of the
  repository; \<^verbatim>\<open>executor/\<close> stands for \<^verbatim>\<open>internal/workflow/executor/\<close> and \<^verbatim>\<open>controller/\<close> for
  \<^verbatim>\<open>internal/workflow/controller/\<close>. The controller watches runs and starts a Job for each; the runner in
  that Job executes the steps, writes checkpoints and the status of the run; a step that waits for a
  callback ends the Job, the callback server of the controller records the answer in the run, and the
  controller starts the next Job. Workflows pass the admission webhooks when they are stored, and their
  cron, event and webhook triggers create runs. The runner may not read Secrets: before it starts a Job the
  controller collects the Secrets the run refers to and mounts them into it.

  \<^bold>\<open>The parts of the program and their theories\<close>

  \<^item> Go_Prelude: what the Go code takes from the language and its library. Maps are association lists
    with \<open>wf_map\<close>; dynamic values are the datatype \<open>val\<close>; an error is a \<open>goerror\<close> with the sentinels it
    wraps, so \<^verbatim>\<open>errors.Is\<close> is \<open>errors_is\<close>; a fallible function returns a \<open>result\<close>; JSON documents are
    decoded values, with \<open>marshal\<close> failing where \<^verbatim>\<open>encoding/json\<close> does; FNV hashes are on 64-bit words.
  \<^item> Api_Types: the structs of \<^verbatim>\<open>api/v1alpha1\<close> as records, phases as datatypes. Times are nanoseconds.
  \<^item> Dag: \<^verbatim>\<open>executor/dag.go\<close>. The order in which a map is visited is an argument. The locale
    \<open>ready_graph\<close> is what the executor needs of a graph; it is interpreted on \<open>BuildDAG\<close> and
    \<open>GetReadySteps\<close>.
  \<^item> Run_Context: \<^verbatim>\<open>executor/context.go\<close>, \<^verbatim>\<open>context_budget.go\<close> and \<^verbatim>\<open>audit_redaction.go\<close>.
  \<^item> Checkpoint: \<^verbatim>\<open>executor/checkpoint.go\<close>. The Kubernetes client is a record of functions on an
    abstract server state, with the documented laws of the API server as hypotheses; the goroutines of
    \<^verbatim>\<open>SaveAsync\<close> are the processes of the step relation \<open>save_system\<close>.
  \<^item> Cel_Eval: the parts of \<^verbatim>\<open>executor/cel.go\<close> around the CEL engine, which is a parameter.
  \<^item> Exec_Env: the state \<open>xstate\<close> that the executor threads (the run, the context manager, the scoped
    context of a forEach item, the outside world) and the record \<open>env\<close> of everything outside the model;
    events and progress callbacks.
  \<^item> Callback_Wait: \<^verbatim>\<open>executor/wait_for_callback.go\<close> and \<^verbatim>\<open>internal/workflow/token/generator.go\<close>.
  \<^item> Step_Templates: \<^verbatim>\<open>executor/steptemplate_executor.go\<close>.
  \<^item> Foreach: \<^verbatim>\<open>executor/foreach_executor.go\<close>, with the worker pool as the step relation \<open>pool_step\<close>.
  \<^item> Step_Exec: the execution of one step in \<^verbatim>\<open>executor/executor.go\<close>, sub-workflows included.
  \<^item> Executor: \<^verbatim>\<open>ExecuteWorkflow\<close> of \<^verbatim>\<open>executor/executor.go\<close>: its loop, the bookkeeping of statuses, the
    outputs of the workflow, loading a checkpoint and the deferred clean-up.
  \<^item> Scheduler_Spec: the abstract scheduler, its invariants, and the proof in the locale
    \<open>step_executor\<close> that the loop implements it; the locale is interpreted on \<open>executeStep\<close>.
  \<^item> Run_Properties: the properties of a whole run.
  \<^item> Kube_Client: the client of the controller's cache and of the API server as the record \<open>kube\<close> of
    functions on an abstract cluster state, Jobs and Pods as far as the code reads them. The law
    \<open>runs_client\<close> says which of the operations may change a stored run, and how.
  \<^item> Callback_Server: \<^verbatim>\<open>controller/callback_server.go\<close>. \<open>handleCallback\<close> serves one request; the step
    relation \<open>callback_system\<close> interleaves requests with each other and with everything else at the
    calls of the API server.
  \<^item> Run_Controller: \<^verbatim>\<open>controller/workflowrun_controller.go\<close> and \<^verbatim>\<open>stuck_runner_pod.go\<close>: \<open>Reconcile\<close> and what
    it decides. Building the Job and preparing the access of the runner are fields of the record
    \<open>reconciler\<close>; the law \<open>prepares\<close> says that they leave the runs alone. \<open>wired\<close> of Runner_Access
    fills them in, and \<open>wired_prepares\<close> shows the law.
  \<^item> Reconcile_Effects: what each part of a reconcile may do to the stored runs, as the relation \<open>writes\<close>
    and as \<open>deletes\<close>.
  \<^item> Controller_Properties: the properties of the controller, and of the way of a callback through server,
    controller and runner.
  \<^item> Cel_Refs: \<^verbatim>\<open>internal/webhook/workflow_deps_validation.go\<close>: the references of CEL strings to steps and
    variables, with the regular expressions of the source as recognisers.
  \<^item> Admission: the validators of \<^verbatim>\<open>internal/webhook\<close> for Workflows, WorkflowRuns and Agents, and the
    transport policy of \<^verbatim>\<open>executor/a2a_url.go\<close>. \<open>admits\<close> is the store of workflows under admitted requests.
  \<^item> Trigger_Client: the client of the triggers, its laws \<open>triggers_client\<close>, the count of active runs and the
    construction of a run that scheduler and trigger manager share.
  \<^item> Cron_Scheduler: \<^verbatim>\<open>controller/scheduler.go\<close> and \<^verbatim>\<open>scheduler_events.go\<close>; the cron engine is a parameter with the
    law \<open>cron_engine\<close>.
  \<^item> Event_Triggers: the state of \<^verbatim>\<open>controller/trigger_manager.go\<close>, the watches and the registration of triggers.
    The locale \<open>trigger_registry\<close> is what schedules, event triggers and watchers have in common; it is
    interpreted on each of the three.
  \<^item> Trigger_Fires: the creation of runs for events and webhook requests in \<^verbatim>\<open>controller/trigger_manager.go\<close>.
  \<^item> Trigger_Registry: the reachable states of the manager (\<open>managed\<close>) and their invariant.
  \<^item> Webhook_Server: \<^verbatim>\<open>controller/webhook_server.go\<close> and \<^verbatim>\<open>controller/workflow_controller.go\<close>.
  \<^item> Trigger_Properties: the properties of the triggers.
  \<^item> Secret_Refs: the walk of \<^verbatim>\<open>controller/secret_refs.go\<close> over the Workflows, StepTemplates, Agents and MCP servers of a run;
    Agent_Needs: the search of \<^verbatim>\<open>controller/secret_needs_creds.go\<close> for agents. Both read a snapshot of the cluster.
  \<^item> Workflow_Reach: what these walks compute, by the inductive \<open>reached\<close>; Secret_Walks and Agent_Walks: the proofs. The
    locales \<open>secret_explorer\<close>, \<open>total_explorer\<close> and \<open>agent_explorer\<close> are what the walk of a step needs of the walk of a
    sub-Workflow, interpreted on the walks of each level.
  \<^item> Secret_Mounts: the policy and the mounts of \<^verbatim>\<open>controller/secret_refs.go\<close>, and \<^verbatim>\<open>internal/secretmount\<close>, with which the runner
    finds them.
  \<^item> Runner_Credentials: how the runner reads credentials: \<^verbatim>\<open>internal/agent/mcp_client_impl.go\<close>, parts of
    \<^verbatim>\<open>executor/a2a_client.go\<close>, \<^verbatim>\<open>internal/workflow/cluster\<close>. \<open>kubelet_projects\<close> is the documented behaviour of Secret volumes.
  \<^item> Secret_Gate: the controller's own reads of Secrets (\<^verbatim>\<open>controller/secret_access_review.go\<close>, \<^verbatim>\<open>secret_mount_check.go\<close>,
    \<^verbatim>\<open>secret_access_gate.go\<close>, \<^verbatim>\<open>secret_access_advice.go\<close>, \<^verbatim>\<open>secret_reader.go\<close>).
  \<^item> Runner_Job: \<^verbatim>\<open>buildWorkflowRunnerJob\<close> with the LLM credentials, the reserved variables (\<^verbatim>\<open>reserved_runner_env.go\<close>) and the
    validation of the job spec.
  \<^item> Runner_Access: the ServiceAccount of the runner, its bindings, the copies of Secrets and the CA ConfigMap, over a
    \<open>store\<close> for each kind of object with the laws \<open>stores\<close> and \<open>keeps\<close>. Legacy_Bindings: \<^verbatim>\<open>legacy_runner_binding_gc.go\<close>.
  \<^item> Secret_Properties and Access_Properties: the properties of these parts together.

  \<^bold>\<open>What is shown\<close>

  A graph is built exactly for acyclic, closed dependencies, and it always offers a step that can run
  (Dag). The executor refines the abstract scheduler; so a run that returns nil has succeeded with
  every step done, no step starts before its dependencies are done, the recorded order respects them,
  and a resumed run repeats nothing (Scheduler_Spec, Run_Properties). Concurrent saves never lose
  progress, a checkpoint that was saved is read back, ConfigMap names stay within bounds and apart,
  audit snapshots stay within their size (Checkpoint). Sensitive outputs are redacted in the audit
  copy and in the status (Run_Context, Run_Properties). A forEach keeps its concurrency limit, ends,
  and reports success only with a success (Foreach). Callback tokens are well formed and a callback
  resumes its step (Callback_Wait). Template arguments are complete (Step_Templates). Match
  conditions, inputs, outputs and context budgets do what they document (Step_Exec, Run_Context).
  A callback is recorded only for its token, its time, its schema and a live run, once if requests do
  not overlap, and with overlapping requests still only for its token (Callback_Server). A reconcile
  leaves finished runs alone, never leaves a failed run with an open callback, restarts a failing
  runner a bounded number of times, keeps the newest runs under the run policy, gives each run its own
  Job name, and brings an accepted callback to the step that waits for it (Controller_Properties).
  A workflow that is admitted runs: its graph exists, its steps have one action each, and what a step's
  expressions refer to is done when it starts; its triggers stay in its namespace (Admission). Registering a
  workflow replaces exactly its own triggers and a deleted one is silent; fires keep the limit on concurrent
  runs, a revision of an object creates one run, runs of a workflow do not trigger it, and a webhook request
  creates a run only with a signature that is good for that request alone (Trigger_Properties). The walk over the
  references of a run ends in spite of cycles and finds exactly what reachable steps name; only that is mounted, each
  reachable step finds in the files what the API would have given it, and no run can redirect the runner to other
  files; the check of the mounts is exact and betrays nothing the controller may not read; credentials are demanded
  exactly of runs that are certain to use them (Secret_Properties). Of the executor's key pair only the certificate leaves its
  namespace, and copies of Secrets stay within their fence (Access_Properties).

  \<^bold>\<open>Bounds and fuel\<close>

  The loop of \<^verbatim>\<open>ExecuteWorkflow\<close> has the bound of the source, twice the number of steps; the refinement
  shows that it suffices. \<open>executeStep\<close> is unfolded twice, and \<open>executeStep_fixpoint\<close> shows that this
  is the recursion of the source. The nesting of sub-workflows is the only fuel: the first argument of
  \<open>ExecuteWorkflow\<close>. The source has no bound there; running out is an error tagged
  \<open>GoStackOverflow\<close>, and every theorem holds for every depth. A panic is an error tagged \<open>GoPanic\<close>
  that ends the run at once. The walks over Workflows have the depth limit of the source, ten, as their argument, and
  \<open>collectSecretRefs_returns\<close> says when it suffices.

  \<^bold>\<open>Not modelled\<close>

  The CEL engine and the functions registered with it, text/template, the random source, SHA-256, the
  clock, the cluster and the handlers of agent, tool, query, mutation and report steps are
  parameters. Log lines, tracing spans, metrics and the outbound rate limiter leave no trace in the
  state. The cron engine, watches of the API server, HMAC, the token bucket and the
  URL, duration and name parsers of the libraries are parameters too. Each trigger fire and each webhook
  request is one step: the program checks the limit on concurrent runs and creates the run without a lock, so
  the bound is one of fires that do not overlap. The preparation of a runner reads one state of the cluster; the runner
  reads the objects again. Not modelled are the MCP server and the exposure of workflows as tools, the agents with their LLM
  sessions, the A2A server and the connections of the clients, which are protocols of third-party libraries; the handlers
  of actions and the functions registered with CEL, which call services or cel-go; the flags, wiring and output of the programs
  and the command line; certificates, metrics and tracing; and generated code.
\<close>

end
